(* ===== verification/Prelude.thy ===== *)
theory Prelude
  imports Complex_Main "HOL-Library.Word" "HOL-Library.AList" "HOL-Library.Multiset"
begin

text \<open>
  Shared vocabulary of the development: the machine types of Go as they are used under src/, the
  reading of a Go map as an association list with distinct keys, time instants and durations with
  the saturation and wrap-around of the \<open>time\<close> package, and the generic lemmas on lists,
  association lists and words that the component theories use.

  \<^item> \<open>uint64\<close>, \<open>uint32\<close>, \<open>uint8\<close> are words, so that \<open>+\<close> wraps as in Go.
  \<^item> A \<open>time.Time\<close> is an integer number of nanoseconds since the Unix epoch; a
    \<open>time.Duration\<close> is the integer value of an \<open>int64\<close>. Subtraction of instants saturates
    (\<open>time_sub\<close>), negation of a duration wraps (\<open>neg64\<close>), as the Go runtime does.
  \<^item> A Go map is an association list with distinct keys. The order of the list stands for the
    (unspecified) iteration order, so a statement about every such list holds for every order.
  \<^item> A \<open>float64\<close> is either one of the non-finite values or a real number; rounding of
    finite arithmetic is not modelled.
\<close>

section \<open>Types\<close>

type_synonym u64 = "64 word"
type_synonym u32 = "32 word"
type_synonym u8 = "8 word"
type_synonym instant = int
type_synonym duration = int
type_synonym ('k, 'v) gomap = "('k \<times> 'v) list"

datatype float64 = NaN | PosInf | NegInf | Fin real

named_theorems gomap_simps \<open>rewrite rules for Go maps as association lists\<close>
named_theorems go_defs \<open>definitions of small constants and helpers to unfold\<close>

section \<open>Go's int64, time.Time and time.Duration\<close>

definition int64_min :: int where
  "int64_min = - (2 ^ 63)"

definition int64_max :: int where
  "int64_max = 2 ^ 63 - 1"

definition wrap64 :: "int \<Rightarrow> int" where
  "wrap64 x = (x + 2 ^ 63) mod 2 ^ 64 - 2 ^ 63"

definition neg64 :: "int \<Rightarrow> int" where
  "neg64 x = wrap64 (- x)"

definition time_sub :: "instant \<Rightarrow> instant \<Rightarrow> duration" where
  "time_sub t u = max int64_min (min int64_max (t - u))"

definition second :: duration where
  "second = 10 ^ 9"

definition minute :: duration where
  "minute = 60 * second"

definition hour :: duration where
  "hour = 60 * minute"

definition millisecond :: duration where
  "millisecond = 10 ^ 6"

definition unix_milli :: "int \<Rightarrow> instant" where
  "unix_milli ms = ms * 10 ^ 6"

definition to_unix_milli :: "instant \<Rightarrow> int" where
  "to_unix_milli t = t div 10 ^ 6"

text \<open>Go's integer division truncates towards zero.\<close>

definition quot :: "int \<Rightarrow> int \<Rightarrow> int" where
  "quot a b = sgn a * sgn b * (\<bar>a\<bar> div \<bar>b\<bar>)"

section \<open>Go maps\<close>

abbreviation gomap_ok :: "('k, 'v) gomap \<Rightarrow> bool" where
  "gomap_ok m \<equiv> distinct (map fst m)"

definition glookup :: "'v \<Rightarrow> ('k, 'v) gomap \<Rightarrow> 'k \<Rightarrow> 'v" where
  "glookup d m k = (case map_of m k of None \<Rightarrow> d | Some v \<Rightarrow> v)"

definition bump :: "'k \<Rightarrow> u64 \<Rightarrow> ('k, u64) gomap \<Rightarrow> ('k, u64) gomap" where
  "bump k c m = AList.update k (glookup 0 m k + c) m"

lemmas [go_defs] = int64_min_def int64_max_def second_def minute_def hour_def millisecond_def

section \<open>Lemmas on time\<close>

lemma wrap64_id [simp]: "int64_min \<le> x \<Longrightarrow> x \<le> int64_max \<Longrightarrow> wrap64 x = x"
  by (simp add: wrap64_def go_defs)

lemma neg64_neg: "int64_min < x \<Longrightarrow> x \<le> int64_max \<Longrightarrow> neg64 x = - x"
  by (simp add: neg64_def wrap64_def go_defs)

lemma neg64_min: "neg64 int64_min = int64_min"
  by (simp add: neg64_def wrap64_def go_defs)

lemma time_sub_exact:
  "int64_min \<le> t - u \<Longrightarrow> t - u \<le> int64_max \<Longrightarrow> time_sub t u = t - u"
  by (simp add: time_sub_def)

lemma time_sub_bounds: "int64_min \<le> time_sub t u \<and> time_sub t u \<le> int64_max"
  by (auto simp: time_sub_def go_defs)

lemma time_sub_ge_iff:
  "int64_min < d \<Longrightarrow> d \<le> int64_max \<Longrightarrow> d \<le> time_sub t u \<longleftrightarrow> d \<le> t - u"
  by (auto simp: time_sub_def go_defs)

lemma time_sub_less_iff:
  "int64_min < d \<Longrightarrow> d \<le> int64_max \<Longrightarrow> time_sub t u < d \<longleftrightarrow> t - u < d"
  using time_sub_ge_iff [of d t u] by linarith

section \<open>Lemmas on Go maps\<close>

lemma gomap_ok_update [simp, gomap_simps]: "gomap_ok m \<Longrightarrow> gomap_ok (AList.update k v m)"
  by (rule distinct_update)

lemma gomap_ok_delete [simp, gomap_simps]: "gomap_ok m \<Longrightarrow> gomap_ok (AList.delete k m)"
  by (rule distinct_delete)

lemma map_of_update [simp, gomap_simps]: "map_of (AList.update k v m) = (map_of m)(k \<mapsto> v)"
  by (rule update_conv')

lemma length_update [gomap_simps]:
  "length (AList.update k v m) = (if map_of m k = None then Suc (length m) else length m)"
  by (induction m) (auto simp: map_of_eq_None_iff)

lemma fst_set_update [simp, gomap_simps]: "fst ` set (AList.update k v m) = insert k (fst ` set m)"
  by (induction m) auto

lemma set_update_subset: "set (AList.update k v m) \<subseteq> insert (k, v) (set m)"
  by (induction m) auto

lemma map_of_Some_in: "map_of m k = Some v \<Longrightarrow> (k, v) \<in> set m"
  by (rule map_of_SomeD)

lemma gomap_ok_map_of: "gomap_ok m \<Longrightarrow> (k, v) \<in> set m \<Longrightarrow> map_of m k = Some v"
  by simp

lemma gomap_ok_filter [simp, gomap_simps]: "gomap_ok m \<Longrightarrow> gomap_ok (filter P m)"
  by (induction m) (auto simp: image_iff)

lemma map_of_filter_Some:
  "gomap_ok m \<Longrightarrow>
   map_of (filter P m) k = (case map_of m k of None \<Rightarrow> None | Some v \<Rightarrow> if P (k, v) then Some v else None)"
  by (induction m) (auto split: option.splits simp: map_of_eq_None_iff image_iff)

lemma glookup_update [simp, gomap_simps]:
  "glookup d (AList.update k v m) k' = (if k' = k then v else glookup d m k')"
  by (simp add: glookup_def)

lemma glookup_Nil [simp, gomap_simps]: "glookup d [] k = d"
  by (simp add: glookup_def)

lemma glookup_None: "map_of m k = None \<Longrightarrow> glookup d m k = d"
  by (simp add: glookup_def)

lemma glookup_Some: "map_of m k = Some v \<Longrightarrow> glookup d m k = v"
  by (simp add: glookup_def)

lemma glookup_notin [simp, gomap_simps]: "k \<notin> fst ` set m \<Longrightarrow> glookup d m k = d"
  by (simp add: glookup_def map_of_eq_None_iff [THEN iffD2])

lemma gomap_ok_bump [simp, gomap_simps]: "gomap_ok m \<Longrightarrow> gomap_ok (bump k c m)"
  by (simp add: bump_def)

lemma glookup_bump [simp, gomap_simps]:
  "glookup 0 (bump k c m) k' = (if k' = k then glookup 0 m k + c else glookup 0 m k')"
  by (simp add: bump_def)

text \<open>The sum of the values of a map: an update replaces the old contribution of its key.\<close>

lemma sum_list_update:
  fixes f :: "'v \<Rightarrow> 'a::comm_ring_1"
  assumes "gomap_ok m"
  shows "sum_list (map (f \<circ> snd) (AList.update k v m)) =
    sum_list (map (f \<circ> snd) m) - (case map_of m k of None \<Rightarrow> 0 | Some w \<Rightarrow> f w) + f v"
  using assms
  by (induction m) (auto split: option.splits simp: algebra_simps map_of_eq_None_iff image_iff)

lemma sum_list_bump:
  assumes "gomap_ok m"
  shows "sum_list (map snd (bump k c m)) = sum_list (map snd m) + c"
  using sum_list_update [OF assms, of "\<lambda>x. x" k "glookup 0 m k + c"]
  by (simp add: bump_def glookup_def comp_def split: option.splits)

section \<open>Lemmas on lists and words\<close>

lemma sum_list_upd_word:
  fixes xs :: "'a::comm_ring_1 list"
  assumes "i < length xs"
  shows "sum_list (xs[i := v]) = sum_list xs - xs ! i + v"
  using assms
proof (induction xs arbitrary: i)
  case (Cons x xs)
  then show ?case by (cases i) (auto simp: algebra_simps)
qed simp

lemma sum_list_zip_add:
  fixes xs ys :: "'a::comm_monoid_add list"
  assumes "length xs = length ys"
  shows "sum_list (map2 (+) xs ys) = sum_list xs + sum_list ys"
  using assms by (induction xs ys rule: list_induct2) (auto simp: ac_simps)

lemma unat_add_less:
  fixes a b :: u64
  assumes "unat a + unat b < 2 ^ 64"
  shows "unat (a + b) = unat a + unat b"
  using assms by (simp add: unat_word_ariths)

lemma unat_of_nat_less: "n < 2 ^ 64 \<Longrightarrow> unat (of_nat n :: u64) = n"
  by (simp add: unat_of_nat take_bit_nat_eq_self)

lemma of_nat_sum_list_word:
  "(of_nat (sum_list ns) :: 'a::len word) = sum_list (map of_nat ns)"
  by (induction ns) auto

end
