(* ===== verification/In_Flight.thy ===== *)
theory In_Flight
  imports Prelude
begin

text \<open>
  The in-flight gauge of src/client/maping.go under concurrency: \<open>BeginRequest\<close> with its
  compare-and-swap loop, the function it returns, and \<open>takeInFlightPeak\<close>. Requests run on any
  number of goroutines; every atomic operation of the code is one step, and steps of different
  goroutines interleave in any order. \<open>takeInFlightPeak\<close> is two operations, the load of
  \<open>inFlight\<close> and the swap of \<open>inFlightPeak\<close>.
\<close>

datatype pc = Idle | Trying int | Loaded int int | Running

record gauge =
  g_inFlight :: int
  g_peak :: int
  g_pc :: "nat \<Rightarrow> pc"
  g_taking :: "int option"

definition gauge_zero :: gauge where
  "gauge_zero = \<lparr>g_inFlight = 0, g_peak = 0, g_pc = (\<lambda>_. Idle), g_taking = None\<rparr>"

inductive request_step :: "gauge \<Rightarrow> gauge \<Rightarrow> bool" where
  add: "g_pc g t = Idle \<Longrightarrow>
    request_step g (g\<lparr>g_inFlight := g_inFlight g + 1, g_pc := (g_pc g)(t := Trying (g_inFlight g + 1))\<rparr>)"
| load: "g_pc g t = Trying n \<Longrightarrow> request_step g (g\<lparr>g_pc := (g_pc g)(t := Loaded n (g_peak g))\<rparr>)"
| below: "g_pc g t = Loaded n p \<Longrightarrow> n \<le> p \<Longrightarrow> request_step g (g\<lparr>g_pc := (g_pc g)(t := Running)\<rparr>)"
| cas: "g_pc g t = Loaded n p \<Longrightarrow> \<not> n \<le> p \<Longrightarrow> g_peak g = p \<Longrightarrow>
    request_step g (g\<lparr>g_peak := n, g_pc := (g_pc g)(t := Running)\<rparr>)"
| cas_fails: "g_pc g t = Loaded n p \<Longrightarrow> \<not> n \<le> p \<Longrightarrow> g_peak g \<noteq> p \<Longrightarrow>
    request_step g (g\<lparr>g_pc := (g_pc g)(t := Trying n)\<rparr>)"
| finish: "g_pc g t = Running \<Longrightarrow>
    request_step g (g\<lparr>g_inFlight := g_inFlight g - 1, g_pc := (g_pc g)(t := Idle)\<rparr>)"

inductive take_step :: "gauge \<Rightarrow> gauge \<Rightarrow> bool" where
  take_load: "g_taking g = None \<Longrightarrow> take_step g (g\<lparr>g_taking := Some (g_inFlight g)\<rparr>)"
| take_swap: "g_taking g = Some v \<Longrightarrow> take_step g (g\<lparr>g_taking := None, g_peak := v\<rparr>)"

definition gauge_step :: "gauge \<Rightarrow> gauge \<Rightarrow> bool" where
  "gauge_step g g' \<longleftrightarrow> request_step g g' \<or> take_step g g'"

abbreviation entering :: "pc \<Rightarrow> bool" where
  "entering c \<equiv> (case c of Trying _ \<Rightarrow> True | Loaded _ _ \<Rightarrow> True | _ \<Rightarrow> False)"

text \<open>A goroutine inside the loop still carries the count it has to publish.\<close>

definition carries :: "pc \<Rightarrow> int \<Rightarrow> bool" where
  "carries c n \<longleftrightarrow> (case c of Trying m \<Rightarrow> m = n | Loaded m _ \<Rightarrow> m = n | _ \<Rightarrow> False)"

definition peak_inv :: "gauge \<Rightarrow> bool" where
  "peak_inv g \<longleftrightarrow>
     (g_inFlight g \<le> g_peak g \<or> (\<exists>t n. carries (g_pc g t) n \<and> g_inFlight g \<le> n)) \<and>
     (\<forall>t n p. g_pc g t = Loaded n p \<longrightarrow> p \<le> g_peak g)"

definition busy :: "(nat \<Rightarrow> pc) \<Rightarrow> nat set" where
  "busy f = {t. f t \<noteq> Idle}"

definition count_inv :: "gauge \<Rightarrow> bool" where
  "count_inv g \<longleftrightarrow> finite (busy (g_pc g)) \<and> g_inFlight g = int (card (busy (g_pc g)))"

lemma busy_upd: "busy (f(t := c)) = (if c = Idle then busy f - {t} else insert t (busy f))"
  by (auto simp: busy_def)

lemma in_busy: "t \<in> busy f \<longleftrightarrow> f t \<noteq> Idle"
  by (simp add: busy_def)

lemma count_inv_step: "gauge_step g g' \<Longrightarrow> count_inv g \<Longrightarrow> count_inv g'"
  unfolding gauge_step_def
proof (elim disjE)
  assume "request_step g g'" "count_inv g"
  then show "count_inv g'"
  proof (induction rule: request_step.induct)
    case (add g t)
    then show ?case unfolding count_inv_def by (simp add: busy_upd in_busy)
  next
    case (finish g t)
    then have "t \<in> busy (g_pc g)" "finite (busy (g_pc g))" by (simp_all add: in_busy count_inv_def)
    then have "card (busy (g_pc g)) = Suc (card (busy (g_pc g) - {t}))" by (rule card.remove [rotated])
    with finish show ?case unfolding count_inv_def by (simp add: busy_upd)
  qed (auto simp: count_inv_def busy_upd insert_absorb in_busy)
qed (auto simp: count_inv_def elim!: take_step.cases)

text \<open>One goroutine moves, the in-flight count does not rise and the peak does not fall: the
  invariant holds if the count the goroutine carried is still carried or published.\<close>

lemma peak_inv_move:
  assumes inv: "peak_inv g" and le: "g_inFlight g' \<le> g_inFlight g" "g_peak g \<le> g_peak g'"
    and pc: "g_pc g' = (g_pc g)(t := c)"
    and carried: "\<And>n. carries (g_pc g t) n \<Longrightarrow> carries c n \<or> n \<le> g_peak g'"
    and loaded: "\<And>n p. c = Loaded n p \<Longrightarrow> p \<le> g_peak g'"
  shows "peak_inv g'"
proof -
  have "p \<le> g_peak g'" if "g_pc g' s = Loaded n p" for s n p
    using that loaded inv le(2) by (cases "s = t") (force simp: pc peak_inv_def)+
  moreover have "g_inFlight g' \<le> g_peak g' \<or> (\<exists>s n. carries (g_pc g' s) n \<and> g_inFlight g' \<le> n)"
  proof (cases "g_inFlight g \<le> g_peak g")
    case False
    then obtain s n where s: "carries (g_pc g s) n" "g_inFlight g \<le> n" using inv by (auto simp: peak_inv_def)
    moreover have "g_inFlight g' \<le> n" using s(2) le(1) by simp
    moreover have "carries (g_pc g' s) n \<or> n \<le> g_peak g'"
      using s(1) carried [of n] by (cases "s = t") (auto simp: pc)
    ultimately show ?thesis by (meson order_trans)
  qed (use le in auto)
  ultimately show ?thesis by (simp add: peak_inv_def)
qed

lemma peak_inv_step:
  assumes "request_step g g'" and "peak_inv g"
  shows "peak_inv g'"
  using assms
proof (induction rule: request_step.induct)
  case (add g t)
  then show ?case unfolding peak_inv_def by (auto simp: carries_def intro!: disjI2 exI [of _ t])
next
  case (load g t n)
  then show ?case by (intro peak_inv_move [where t = t, OF load(2)]) (auto simp: carries_def)
next
  case (below g t n p)
  then have "p \<le> g_peak g" by (auto simp: peak_inv_def)
  with below show ?case by (intro peak_inv_move [where t = t, OF below(3)]) (auto simp: carries_def)
next
  case (cas g t n p)
  then show ?case by (intro peak_inv_move [where t = t, OF cas(4)]) (auto simp: carries_def)
next
  case (cas_fails g t n p)
  then show ?case by (intro peak_inv_move [where t = t, OF cas_fails(4)]) (auto simp: carries_def)
next
  case (finish g t)
  then show ?case by (intro peak_inv_move [where t = t, OF finish(2)]) (auto simp: carries_def)
qed

text \<open>The gauge is right while no window is being sampled: whatever goroutines run
  \<open>BeginRequest\<close> and finish, in any interleaving, the in-flight count is the number of requests
  between begin and end, and once no goroutine is inside the publishing loop the recorded peak is at
  least that count.\<close>

theorem in_flight_peak_covers:
  assumes "request_step\<^sup>*\<^sup>* gauge_zero g" and "\<forall>t. \<not> entering (g_pc g t)"
  shows "g_inFlight g = int (card {t. g_pc g t \<noteq> Idle}) \<and> g_inFlight g \<le> g_peak g"
proof -
  have "count_inv g \<and> peak_inv g"
    using assms(1)
  proof (induction rule: rtranclp_induct)
    case base
    show ?case by (simp add: count_inv_def peak_inv_def gauge_zero_def busy_def)
  next
    case (step g g')
    then show ?case using count_inv_step [of g g'] peak_inv_step by (simp add: gauge_step_def)
  qed
  moreover have "\<not> carries (g_pc g t) n" for t n
    using assms(2) by (cases "g_pc g t") (auto simp: carries_def dest: spec [of _ t])
  ultimately show ?thesis by (auto simp: count_inv_def peak_inv_def busy_def)
qed

definition demoGauge :: gauge where
  "demoGauge = \<lparr>g_inFlight = 1, g_peak = 1, g_pc = (\<lambda>_. Idle)(0 := Running), g_taking = None\<rparr>"

lemma demoGauge_reachable: "request_step\<^sup>*\<^sup>* gauge_zero demoGauge"
proof -
  let ?g1 = "gauge_zero\<lparr>g_inFlight := 1, g_pc := (\<lambda>_. Idle)(0 := Trying 1)\<rparr>"
  let ?g2 = "?g1\<lparr>g_pc := (\<lambda>_. Idle)(0 := Loaded 1 0)\<rparr>"
  have "request_step gauge_zero ?g1"
    using request_step.add [of gauge_zero 0] by (simp add: gauge_zero_def)
  moreover have "request_step ?g1 ?g2"
    using request_step.load [of ?g1 0 1] by (simp add: gauge_zero_def)
  moreover have "request_step ?g2 demoGauge"
    using request_step.cas [of ?g2 0 1 0] by (simp add: gauge_zero_def demoGauge_def)
  ultimately show ?thesis by (meson converse_rtranclp_into_rtranclp rtranclp.rtrancl_refl)
qed

theorem in_flight_peak_covers_witness:
  "request_step\<^sup>*\<^sup>* gauge_zero demoGauge \<and> g_inFlight demoGauge \<le> g_peak demoGauge"
  using in_flight_peak_covers [OF demoGauge_reachable] demoGauge_reachable by (simp add: demoGauge_def)

text \<open>Sampling races with requests: because \<open>takeInFlightPeak\<close> loads the in-flight count and
  swaps the peak in two operations, a request that begins between them can have its peak overwritten.
  A state is reachable in which a request is running, nobody is inside an operation, and the recorded
  peak is below the in-flight count.\<close>

theorem in_flight_sampling_race:
  "\<exists>g. gauge_step\<^sup>*\<^sup>* gauge_zero g \<and> (\<forall>t. \<not> entering (g_pc g t)) \<and>
     g_taking g = None \<and> g_peak g < g_inFlight g"
proof -
  let ?g0 = "gauge_zero\<lparr>g_taking := Some 0\<rparr>"
  let ?g1 = "?g0\<lparr>g_inFlight := 1, g_pc := (\<lambda>_. Idle)(0 := Trying 1)\<rparr>"
  let ?g2 = "?g1\<lparr>g_pc := (\<lambda>_. Idle)(0 := Loaded 1 0)\<rparr>"
  let ?g3 = "?g2\<lparr>g_peak := 1, g_pc := (\<lambda>_. Idle)(0 := Running)\<rparr>"
  let ?g4 = "?g3\<lparr>g_taking := None, g_peak := 0\<rparr>"
  have "gauge_step gauge_zero ?g0" using take_step.take_load [of gauge_zero] by (simp add: gauge_zero_def gauge_step_def)
  moreover have "gauge_step ?g0 ?g1" using request_step.add [of ?g0 0] by (simp add: gauge_zero_def gauge_step_def)
  moreover have "gauge_step ?g1 ?g2" using request_step.load [of ?g1 0 1] by (simp add: gauge_zero_def gauge_step_def)
  moreover have "gauge_step ?g2 ?g3" using request_step.cas [of ?g2 0 1 0] by (simp add: gauge_zero_def gauge_step_def)
  moreover have "gauge_step ?g3 ?g4" using take_step.take_swap [of ?g3 0] by (simp add: gauge_zero_def gauge_step_def)
  ultimately have "gauge_step\<^sup>*\<^sup>* gauge_zero ?g4"
    by (meson converse_rtranclp_into_rtranclp rtranclp.rtrancl_refl)
  then show ?thesis by (intro exI [of _ ?g4]) (simp add: gauge_zero_def)
qed

end
