(* ===== verification/Gamma_Powers.thy ===== *)
theory Gamma_Powers
  imports Prelude
begin

text \<open>
  The growth factor of the latency sketch (src/client/sketch/ddsketch.go, constant \<open>Gamma\<close>) and
  enclosures of a few of its powers. They place the ends of the latency domain, one microsecond
  and one minute, between two neighbouring powers of \<open>Gamma\<close>, which fixes the first and the
  last bucket index of the sketch. Each enclosure is the product of two earlier ones, rounded
  outwards to six decimals.
\<close>

definition Gamma :: real where
  "Gamma = 101 / 100"

lemma Gamma_gt_1 [simp]: "1 < Gamma"
  by (simp add: Gamma_def)

lemma Gamma_pos [simp]: "0 < Gamma"
  by (simp add: Gamma_def)

lemma Gamma_neq_0 [simp]: "Gamma \<noteq> 0"
  by (simp add: Gamma_def)

lemma pow_mult_le:
  assumes "Gamma ^ m \<le> a" and "Gamma ^ n \<le> b"
  shows "Gamma ^ (m + n) \<le> a * b"
proof -
  have "0 \<le> a" using assms(1) by (meson Gamma_pos less_imp_le order_trans zero_less_power)
  then have "Gamma ^ m * Gamma ^ n \<le> a * b"
    using assms by (intro mult_mono) (auto simp: less_imp_le)
  then show ?thesis by (simp add: power_add)
qed

lemma pow_mult_ge:
  assumes "a \<le> Gamma ^ m" and "b \<le> Gamma ^ n" and "0 \<le> a" and "0 \<le> b"
  shows "a * b \<le> Gamma ^ (m + n)"
proof -
  have "a * b \<le> Gamma ^ m * Gamma ^ n"
    using assms by (intro mult_mono) (auto simp: less_imp_le)
  then show ?thesis by (simp add: power_add)
qed

section \<open>Repeated squaring and the products for the four exponents\<close>

lemma Gamma_up_1: "Gamma ^ 1 \<le> 1010000 / 1000000"
  by (simp add: Gamma_def power2_eq_square)

lemma Gamma_up_2: "Gamma ^ 2 \<le> 1020100 / 1000000"
  by (simp add: Gamma_def power2_eq_square)

lemma Gamma_up_4: "Gamma ^ 4 \<le> 1040605 / 1000000"
  using pow_mult_le [OF Gamma_up_2 Gamma_up_2] by simp

lemma Gamma_up_8: "Gamma ^ 8 \<le> 1082859 / 1000000"
  using pow_mult_le [OF Gamma_up_4 Gamma_up_4] by simp

lemma Gamma_up_16: "Gamma ^ 16 \<le> 1172584 / 1000000"
  using pow_mult_le [OF Gamma_up_8 Gamma_up_8] by simp

lemma Gamma_up_32: "Gamma ^ 32 \<le> 1374954 / 1000000"
  using pow_mult_le [OF Gamma_up_16 Gamma_up_16] by simp

lemma Gamma_up_64: "Gamma ^ 64 \<le> 1890499 / 1000000"
  using pow_mult_le [OF Gamma_up_32 Gamma_up_32] by simp

lemma Gamma_up_128: "Gamma ^ 128 \<le> 3573987 / 1000000"
  using pow_mult_le [OF Gamma_up_64 Gamma_up_64] by simp

lemma Gamma_up_256: "Gamma ^ 256 \<le> 12773384 / 1000000"
  using pow_mult_le [OF Gamma_up_128 Gamma_up_128] by simp

lemma Gamma_up_512: "Gamma ^ 512 \<le> 163159339 / 1000000"
  using pow_mult_le [OF Gamma_up_256 Gamma_up_256] by simp

lemma Gamma_up_1024: "Gamma ^ 1024 \<le> 26620969903 / 1000000"
  using pow_mult_le [OF Gamma_up_512 Gamma_up_512] by simp

lemma Gamma_lo_1: "1010000 / 1000000 \<le> Gamma ^ 1"
  by (simp add: Gamma_def power2_eq_square)

lemma Gamma_lo_2: "1020100 / 1000000 \<le> Gamma ^ 2"
  by (simp add: Gamma_def power2_eq_square)

lemma Gamma_lo_4: "1040604 / 1000000 \<le> Gamma ^ 4"
  using pow_mult_ge [OF Gamma_lo_2 Gamma_lo_2] by simp

lemma Gamma_lo_8: "1082856 / 1000000 \<le> Gamma ^ 8"
  using pow_mult_ge [OF Gamma_lo_4 Gamma_lo_4] by simp

lemma Gamma_lo_16: "1172577 / 1000000 \<le> Gamma ^ 16"
  using pow_mult_ge [OF Gamma_lo_8 Gamma_lo_8] by simp

lemma Gamma_lo_32: "1374936 / 1000000 \<le> Gamma ^ 32"
  using pow_mult_ge [OF Gamma_lo_16 Gamma_lo_16] by simp

lemma Gamma_lo_64: "1890449 / 1000000 \<le> Gamma ^ 64"
  using pow_mult_ge [OF Gamma_lo_32 Gamma_lo_32] by simp

lemma Gamma_lo_128: "3573797 / 1000000 \<le> Gamma ^ 128"
  using pow_mult_ge [OF Gamma_lo_64 Gamma_lo_64] by simp

lemma Gamma_lo_256: "12772024 / 1000000 \<le> Gamma ^ 256"
  using pow_mult_ge [OF Gamma_lo_128 Gamma_lo_128] by simp

lemma Gamma_lo_512: "163124597 / 1000000 \<le> Gamma ^ 512"
  using pow_mult_ge [OF Gamma_lo_256 Gamma_lo_256] by simp

lemma Gamma_lo_1024: "26609634146 / 1000000 \<le> Gamma ^ 1024"
  using pow_mult_ge [OF Gamma_lo_512 Gamma_lo_512] by simp

lemma Gamma_up_1280: "Gamma ^ 1280 \<le> 340039871024 / 1000000"
  using pow_mult_le [OF Gamma_up_1024 Gamma_up_256] by simp

lemma Gamma_up_1344: "Gamma ^ 1344 \<le> 642845036132 / 1000000"
  using pow_mult_le [OF Gamma_up_1280 Gamma_up_64] by simp

lemma Gamma_up_1376: "Gamma ^ 1376 \<le> 883882353810 / 1000000"
  using pow_mult_le [OF Gamma_up_1344 Gamma_up_32] by simp

lemma Gamma_up_1384: "Gamma ^ 1384 \<le> 957119961765 / 1000000"
  using pow_mult_le [OF Gamma_up_1376 Gamma_up_8] by simp

lemma Gamma_up_1388: "Gamma ^ 1388 \<le> 995983817813 / 1000000"
  using pow_mult_le [OF Gamma_up_1384 Gamma_up_4] by simp

lemma Gamma_lo_1280: "339858885943 / 1000000 \<le> Gamma ^ 1280"
  using pow_mult_ge [OF Gamma_lo_1024 Gamma_lo_256] by simp

lemma Gamma_lo_1344: "642485891072 / 1000000 \<le> Gamma ^ 1344"
  using pow_mult_ge [OF Gamma_lo_1280 Gamma_lo_64] by simp

lemma Gamma_lo_1376: "883376981126 / 1000000 \<le> Gamma ^ 1376"
  using pow_mult_ge [OF Gamma_lo_1344 Gamma_lo_32] by simp

lemma Gamma_lo_1384: "956570064274 / 1000000 \<le> Gamma ^ 1384"
  using pow_mult_ge [OF Gamma_lo_1376 Gamma_lo_8] by simp

lemma Gamma_lo_1388: "995410635163 / 1000000 \<le> Gamma ^ 1388"
  using pow_mult_ge [OF Gamma_lo_1384 Gamma_lo_4] by simp

lemma Gamma_lo_1389: "1005364741514 / 1000000 \<le> Gamma ^ 1389"
  using pow_mult_ge [OF Gamma_lo_1388 Gamma_lo_1] by simp

lemma Gamma_up_384: "Gamma ^ 384 \<le> 45651909 / 1000000"
  using pow_mult_le [OF Gamma_up_256 Gamma_up_128] by simp

lemma Gamma_up_400: "Gamma ^ 400 \<le> 53530699 / 1000000"
  using pow_mult_le [OF Gamma_up_384 Gamma_up_16] by simp

lemma Gamma_up_408: "Gamma ^ 408 \<le> 57966200 / 1000000"
  using pow_mult_le [OF Gamma_up_400 Gamma_up_8] by simp

lemma Gamma_up_410: "Gamma ^ 410 \<le> 59131321 / 1000000"
  using pow_mult_le [OF Gamma_up_408 Gamma_up_2] by simp

lemma Gamma_up_411: "Gamma ^ 411 \<le> 59722635 / 1000000"
  using pow_mult_le [OF Gamma_up_410 Gamma_up_1] by simp

lemma Gamma_lo_384: "45644621 / 1000000 \<le> Gamma ^ 384"
  using pow_mult_ge [OF Gamma_lo_256 Gamma_lo_128] by simp

lemma Gamma_lo_400: "53521832 / 1000000 \<le> Gamma ^ 400"
  using pow_mult_ge [OF Gamma_lo_384 Gamma_lo_16] by simp

lemma Gamma_lo_408: "57956436 / 1000000 \<le> Gamma ^ 408"
  using pow_mult_ge [OF Gamma_lo_400 Gamma_lo_8] by simp

lemma Gamma_lo_412: "60309699 / 1000000 \<le> Gamma ^ 412"
  using pow_mult_ge [OF Gamma_lo_408 Gamma_lo_4] by simp

section \<open>The ends of the latency domain\<close>

lemma Gamma_pow_1388: "Gamma ^ 1388 \<le> 1000000"
  using Gamma_up_1388 by simp

lemma Gamma_pow_1389: "1000000 < Gamma ^ 1389"
  using Gamma_lo_1389 by simp

lemma Gamma_pow_411: "Gamma ^ 411 < 60"
  using Gamma_up_411 by simp

lemma Gamma_pow_412: "60 \<le> Gamma ^ 412"
  using Gamma_lo_412 by simp

end
