(* ===== verification/Sketch.thy ===== *)
theory Sketch
  imports Gamma_Powers
begin

text \<open>
  The latency sketch: src/client/sketch/ddsketch.go (the client's DDSketch) and
  src/server/internal/storage/sketch.go (the server's quantile over a merged bucket map).

  The bucket array is a list of 2048 \<open>uint64\<close> words, so counters wrap as in Go. An index
  outside the array is a panic, the value \<open>None\<close> of \<open>sk_add\<close>. Finite \<open>float64\<close> values
  are real numbers: the theorems on accuracy are about the exact logarithm and power functions.
  Sparse bucket maps (\<open>map[int32]uint64\<close>) are Go maps, association lists with distinct keys.
\<close>

section \<open>The mapping between latencies and bucket indices\<close>

definition MinValue :: real where
  "MinValue = 1 / 1000000"

definition MaxValue :: real where
  "MaxValue = 60"

definition numBuckets :: nat where
  "numBuckets = 2048"

definition index :: "real \<Rightarrow> int" where
  "index v = \<lceil>ln v / ln Gamma\<rceil>"

definition minIndex :: int where
  "minIndex = index MinValue"

definition maxIndex :: int where
  "maxIndex = index MaxValue"

definition sk_value :: "int \<Rightarrow> real" where
  "sk_value i = 2 * Gamma powi i / (Gamma + 1)"

fun clamp :: "float64 \<Rightarrow> real" where
  "clamp NaN = MinValue"
| "clamp NegInf = MinValue"
| "clamp PosInf = MaxValue"
| "clamp (Fin x) = (if x < MinValue then MinValue else if x > MaxValue then MaxValue else x)"

section \<open>The sketch and its operations\<close>

record ddsketch =
  sk_buckets :: "u64 list"
  sk_count :: u64

definition sk_new :: ddsketch where
  "sk_new = \<lparr>sk_buckets = replicate numBuckets 0, sk_count = 0\<rparr>"

definition sk_add :: "ddsketch \<Rightarrow> float64 \<Rightarrow> ddsketch option" where
  "sk_add s seconds =
     (let i = index (clamp seconds); j = i - minIndex in
      if 0 \<le> j \<and> j < int numBuckets then
        Some (s\<lparr>sk_buckets := (sk_buckets s)[nat j := sk_buckets s ! nat j + 1],
               sk_count := sk_count s + 1\<rparr>)
      else None)"

definition sk_merge :: "ddsketch \<Rightarrow> ddsketch \<Rightarrow> ddsketch" where
  "sk_merge s o' =
     \<lparr>sk_buckets = map2 (+) (sk_buckets s) (sk_buckets o'), sk_count = sk_count s + sk_count o'\<rparr>"

definition quantileRank :: "real \<Rightarrow> u64 \<Rightarrow> u64" where
  "quantileRank q tot =
     (let q' = (if q < 0 then 0 else if q > 1 then 1 else q);
          rank = max (word_of_int \<lceil>q' * real (unat tot)\<rceil>) 1
      in min rank tot)"

fun scan :: "u64 list \<Rightarrow> u64 \<Rightarrow> u64 \<Rightarrow> nat \<Rightarrow> nat option" where
  "scan [] cum rank i = None"
| "scan (b # bs) cum rank i =
     (let cum' = cum + b in if rank \<le> cum' then Some i else scan bs cum' rank (Suc i))"

definition sk_quantile :: "ddsketch \<Rightarrow> real \<Rightarrow> real" where
  "sk_quantile s q =
     (if sk_count s = 0 then 0
      else case scan (sk_buckets s) 0 (quantileRank q (sk_count s)) 0 of
             Some i \<Rightarrow> sk_value (int i + minIndex)
           | None \<Rightarrow> sk_value maxIndex)"

definition sk_Buckets :: "ddsketch \<Rightarrow> (int, u64) gomap" where
  "sk_Buckets s =
     map (\<lambda>i. (int i + minIndex, sk_buckets s ! i))
       (filter (\<lambda>i. sk_buckets s ! i \<noteq> 0) [0..<length (sk_buckets s)])"

definition clampIndex :: "int \<Rightarrow> int" where
  "clampIndex i = (if i < minIndex then minIndex else if i > maxIndex then maxIndex else i)"

definition addBucket :: "int \<times> u64 \<Rightarrow> ddsketch \<Rightarrow> ddsketch" where
  "addBucket e s =
     (let j = nat (clampIndex (fst e) - minIndex) in
      s\<lparr>sk_buckets := (sk_buckets s)[j := sk_buckets s ! j + snd e],
        sk_count := sk_count s + snd e\<rparr>)"

definition FromBuckets :: "(int, u64) gomap \<Rightarrow> ddsketch" where
  "FromBuckets m = fold addBucket m sk_new"

fun scanMap :: "(int, u64) gomap \<Rightarrow> int list \<Rightarrow> u64 \<Rightarrow> u64 \<Rightarrow> int option" where
  "scanMap m [] cum rank = None"
| "scanMap m (i # is) cum rank =
     (case map_of m i of
        None \<Rightarrow> scanMap m is cum rank
      | Some c \<Rightarrow> (let cum' = cum + c in if rank \<le> cum' then Some i else scanMap m is cum' rank))"

definition QuantileFromBuckets :: "(int, u64) gomap \<Rightarrow> real \<Rightarrow> real" where
  "QuantileFromBuckets m q =
     (let tot = sum_list (map snd m) in
      if tot = 0 then 0
      else case scanMap m [minIndex..maxIndex] 0 (quantileRank q tot) of
             Some i \<Rightarrow> sk_value i
           | None \<Rightarrow> sk_value maxIndex)"

section \<open>The server's quantile over a bucket map\<close>

definition bucketValue :: "int \<Rightarrow> real" where
  "bucketValue i = 2 * (101 / 100) powi i / (101 / 100 + 1)"

fun scanIndices :: "(int, u64) gomap \<Rightarrow> int list \<Rightarrow> u64 \<Rightarrow> u64 \<Rightarrow> int option" where
  "scanIndices m [] cum rank = None"
| "scanIndices m (i # is) cum rank =
     (let cum' = cum + glookup 0 m i in if rank \<le> cum' then Some i else scanIndices m is cum' rank)"

definition storageQuantile :: "(int, u64) gomap \<Rightarrow> real \<Rightarrow> real" where
  "storageQuantile m q =
     (let tot = sum_list (map snd m) in
      if tot = 0 then 0
      else
        let indices = sort (map fst m);
            rank = word_of_int \<lceil>q * real (unat tot)\<rceil>;
            rank = (if rank < 1 then 1 else rank);
            rank = (if rank > tot then tot else rank)
        in case scanIndices m indices 0 rank of
             Some i \<Rightarrow> bucketValue i
           | None \<Rightarrow> bucketValue (last indices))"

section \<open>Observing a list of latencies; well-formed sketches\<close>

fun sk_feed :: "ddsketch \<Rightarrow> float64 list \<Rightarrow> ddsketch option" where
  "sk_feed s [] = Some s"
| "sk_feed s (x # xs) = (case sk_add s x of None \<Rightarrow> None | Some s' \<Rightarrow> sk_feed s' xs)"

definition slot :: "float64 \<Rightarrow> nat" where
  "slot x = nat (index (clamp x) - minIndex)"

definition sk_wf :: "ddsketch \<Rightarrow> bool" where
  "sk_wf s \<longleftrightarrow> length (sk_buckets s) = numBuckets \<and> sk_count s = sum_list (sk_buckets s) \<and>
     (\<forall>j < numBuckets. maxIndex - minIndex < int j \<longrightarrow> sk_buckets s ! j = 0)"

section \<open>The index function\<close>

lemma index_le_iff: "0 < v \<Longrightarrow> index v \<le> i \<longleftrightarrow> v \<le> Gamma powi i"
  using log_le_iff [of Gamma v "real_of_int i"] powr_real_of_int' [of Gamma i]
  by (simp add: index_def ceiling_le_iff log_def less_imp_le)

lemma index_less_iff: "0 < v \<Longrightarrow> i < index v \<longleftrightarrow> Gamma powi i < v"
  using index_le_iff [of v i] by linarith

lemma index_eq_iff: "0 < v \<Longrightarrow> index v = i \<longleftrightarrow> Gamma powi (i - 1) < v \<and> v \<le> Gamma powi i"
  using index_le_iff [of v i] index_less_iff [of v "i - 1"] by linarith

lemma index_mono: "0 < u \<Longrightarrow> u \<le> v \<Longrightarrow> index u \<le> index v"
  using index_le_iff [of u "index v"] index_le_iff [of v "index v"] by auto

lemma minIndex_eq: "minIndex = -1388"
proof -
  have "inverse (Gamma ^ 1389) < inverse 1000000"
    using Gamma_pow_1389 by (intro less_imp_inverse_less) auto
  moreover have "inverse 1000000 \<le> inverse (Gamma ^ 1388)"
    using Gamma_pow_1388 by (intro le_imp_inverse_le) auto
  ultimately show ?thesis
    by (simp add: minIndex_def MinValue_def index_eq_iff power_int_def power_one_over inverse_eq_divide)
qed

lemma maxIndex_eq: "maxIndex = 412"
  using Gamma_pow_411 Gamma_pow_412
  by (simp add: maxIndex_def MaxValue_def index_eq_iff power_int_def)

lemma clamp_bounds: "MinValue \<le> clamp x" "clamp x \<le> MaxValue"
  by (cases x; simp add: MinValue_def MaxValue_def)+

lemma clamp_pos [simp]: "0 < clamp x"
  using clamp_bounds(1) [of x] by (simp add: MinValue_def)

lemma index_clamp_bounds: "minIndex \<le> index (clamp x)" "index (clamp x) \<le> maxIndex"
  using clamp_bounds [of x] index_mono unfolding minIndex_def maxIndex_def
  by (simp_all add: MinValue_def)

lemma slot_less: "slot x < numBuckets"
  using index_clamp_bounds [of x] by (simp add: slot_def numBuckets_def minIndex_eq maxIndex_eq)

lemma slot_le_span: "int (slot x) \<le> maxIndex - minIndex"
  using index_clamp_bounds [of x] by (simp add: slot_def)

lemma int_slot: "int (slot x) = index (clamp x) - minIndex"
  using index_clamp_bounds [of x] by (simp add: slot_def)

lemma sk_add_eq:
  "sk_add s x = Some (s\<lparr>sk_buckets := (sk_buckets s)[slot x := sk_buckets s ! slot x + 1],
                       sk_count := sk_count s + 1\<rparr>)"
  using slot_less [of x] index_clamp_bounds(1) [of x] by (simp add: sk_add_def Let_def flip: int_slot)

section \<open>Feeding observations\<close>

lemma sk_feed_append: "sk_feed s (xs @ ys) = Option.bind (sk_feed s xs) (\<lambda>s'. sk_feed s' ys)"
  by (induction xs arbitrary: s) (auto split: option.splits)

lemma sk_wf_new: "sk_wf sk_new"
  by (simp add: sk_wf_def sk_new_def sum_list_replicate)

lemma sk_wf_add:
  assumes "sk_wf s" and "sk_add s x = Some s'"
  shows "sk_wf s'"
  using assms slot_less [of x] slot_le_span [of x]
  by (auto simp: sk_wf_def sk_add_eq sum_list_upd_word nth_list_update)

lemma sk_wf_feed: "sk_wf s \<Longrightarrow> sk_feed s xs = Some s' \<Longrightarrow> sk_wf s'"
  by (induction xs arbitrary: s) (auto split: option.splits dest: sk_wf_add)

lemma sk_wf_merge: "sk_wf s \<Longrightarrow> sk_wf t \<Longrightarrow> sk_wf (sk_merge s t)"
  by (simp add: sk_wf_def sk_merge_def sum_list_zip_add)

lemma sk_feed_buckets:
  assumes "length (sk_buckets s) = numBuckets"
  shows "\<exists>s'. sk_feed s xs = Some s' \<and> length (sk_buckets s') = numBuckets \<and>
    sk_count s' = sk_count s + of_nat (length xs) \<and>
    (\<forall>j < numBuckets. sk_buckets s' ! j = sk_buckets s ! j + of_nat (count_list (map slot xs) j))"
  using assms
proof (induction xs arbitrary: s)
  case (Cons x xs)
  let ?s = "s\<lparr>sk_buckets := (sk_buckets s)[slot x := sk_buckets s ! slot x + 1],
              sk_count := sk_count s + 1\<rparr>"
  have "length (sk_buckets ?s) = numBuckets" using Cons.prems by simp
  from Cons.IH [OF this] show ?case
    using Cons.prems slot_less [of x]
    by (auto simp: sk_add_eq nth_list_update algebra_simps)
qed simp

section \<open>Prefix sums of bucket counts\<close>

lemma sum_count_list_upto:
  "sum_list (map (count_list zs) [0..<Suc k]) = length (filter (\<lambda>z. z \<le> k) (zs :: nat list))"
proof (induction zs)
  case (Cons z zs)
  have "sum_list (map (count_list (z # zs)) [0..<Suc k]) =
      sum_list (map (\<lambda>j. count_list zs j + (if z = j then 1 else 0)) [0..<Suc k])"
    by (intro arg_cong [where f = sum_list] map_cong) auto
  also have "\<dots> = length (filter (\<lambda>y. y \<le> k) zs) + sum_list (map (\<lambda>j. if z = j then 1 else 0) [0..<Suc k])"
    using Cons.IH by (simp add: sum_list_addf)
  also have "sum_list (map (\<lambda>j. if z = j then 1 else 0) [0..<Suc k]) = (if z \<le> k then 1 else 0)"
    by (induction k) auto
  finally show ?case by simp
qed (simp add: map_replicate_const sum_list_replicate del: upt_Suc)

lemma sorted_filter_le_takeWhile:
  "sorted zs \<Longrightarrow> filter (\<lambda>z. z \<le> k) zs = takeWhile (\<lambda>z. z \<le> (k :: nat)) zs"
  by (induction zs) (auto simp: takeWhile_eq_Nil_iff hd_in_set dest!: bspec [OF _ hd_in_set])

lemma sorted_rank_iff:
  fixes zs :: "nat list"
  assumes "sorted zs" and "1 \<le> r" and "r \<le> length zs"
  shows "r \<le> length (filter (\<lambda>z. z \<le> k) zs) \<longleftrightarrow> zs ! (r - 1) \<le> k"
proof -
  let ?t = "takeWhile (\<lambda>z. z \<le> k) zs"
  have "zs ! (r - 1) \<le> k" if "r \<le> length ?t"
    using that assms(2) set_takeWhileD [of "?t ! (r - 1)" "\<lambda>z. z \<le> k" zs] nth_mem [of "r - 1" ?t]
    by (simp add: takeWhile_nth)
  moreover have "r \<le> length ?t" if "zs ! (r - 1) \<le> k"
  proof (rule ccontr)
    assume *: "\<not> r \<le> length ?t"
    then have "\<not> zs ! length ?t \<le> k"
      using assms by (intro nth_length_takeWhile) auto
    moreover have "zs ! length ?t \<le> zs ! (r - 1)"
      using * assms by (intro sorted_nth_mono) auto
    ultimately show False using that by simp
  qed
  ultimately show ?thesis using assms(1) by (auto simp: sorted_filter_le_takeWhile)
qed

lemma scan_first:
  assumes "n < length bs"
    and "rank \<le> cum + sum_list (take (Suc n) bs)"
    and "\<And>k. k < n \<Longrightarrow> \<not> rank \<le> cum + sum_list (take (Suc k) bs)"
  shows "scan bs cum rank i = Some (i + n)"
  using assms
proof (induction bs arbitrary: n cum i)
  case (Cons b bs)
  show ?case
  proof (cases n)
    case 0
    with Cons.prems show ?thesis by (simp add: Let_def)
  next
    case (Suc m)
    have "\<not> rank \<le> cum + b" using Cons.prems(3) [of 0] Suc by simp
    moreover have "scan bs (cum + b) rank (Suc i) = Some (Suc i + m)"
    proof (rule Cons.IH)
      show "m < length bs" using Cons.prems(1) Suc by simp
      show "rank \<le> cum + b + sum_list (take (Suc m) bs)"
        using Cons.prems(2) Suc by (simp add: add.assoc)
      show "\<not> rank \<le> cum + b + sum_list (take (Suc k) bs)" if "k < m" for k
        using Cons.prems(3) [of "Suc k"] that Suc by (simp add: add.assoc)
    qed
    ultimately show ?thesis using Suc by (simp add: Let_def)
  qed
qed simp

section \<open>Ranks\<close>

lemma quantileRank_bounds:
  assumes "tot \<noteq> 0"
  shows "1 \<le> quantileRank q tot" and "quantileRank q tot \<le> tot"
proof -
  have "1 \<le> tot" using assms by (simp add: word_le_nat_alt unat_gt_0 Suc_le_eq)
  then show "1 \<le> quantileRank q tot" and "quantileRank q tot \<le> tot"
    by (simp_all add: quantileRank_def Let_def)
qed

lemma unat_max_u64: "unat (max a b :: u64) = max (unat a) (unat b)"
  by (simp add: max_def word_le_nat_alt)

lemma unat_min_u64: "unat (min a b :: u64) = min (unat a) (unat b)"
  by (simp add: min_def word_le_nat_alt)

lemma ceiling_mult_le:
  assumes "0 \<le> q" and "q \<le> 1"
  shows "0 \<le> \<lceil>q * real n\<rceil>" and "\<lceil>q * real n\<rceil> \<le> int n"
proof -
  have "q * real n \<le> real n" using assms by (simp add: mult_left_le_one_le)
  then show "\<lceil>q * real n\<rceil> \<le> int n" by (simp add: ceiling_le_iff)
  have "0 \<le> q * real n" using assms by simp
  then show "0 \<le> \<lceil>q * real n\<rceil>" by linarith
qed

lemma unat_word_of_ceiling:
  assumes "0 \<le> q" and "q \<le> 1" and "n < 2 ^ 64"
  shows "unat (word_of_int \<lceil>q * real n\<rceil> :: u64) = nat \<lceil>q * real n\<rceil>"
proof -
  have "int n < 2 ^ 64" using assms(3) by simp
  then have "0 \<le> \<lceil>q * real n\<rceil>" and "\<lceil>q * real n\<rceil> < 2 ^ 64"
    using ceiling_mult_le [OF assms(1,2), of n] by linarith+
  then show ?thesis
    by (simp add: unat_eq_nat_uint uint_word_of_int take_bit_int_eq_self)
qed

lemma unat_quantileRank:
  assumes "0 \<le> q" and "q \<le> 1" and "tot \<noteq> 0"
  shows "unat (quantileRank q tot) = max 1 (nat \<lceil>q * real (unat tot)\<rceil>)"
proof -
  obtain n where n: "n = unat tot" by simp
  have "n < 2 ^ 64" using unsigned_less [of tot] n by simp
  then have w: "unat (word_of_int \<lceil>q * real n\<rceil> :: u64) = nat \<lceil>q * real n\<rceil>"
    by (rule unat_word_of_ceiling [OF assms(1,2)])
  have "nat \<lceil>q * real n\<rceil> \<le> n" using ceiling_mult_le(2) [OF assms(1,2), of n] by linarith
  moreover have "1 \<le> n" using assms(3) n by (simp add: unat_gt_0 Suc_le_eq)
  ultimately show ?thesis
    using assms w
    by (simp add: quantileRank_def Let_def unat_max_u64 unat_min_u64 max.commute flip: n del: of_nat_unat)
qed

section \<open>The bucket the quantile walk stops at\<close>

definition slotOf :: "real \<Rightarrow> nat" where
  "slotOf v = nat (index v - minIndex)"

lemma slot_slotOf: "slot x = slotOf (clamp x)"
  by (simp add: slot_def slotOf_def)

lemma sorted_slots: "sorted (map slotOf (sort (map clamp xs)))"
proof -
  have "sorted_wrt (\<lambda>u v. slotOf u \<le> slotOf v) (sort (map clamp xs))"
    by (rule sorted_wrt_mono_rel [OF _ sorted_sort]) (auto simp: slotOf_def intro!: nat_mono index_mono)
  then show ?thesis by (simp add: sorted_map)
qed

lemma mset_slots: "mset (map slotOf (sort (map clamp xs))) = mset (map slot xs)"
proof -
  have "slot = slotOf \<circ> clamp" by (rule ext) (simp add: slot_slotOf)
  then show ?thesis by (simp add: image_mset.compositionality)
qed

lemma count_le_mset:
  assumes "mset zs = mset zs'"
  shows "length (filter P zs) = length (filter P zs')"
  using assms by (metis mset_filter size_mset)

lemma prefix_sum_feed:
  assumes "sk_feed sk_new xs = Some s" and "k < numBuckets"
  shows "sum_list (take (Suc k) (sk_buckets s)) = of_nat (length (filter (\<lambda>z. z \<le> k) (map slot xs)))"
proof -
  have len: "length (sk_buckets sk_new) = numBuckets" by (simp add: sk_new_def)
  from sk_feed_buckets [OF len, of xs] assms(1)
  have b: "length (sk_buckets s) = numBuckets"
    "\<And>j. j < numBuckets \<Longrightarrow> sk_buckets s ! j = of_nat (count_list (map slot xs) j)"
    by (auto simp: sk_new_def)
  have "take (Suc k) (sk_buckets s) = map of_nat (map (count_list (map slot xs)) [0..<Suc k])"
    using b assms(2) by (intro nth_equalityI) (auto simp: nth_append simp del: upt_Suc)
  then show ?thesis
    by (simp only: sum_count_list_upto flip: of_nat_sum_list_word)
qed

lemma scan_feed:
  assumes feed: "sk_feed sk_new xs = Some s" and len: "length xs < 2 ^ 64"
    and rank: "1 \<le> unat rank" "unat rank \<le> length xs"
  shows "scan (sk_buckets s) 0 rank 0 = Some (slotOf (sort (map clamp xs) ! (unat rank - 1)))"
proof -
  let ?zs = "map slotOf (sort (map clamp xs))"
  let ?n = "?zs ! (unat rank - 1)"
  have "length (sk_buckets sk_new) = numBuckets" by (simp add: sk_new_def)
  from sk_feed_buckets [OF this, of xs] feed have blen: "length (sk_buckets s) = numBuckets" by auto
  have idx: "unat rank - 1 < length xs" using rank by linarith
  then have "?n \<in> set (map slot xs)"
    using mset_slots [of xs] nth_mem [of "unat rank - 1" ?zs] by (metis length_map length_sort mset_eq_setD)
  then have nlt: "?n < numBuckets" using slot_less by auto
  have iff: "rank \<le> sum_list (take (Suc k) (sk_buckets s)) \<longleftrightarrow> ?n \<le> k" if "k < numBuckets" for k
  proof -
    let ?c = "length (filter (\<lambda>z. z \<le> k) (map slot xs))"
    have "?c \<le> length xs" using length_filter_le [of _ "map slot xs"] by simp
    then have "unat (of_nat ?c :: u64) = ?c" using len by (intro unat_of_nat_less) linarith
    moreover have "?c = length (filter (\<lambda>z. z \<le> k) ?zs)" by (rule count_le_mset [OF mset_slots [symmetric]])
    ultimately show ?thesis
      using prefix_sum_feed [OF feed that] sorted_rank_iff [OF sorted_slots, of "unat rank" xs k] rank
      by (simp add: word_le_nat_alt)
  qed
  have "scan (sk_buckets s) 0 rank 0 = Some (0 + ?n)"
    using blen nlt iff by (intro scan_first) auto
  then show ?thesis using idx by simp
qed

section \<open>Accuracy\<close>

lemma relative_error:
  assumes "0 < v"
  shows "\<bar>sk_value (index v) - v\<bar> \<le> (Gamma - 1) / (Gamma + 1) * v"
proof -
  let ?p = "Gamma powi index v"
  have "Gamma powi (index v - 1) < v" and up: "v \<le> ?p"
    using index_eq_iff [OF assms, of "index v"] by auto
  then have lo: "?p \<le> Gamma * v"
    by (simp add: power_int_diff field_simps)
  show ?thesis
    using lo up by (simp add: sk_value_def Gamma_def abs_le_iff field_simps)
qed

lemma quantile_of_feed:
  assumes "xs \<noteq> []" and "length xs < 2 ^ 64" and "sk_feed sk_new xs = Some s"
  shows "sk_quantile s q =
    sk_value (index (sort (map clamp xs) ! (unat (quantileRank q (of_nat (length xs))) - 1)))"
proof -
  let ?t = "of_nat (length xs) :: u64" and ?rank = "quantileRank q (of_nat (length xs))"
  have t: "unat ?t = length xs" using assms(2) by (rule unat_of_nat_less)
  then have t0: "?t \<noteq> 0" using assms(1) by (metis length_0_conv unat_0)
  have rank: "1 \<le> unat ?rank" "unat ?rank \<le> length xs"
    using quantileRank_bounds [OF t0, of q] t by (auto simp: word_le_nat_alt)
  have "length (sk_buckets sk_new) = numBuckets" by (simp add: sk_new_def)
  from sk_feed_buckets [OF this, of xs] assms(3) have cnt: "sk_count s = ?t"
    by (auto simp: sk_new_def)
  let ?v = "sort (map clamp xs) ! (unat ?rank - 1)"
  have "?v \<in> set (sort (map clamp xs))" using rank by (intro nth_mem) auto
  then obtain x where "?v = clamp x" by auto
  then have "int (slotOf ?v) + minIndex = index ?v"
    using index_clamp_bounds(1) [of x] by (simp add: slotOf_def)
  then show ?thesis
    using scan_feed [OF assms(3,2) rank] t0 cnt by (simp add: sk_quantile_def)
qed

section \<open>Sparse bucket maps\<close>

lemma slotOfIndex_less: "nat (clampIndex i - minIndex) < numBuckets"
  by (auto simp: clampIndex_def minIndex_eq maxIndex_eq numBuckets_def)

lemma sk_wf_addBucket: "sk_wf s \<Longrightarrow> sk_wf (addBucket e s)"
  using slotOfIndex_less [of "fst e"]
  by (auto simp: sk_wf_def addBucket_def Let_def sum_list_upd_word nth_list_update
      clampIndex_def minIndex_eq maxIndex_eq)

lemma sk_wf_fold_addBucket: "sk_wf s \<Longrightarrow> sk_wf (fold addBucket m s)"
  by (induction m arbitrary: s) (auto simp: sk_wf_addBucket)

lemma sk_wf_FromBuckets: "sk_wf (FromBuckets m)"
  by (simp add: FromBuckets_def sk_wf_fold_addBucket sk_wf_new)

definition inDomain :: "(int, u64) gomap \<Rightarrow> bool" where
  "inDomain m \<longleftrightarrow> (\<forall>i \<in> fst ` set m. minIndex \<le> i \<and> i \<le> maxIndex)"

lemma fold_addBucket_nth:
  assumes "gomap_ok m" and "inDomain m" and "length (sk_buckets s) = numBuckets" and "j < numBuckets"
  shows "sk_buckets (fold addBucket m s) ! j = sk_buckets s ! j + glookup 0 m (int j + minIndex)"
  using assms
proof (induction m arbitrary: s)
  case (Cons e m)
  obtain i c where e: "e = (i, c)" by (cases e)
  have i: "clampIndex i = i" "minIndex \<le> i" using Cons.prems(2) e by (auto simp: inDomain_def clampIndex_def)
  have len: "length (sk_buckets (addBucket e s)) = numBuckets"
    using Cons.prems(3) by (simp add: addBucket_def Let_def)
  have "sk_buckets (fold addBucket (e # m) s) ! j =
      sk_buckets (addBucket e s) ! j + glookup 0 m (int j + minIndex)"
    using Cons.IH [OF _ _ len Cons.prems(4)] Cons.prems(1,2) by (simp add: inDomain_def)
  moreover have "sk_buckets (addBucket e s) ! j =
      sk_buckets s ! j + (if i = int j + minIndex then c else 0)"
    using i e Cons.prems(3,4) by (auto simp: addBucket_def Let_def nth_list_update)
  moreover have "glookup 0 m i = 0" if "i = int j + minIndex"
    using Cons.prems(1) e by simp
  ultimately show ?case using e by (auto simp: glookup_def)
qed (simp add: glookup_def)

lemma FromBuckets_nth:
  assumes "gomap_ok m" and "inDomain m" and "j < numBuckets"
  shows "sk_buckets (FromBuckets m) ! j = glookup 0 m (int j + minIndex)"
  using fold_addBucket_nth [OF assms(1,2) _ assms(3), of sk_new] assms(3)
  by (simp add: FromBuckets_def sk_new_def)

lemma sk_count_FromBuckets: "sk_count (FromBuckets m) = sum_list (map snd m)"
proof -
  have "sk_count (fold addBucket m s) = sk_count s + sum_list (map snd m)" for s
    by (induction m arbitrary: s) (auto simp: addBucket_def Let_def algebra_simps)
  then show ?thesis by (simp add: FromBuckets_def sk_new_def)
qed

lemma gomap_ok_Buckets: "gomap_ok (sk_Buckets s)"
  by (simp add: sk_Buckets_def comp_def distinct_map inj_on_def)

lemma map_of_Buckets:
  "map_of (sk_Buckets s) i =
     (let j = nat (i - minIndex) in
      if minIndex \<le> i \<and> j < length (sk_buckets s) \<and> sk_buckets s ! j \<noteq> 0
      then Some (sk_buckets s ! j) else None)"
proof (cases "minIndex \<le> i \<and> nat (i - minIndex) < length (sk_buckets s) \<and>
    sk_buckets s ! nat (i - minIndex) \<noteq> 0")
  case True
  then have "(i, sk_buckets s ! nat (i - minIndex)) \<in> set (sk_Buckets s)"
    by (auto simp: sk_Buckets_def image_iff intro!: bexI [of _ "nat (i - minIndex)"])
  with True show ?thesis using gomap_ok_map_of [OF gomap_ok_Buckets] by (simp add: Let_def)
next
  case False
  then have "i \<notin> fst ` set (sk_Buckets s)" by (auto simp: sk_Buckets_def)
  then show ?thesis using False by (auto simp: Let_def map_of_eq_None_iff)
qed

lemma inDomain_map_of: "inDomain m \<longleftrightarrow> (\<forall>i c. map_of m i = Some c \<longrightarrow> minIndex \<le> i \<and> i \<le> maxIndex)"
  by (metis inDomain_def dom_map_of_conv_image_fst domD domI)

lemma inDomain_Buckets:
  assumes "sk_wf s"
  shows "inDomain (sk_Buckets s)"
proof -
  have "i \<le> maxIndex" if "minIndex \<le> i" and "nat (i - minIndex) < numBuckets"
    and "sk_buckets s ! nat (i - minIndex) \<noteq> 0" for i
    using assms that by (force simp: sk_wf_def)
  then show ?thesis
    using assms by (auto simp: inDomain_map_of map_of_Buckets Let_def sk_wf_def split: if_splits)
qed

lemma FromBuckets_Buckets:
  assumes "sk_wf s" and "gomap_ok m" and "map_of m = map_of (sk_Buckets s)"
  shows "FromBuckets m = s"
proof -
  have dom: "inDomain m" using inDomain_Buckets [OF assms(1)] assms(3) by (simp add: inDomain_map_of)
  have len: "length (sk_buckets s) = numBuckets" "length (sk_buckets (FromBuckets m)) = numBuckets"
    using assms(1) sk_wf_FromBuckets [of m] by (auto simp: sk_wf_def)
  have "sk_buckets (FromBuckets m) ! j = sk_buckets s ! j" if "j < numBuckets" for j
    using FromBuckets_nth [OF assms(2) dom that] assms(3) that len
    by (auto simp: glookup_def map_of_Buckets Let_def)
  then have b: "sk_buckets (FromBuckets m) = sk_buckets s"
    using len by (intro nth_equalityI) auto
  then have "sk_count (FromBuckets m) = sk_count s"
    using assms(1) sk_wf_FromBuckets [of m] by (simp add: sk_wf_def)
  with b show ?thesis by simp
qed

section \<open>The two quantile walks over a bucket map\<close>

lemma scan_Suc: "scan bs cum rank (Suc i) = map_option Suc (scan bs cum rank i)"
  by (induction bs cum rank i rule: scan.induct) (auto simp: Let_def)

lemma scanMap_scan:
  "cum < rank \<Longrightarrow> scanMap m is cum rank = map_option ((!) is) (scan (map (glookup 0 m) is) cum rank 0)"
proof (induction "is" arbitrary: cum)
  case (Cons i "is")
  have IH: "scanMap m is c rank = map_option (\<lambda>j. (i # is) ! j) (scan (map (glookup 0 m) is) c rank (Suc 0))"
    if "c < rank" for c
    using Cons.IH [OF that] by (simp add: scan_Suc option.map_comp comp_def)
  show ?case
    using Cons.prems IH
    by (cases "map_of m i") (auto simp: glookup_None glookup_Some Let_def not_le)
qed simp

lemma scan_append:
  "scan (bs @ cs) cum rank i =
     (case scan bs cum rank i of Some j \<Rightarrow> Some j
      | None \<Rightarrow> scan cs (cum + sum_list bs) rank (i + length bs))"
  by (induction bs arbitrary: cum i) (auto simp: Let_def add.assoc split: option.splits)

lemma scan_found:
  "rank \<le> cum + sum_list bs \<Longrightarrow> cum < rank \<Longrightarrow> \<exists>j < length bs. scan bs cum rank i = Some (i + j)"
proof (induction bs arbitrary: cum i)
  case (Cons b bs)
  show ?case
  proof (cases "rank \<le> cum + b")
    case False
    then obtain j where "j < length bs" "scan bs (cum + b) rank (Suc i) = Some (Suc i + j)"
      using Cons.IH [of "cum + b" "Suc i"] Cons.prems by (auto simp: add.assoc not_le)
    with False show ?thesis by (auto simp: Let_def intro!: exI [of _ "Suc j"])
  qed (auto simp: Let_def intro!: exI [of _ 0])
qed (simp add: not_le)

lemma span_le: "nat (maxIndex - minIndex + 1) \<le> numBuckets"
  by (simp add: minIndex_eq maxIndex_eq numBuckets_def)

lemma buckets_split:
  assumes "gomap_ok m" and "inDomain m"
  shows "sk_buckets (FromBuckets m) =
    map (glookup 0 m) [minIndex..maxIndex] @ replicate (numBuckets - nat (maxIndex - minIndex + 1)) 0"
    (is "?b = ?r")
proof (rule nth_equalityI)
  have len: "length ?b = numBuckets" using sk_wf_FromBuckets [of m] by (simp add: sk_wf_def)
  then show "length ?b = length ?r" using span_le by simp
  fix j assume "j < length ?b"
  with len have j: "j < numBuckets" by simp
  have "glookup 0 m (int j + minIndex) = 0" if "maxIndex < int j + minIndex"
    using assms(2) that by (intro glookup_notin) (auto simp: inDomain_def)
  then show "?b ! j = ?r ! j"
    using FromBuckets_nth [OF assms j] j by (auto simp: nth_append add.commute)
qed

lemma QuantileFromBuckets_eq:
  assumes "gomap_ok m" and "inDomain m"
  shows "QuantileFromBuckets m q = sk_quantile (FromBuckets m) q"
proof (cases "sum_list (map snd m) = 0")
  case False
  let ?bs = "map (glookup 0 m) [minIndex..maxIndex]" and ?tot = "sum_list (map snd m)"
  note split = buckets_split [OF assms]
  have "sum_list ?bs = ?tot"
    using sk_wf_FromBuckets [of m] split by (simp add: sk_wf_def sk_count_FromBuckets sum_list_replicate)
  moreover note rank = quantileRank_bounds [OF False, of q]
  moreover have pos: "0 < quantileRank q ?tot" using rank(1) by (metis not_le word_le_0_iff word_gt_0 zero_neq_one)
  ultimately obtain j where j: "j < length ?bs" "scan ?bs 0 (quantileRank q ?tot) 0 = Some j"
    using scan_found [of "quantileRank q ?tot" 0 ?bs 0] by auto
  then have "[minIndex..maxIndex] ! j = int j + minIndex" by simp
  with j False split scanMap_scan [OF pos, of m "[minIndex..maxIndex]"] show ?thesis
    by (simp add: QuantileFromBuckets_def sk_quantile_def sk_count_FromBuckets scan_append Let_def)
qed (simp add: QuantileFromBuckets_def sk_quantile_def sk_count_FromBuckets)

lemma scanMap_filter:
  "scanMap m is cum rank = scanMap m (filter (\<lambda>i. i \<in> fst ` set m) is) cum rank"
  by (induction m "is" cum rank rule: scanMap.induct)
    (auto simp: Let_def map_of_eq_None_iff split: option.splits dest: map_of_SomeD intro: rev_image_eqI)

lemma scanIndices_scanMap:
  "set is \<subseteq> fst ` set m \<Longrightarrow> scanIndices m is cum rank = scanMap m is cum rank"
proof (induction "is" arbitrary: cum)
  case (Cons i "is")
  then obtain c where "map_of m i = Some c"
    by (metis list.set_intros(1) map_of_eq_None_iff not_Some_eq subsetD)
  with Cons show ?case by (simp add: Let_def glookup_Some)
qed simp

lemma sorted_keys_eq:
  assumes "gomap_ok m" and "inDomain m"
  shows "sort (map fst m) = filter (\<lambda>i. i \<in> fst ` set m) [minIndex..maxIndex]"
  using assms
  by (intro sorted_distinct_set_unique) (auto simp: inDomain_def sorted_wrt_filter)

lemma storage_rank_eq:
  assumes "0 \<le> q" and "q \<le> 1" and "tot \<noteq> 0"
  shows "(let r = word_of_int \<lceil>q * real (unat tot)\<rceil>; r = (if r < 1 then 1 else r)
          in if r > tot then tot else r) = quantileRank q tot"
proof -
  have q: "(if q < 0 then 0 else if 1 < q then 1 else q) = q" using assms(1,2) by simp
  have "max r 1 = (if r < 1 then 1 else r)" for r :: u64 by (simp only: max_def not_le [symmetric]) auto
  moreover have "min r tot = (if r > tot then tot else r)" for r :: u64
    by (simp only: min_def not_le [symmetric]) auto
  ultimately show ?thesis by (simp only: quantileRank_def Let_def q)
qed

lemma bucketValue_eq: "bucketValue i = sk_value i"
  by (simp add: bucketValue_def sk_value_def Gamma_def)

lemma storageQuantile_eq:
  assumes "gomap_ok m" and "inDomain m" and "0 \<le> q" and "q \<le> 1"
  shows "storageQuantile m q = QuantileFromBuckets m q"
proof (cases "sum_list (map snd m) = 0")
  case False
  let ?r = "quantileRank q (sum_list (map snd m))"
  have rank: "storageQuantile m q =
      (case scanIndices m (sort (map fst m)) 0 ?r of
         Some i \<Rightarrow> bucketValue i | None \<Rightarrow> bucketValue (last (sort (map fst m))))"
    using False storage_rank_eq [OF assms(3,4) False]
    by (simp only: storageQuantile_def Let_def if_False)
  have scan: "scanIndices m (sort (map fst m)) 0 ?r = scanMap m [minIndex..maxIndex] 0 ?r"
    using scanMap_filter [of m "[minIndex..maxIndex]" 0 ?r]
    by (simp add: scanIndices_scanMap flip: sorted_keys_eq [OF assms(1,2)])
  have "\<exists>i. scanMap m [minIndex..maxIndex] 0 ?r = Some i"
    using quantileRank_bounds [OF False, of q] sk_wf_FromBuckets [of m] buckets_split [OF assms(1,2)]
      scan_found [of ?r 0 "map (glookup 0 m) [minIndex..maxIndex]" 0]
      scanMap_scan [of 0 ?r m "[minIndex..maxIndex]"]
    by (auto simp: sk_wf_def sk_count_FromBuckets sum_list_replicate word_less_nat_alt word_le_nat_alt)
  then show ?thesis
    using False rank scan by (auto simp: QuantileFromBuckets_def Let_def bucketValue_eq)
qed (simp add: storageQuantile_def QuantileFromBuckets_def)

lemma feed_quantile_error:
  assumes "xs \<noteq> []" and "length xs < 2 ^ 64" and "0 \<le> q" and "q \<le> 1"
  shows "\<exists>s. sk_feed sk_new xs = Some s \<and>
    (let v = sort (map clamp xs) ! (max 1 (nat \<lceil>q * real (length xs)\<rceil>) - 1)
     in \<bar>sk_quantile s q - v\<bar> \<le> (Gamma - 1) / (Gamma + 1) * v)"
proof -
  let ?t = "of_nat (length xs) :: u64" and ?v = "sort (map clamp xs) ! (max 1 (nat \<lceil>q * real (length xs)\<rceil>) - 1)"
  have t: "unat ?t = length xs" using assms(2) by (rule unat_of_nat_less)
  then have t0: "?t \<noteq> 0" using assms(1) by (metis length_0_conv unat_0)
  have "length (sk_buckets sk_new) = numBuckets" by (simp add: sk_new_def)
  from sk_feed_buckets [OF this] obtain s where s: "sk_feed sk_new xs = Some s" by blast
  have "nat \<lceil>q * real (length xs)\<rceil> \<le> length xs"
    using ceiling_mult_le(2) [OF assms(3,4), of "length xs"] by linarith
  moreover have "1 \<le> length xs" using assms(1) by (cases xs) auto
  ultimately have "max 1 (nat \<lceil>q * real (length xs)\<rceil>) - 1 < length (sort (map clamp xs))"
    by (simp only: length_sort length_map)
  then have "?v \<in> set (sort (map clamp xs))" by (rule nth_mem)
  then have "0 < ?v" by auto
  moreover have "sk_quantile s q = sk_value (index ?v)"
    using quantile_of_feed [OF assms(1,2) s, of q] unat_quantileRank [OF assms(3,4) t0] t by simp
  ultimately show ?thesis using s relative_error [of ?v] by (auto simp: Let_def)
qed

section \<open>Properties\<close>

text \<open>C6. Accuracy of quantiles. Feeding any non-empty list of fewer than $2^{64}$ latencies to a
  fresh sketch succeeds, and the quantile it answers for \<open>q\<close> is within the relative error
  \<open>(Gamma - 1) / (Gamma + 1)\<close> of the exact order statistic of rank \<open>max 1 \<lceil>q * n\<rceil>\<close>
  of the clamped latencies.\<close>

theorem sketch_quantile_accuracy:
  assumes "xs \<noteq> []" and "length xs < 2 ^ 64" and "0 \<le> q" and "q \<le> 1"
  shows "\<exists>s. sk_feed sk_new xs = Some s \<and>
    (let v = sort (map clamp xs) ! (max 1 (nat \<lceil>q * real (length xs)\<rceil>) - 1)
     in \<bar>sk_quantile s q - v\<bar> \<le> (Gamma - 1) / (Gamma + 1) * v)"
  by (rule feed_quantile_error [OF assms])

theorem sketch_quantile_accuracy_witness:
  "\<exists>s. sk_feed sk_new [Fin 3, Fin 1, NaN, Fin 2] = Some s \<and>
     \<bar>sk_quantile s (3 / 4) - 2\<bar> \<le> (Gamma - 1) / (Gamma + 1) * 2"
proof -
  have r: "\<lceil>3 / 4 * real (length [Fin 3, Fin 1, NaN, Fin 2])\<rceil> = 3" by simp
  have v: "sort (map clamp [Fin 3, Fin 1, NaN, Fin 2]) ! (max 1 (nat 3) - 1) = 2"
    by (simp add: MinValue_def MaxValue_def)
  have l: "[Fin 3, Fin 1, NaN, Fin 2] \<noteq> []" "length [Fin 3, Fin 1, NaN, Fin 2] < 2 ^ 64" by simp_all
  show ?thesis
    using sketch_quantile_accuracy [OF l, of "3 / 4"] unfolding r v Let_def by simp
qed

text \<open>C38. \<open>Add\<close> never panics, whatever the latency (NaN and infinities included): the bucket it
  writes is inside the array, the total count goes up by one, and a well-formed sketch (full array,
  count equal to the sum of the buckets, nothing above the last domain bucket) stays well-formed.\<close>

theorem sketch_add_total:
  assumes "sk_wf s"
  shows "\<exists>s'. sk_add s x = Some s' \<and> sk_wf s' \<and> sk_count s' = sk_count s + 1 \<and>
    sk_buckets s' = (sk_buckets s)[nat (index (clamp x) - minIndex) :=
      sk_buckets s ! nat (index (clamp x) - minIndex) + 1]"
  using sk_wf_add [OF assms, of x] by (simp add: sk_add_eq slot_def)

theorem sketch_add_total_witness:
  "\<exists>s'. sk_add sk_new PosInf = Some s' \<and> sk_wf s' \<and> sk_count s' = 1"
  using sketch_add_total [OF sk_wf_new, of PosInf] by (auto simp: sk_new_def)

text \<open>C19. Merging is exact: merging the sketch of one stream with the sketch of another gives
  the sketch of the concatenated streams.\<close>

theorem sketch_merge_exact:
  assumes "sk_feed sk_new xs = Some s" and "sk_feed sk_new ys = Some t"
  shows "sk_feed sk_new (xs @ ys) = Some (sk_merge s t)"
proof -
  have new: "length (sk_buckets sk_new) = numBuckets" by (simp add: sk_new_def)
  obtain u where u: "sk_feed sk_new (xs @ ys) = Some u" "length (sk_buckets u) = numBuckets"
      "sk_count u = of_nat (length (xs @ ys))"
      "\<forall>j < numBuckets. sk_buckets u ! j = of_nat (count_list (map slot (xs @ ys)) j)"
    using sk_feed_buckets [OF new, of "xs @ ys"] by (auto simp: sk_new_def)
  note s = sk_feed_buckets [OF new, of xs] and t = sk_feed_buckets [OF new, of ys]
  have "sk_buckets u = sk_buckets (sk_merge s t)"
    using u s t assms by (intro nth_equalityI) (auto simp: sk_merge_def sk_new_def)
  moreover have "sk_count u = sk_count (sk_merge s t)"
    using u s t assms by (auto simp: sk_merge_def sk_new_def)
  ultimately show ?thesis using u(1) by simp
qed

theorem sketch_merge_exact_witness:
  "\<exists>s t. sk_feed sk_new [Fin 1] = Some s \<and> sk_feed sk_new [NaN, Fin 70] = Some t \<and>
     sk_feed sk_new [Fin 1, NaN, Fin 70] = Some (sk_merge s t)"
proof -
  have new: "length (sk_buckets sk_new) = numBuckets" by (simp add: sk_new_def)
  obtain s t where "sk_feed sk_new [Fin 1] = Some s" "sk_feed sk_new [NaN, Fin 70] = Some t"
    using sk_feed_buckets [OF new] by blast
  then show ?thesis using sketch_merge_exact [of "[Fin 1]" s "[NaN, Fin 70]" t] by auto
qed

text \<open>The wire round trip: rebuilding a sketch from the sparse map that \<open>Buckets\<close> emits,
  read in any iteration order, gives back the same sketch.\<close>

theorem sketch_buckets_roundtrip:
  assumes "sk_wf s" and "gomap_ok m" and "mset m = mset (sk_Buckets s)"
  shows "FromBuckets m = s"
proof -
  have "map_of m = map_of (sk_Buckets s)"
    using assms(2,3) gomap_ok_Buckets by (metis map_of_inject_set mset_eq_setD)
  then show ?thesis using assms(1,2) by (intro FromBuckets_Buckets)
qed

theorem sketch_buckets_roundtrip_witness:
  "\<exists>s. sk_feed sk_new [Fin 1, Fin 1, Fin 2] = Some s \<and> FromBuckets (rev (sk_Buckets s)) = s"
proof -
  obtain s where s: "sk_feed sk_new [Fin 1, Fin 1, Fin 2] = Some s" by (simp add: sk_add_eq)
  have "sk_wf s" using s by (rule sk_wf_feed [OF sk_wf_new])
  then have "FromBuckets (rev (sk_Buckets s)) = s"
    by (rule sketch_buckets_roundtrip) (simp_all add: gomap_ok_Buckets flip: rev_map)
  with s show ?thesis by blast
qed

text \<open>C20. One definition of percentiles on both sides: on a bucket map whose indices lie in the
  latency domain, the client's \<open>QuantileFromBuckets\<close>, the server's, and the quantile of the
  reconstructed sketch are equal.\<close>

theorem quantile_client_server_agree:
  assumes "gomap_ok m" and "inDomain m" and "0 \<le> q" and "q \<le> 1"
  shows "storageQuantile m q = QuantileFromBuckets m q \<and>
    QuantileFromBuckets m q = sk_quantile (FromBuckets m) q"
  using storageQuantile_eq [OF assms] QuantileFromBuckets_eq [OF assms(1,2)] by blast

theorem quantile_client_server_agree_witness:
  "storageQuantile [(3, 2), (-7, 5)] (1 / 2) = sk_quantile (FromBuckets [(3, 2), (-7, 5)]) (1 / 2)"
  using quantile_client_server_agree [of "[(3, 2), (-7, 5)]" "1 / 2"]
  by (simp add: inDomain_def minIndex_eq maxIndex_eq)

text \<open>Outside the latency domain the two sides differ: the client ignores the counts of an
  index below the first domain bucket while it ranks over them, the server reads their bucket.\<close>

theorem quantile_out_of_domain_differs:
  "QuantileFromBuckets [(-2000, 1)] (1 / 2) = sk_value maxIndex \<and>
   storageQuantile [(-2000, 1)] (1 / 2) = sk_value (-2000) \<and>
   sk_quantile (FromBuckets [(-2000, 1)]) (1 / 2) = sk_value minIndex"
proof (intro conjI)
  have rank: "quantileRank (1 / 2) 1 = 1" by (simp add: quantileRank_def Let_def)
  have "-2000 < minIndex" by (simp add: minIndex_eq)
  then have "filter (\<lambda>i. i \<in> fst ` set [(-2000, 1 :: u64)]) [minIndex..maxIndex] = []"
    by (auto simp: filter_empty_conv)
  then have "scanMap [(-2000, 1)] [minIndex..maxIndex] 0 1 = None"
    by (subst scanMap_filter) (simp only: scanMap.simps)
  then show "QuantileFromBuckets [(-2000, 1)] (1 / 2) = sk_value maxIndex"
    by (simp add: QuantileFromBuckets_def rank)
  show "storageQuantile [(-2000, 1)] (1 / 2) = sk_value (-2000)"
    by (simp add: storageQuantile_def Let_def bucketValue_eq glookup_def)
  obtain n where n: "numBuckets = Suc n" by (simp add: numBuckets_def)
  have new: "sk_new = \<lparr>sk_buckets = 0 # replicate n 0, sk_count = 0\<rparr>"
    unfolding sk_new_def n by simp
  have "sk_buckets (FromBuckets [(-2000, 1)]) = 1 # replicate n 0"
    by (simp add: FromBuckets_def addBucket_def clampIndex_def minIndex_eq new)
  then have "scan (sk_buckets (FromBuckets [(-2000, 1)])) 0 1 0 = Some 0" by simp
  then show "sk_quantile (FromBuckets [(-2000, 1)]) (1 / 2) = sk_value minIndex"
    by (simp add: sk_quantile_def sk_count_FromBuckets rank)
qed

end
