(* ===== verification/Wire.thy ===== *)
theory Wire
  imports Prelude
begin

text \<open>
  The wire messages of src/proto/maping/v1/maping.proto, as the Go structs generated from it hold
  them. An enum of proto3 is open, so a status class that no constant names is a value too. A
  repeated field is a list, a map field a Go map.
\<close>

datatype StatusClass =
    SC_UNSPECIFIED | SC_2XX | SC_3XX | SC_4XX | SC_5XX | SC_NO_STATUS | SC_UNKNOWN int

fun StatusClass_num :: "StatusClass \<Rightarrow> int" where
  "StatusClass_num SC_UNSPECIFIED = 0"
| "StatusClass_num SC_2XX = 1"
| "StatusClass_num SC_3XX = 2"
| "StatusClass_num SC_4XX = 3"
| "StatusClass_num SC_5XX = 4"
| "StatusClass_num SC_NO_STATUS = 5"
| "StatusClass_num (SC_UNKNOWN n) = n"

record Exemplar =
  x_AtMs :: int
  x_DurationNs :: u64
  x_StatusCode :: u32
  x_TraceId :: string
  x_SpanId :: string
  x_RequestId :: string

record Summary =
  m_WindowStartMs :: int
  m_WindowEndMs :: int
  m_Method :: string
  m_RouteTemplate :: string
  m_StatusClass :: StatusClass
  m_Count :: u64
  m_SumDurationNs :: u64
  m_ReqBytes :: u64
  m_RespBytes :: u64
  m_LatencySketch :: "(int, u64) gomap"
  m_StatusCodeBreakdown :: "(u32, u64) gomap"
  m_MaxDurationNs :: u64
  m_Exemplars :: "Exemplar list"
  m_ErrorClassBreakdown :: "(string, u64) gomap"
  m_NoStatusReasons :: "(u32, u64) gomap"
  m_SumDownstreamDurationNs :: u64

record InstanceWindow =
  w_WindowStartMs :: int
  w_WindowEndMs :: int
  w_CpuNs :: u64
  w_RssBytes :: u64
  w_HeapAllocBytes :: u64
  w_GcPauseNs :: u64
  w_Goroutines :: u64
  w_NumGc :: u64
  w_TotalAllocBytes :: u64
  w_Mallocs :: u64
  w_GcCpuFraction :: float64
  w_HeapInuseBytes :: u64
  w_Gomaxprocs :: u32
  w_PostGcHeapBytes :: u64
  w_RssTrueBytes :: u64
  w_OpenFds :: u64
  w_FdLimit :: u64
  w_InFlight :: u64

record Envelope =
  e_Service :: string
  e_Instance :: string
  e_SdkVersion :: string
  e_SketchFormatVersion :: u32
  e_DroppedSummaries :: u64
  e_DeployVersion :: string
  e_DeployId :: string
  e_Environment :: string
  e_Region :: string
  e_InstanceStartTimeMs :: int

record UploadRequest =
  u_Envelope :: Envelope
  u_Summaries :: "Summary list"
  u_InstanceWindows :: "InstanceWindow list"

record Handshake =
  h_Service :: string
  h_Instance :: string
  h_SdkVersion :: string
  h_SketchFormatVersion :: u32

end
