(* ===== verification/Time_Series.thy ===== *)
theory Time_Series
  imports Sketch Wire
begin

text \<open>
  One time series of a flush window, src/client/series.go and the body of \<open>Observe\<close> of
  src/client/maping.go: the counters of a series, its sketch, its bounded breakdowns and its
  reservoir of exemplars; the normalisation of error labels; the hash that picks a shard.

  A Go \<open>int\<close> is an integer; the conversions to \<open>uint32\<close> and \<open>uint64\<close> truncate, as
  \<open>word_of_int\<close> does. Bytes of a string are characters. A panic of the sketch is a value: the
  second component of \<open>series_observe\<close>.
\<close>

section \<open>Constants and input records\<close>

definition maxStatusCodes :: nat where
  "maxStatusCodes = 20"

definition maxErrorClasses :: nat where
  "maxErrorClasses = 20"

definition maxErrorClassLen :: nat where
  "maxErrorClassLen = 64"

definition maxErrorExemplars :: nat where
  "maxErrorExemplars = 2"

type_synonym NoStatusReason = u32

definition NoStatusUnspecified :: NoStatusReason where "NoStatusUnspecified = 0"
definition NoStatusContextCanceled :: NoStatusReason where "NoStatusContextCanceled = 1"
definition NoStatusContextDeadline :: NoStatusReason where "NoStatusContextDeadline = 2"
definition NoStatusWriteError :: NoStatusReason where "NoStatusWriteError = 3"
definition NoStatusPanic :: NoStatusReason where "NoStatusPanic = 4"
definition NoStatusOther :: NoStatusReason where "NoStatusOther = 5"

record Record =
  rec_Method :: string
  rec_RouteTemplate :: string
  rec_Status :: int
  rec_Duration :: duration
  rec_ReqBytes :: int
  rec_RespBytes :: int
  rec_TraceID :: string
  rec_SpanID :: string
  rec_RequestID :: string
  rec_ErrorClass :: string
  rec_NoStatusReason :: NoStatusReason
  rec_DownstreamDuration :: duration

record exemplar =
  ex_atMs :: int
  ex_durationNs :: u64
  ex_statusCode :: u32
  ex_traceID :: string
  ex_spanID :: string
  ex_requestID :: string

definition exemplarOf :: "Record \<Rightarrow> instant \<Rightarrow> exemplar" where
  "exemplarOf r now =
     \<lparr>ex_atMs = to_unix_milli now,
      ex_durationNs = (if rec_Duration r > 0 then word_of_int (rec_Duration r) else 0),
      ex_statusCode = (if rec_Status r > 0 then word_of_int (rec_Status r) else 0),
      ex_traceID = rec_TraceID r, ex_spanID = rec_SpanID r, ex_requestID = rec_RequestID r\<rparr>"

definition isError :: "int \<Rightarrow> bool" where
  "isError status \<longleftrightarrow> status \<le> 0 \<or> status \<ge> 400"

section \<open>Error labels\<close>

definition asciiUpperAlnum :: "char \<Rightarrow> char option" where
  "asciiUpperAlnum c =
     (let n = of_char c :: nat in
      if 97 \<le> n \<and> n \<le> 122 then Some (char_of (n - 32))
      else if 65 \<le> n \<and> n \<le> 90 \<or> 48 \<le> n \<and> n \<le> 57 then Some c
      else None)"

fun sanitizeLoop :: "string \<Rightarrow> string \<Rightarrow> bool \<Rightarrow> string" where
  "sanitizeLoop [] b prevUnderscore = b"
| "sanitizeLoop (c # s) b prevUnderscore =
     (if length b < maxErrorClassLen then
        case asciiUpperAlnum c of
          Some u \<Rightarrow> sanitizeLoop s (b @ [u]) False
        | None \<Rightarrow>
            if 0 < length b \<and> \<not> prevUnderscore then sanitizeLoop s (b @ ''_'') True
            else sanitizeLoop s b prevUnderscore
      else b)"

definition trimRight :: "char \<Rightarrow> string \<Rightarrow> string" where
  "trimRight c s = rev (dropWhile (\<lambda>x. x = c) (rev s))"

definition sanitizeErrorClass :: "string \<Rightarrow> string" where
  "sanitizeErrorClass s = (if s = '''' then '''' else trimRight (CHR ''_'') (sanitizeLoop s '''' False))"

definition recordErrorClass :: "(string, u64) gomap \<Rightarrow> string \<Rightarrow> (string, u64) gomap" where
  "recordErrorClass classes raw =
     (let label = sanitizeErrorClass raw in
      if label = '''' then classes
      else if map_of classes label = None \<and> length classes \<ge> maxErrorClasses then classes
      else bump label 1 classes)"

definition recordNoStatusReason :: "(u32, u64) gomap \<Rightarrow> NoStatusReason \<Rightarrow> (u32, u64) gomap" where
  "recordNoStatusReason reasons r = bump (if r > NoStatusOther then NoStatusOther else r) 1 reasons"

definition recordCode :: "(u32, u64) gomap \<Rightarrow> int \<Rightarrow> (u32, u64) gomap" where
  "recordCode codes status =
     (if status \<le> 0 then codes
      else let code = word_of_int status in
        if map_of codes code = None \<and> length codes \<ge> maxStatusCodes then codes
        else bump code 1 codes)"

definition classify :: "int \<Rightarrow> StatusClass" where
  "classify status =
     (if status \<le> 0 \<or> status < 100 then SC_NO_STATUS
      else if status < 300 then SC_2XX
      else if status < 400 then SC_3XX
      else if status < 500 then SC_4XX
      else SC_5XX)"

section \<open>Series keys and series\<close>

record seriesKey =
  k_method :: string
  k_route :: string
  k_class :: StatusClass

record series =
  se_count :: u64
  se_sumDurationNs :: u64
  se_reqBytes :: u64
  se_respBytes :: u64
  se_maxDurationNs :: u64
  se_sk :: ddsketch
  se_codes :: "(u32, u64) gomap"
  se_errorClasses :: "(string, u64) gomap"
  se_noStatusReasons :: "(u32, u64) gomap"
  se_sumDownstreamNs :: u64
  se_slowest :: exemplar
  se_hasSlowest :: bool
  se_errs :: "exemplar list"
  se_nErrs :: nat

definition zeroExemplar :: exemplar where
  "zeroExemplar = \<lparr>ex_atMs = 0, ex_durationNs = 0, ex_statusCode = 0, ex_traceID = '''',
     ex_spanID = '''', ex_requestID = ''''\<rparr>"

definition newSeries :: series where
  "newSeries = \<lparr>se_count = 0, se_sumDurationNs = 0, se_reqBytes = 0, se_respBytes = 0,
     se_maxDurationNs = 0, se_sk = sk_new, se_codes = [], se_errorClasses = [],
     se_noStatusReasons = [], se_sumDownstreamNs = 0, se_slowest = zeroExemplar,
     se_hasSlowest = False, se_errs = replicate maxErrorExemplars zeroExemplar, se_nErrs = 0\<rparr>"

definition observeExemplar :: "series \<Rightarrow> Record \<Rightarrow> exemplar \<Rightarrow> series" where
  "observeExemplar s r ex =
     (let s = (if ex_durationNs ex > se_maxDurationNs s
               then s\<lparr>se_maxDurationNs := ex_durationNs ex\<rparr> else s);
          s = (if \<not> se_hasSlowest s \<or> ex_durationNs ex > ex_durationNs (se_slowest s)
               then s\<lparr>se_slowest := ex, se_hasSlowest := True\<rparr> else s)
      in if isError (rec_Status r) \<and> se_nErrs s < maxErrorExemplars
         then s\<lparr>se_errs := (se_errs s)[se_nErrs s := ex], se_nErrs := se_nErrs s + 1\<rparr>
         else s)"

definition toProto :: "exemplar \<Rightarrow> Exemplar" where
  "toProto e = \<lparr>x_AtMs = ex_atMs e, x_DurationNs = ex_durationNs e, x_StatusCode = ex_statusCode e,
     x_TraceId = ex_traceID e, x_SpanId = ex_spanID e, x_RequestId = ex_requestID e\<rparr>"

definition exemplars :: "series \<Rightarrow> Exemplar list" where
  "exemplars s =
     (if \<not> se_hasSlowest s \<and> se_nErrs s = 0 then []
      else (if se_hasSlowest s then [toProto (se_slowest s)] else []) @
        map toProto (filter (\<lambda>e. \<not> (se_hasSlowest s \<and> e = se_slowest s)) (take (se_nErrs s) (se_errs s))))"

definition hash_prime :: u32 where
  "hash_prime = 16777619"

definition hash_offset :: u32 where
  "hash_offset = 2166136261"

definition hash_string :: "u32 \<Rightarrow> string \<Rightarrow> u32" where
  "hash_string h s = fold (\<lambda>c h. (xor h (of_nat (of_char c))) * hash_prime) s h"

definition hash :: "seriesKey \<Rightarrow> u32" where
  "hash k =
     (let h = hash_string (hash_string hash_offset (k_method k)) (k_route k);
          c = word_of_int (StatusClass_num (k_class k)) :: u32;
          h = (xor h (and c 255)) * hash_prime
      in (xor h (and (drop_bit 8 c) 255)) * hash_prime)"

section \<open>Observing one request\<close>

definition keyOf :: "Record \<Rightarrow> seriesKey" where
  "keyOf r = \<lparr>k_method = rec_Method r, k_route = rec_RouteTemplate r, k_class = classify (rec_Status r)\<rparr>"

definition seconds :: "duration \<Rightarrow> float64" where
  "seconds d = Fin (real_of_int d / 10 ^ 9)"

text \<open>The part of \<open>Observe\<close> that runs under the shard's lock. The boolean is the recovered panic:
  a panic in the sketch leaves the counters that were already bumped.\<close>

definition series_observe :: "series \<Rightarrow> Record \<Rightarrow> instant \<Rightarrow> series \<times> bool" where
  "series_observe s r now =
     (let s = s\<lparr>se_count := se_count s + 1\<rparr>;
          s = (if rec_Duration r > 0
               then s\<lparr>se_sumDurationNs := se_sumDurationNs s + word_of_int (rec_Duration r)\<rparr> else s);
          s = (if rec_ReqBytes r > 0
               then s\<lparr>se_reqBytes := se_reqBytes s + word_of_int (rec_ReqBytes r)\<rparr> else s);
          s = (if rec_RespBytes r > 0
               then s\<lparr>se_respBytes := se_respBytes s + word_of_int (rec_RespBytes r)\<rparr> else s)
      in case sk_add (se_sk s) (seconds (rec_Duration r)) of
           None \<Rightarrow> (s, True)
         | Some sk \<Rightarrow>
             let s = s\<lparr>se_sk := sk\<rparr>;
                 s = s\<lparr>se_codes := recordCode (se_codes s) (rec_Status r)\<rparr>;
                 s = s\<lparr>se_errorClasses := recordErrorClass (se_errorClasses s) (rec_ErrorClass r)\<rparr>;
                 s = (if rec_Status r \<le> 0
                      then s\<lparr>se_noStatusReasons :=
                        recordNoStatusReason (se_noStatusReasons s) (rec_NoStatusReason r)\<rparr> else s);
                 s = (if rec_DownstreamDuration r > 0
                      then s\<lparr>se_sumDownstreamNs :=
                        se_sumDownstreamNs s + word_of_int (rec_DownstreamDuration r)\<rparr> else s)
             in (observeExemplar s r (exemplarOf r now), False))"

text \<open>A window of observations: every request with the instant its exemplar is stamped at.\<close>

definition series_observeAll :: "series \<Rightarrow> (Record \<times> instant) list \<Rightarrow> series" where
  "series_observeAll s obs = fold (\<lambda>(r, now) s. fst (series_observe s r now)) obs s"

section \<open>Normalised labels\<close>

definition labelChar :: "char \<Rightarrow> bool" where
  "labelChar c \<longleftrightarrow> (let n = of_char c :: nat in 65 \<le> n \<and> n \<le> 90 \<or> 48 \<le> n \<and> n \<le> 57)"

fun noRun :: "string \<Rightarrow> bool" where
  "noRun (a # b # s) \<longleftrightarrow> \<not> (a = CHR ''_'' \<and> b = CHR ''_'') \<and> noRun (b # s)"
| "noRun s \<longleftrightarrow> True"

definition normalLabel :: "string \<Rightarrow> bool" where
  "normalLabel s \<longleftrightarrow> length s \<le> maxErrorClassLen \<and> (\<forall>c \<in> set s. labelChar c \<or> c = CHR ''_'') \<and>
     noRun s \<and> (s \<noteq> [] \<longrightarrow> hd s \<noteq> CHR ''_'' \<and> last s \<noteq> CHR ''_'')"

lemma asciiUpperAlnum_Some:
  assumes "asciiUpperAlnum c = Some u"
  shows "labelChar u" and "u \<noteq> CHR ''_''"
proof -
  show "labelChar u"
    using assms by (auto simp: asciiUpperAlnum_def labelChar_def Let_def split: if_splits)
  then show "u \<noteq> CHR ''_''" by (auto simp: labelChar_def)
qed

lemma asciiUpperAlnum_labelChar: "labelChar c \<Longrightarrow> asciiUpperAlnum c = Some c"
  by (auto simp: labelChar_def asciiUpperAlnum_def Let_def)

lemma asciiUpperAlnum_underscore: "asciiUpperAlnum (CHR ''_'') = None"
  by (simp add: asciiUpperAlnum_def)

lemma noRun_snoc: "noRun (s @ [c]) \<longleftrightarrow> noRun s \<and> \<not> (s \<noteq> [] \<and> last s = CHR ''_'' \<and> c = CHR ''_'')"
  by (induction s rule: noRun.induct) auto

text \<open>The state of the loop: everything a normal label asks for but the last character, and the
  flag says whether that character is an underscore.\<close>

definition loopState :: "string \<Rightarrow> bool \<Rightarrow> bool" where
  "loopState b pu \<longleftrightarrow> length b \<le> maxErrorClassLen \<and> (\<forall>c \<in> set b. labelChar c \<or> c = CHR ''_'') \<and>
     noRun b \<and> (b \<noteq> [] \<longrightarrow> hd b \<noteq> CHR ''_'') \<and> (pu \<longleftrightarrow> b \<noteq> [] \<and> last b = CHR ''_'')"

lemma sanitizeLoop_state: "loopState b pu \<Longrightarrow> \<exists>pu'. loopState (sanitizeLoop s b pu) pu'"
proof (induction s b pu rule: sanitizeLoop.induct)
  case (2 c s b pu)
  have "loopState (b @ [u]) False" if "asciiUpperAlnum c = Some u" "length b < maxErrorClassLen" for u
    using 2(4) that asciiUpperAlnum_Some [OF that(1)]
    by (auto simp: loopState_def noRun_snoc hd_append)
  moreover have "loopState (b @ ''_'') True" if "\<not> pu" "b \<noteq> []" "length b < maxErrorClassLen"
    using 2(4) that by (auto simp: loopState_def noRun_snoc hd_append)
  ultimately show ?case using 2 by (auto split: option.splits)
qed auto

lemma trimRight_eq:
  assumes "noRun s"
  shows "trimRight (CHR ''_'') s = (if s \<noteq> [] \<and> last s = CHR ''_'' then butlast s else s)"
proof (cases s rule: rev_cases)
  case (snoc t c)
  with assms have "\<not> (t \<noteq> [] \<and> last t = CHR ''_'' \<and> c = CHR ''_'')" by (simp add: noRun_snoc)
  with snoc show ?thesis by (cases t rule: rev_cases) (auto simp: trimRight_def butlast_append)
qed (simp add: trimRight_def)

lemma loopState_trim: "loopState b pu \<Longrightarrow> normalLabel (trimRight (CHR ''_'') b)"
  by (cases b rule: rev_cases)
    (auto simp: loopState_def normalLabel_def trimRight_eq noRun_snoc hd_append split: if_splits)

lemma normalLabel_sanitize: "normalLabel (sanitizeErrorClass s)"
proof -
  have "loopState '''' False" by (simp add: loopState_def)
  from sanitizeLoop_state [OF this, of s] show ?thesis
    by (auto simp: sanitizeErrorClass_def loopState_trim) (simp add: normalLabel_def)
qed

lemma sanitizeLoop_normal:
  assumes "\<forall>c \<in> set s. labelChar c \<or> c = CHR ''_''" and "length b + length s \<le> maxErrorClassLen"
    and "noRun s" and "b = [] \<longrightarrow> s = [] \<or> hd s \<noteq> CHR ''_''" and "pu \<longrightarrow> s = [] \<or> hd s \<noteq> CHR ''_''"
  shows "sanitizeLoop s b pu = b @ s"
  using assms
proof (induction s arbitrary: b pu)
  case (Cons c s)
  have rest: "noRun s" "\<not> (c = CHR ''_'' \<and> s \<noteq> [] \<and> hd s = CHR ''_'')"
    using Cons.prems(3) by (cases s; auto)+
  show ?case
  proof (cases "c = CHR ''_''")
    case True
    then show ?thesis
      using Cons.prems Cons.IH [of "b @ ''_''" True] rest
      by (auto simp: asciiUpperAlnum_underscore)
  next
    case False
    then have "asciiUpperAlnum c = Some c" using Cons.prems(1) by (auto intro: asciiUpperAlnum_labelChar)
    then show ?thesis using Cons.prems Cons.IH [of "b @ [c]" False] rest by auto
  qed
qed simp

lemma sanitize_normal: "normalLabel s \<Longrightarrow> sanitizeErrorClass s = s"
  using sanitizeLoop_normal [of s "''''" False]
  by (auto simp: sanitizeErrorClass_def normalLabel_def trimRight_eq)

section \<open>Breakdown maps\<close>

definition codesOk :: "(u32, u64) gomap \<Rightarrow> bool" where
  "codesOk m \<longleftrightarrow> gomap_ok m \<and> length m \<le> maxStatusCodes"

definition classesOk :: "(string, u64) gomap \<Rightarrow> bool" where
  "classesOk m \<longleftrightarrow> gomap_ok m \<and> length m \<le> maxErrorClasses \<and>
     fst ` set m \<subseteq> {l. normalLabel l \<and> l \<noteq> ''''}"

definition reasonsOk :: "(u32, u64) gomap \<Rightarrow> bool" where
  "reasonsOk m \<longleftrightarrow> gomap_ok m \<and> fst ` set m \<subseteq> {..NoStatusOther}"

lemma length_bump: "length (bump k c m) = (if map_of m k = None then Suc (length m) else length m)"
  by (simp add: bump_def length_update)

lemma fst_set_bump: "fst ` set (bump k c m) = insert k (fst ` set m)"
  by (simp add: bump_def)

lemma codesOk_record: "codesOk m \<Longrightarrow> codesOk (recordCode m status)"
  by (auto simp: codesOk_def recordCode_def Let_def length_bump)

lemma classesOk_record: "classesOk m \<Longrightarrow> classesOk (recordErrorClass m raw)"
  using normalLabel_sanitize [of raw]
  by (simp add: classesOk_def recordErrorClass_def Let_def length_bump fst_set_bump)
    (force simp: map_of_eq_None_iff)

lemma reasonsOk_record: "reasonsOk m \<Longrightarrow> reasonsOk (recordNoStatusReason m r)"
  by (simp add: reasonsOk_def recordNoStatusReason_def fst_set_bump not_less)

section \<open>The invariant of a series\<close>

definition series_ok :: "series \<Rightarrow> bool" where
  "series_ok s \<longleftrightarrow> sk_wf (se_sk s) \<and> sk_count (se_sk s) = se_count s \<and>
     codesOk (se_codes s) \<and> classesOk (se_errorClasses s) \<and> reasonsOk (se_noStatusReasons s) \<and>
     length (se_errs s) = maxErrorExemplars \<and> se_nErrs s \<le> maxErrorExemplars \<and>
     (if se_hasSlowest s then ex_durationNs (se_slowest s) = se_maxDurationNs s
      else se_maxDurationNs s = 0 \<and> se_nErrs s = 0)"

lemma series_ok_new: "series_ok newSeries"
  by (simp add: series_ok_def newSeries_def sk_wf_new codesOk_def classesOk_def reasonsOk_def)
    (simp add: sk_new_def)

lemma observeExemplar_fields [simp]:
  "se_count (observeExemplar s r e) = se_count s"
  "se_sumDurationNs (observeExemplar s r e) = se_sumDurationNs s"
  "se_reqBytes (observeExemplar s r e) = se_reqBytes s"
  "se_respBytes (observeExemplar s r e) = se_respBytes s"
  "se_sk (observeExemplar s r e) = se_sk s"
  "se_codes (observeExemplar s r e) = se_codes s"
  "se_errorClasses (observeExemplar s r e) = se_errorClasses s"
  "se_noStatusReasons (observeExemplar s r e) = se_noStatusReasons s"
  "se_sumDownstreamNs (observeExemplar s r e) = se_sumDownstreamNs s"
  by (simp_all add: observeExemplar_def Let_def)

lemma observeExemplar_reservoir:
  "se_hasSlowest (observeExemplar s r e)"
  "se_maxDurationNs (observeExemplar s r e) = max (se_maxDurationNs s) (ex_durationNs e)"
  "se_slowest (observeExemplar s r e) =
     (if \<not> se_hasSlowest s \<or> ex_durationNs e > ex_durationNs (se_slowest s) then e else se_slowest s)"
  "se_nErrs (observeExemplar s r e) =
     (if isError (rec_Status r) \<and> se_nErrs s < maxErrorExemplars then Suc (se_nErrs s) else se_nErrs s)"
  "se_errs (observeExemplar s r e) =
     (if isError (rec_Status r) \<and> se_nErrs s < maxErrorExemplars
      then (se_errs s)[se_nErrs s := e] else se_errs s)"
  by (auto simp: observeExemplar_def Let_def max_def)

definition posWord :: "int \<Rightarrow> u64" where
  "posWord n = (if n > 0 then word_of_int n else 0)"

text \<open>One observation as one update of the record: the sketch never panics, so every branch of
  the body runs.\<close>

lemma series_positive_updates:
  "(if d > 0 then s\<lparr>se_sumDurationNs := se_sumDurationNs s + word_of_int d\<rparr> else s) =
     s\<lparr>se_sumDurationNs := se_sumDurationNs s + posWord d\<rparr>"
  "(if d > 0 then s\<lparr>se_reqBytes := se_reqBytes s + word_of_int d\<rparr> else s) =
     s\<lparr>se_reqBytes := se_reqBytes s + posWord d\<rparr>"
  "(if d > 0 then s\<lparr>se_respBytes := se_respBytes s + word_of_int d\<rparr> else s) =
     s\<lparr>se_respBytes := se_respBytes s + posWord d\<rparr>"
  "(if d > 0 then s\<lparr>se_sumDownstreamNs := se_sumDownstreamNs s + word_of_int d\<rparr> else s) =
     s\<lparr>se_sumDownstreamNs := se_sumDownstreamNs s + posWord d\<rparr>"
  "(if c then s\<lparr>se_noStatusReasons := m\<rparr> else s) =
     s\<lparr>se_noStatusReasons := if c then m else se_noStatusReasons s\<rparr>"
  by (simp_all add: posWord_def)

lemma series_observe_eq:
  "series_observe s r now =
     (observeExemplar
        (s\<lparr>se_count := se_count s + 1,
           se_sumDurationNs := se_sumDurationNs s + posWord (rec_Duration r),
           se_reqBytes := se_reqBytes s + posWord (rec_ReqBytes r),
           se_respBytes := se_respBytes s + posWord (rec_RespBytes r),
           se_sk := the (sk_add (se_sk s) (seconds (rec_Duration r))),
           se_codes := recordCode (se_codes s) (rec_Status r),
           se_errorClasses := recordErrorClass (se_errorClasses s) (rec_ErrorClass r),
           se_noStatusReasons := (if rec_Status r \<le> 0
              then recordNoStatusReason (se_noStatusReasons s) (rec_NoStatusReason r)
              else se_noStatusReasons s),
           se_sumDownstreamNs := se_sumDownstreamNs s + posWord (rec_DownstreamDuration r)\<rparr>)
        r (exemplarOf r now), False)"
  by (simp add: series_observe_def Let_def series_positive_updates sk_add_eq del: if_split)

lemma series_observe_fields:
  "snd (series_observe s r now) = False"
  "se_count (fst (series_observe s r now)) = se_count s + 1"
  "se_sumDurationNs (fst (series_observe s r now)) = se_sumDurationNs s + posWord (rec_Duration r)"
  "se_reqBytes (fst (series_observe s r now)) = se_reqBytes s + posWord (rec_ReqBytes r)"
  "se_respBytes (fst (series_observe s r now)) = se_respBytes s + posWord (rec_RespBytes r)"
  "se_sumDownstreamNs (fst (series_observe s r now)) = se_sumDownstreamNs s + posWord (rec_DownstreamDuration r)"
  "sk_add (se_sk s) (seconds (rec_Duration r)) = Some (se_sk (fst (series_observe s r now)))"
  "se_codes (fst (series_observe s r now)) = recordCode (se_codes s) (rec_Status r)"
  "se_errorClasses (fst (series_observe s r now)) = recordErrorClass (se_errorClasses s) (rec_ErrorClass r)"
  "se_noStatusReasons (fst (series_observe s r now)) =
     (if rec_Status r \<le> 0 then recordNoStatusReason (se_noStatusReasons s) (rec_NoStatusReason r)
      else se_noStatusReasons s)"
  by (simp_all add: series_observe_eq sk_add_eq)

lemma series_observe_reservoir:
  fixes s :: series and r :: Record and now :: instant
  defines "e \<equiv> exemplarOf r now"
  shows "se_hasSlowest (fst (series_observe s r now))"
  "se_maxDurationNs (fst (series_observe s r now)) = max (se_maxDurationNs s) (ex_durationNs e)"
  "se_slowest (fst (series_observe s r now)) =
     (if \<not> se_hasSlowest s \<or> ex_durationNs e > ex_durationNs (se_slowest s) then e else se_slowest s)"
  "se_nErrs (fst (series_observe s r now)) =
     (if isError (rec_Status r) \<and> se_nErrs s < maxErrorExemplars then Suc (se_nErrs s) else se_nErrs s)"
  "se_errs (fst (series_observe s r now)) =
     (if isError (rec_Status r) \<and> se_nErrs s < maxErrorExemplars
      then (se_errs s)[se_nErrs s := e] else se_errs s)"
  unfolding e_def by (simp_all add: series_observe_eq observeExemplar_reservoir)

lemma series_ok_observe:
  assumes "series_ok s"
  shows "series_ok (fst (series_observe s r now))"
proof -
  let ?s = "fst (series_observe s r now)"
  note f = series_observe_fields [of s r now] and v = series_observe_reservoir [of s r now]
  have "sk_wf (se_sk ?s)"
    using assms by (intro sk_wf_add [OF _ f(7)]) (simp add: series_ok_def)
  moreover have "sk_count (se_sk ?s) = se_count ?s"
    using assms by (simp add: series_ok_def series_observe_eq sk_add_eq)
  moreover have "codesOk (se_codes ?s)" "classesOk (se_errorClasses ?s)" "reasonsOk (se_noStatusReasons ?s)"
    using assms f by (auto simp: series_ok_def codesOk_record classesOk_record reasonsOk_record)
  moreover have "length (se_errs ?s) = maxErrorExemplars" "se_nErrs ?s \<le> maxErrorExemplars"
    using assms v by (auto simp: series_ok_def)
  moreover have "ex_durationNs (se_slowest ?s) = se_maxDurationNs ?s"
    using assms v by (auto simp: series_ok_def max_def split: if_splits)
  ultimately show ?thesis using v(1) by (simp add: series_ok_def)
qed

lemma series_observeAll_snoc:
  "series_observeAll s (obs @ [(r, now)]) = fst (series_observe (series_observeAll s obs) r now)"
  by (simp add: series_observeAll_def)

lemma series_observeAll_Nil [simp]: "series_observeAll s [] = s"
  by (simp add: series_observeAll_def)

lemma series_ok_observeAll: "series_ok s \<Longrightarrow> series_ok (series_observeAll s obs)"
  by (induction obs rule: rev_induct) (auto simp: series_observeAll_snoc intro: series_ok_observe)

section \<open>What a window adds up to\<close>

definition slowestOf :: "exemplar list \<Rightarrow> exemplar option" where
  "slowestOf es = fold (\<lambda>e m. case m of None \<Rightarrow> Some e
     | Some x \<Rightarrow> if ex_durationNs e > ex_durationNs x then Some e else Some x) es None"

abbreviation errorExemplars :: "(Record \<times> instant) list \<Rightarrow> exemplar list" where
  "errorExemplars obs \<equiv> map (\<lambda>(r, now). exemplarOf r now) (filter (\<lambda>(r, now). isError (rec_Status r)) obs)"

lemma observeAll_sums:
  "se_count (series_observeAll newSeries obs) = of_nat (length obs)"
  "se_sumDurationNs (series_observeAll newSeries obs) = sum_list (map (posWord \<circ> rec_Duration \<circ> fst) obs)"
  "se_reqBytes (series_observeAll newSeries obs) = sum_list (map (posWord \<circ> rec_ReqBytes \<circ> fst) obs)"
  "se_respBytes (series_observeAll newSeries obs) = sum_list (map (posWord \<circ> rec_RespBytes \<circ> fst) obs)"
  "se_sumDownstreamNs (series_observeAll newSeries obs) =
     sum_list (map (posWord \<circ> rec_DownstreamDuration \<circ> fst) obs)"
  by (induction obs rule: rev_induct)
    (auto simp: newSeries_def series_observeAll_snoc series_observe_fields)

lemma observeAll_sketch:
  "sk_feed sk_new (map (seconds \<circ> rec_Duration \<circ> fst) obs) = Some (se_sk (series_observeAll newSeries obs))"
proof (induction obs rule: rev_induct)
  case (snoc o' obs)
  obtain r now where "o' = (r, now)" by fastforce
  with snoc show ?case
    by (simp add: series_observeAll_snoc sk_feed_append series_observe_fields(7) [where now = now])
qed (simp add: newSeries_def)

lemma observeAll_slowest:
  "(if se_hasSlowest (series_observeAll newSeries obs) then Some (se_slowest (series_observeAll newSeries obs))
    else None) = slowestOf (map (\<lambda>(r, now). exemplarOf r now) obs)"
  by (induction obs rule: rev_induct)
    (auto simp: newSeries_def slowestOf_def series_observeAll_snoc series_observe_reservoir
      split: if_splits option.splits)

lemma take_update_snoc:
  "n < length xs \<Longrightarrow> take (Suc n) (xs[n := e]) = take n xs @ [e]"
  by (simp add: take_Suc_conv_app_nth)

lemma observeAll_errors:
  fixes obs :: "(Record \<times> instant) list"
  defines "s \<equiv> series_observeAll newSeries obs"
  shows "take (se_nErrs s) (se_errs s) = take maxErrorExemplars (errorExemplars obs) \<and>
    se_nErrs s = min maxErrorExemplars (length (errorExemplars obs))"
  unfolding s_def
proof (induction obs rule: rev_induct)
  case (snoc o' obs)
  obtain r now where o': "o' = (r, now)" by fastforce
  let ?s = "series_observeAll newSeries obs"
  have "length (se_errs ?s) = maxErrorExemplars"
    using series_ok_observeAll [OF series_ok_new, of obs] by (simp add: series_ok_def)
  with snoc show ?case
    by (auto simp: o' series_observeAll_snoc series_observe_reservoir take_update_snoc)
qed (simp add: newSeries_def)

lemma length_exemplars_le: "series_ok s \<Longrightarrow> length (exemplars s) \<le> 1 + maxErrorExemplars"
  by (auto simp: exemplars_def series_ok_def intro: le_trans [OF length_filter_le])

section \<open>Properties\<close>

text \<open>A stored error label is a bounded token of upper-case letters, digits and underscores,
  with no leading, trailing or repeated underscore, and normalisation is idempotent: it changes a
  label exactly when the label is not already normal.\<close>

theorem error_label_normal:
  "normalLabel (sanitizeErrorClass raw) \<and>
   sanitizeErrorClass (sanitizeErrorClass raw) = sanitizeErrorClass raw \<and>
   (sanitizeErrorClass raw = raw \<longleftrightarrow> normalLabel raw)"
  using normalLabel_sanitize [of raw] sanitize_normal by metis

text \<open>Whatever requests a window sees, a series stays within its bounds: at most
  \<open>maxStatusCodes\<close> exact codes, at most \<open>maxErrorClasses\<close> labels (all normal and non-empty),
  only enum values as no-status reasons, at most \<open>1 + maxErrorExemplars\<close> exemplars; its sketch is
  well-formed and counts as many requests as the series.\<close>

theorem series_bounded:
  fixes obs :: "(Record \<times> instant) list"
  defines "s \<equiv> series_observeAll newSeries obs"
  shows "codesOk (se_codes s) \<and> classesOk (se_errorClasses s) \<and> reasonsOk (se_noStatusReasons s) \<and>
    length (exemplars s) \<le> 1 + maxErrorExemplars \<and>
    sk_wf (se_sk s) \<and> sk_count (se_sk s) = se_count s"
  using series_ok_observeAll [OF series_ok_new, of obs] length_exemplars_le
  by (auto simp: s_def series_ok_def)

text \<open>A series is the exact aggregate of the requests it saw: its count, the sums of its
  positive durations and bytes (modulo $2^{64}$), the sketch of its latencies, the first slowest
  request with its duration as the maximum, and the first \<open>maxErrorExemplars\<close> failed requests.
  No observation panics.\<close>

theorem series_aggregates:
  fixes obs :: "(Record \<times> instant) list"
  defines "s \<equiv> series_observeAll newSeries obs"
  shows "se_count s = of_nat (length obs) \<and>
    se_sumDurationNs s = sum_list (map (posWord \<circ> rec_Duration \<circ> fst) obs) \<and>
    se_reqBytes s = sum_list (map (posWord \<circ> rec_ReqBytes \<circ> fst) obs) \<and>
    se_respBytes s = sum_list (map (posWord \<circ> rec_RespBytes \<circ> fst) obs) \<and>
    se_sumDownstreamNs s = sum_list (map (posWord \<circ> rec_DownstreamDuration \<circ> fst) obs) \<and>
    sk_feed sk_new (map (seconds \<circ> rec_Duration \<circ> fst) obs) = Some (se_sk s) \<and>
    (if se_hasSlowest s then Some (se_slowest s) else None) =
      slowestOf (map (\<lambda>(r, now). exemplarOf r now) obs) \<and>
    take (se_nErrs s) (se_errs s) = take maxErrorExemplars (errorExemplars obs) \<and>
    snd (series_observe s r now) = False"
  unfolding s_def
  using observeAll_sums [of obs] observeAll_sketch [of obs] observeAll_slowest [of obs]
    observeAll_errors [of obs] series_observe_fields(1) by blast

end
