(* ===== verification/Sampler.thy ===== *)
theory Sampler
  imports Wire
begin

text \<open>
  The per-window resource sampler, src/client/sampler.go, and the downstream-time accumulator,
  src/client/downstream.go. What the Go runtime and the operating system report is an argument (the
  record \<open>reading\<close>): \<open>runtime.MemStats\<close>, the CPU time, the live-heap metric (\<open>None\<close> when its
  kind is not \<open>uint64\<close>), the goroutine count, \<open>GOMAXPROCS\<close>, the resident size and the file
  descriptors.
\<close>

section \<open>The sampler\<close>

record reading =
  ms_PauseTotalNs :: u64
  ms_NumGC :: u32
  ms_TotalAlloc :: u64
  ms_Mallocs :: u64
  ms_Sys :: u64
  ms_HeapAlloc :: u64
  ms_HeapInuse :: u64
  ms_GCCPUFraction :: float64
  rd_cpuTimeNs :: u64
  rd_liveHeap :: "u64 option"
  rd_numGoroutine :: int
  rd_gomaxprocs :: int
  rd_rssBytes :: u64
  rd_fdStats :: "u64 \<times> u64"

record sampler =
  sp_prevPauseTotalNs :: u64
  sp_prevCPUNs :: u64
  sp_prevNumGC :: u64
  sp_prevTotalAlloc :: u64
  sp_prevMallocs :: u64
  sp_primed :: bool

definition sampler_zero :: sampler where
  "sampler_zero = \<lparr>sp_prevPauseTotalNs = 0, sp_prevCPUNs = 0, sp_prevNumGC = 0, sp_prevTotalAlloc = 0,
     sp_prevMallocs = 0, sp_primed = False\<rparr>"

definition sample :: "sampler \<Rightarrow> reading \<Rightarrow> instant \<Rightarrow> instant \<Rightarrow> u64 \<Rightarrow> sampler \<times> InstanceWindow" where
  "sample s rd start end' inFlight =
     (let cpu = rd_cpuTimeNs rd;
          postGCHeap = (case rd_liveHeap rd of Some v \<Rightarrow> v | None \<Rightarrow> 0);
          gcDelta = (if sp_primed s then ms_PauseTotalNs rd - sp_prevPauseTotalNs s else 0);
          cpuDelta = (if sp_primed s \<and> cpu \<ge> sp_prevCPUNs s then cpu - sp_prevCPUNs s else 0);
          numGCDelta = (if sp_primed s then ucast (ms_NumGC rd) - sp_prevNumGC s else 0);
          totalAllocDelta = (if sp_primed s then ms_TotalAlloc rd - sp_prevTotalAlloc s else 0);
          mallocsDelta = (if sp_primed s then ms_Mallocs rd - sp_prevMallocs s else 0);
          s' = \<lparr>sp_prevPauseTotalNs = ms_PauseTotalNs rd, sp_prevCPUNs = cpu,
                sp_prevNumGC = ucast (ms_NumGC rd), sp_prevTotalAlloc = ms_TotalAlloc rd,
                sp_prevMallocs = ms_Mallocs rd, sp_primed = True\<rparr>;
          (openFds, fdLimit) = rd_fdStats rd
      in (s',
          \<lparr>w_WindowStartMs = to_unix_milli start, w_WindowEndMs = to_unix_milli end', w_CpuNs = cpuDelta,
           w_RssBytes = ms_Sys rd, w_HeapAllocBytes = ms_HeapAlloc rd, w_GcPauseNs = gcDelta,
           w_Goroutines = word_of_int (rd_numGoroutine rd), w_NumGc = numGCDelta,
           w_TotalAllocBytes = totalAllocDelta, w_Mallocs = mallocsDelta,
           w_GcCpuFraction = ms_GCCPUFraction rd, w_HeapInuseBytes = ms_HeapInuse rd,
           w_Gomaxprocs = word_of_int (rd_gomaxprocs rd), w_PostGcHeapBytes = postGCHeap,
           w_RssTrueBytes = rd_rssBytes rd, w_OpenFds = openFds, w_FdLimit = fdLimit,
           w_InFlight = inFlight\<rparr>))"

text \<open>A sequence of samples of one process: each with its reading, window and in-flight peak.\<close>

fun samples :: "sampler \<Rightarrow> (reading \<times> instant \<times> instant \<times> u64) list \<Rightarrow> InstanceWindow list" where
  "samples s [] = []"
| "samples s ((rd, start, end', n) # ws) = (let (s', w) = sample s rd start end' n in w # samples s' ws)"

lemma sample_deltas:
  "sp_primed s \<Longrightarrow> w_GcPauseNs (snd (sample s rd a b n)) = ms_PauseTotalNs rd - sp_prevPauseTotalNs s"
  "sp_primed s \<Longrightarrow> w_TotalAllocBytes (snd (sample s rd a b n)) = ms_TotalAlloc rd - sp_prevTotalAlloc s"
  "sp_primed s \<Longrightarrow> w_Mallocs (snd (sample s rd a b n)) = ms_Mallocs rd - sp_prevMallocs s"
  "sp_primed s \<Longrightarrow> w_NumGc (snd (sample s rd a b n)) = ucast (ms_NumGC rd) - sp_prevNumGC s"
  "sp_primed s \<Longrightarrow> w_CpuNs (snd (sample s rd a b n)) =
     (if rd_cpuTimeNs rd \<ge> sp_prevCPUNs s then rd_cpuTimeNs rd - sp_prevCPUNs s else 0)"
  by (simp_all add: sample_def Let_def split: prod.split)

lemma sample_unprimed:
  assumes "\<not> sp_primed s"
  shows "w_GcPauseNs (snd (sample s rd a b n)) = 0" "w_TotalAllocBytes (snd (sample s rd a b n)) = 0"
    "w_Mallocs (snd (sample s rd a b n)) = 0" "w_NumGc (snd (sample s rd a b n)) = 0"
    "w_CpuNs (snd (sample s rd a b n)) = 0"
  using assms by (simp_all add: sample_def Let_def split: prod.split)

lemma sample_state:
  "fst (sample s rd a b n) = \<lparr>sp_prevPauseTotalNs = ms_PauseTotalNs rd, sp_prevCPUNs = rd_cpuTimeNs rd,
     sp_prevNumGC = ucast (ms_NumGC rd), sp_prevTotalAlloc = ms_TotalAlloc rd,
     sp_prevMallocs = ms_Mallocs rd, sp_primed = True\<rparr>"
  by (simp add: sample_def Let_def split: prod.split)

lemma samples_telescope:
  assumes "sp_primed s"
  shows "sum_list (map w_GcPauseNs (samples s ws)) =
      (if ws = [] then 0 else ms_PauseTotalNs (fst (last ws)) - sp_prevPauseTotalNs s)"
    and "sum_list (map w_TotalAllocBytes (samples s ws)) =
      (if ws = [] then 0 else ms_TotalAlloc (fst (last ws)) - sp_prevTotalAlloc s)"
    and "sum_list (map w_Mallocs (samples s ws)) =
      (if ws = [] then 0 else ms_Mallocs (fst (last ws)) - sp_prevMallocs s)"
  using assms
  by (induction ws arbitrary: s) (auto simp: sample_deltas sample_state split_def Let_def)

text \<open>The windows of a process report deltas: the first window reports zero for every
  cumulative counter, and over the following windows the GC pauses, the allocated bytes and the
  allocations add up exactly to what the runtime's counters gained since the first window.\<close>

theorem sampler_reports_deltas:
  "sum_list (map w_GcPauseNs (samples sampler_zero (w # ws))) =
     ms_PauseTotalNs (fst (last (w # ws))) - ms_PauseTotalNs (fst w) \<and>
   sum_list (map w_TotalAllocBytes (samples sampler_zero (w # ws))) =
     ms_TotalAlloc (fst (last (w # ws))) - ms_TotalAlloc (fst w) \<and>
   sum_list (map w_Mallocs (samples sampler_zero (w # ws))) =
     ms_Mallocs (fst (last (w # ws))) - ms_Mallocs (fst w) \<and>
   w_CpuNs (hd (samples sampler_zero (w # ws))) = 0 \<and> w_NumGc (hd (samples sampler_zero (w # ws))) = 0"
proof -
  obtain rd a b n where w: "w = (rd, a, b, n)" by (cases w) auto
  have "\<not> sp_primed sampler_zero" by (simp add: sampler_zero_def)
  moreover have "sp_primed (fst (sample sampler_zero rd a b n))" by (simp add: sample_state)
  ultimately show ?thesis
    using samples_telescope [of "fst (sample sampler_zero rd a b n)" ws]
    by (auto simp: w split_def Let_def sample_unprimed sample_state)
qed

section \<open>The downstream accumulator\<close>

text \<open>The accumulator of a request context: \<open>None\<close> when \<open>WithDownstreamTracking\<close> did not install
  one. Its counter is an atomic \<open>int64\<close>, so additions wrap.\<close>

type_synonym downstream = "int option"

definition WithDownstreamTracking :: downstream where
  "WithDownstreamTracking = Some 0"

definition addDownstream :: "downstream \<Rightarrow> duration \<Rightarrow> downstream" where
  "addDownstream acc d = (if d \<le> 0 then acc else map_option (\<lambda>ns. wrap64 (ns + d)) acc)"

definition DownstreamElapsed :: "downstream \<Rightarrow> duration" where
  "DownstreamElapsed acc = (case acc of Some ns \<Rightarrow> ns | None \<Rightarrow> 0)"

text \<open>\<open>RoundTrip\<close>: the wrapped transport is a parameter that gives the response or error and the
  instant it returns; the elapsed time is folded in on both outcomes.\<close>

definition RoundTrip :: "('req \<Rightarrow> 'resp \<times> instant) \<Rightarrow> instant \<Rightarrow> downstream \<Rightarrow> 'req \<Rightarrow> 'resp \<times> downstream" where
  "RoundTrip base start acc req =
     (let (resp, end') = base req in (resp, addDownstream acc (time_sub end' start)))"

lemma addDownstream_total:
  assumes "0 \<le> x" and "x + sum_list (map (max 0) ds) \<le> int64_max"
  shows "fold (\<lambda>d acc. addDownstream acc d) ds (Some x) = Some (x + sum_list (map (max 0) ds))"
  using assms
proof (induction ds arbitrary: x)
  case (Cons d ds)
  have "0 \<le> sum_list (map (max 0) ds)" by (rule sum_list_nonneg) auto
  with Cons show ?case
    by (cases "d \<le> 0") (auto simp: addDownstream_def go_defs)
qed simp

text \<open>On a tracked request the elapsed downstream time is the sum of the positive durations of
  its calls, in whatever order they end, as long as it fits an \<open>int64\<close>; an untracked request
  accumulates nothing.\<close>

theorem downstream_sum:
  assumes "sum_list (map (max 0) ds) \<le> int64_max"
  shows "DownstreamElapsed (fold (\<lambda>d acc. addDownstream acc d) ds WithDownstreamTracking) =
      sum_list (map (max 0) ds) \<and>
    fold (\<lambda>d acc. addDownstream acc d) ds None = None"
proof
  show "DownstreamElapsed (fold (\<lambda>d acc. addDownstream acc d) ds WithDownstreamTracking) =
      sum_list (map (max 0) ds)"
    using addDownstream_total [of 0 ds] assms by (simp add: WithDownstreamTracking_def DownstreamElapsed_def)
  show "fold (\<lambda>d acc. addDownstream acc d) ds None = None"
    by (induction ds) (auto simp: addDownstream_def)
qed

theorem downstream_sum_witness:
  "DownstreamElapsed (fold (\<lambda>d acc. addDownstream acc d) [3, - 2, 4] WithDownstreamTracking) = 7"
  using downstream_sum [of "[3, - 2, 4]"] by (simp add: go_defs)

end
