(* ===== verification/Ring.thy ===== *)
theory Ring
  imports Prelude
begin

text \<open>
  The pending-upload ring, src/client/internal/buffer/buffer.go: a fixed-capacity, drop-oldest
  ring of request pointers. A slot is an option (\<open>nil\<close> is \<open>None\<close>); \<open>head\<close> and
  \<open>count\<close> are natural numbers, which the invariant keeps inside the array.

  The contract the uploader relies on is the locale \<open>drop_oldest_queue\<close>: a bounded queue
  over lists whose \<open>push\<close> evicts the oldest element when full. The ring is an interpretation of
  it, with \<open>ring_list\<close> as the abstraction function.
\<close>

section \<open>The ring and its operations\<close>

record 'a ring =
  r_buf :: "'a option list"
  r_head :: nat
  r_count :: nat

definition ring_new :: "int \<Rightarrow> 'a ring" where
  "ring_new capacity =
     (let capacity = (if capacity < 1 then 1 else capacity) in
      \<lparr>r_buf = replicate (nat capacity) None, r_head = 0, r_count = 0\<rparr>)"

definition ring_push :: "'a ring \<Rightarrow> 'a \<Rightarrow> 'a ring \<times> 'a option" where
  "ring_push r req =
     (let full = (r_count r = length (r_buf r));
          evicted = (if full then r_buf r ! r_head r else None);
          r = (if full then
                 r\<lparr>r_buf := (r_buf r)[r_head r := None],
                   r_head := (r_head r + 1) mod length (r_buf r),
                   r_count := r_count r - 1\<rparr>
               else r);
          tail = (r_head r + r_count r) mod length (r_buf r)
      in (r\<lparr>r_buf := (r_buf r)[tail := Some req], r_count := r_count r + 1\<rparr>, evicted))"

definition ring_peek :: "'a ring \<Rightarrow> 'a option" where
  "ring_peek r = (if r_count r = 0 then None else r_buf r ! r_head r)"

definition ring_pop :: "'a ring \<Rightarrow> 'a ring \<times> 'a option" where
  "ring_pop r =
     (if r_count r = 0 then (r, None)
      else (r\<lparr>r_buf := (r_buf r)[r_head r := None],
              r_head := (r_head r + 1) mod length (r_buf r),
              r_count := r_count r - 1\<rparr>, r_buf r ! r_head r))"

definition ring_len :: "'a ring \<Rightarrow> nat" where
  "ring_len r = r_count r"

text \<open>The ring holds pointers: a caller that writes through the pointer \<open>Peek\<close> returned changes
  the request that stays in the oldest slot.\<close>

definition ring_write_oldest :: "('a \<Rightarrow> 'a) \<Rightarrow> 'a ring \<Rightarrow> 'a ring" where
  "ring_write_oldest f r =
     (if r_count r = 0 then r
      else r\<lparr>r_buf := (r_buf r)[r_head r := map_option f (r_buf r ! r_head r)]\<rparr>)"

section \<open>Invariant and abstraction\<close>

definition ring_pos :: "'a ring \<Rightarrow> nat \<Rightarrow> nat" where
  "ring_pos r i = (r_head r + i) mod length (r_buf r)"

definition ring_list :: "'a ring \<Rightarrow> 'a list" where
  "ring_list r = map (\<lambda>i. the (r_buf r ! ring_pos r i)) [0..<r_count r]"

definition ring_cap :: "'a ring \<Rightarrow> nat" where
  "ring_cap r = length (r_buf r)"

definition ring_inv :: "'a ring \<Rightarrow> bool" where
  "ring_inv r \<longleftrightarrow> r_head r < length (r_buf r) \<and> r_count r \<le> length (r_buf r) \<and>
     (\<forall>i < length (r_buf r). (r_buf r ! ring_pos r i \<noteq> None) = (i < r_count r))"

section \<open>The contract of a bounded drop-oldest queue\<close>

locale drop_oldest_queue =
  fixes push :: "'q \<Rightarrow> 'a \<Rightarrow> 'q \<times> 'a option"
    and peek :: "'q \<Rightarrow> 'a option"
    and pop :: "'q \<Rightarrow> 'q \<times> 'a option"
    and len :: "'q \<Rightarrow> nat"
    and write_oldest :: "('a \<Rightarrow> 'a) \<Rightarrow> 'q \<Rightarrow> 'q"
    and cap :: "'q \<Rightarrow> nat"
    and elems :: "'q \<Rightarrow> 'a list"
    and invar :: "'q \<Rightarrow> bool"
  assumes elems_push: "invar q \<Longrightarrow>
      elems (fst (push q x)) = (if length (elems q) = cap q then tl (elems q) else elems q) @ [x]"
    and evicted_push: "invar q \<Longrightarrow>
      snd (push q x) = (if length (elems q) = cap q then Some (hd (elems q)) else None)"
    and peek_elems: "invar q \<Longrightarrow> peek q = (case elems q of [] \<Rightarrow> None | x # _ \<Rightarrow> Some x)"
    and elems_pop: "invar q \<Longrightarrow> elems (fst (pop q)) = tl (elems q)"
    and popped: "invar q \<Longrightarrow> snd (pop q) = peek q"
    and len_elems: "invar q \<Longrightarrow> len q = length (elems q)"
    and elems_write: "invar q \<Longrightarrow>
      elems (write_oldest f q) = (case elems q of [] \<Rightarrow> [] | x # xs \<Rightarrow> f x # xs)"
    and cap_pos: "invar q \<Longrightarrow> 0 < cap q"
    and len_le_cap: "invar q \<Longrightarrow> length (elems q) \<le> cap q"
    and cap_push: "cap (fst (push q x)) = cap q"
    and cap_pop: "cap (fst (pop q)) = cap q"
    and cap_write: "cap (write_oldest f q) = cap q"
    and invar_push: "invar q \<Longrightarrow> invar (fst (push q x))"
    and invar_pop: "invar q \<Longrightarrow> invar (fst (pop q))"
    and invar_write: "invar q \<Longrightarrow> invar (write_oldest f q)"
begin

text \<open>Nothing disappears: what was queued and what is pushed is either still queued or evicted.
  The statement is about any additive weight of the elements.\<close>

lemma push_weight:
  assumes "invar q"
  shows "sum_list (map w (elems (fst (push q x)))) + (case snd (push q x) of None \<Rightarrow> 0 | Some y \<Rightarrow> w y) =
    sum_list (map w (elems q)) + (w x :: nat)"
proof (cases "length (elems q) = cap q")
  case True
  then have "elems q \<noteq> []" using cap_pos [OF assms] by auto
  then have "sum_list (map w (elems q)) = w (hd (elems q)) + sum_list (map w (tl (elems q)))"
    by (cases "elems q") auto
  with True show ?thesis by (simp add: elems_push [OF assms] evicted_push [OF assms])
next
  case False
  then show ?thesis by (simp add: elems_push [OF assms] evicted_push [OF assms])
qed

lemma pop_weight:
  assumes "invar q" and "peek q = Some x"
  shows "sum_list (map w (elems (fst (pop q)))) + w x = (sum_list (map w (elems q)) :: nat)"
  using assms(2) by (cases "elems q") (auto simp: peek_elems [OF assms(1)] elems_pop [OF assms(1)])

lemma write_weight:
  assumes "invar q" and "\<And>x. w (f x) = w x"
  shows "sum_list (map w (elems (write_oldest f q))) = (sum_list (map w (elems q)) :: nat)"
  by (simp add: elems_write [OF assms(1)] assms(2) split: list.split)

lemma peek_write:
  assumes "invar q"
  shows "peek (write_oldest f q) = map_option f (peek q)"
  using peek_elems [OF assms] peek_elems [OF invar_write [OF assms], of f] elems_write [OF assms, of f]
  by (simp split: list.splits)

lemma len_push:
  assumes "invar q"
  shows "len (fst (push q x)) = min (cap q) (Suc (len q))"
proof -
  have "length (elems q) \<le> cap q" "0 < cap q" using assms by (rule len_le_cap, rule cap_pos)
  then show ?thesis
    using assms invar_push [OF assms, of x]
    by (auto simp: len_elems elems_push min_def)
qed

text \<open>Pushing a sequence without popping keeps exactly its newest elements, in order.\<close>

lemma pushes_keep_newest:
  assumes "invar q"
  shows "invar (fold (\<lambda>x q. fst (push q x)) xs q) \<and> cap (fold (\<lambda>x q. fst (push q x)) xs q) = cap q \<and>
    elems (fold (\<lambda>x q. fst (push q x)) xs q) =
      drop (length (elems q) + length xs - cap q) (elems q @ xs)"
  using assms
proof (induction xs arbitrary: q)
  case Nil
  then show ?case using len_le_cap [OF Nil] by simp
next
  case (Cons x xs)
  let ?q = "fst (push q x)"
  have IH: "elems (fold (\<lambda>x q. fst (push q x)) xs ?q) =
      drop (length (elems ?q) + length xs - cap q) (elems ?q @ xs)"
    "invar (fold (\<lambda>x q. fst (push q x)) xs ?q)" "cap (fold (\<lambda>x q. fst (push q x)) xs ?q) = cap q"
    using Cons.IH [OF invar_push [OF Cons.prems]] by (auto simp: cap_push)
  have le: "length (elems q) \<le> cap q" "0 < cap q" using Cons.prems by (rule len_le_cap, rule cap_pos)
  show ?case
  proof (cases "length (elems q) = cap q")
    case True
    then obtain y ys where "elems q = y # ys" using le by (cases "elems q") auto
    with True IH show ?thesis by (auto simp: elems_push [OF Cons.prems] simp flip: True)
  next
    case False
    then show ?thesis using IH le by (simp add: elems_push [OF Cons.prems])
  qed
qed

end

section \<open>The ring implements the contract\<close>

lemma ring_pos_less: "0 < length (r_buf r) \<Longrightarrow> ring_pos r i < length (r_buf r)"
  by (simp add: ring_pos_def)

lemma mod_add_inj:
  fixes h i j n :: nat
  assumes "i < n" and "j < n" and "(h + i) mod n = (h + j) mod n"
  shows "i = j"
proof -
  have "a = b" if "a \<le> b" and "b < n" and "(h + a) mod n = (h + b) mod n" for a b
  proof -
    have "n dvd (h + b) - (h + a)"
      using that mod_eq_dvd_iff_nat [of "h + a" "h + b" n] by simp
    with that show ?thesis by (auto dest: dvd_imp_le)
  qed
  from this [of i j] this [of j i] assms show ?thesis by (cases "i \<le> j") auto
qed

lemma ring_pos_inj:
  "i < length (r_buf r) \<Longrightarrow> j < length (r_buf r) \<Longrightarrow> ring_pos r i = ring_pos r j \<longleftrightarrow> i = j"
  using mod_add_inj [of i "length (r_buf r)" j "r_head r"] by (auto simp: ring_pos_def)

lemma ring_pos_0: "r_head r < length (r_buf r) \<Longrightarrow> ring_pos r 0 = r_head r"
  by (simp add: ring_pos_def)

lemma ring_inv_new: "ring_inv (ring_new c)"
  by (simp add: ring_inv_def ring_new_def ring_pos_def Let_def)

lemma ring_list_new: "ring_list (ring_new c) = []"
  by (simp add: ring_list_def ring_new_def Let_def)

lemma ring_cap_new: "ring_cap (ring_new c) = nat (max 1 c)"
  by (auto simp: ring_cap_def ring_new_def Let_def max_def)

lemma ring_slot_Some: "ring_inv r \<Longrightarrow> i < r_count r \<Longrightarrow> \<exists>x. r_buf r ! ring_pos r i = Some x"
  by (auto simp: ring_inv_def)

lemma length_ring_list [simp]: "length (ring_list r) = r_count r"
  by (simp add: ring_list_def)

lemma ring_list_empty: "r_count r = 0 \<Longrightarrow> ring_list r = []"
  by (simp add: ring_list_def)

lemma ring_list_nth: "i < r_count r \<Longrightarrow> ring_list r ! i = the (r_buf r ! ring_pos r i)"
  by (simp add: ring_list_def)

lemma ring_slot_list: "ring_inv r \<Longrightarrow> i < r_count r \<Longrightarrow> r_buf r ! ring_pos r i = Some (ring_list r ! i)"
  using ring_slot_Some [of r i] by (auto simp: ring_list_nth)

subsection \<open>Advancing the head\<close>

definition ring_advance :: "'a ring \<Rightarrow> 'a ring" where
  "ring_advance r = r\<lparr>r_buf := (r_buf r)[r_head r := None],
     r_head := (r_head r + 1) mod length (r_buf r), r_count := r_count r - 1\<rparr>"

lemma ring_pos_advance:
  assumes "i < length (r_buf r)" and "r_head r < length (r_buf r)"
  shows "ring_pos (ring_advance r) i =
    (if Suc i < length (r_buf r) then ring_pos r (Suc i) else r_head r)"
proof (cases "Suc i < length (r_buf r)")
  case False
  with assms have "length (r_buf r) = Suc i" by simp
  moreover have "Suc (r_head r + i) mod Suc i = r_head r"
    using assms calculation by (metis add_Suc_right mod_add_self2 mod_less)
  ultimately show ?thesis
    by (simp add: ring_pos_def ring_advance_def mod_simps)
qed (simp add: ring_pos_def ring_advance_def mod_simps)

lemma ring_advance_slot:
  assumes "ring_inv r" and "i < length (r_buf r)"
  shows "r_buf (ring_advance r) ! ring_pos (ring_advance r) i =
    (if Suc i < length (r_buf r) then r_buf r ! ring_pos r (Suc i) else None)"
proof -
  have h: "r_head r < length (r_buf r)" using assms(1) by (simp add: ring_inv_def)
  have "ring_pos r (Suc i) \<noteq> r_head r" if "Suc i < length (r_buf r)"
    using ring_pos_inj [OF that, of 0] h that by (cases "r_buf r") (auto simp: ring_pos_0)
  then show ?thesis
    using h ring_pos_advance [OF assms(2) h] by (auto simp: ring_advance_def)
qed

lemma ring_inv_advance:
  assumes "ring_inv r" and "r_count r \<noteq> 0"
  shows "ring_inv (ring_advance r)"
proof -
  let ?r = "ring_advance r"
  have n: "length (r_buf ?r) = length (r_buf r)" "r_count ?r = r_count r - 1"
    by (simp_all add: ring_advance_def)
  have "(r_buf ?r ! ring_pos ?r i \<noteq> None) = (i < r_count r - 1)" if "i < length (r_buf r)" for i
    using assms that by (auto simp: ring_advance_slot ring_inv_def)
  moreover have "r_head ?r < length (r_buf r)"
    using assms by (auto simp: ring_advance_def ring_inv_def intro!: mod_less_divisor)
  ultimately show ?thesis using assms n by (auto simp: ring_inv_def)
qed

lemma ring_list_advance:
  assumes "ring_inv r" and "r_count r \<noteq> 0"
  shows "ring_list (ring_advance r) = tl (ring_list r)"
proof (rule nth_equalityI)
  show "length (ring_list (ring_advance r)) = length (tl (ring_list r))"
    by (simp add: ring_advance_def)
  fix i assume "i < length (ring_list (ring_advance r))"
  then have i: "Suc i < r_count r" by (simp add: ring_advance_def)
  moreover have "r_count r \<le> length (r_buf r)" using assms by (simp add: ring_inv_def)
  moreover have "r_count (ring_advance r) = r_count r - 1" by (simp add: ring_advance_def)
  ultimately show "ring_list (ring_advance r) ! i = tl (ring_list r) ! i"
    using assms(1) by (simp add: ring_list_nth ring_advance_slot nth_tl)
qed

lemma ring_pop_eq:
  "ring_pop r = (if r_count r = 0 then (r, None) else (ring_advance r, r_buf r ! r_head r))"
  by (simp add: ring_pop_def ring_advance_def)

subsection \<open>Appending at the tail\<close>

definition ring_append :: "'a ring \<Rightarrow> 'a \<Rightarrow> 'a ring" where
  "ring_append r x = r\<lparr>r_buf := (r_buf r)[ring_pos r (r_count r) := Some x], r_count := r_count r + 1\<rparr>"

lemma ring_push_eq:
  "ring_push r x =
     (if r_count r = length (r_buf r) then (ring_append (ring_advance r) x, r_buf r ! r_head r)
      else (ring_append r x, None))"
  by (simp add: ring_push_def ring_append_def ring_advance_def ring_pos_def Let_def)

lemma ring_append_slot:
  assumes "ring_inv r" and "r_count r < length (r_buf r)" and "i < length (r_buf r)"
  shows "r_buf (ring_append r x) ! ring_pos r i = (if i = r_count r then Some x else r_buf r ! ring_pos r i)"
proof -
  have "ring_pos r (r_count r) < length (r_buf r)" using assms(2) by (intro ring_pos_less) auto
  then show ?thesis
    using assms ring_pos_inj [of i r "r_count r"] by (auto simp: ring_append_def)
qed

lemma ring_pos_append: "ring_pos (ring_append r x) = ring_pos r"
  by (simp add: ring_pos_def ring_append_def fun_eq_iff)

lemma ring_inv_append:
  assumes "ring_inv r" and "r_count r < length (r_buf r)"
  shows "ring_inv (ring_append r x)"
proof -
  have "length (r_buf (ring_append r x)) = length (r_buf r)" "r_count (ring_append r x) = Suc (r_count r)"
    "r_head (ring_append r x) = r_head r"
    by (simp_all add: ring_append_def)
  then show ?thesis
    using assms ring_append_slot [OF assms, of _ x] by (auto simp: ring_inv_def ring_pos_append less_Suc_eq)
qed

lemma ring_list_append:
  assumes "ring_inv r" and "r_count r < length (r_buf r)"
  shows "ring_list (ring_append r x) = ring_list r @ [x]"
proof (rule nth_equalityI)
  have c: "r_count (ring_append r x) = Suc (r_count r)" by (simp add: ring_append_def)
  then show "length (ring_list (ring_append r x)) = length (ring_list r @ [x])" by simp
  fix i assume "i < length (ring_list (ring_append r x))"
  with c have "i < Suc (r_count r)" by simp
  then show "ring_list (ring_append r x) ! i = (ring_list r @ [x]) ! i"
    using assms c ring_append_slot [OF assms, of i x]
    by (auto simp: ring_list_nth ring_pos_append nth_append less_Suc_eq)
qed

subsection \<open>Writing through the oldest pointer\<close>

lemma ring_write_slot:
  assumes "ring_inv r" and "r_count r \<noteq> 0" and "i < length (r_buf r)"
  shows "r_buf (ring_write_oldest f r) ! ring_pos r i =
    (if i = 0 then map_option f (r_buf r ! r_head r) else r_buf r ! ring_pos r i)"
proof -
  have h: "r_head r < length (r_buf r)" using assms(1) by (simp add: ring_inv_def)
  moreover have "ring_pos r i = r_head r \<longleftrightarrow> i = 0"
    using ring_pos_inj [OF assms(3), of 0] h ring_pos_0 [OF h] by (cases "r_buf r") auto
  ultimately show ?thesis using assms by (auto simp: ring_write_oldest_def)
qed

lemma ring_write_fields:
  "length (r_buf (ring_write_oldest f r)) = length (r_buf r)" "r_count (ring_write_oldest f r) = r_count r"
  "r_head (ring_write_oldest f r) = r_head r" "ring_pos (ring_write_oldest f r) = ring_pos r"
  by (simp_all add: ring_write_oldest_def ring_pos_def fun_eq_iff)

lemma ring_inv_write: "ring_inv r \<Longrightarrow> ring_inv (ring_write_oldest f r)"
proof (cases "r_count r = 0")
  case False
  assume inv: "ring_inv r"
  then have "r_buf r ! r_head r \<noteq> None" using False ring_slot_Some [OF inv, of 0] by (auto simp: ring_inv_def ring_pos_0)
  with inv show ?thesis
    using ring_write_slot [OF inv False, of _ f] False by (auto simp: ring_inv_def ring_write_fields)
qed (simp add: ring_write_oldest_def)

lemma ring_list_write:
  assumes "ring_inv r"
  shows "ring_list (ring_write_oldest f r) = (case ring_list r of [] \<Rightarrow> [] | x # xs \<Rightarrow> f x # xs)"
proof (cases "r_count r = 0")
  case False
  have h: "r_head r < length (r_buf r)" "r_count r \<le> length (r_buf r)" using assms by (simp_all add: ring_inv_def)
  have "ring_list (ring_write_oldest f r) = (ring_list r)[0 := f (ring_list r ! 0)]"
  proof (rule nth_equalityI)
    fix i assume "i < length (ring_list (ring_write_oldest f r))"
    then have i: "i < r_count r" by (simp add: ring_write_fields)
    then have "r_buf (ring_write_oldest f r) ! ring_pos r i =
        (if i = 0 then Some (f (ring_list r ! 0)) else Some (ring_list r ! i))"
      using ring_write_slot [OF assms False, of i f] h ring_slot_list [OF assms i]
        ring_slot_list [OF assms, of 0] False by (auto simp: ring_pos_0)
    with i False show "ring_list (ring_write_oldest f r) ! i = (ring_list r)[0 := f (ring_list r ! 0)] ! i"
      by (auto simp: ring_list_nth ring_write_fields)
  qed (simp add: ring_write_fields)
  moreover obtain y ys where "ring_list r = y # ys"
    using False by (cases "ring_list r") (auto dest: arg_cong [where f = length])
  ultimately show ?thesis by simp
qed (simp add: ring_write_oldest_def ring_list_def)

lemma ring_inv_push: "ring_inv r \<Longrightarrow> ring_inv (fst (ring_push r x))"
proof (cases "r_count r = length (r_buf r)")
  case True
  assume inv: "ring_inv r"
  then have "r_count r \<noteq> 0" using True by (auto simp: ring_inv_def)
  then have "r_count (ring_advance r) < length (r_buf (ring_advance r))"
    using True by (simp add: ring_advance_def)
  then show ?thesis using True inv \<open>r_count r \<noteq> 0\<close>
    by (simp add: ring_push_eq ring_inv_append ring_inv_advance)
next
  case False
  assume "ring_inv r"
  with False show ?thesis
    by (simp add: ring_push_eq) (rule ring_inv_append, auto simp: ring_inv_def)
qed

interpretation rg: drop_oldest_queue ring_push ring_peek ring_pop ring_len ring_write_oldest
  ring_cap ring_list ring_inv
proof (unfold_locales, goal_cases)
  case (1 q x)
  then have "0 < length (r_buf q)" by (auto simp: ring_inv_def)
  moreover have "r_count q \<le> length (r_buf q)" using 1 by (simp add: ring_inv_def)
  moreover have "r_count (ring_advance q) < length (r_buf (ring_advance q))"
    if "r_count q = length (r_buf q)" using that 1 by (auto simp: ring_advance_def ring_inv_def)
  ultimately show ?case
    using 1 by (auto simp: ring_push_eq ring_cap_def ring_list_append ring_list_advance ring_inv_advance)
next
  case (2 q x)
  then have h: "r_head q < length (r_buf q)" by (simp add: ring_inv_def)
  have "r_buf q ! r_head q = Some (hd (ring_list q))" if "r_count q = length (r_buf q)"
    using ring_slot_list [OF 2, of 0] h that ring_pos_0 [OF h]
    by (cases "ring_list q"; cases "r_buf q") (auto simp: hd_conv_nth dest: arg_cong [where f = length])
  then show ?case by (auto simp: ring_push_eq ring_cap_def)
next
  case (3 q)
  have "r_buf q ! r_head q = Some (ring_list q ! 0)" if "r_count q \<noteq> 0"
    using 3 that ring_slot_list [OF 3, of 0] by (simp add: ring_inv_def ring_pos_0)
  then show ?case
    by (cases "ring_list q") (auto simp: ring_peek_def dest: arg_cong [where f = length])
next
  case (4 q)
  then show ?case by (auto simp: ring_pop_eq ring_list_advance ring_list_empty)
next
  case (5 q)
  then show ?case by (auto simp: ring_pop_eq ring_peek_def)
next
  case (6 q)
  then show ?case by (simp add: ring_len_def)
next
  case (7 q f)
  then show ?case by (rule ring_list_write)
next
  case (8 q)
  then show ?case by (auto simp: ring_inv_def ring_cap_def)
next
  case (9 q)
  then show ?case by (simp add: ring_inv_def ring_cap_def)
next
  case (10 q x)
  then show ?case by (simp add: ring_cap_def ring_push_eq ring_append_def ring_advance_def)
next
  case (11 q)
  then show ?case by (simp add: ring_cap_def ring_pop_eq ring_advance_def)
next
  case (12 f q)
  then show ?case by (simp add: ring_cap_def ring_write_fields)
next
  case (13 q x)
  then show ?case by (rule ring_inv_push)
next
  case (14 q)
  then show ?case by (auto simp: ring_pop_eq ring_inv_advance)
next
  case (15 q f)
  then show ?case by (rule ring_inv_write)
qed

section \<open>What the uploader gets\<close>

text \<open>C18. The ring refines the bounded drop-oldest queue: on every ring the code can build, a push
  appends the request and evicts the oldest one exactly when the ring is full, returning it; peek
  and pop give the oldest request, pop removes it and nothing else; the length is the number of
  pending requests, and every operation keeps the invariant (the window of \<open>count\<close> slots from
  \<open>head\<close> is filled and every other slot is nil).\<close>

theorem ring_refines_queue:
  assumes "ring_inv r"
  shows "ring_inv (fst (ring_push r x)) \<and> ring_inv (fst (ring_pop r)) \<and>
    ring_list (fst (ring_push r x)) =
      (if ring_len r = ring_cap r then tl (ring_list r) else ring_list r) @ [x] \<and>
    snd (ring_push r x) = (if ring_len r = ring_cap r then Some (hd (ring_list r)) else None) \<and>
    ring_list (fst (ring_pop r)) = tl (ring_list r) \<and>
    snd (ring_pop r) = ring_peek r \<and>
    ring_peek r = (case ring_list r of [] \<Rightarrow> None | y # _ \<Rightarrow> Some y)"
  using assms
  by (simp add: rg.invar_push rg.invar_pop rg.elems_push rg.evicted_push rg.elems_pop rg.popped
      rg.peek_elems ring_len_def)

theorem ring_refines_queue_witness:
  "let r = fst (ring_push (fst (ring_push (ring_new 2) (1::nat))) 2) in
     ring_list (fst (ring_push r 3)) = [2, 3] \<and> snd (ring_push r 3) = Some 1"
proof -
  let ?r = "fst (ring_push (fst (ring_push (ring_new 2) (1::nat))) 2)"
  have inv: "ring_inv ?r" by (intro rg.invar_push ring_inv_new)
  have "ring_len ?r = ring_cap ?r" "ring_list ?r = [1, 2]"
    by (simp_all add: ring_new_def ring_push_def ring_len_def ring_cap_def ring_list_def ring_pos_def
        numeral_2_eq_2 upt_rec)
  with ring_refines_queue [OF inv, of 3] show ?thesis by (simp add: Let_def)
qed

text \<open>Whatever is pushed into a new ring of any requested capacity \<open>c\<close> while uploads fail, the
  ring holds exactly the newest \<open>max 1 c\<close> requests, oldest first.\<close>

theorem ring_keeps_newest:
  "ring_list (fold (\<lambda>x r. fst (ring_push r x)) xs (ring_new c)) = drop (length xs - nat (max 1 c)) xs"
  using rg.pushes_keep_newest [OF ring_inv_new, of xs c]
  by (simp add: ring_list_new ring_cap_new)

end
