(* ===== verification/Recorder.thy ===== *)
theory Recorder
  imports Time_Series Sampler Ring
begin

text \<open>
  The recorder of src/client/maping.go and the flush path of src/client/uploader.go: the sharded
  aggregation map, \<open>Observe\<close>, the in-flight gauge, the swap of the shards and the request built
  from a swapped window.

  The state of a recorder is one record. \<open>active\<close> is \<open>tx \<noteq> nil\<close>; every clock reading and
  every reading of the runtime is an argument. A shard is a Go map, and the order of its list is the
  iteration order.
\<close>

section \<open>Configuration and state\<close>

record Config =
  c_Key :: string
  c_Endpoint :: string
  c_Service :: string
  c_Instance :: string
  c_FlushWindow :: duration
  c_DeployVersion :: string
  c_DeployID :: string
  c_Environment :: string
  c_Region :: string

definition SdkVersion :: string where
  "SdkVersion = ''0.1.0''"

definition SketchFormatVersion :: u32 where
  "SketchFormatVersion = 1"

definition numShards :: nat where
  "numShards = 16"

definition shardMask :: u32 where
  "shardMask = 15"

definition minRingCapacity :: int where
  "minRingCapacity = 8"

definition ringWindowsSpan :: int where
  "ringWindowsSpan = 300"

record recorder =
  rc_cfg :: Config
  rc_active :: bool
  rc_startTime :: instant
  rc_shards :: "(seriesKey, series) gomap list"
  rc_sampler :: sampler
  rc_ring :: "UploadRequest ring"
  rc_dropped :: u64
  rc_closed :: bool
  rc_inFlight :: int
  rc_inFlightPeak :: int

definition ringCapacity :: "duration \<Rightarrow> int" where
  "ringCapacity flushWindow =
     (let secs = max (quot flushWindow second) 1
      in max minRingCapacity (quot ringWindowsSpan secs))"

definition newRecorderWithTransport :: "Config \<Rightarrow> instant \<Rightarrow> recorder" where
  "newRecorderWithTransport cfg now =
     \<lparr>rc_cfg = cfg, rc_active = True, rc_startTime = now, rc_shards = replicate numShards [],
      rc_sampler = sampler_zero, rc_ring = ring_new (ringCapacity (c_FlushWindow cfg)), rc_dropped = 0,
      rc_closed = False, rc_inFlight = 0, rc_inFlightPeak = 0\<rparr>"

section \<open>Observe\<close>

definition shardOf :: "seriesKey \<Rightarrow> nat" where
  "shardOf k = unat (and (hash k) shardMask)"

definition Observe :: "recorder \<Rightarrow> Record \<Rightarrow> instant \<Rightarrow> recorder" where
  "Observe r rec now =
     (if \<not> rc_active r \<or> rc_closed r then r
      else
        let key = keyOf rec;
            i = shardOf key;
            sh = rc_shards r ! i;
            s = (case map_of sh key of None \<Rightarrow> newSeries | Some s \<Rightarrow> s);
            (s', panicked) = series_observe s rec now
        in r\<lparr>rc_shards := (rc_shards r)[i := AList.update key s' sh]\<rparr>)"

section \<open>The in-flight gauge, one call at a time\<close>

definition BeginRequest :: "recorder \<Rightarrow> recorder" where
  "BeginRequest r =
     (let n = rc_inFlight r + 1; p = rc_inFlightPeak r
      in r\<lparr>rc_inFlight := n, rc_inFlightPeak := (if n \<le> p then p else n)\<rparr>)"

definition endRequest :: "recorder \<Rightarrow> recorder" where
  "endRequest r = r\<lparr>rc_inFlight := rc_inFlight r - 1\<rparr>"

definition takeInFlightPeak :: "recorder \<Rightarrow> recorder \<times> u64" where
  "takeInFlightPeak r = (r\<lparr>rc_inFlightPeak := rc_inFlight r\<rparr>, word_of_int (rc_inFlightPeak r))"

section \<open>Flushing a window\<close>

definition maps_Copy :: "('k, 'v) gomap \<Rightarrow> ('k, 'v) gomap \<Rightarrow> ('k, 'v) gomap" where
  "maps_Copy dst src = fold (\<lambda>(k, v) m. AList.update k v m) src dst"

definition swapShards :: "recorder \<Rightarrow> recorder \<times> (seriesKey, series) gomap" where
  "swapShards r =
     (r\<lparr>rc_shards := map (\<lambda>old. if length old > 0 then [] else old) (rc_shards r)\<rparr>,
      fold (\<lambda>old merged. maps_Copy merged old) (rc_shards r) [])"

definition summaryOf :: "int \<Rightarrow> int \<Rightarrow> seriesKey \<times> series \<Rightarrow> Summary" where
  "summaryOf startMs endMs ks =
     (case ks of (key, s) \<Rightarrow>
       \<lparr>m_WindowStartMs = startMs, m_WindowEndMs = endMs, m_Method = k_method key,
        m_RouteTemplate = k_route key, m_StatusClass = k_class key, m_Count = se_count s,
        m_SumDurationNs = se_sumDurationNs s, m_ReqBytes = se_reqBytes s, m_RespBytes = se_respBytes s,
        m_LatencySketch = sk_Buckets (se_sk s), m_StatusCodeBreakdown = se_codes s,
        m_MaxDurationNs = se_maxDurationNs s, m_Exemplars = exemplars s,
        m_ErrorClassBreakdown = se_errorClasses s, m_NoStatusReasons = se_noStatusReasons s,
        m_SumDownstreamDurationNs = se_sumDownstreamNs s\<rparr>)"

definition buildRequest ::
  "recorder \<Rightarrow> (seriesKey, series) gomap \<Rightarrow> instant \<Rightarrow> reading \<Rightarrow> recorder \<times> UploadRequest" where
  "buildRequest r window end' rd =
     (let start = end' + neg64 (c_FlushWindow (rc_cfg r));
          startMs = to_unix_milli start;
          endMs = to_unix_milli end';
          summaries = map (summaryOf startMs endMs) window;
          (r1, peak) = takeInFlightPeak r;
          (sp, iw) = sample (rc_sampler r1) rd start end' peak;
          r2 = r1\<lparr>rc_sampler := sp\<rparr>
      in (r2,
          \<lparr>u_Envelope =
             \<lparr>e_Service = c_Service (rc_cfg r), e_Instance = c_Instance (rc_cfg r),
              e_SdkVersion = SdkVersion, e_SketchFormatVersion = SketchFormatVersion,
              e_DroppedSummaries = 0, e_DeployVersion = c_DeployVersion (rc_cfg r),
              e_DeployId = c_DeployID (rc_cfg r), e_Environment = c_Environment (rc_cfg r),
              e_Region = c_Region (rc_cfg r),
              e_InstanceStartTimeMs = to_unix_milli (rc_startTime r)\<rparr>,
           u_Summaries = summaries,
           u_InstanceWindows = [iw]\<rparr>))"

definition flush :: "recorder \<Rightarrow> instant \<Rightarrow> reading \<Rightarrow> recorder \<times> bool" where
  "flush r windowEnd rd =
     (let (r1, swapped) = swapShards r in
      if length swapped = 0 then (r1, False)
      else
        let (r2, req) = buildRequest r1 swapped windowEnd rd;
            (ring', evicted) = ring_push (rc_ring r2) req;
            r3 = r2\<lparr>rc_ring := ring'\<rparr>
        in (case evicted of
              None \<Rightarrow> r3
            | Some ev \<Rightarrow> r3\<lparr>rc_dropped := rc_dropped r3 + of_nat (length (u_Summaries ev))\<rparr>,
            True))"

definition handshake :: "recorder \<Rightarrow> Handshake" where
  "handshake r = \<lparr>h_Service = c_Service (rc_cfg r), h_Instance = c_Instance (rc_cfg r),
     h_SdkVersion = SdkVersion, h_SketchFormatVersion = SketchFormatVersion\<rparr>"

section \<open>Shards\<close>

text \<open>The window a recorder holds: the value of a key over all shards, wherever it hashes to.\<close>

definition shard_ok :: "nat \<Rightarrow> (seriesKey, series) gomap \<Rightarrow> bool" where
  "shard_ok i sh \<longleftrightarrow> gomap_ok sh \<and> fst ` set sh \<subseteq> {k. shardOf k = i}"

definition shards_ok :: "(seriesKey, series) gomap list \<Rightarrow> bool" where
  "shards_ok shs \<longleftrightarrow> length shs = numShards \<and> (\<forall>i < numShards. shard_ok i (shs ! i))"

definition window :: "recorder \<Rightarrow> seriesKey \<Rightarrow> series option" where
  "window r k = map_of (rc_shards r ! shardOf k) k"

definition observeWindow :: "recorder \<Rightarrow> (Record \<times> instant) list \<Rightarrow> recorder" where
  "observeWindow r obs = fold (\<lambda>(rec, now) r. Observe r rec now) obs r"

lemma shardOf_less: "shardOf k < numShards"
proof -
  have "and (hash k) shardMask \<le> shardMask" by (rule word_and_le1)
  then have "unat (and (hash k) shardMask) \<le> unat shardMask" by (simp add: word_le_nat_alt)
  then show ?thesis by (simp add: shardOf_def numShards_def shardMask_def)
qed

lemma shard_ok_update: "shard_ok i sh \<Longrightarrow> shardOf k = i \<Longrightarrow> shard_ok i (AList.update k v sh)"
  by (simp add: shard_ok_def)

lemma shards_ok_new: "shards_ok (replicate numShards [])"
  by (simp add: shards_ok_def shard_ok_def)

lemma shards_ok_update:
  assumes "shards_ok shs" and "shardOf k = i"
  shows "shards_ok (shs[i := AList.update k v (shs ! i)])"
  using assms shardOf_less [of k] by (auto simp: shards_ok_def nth_list_update shard_ok_update)

lemma Observe_eq:
  assumes "rc_active r" and "\<not> rc_closed r"
  shows "Observe r rec now =
    r\<lparr>rc_shards := (rc_shards r)[shardOf (keyOf rec) := AList.update (keyOf rec)
       (fst (series_observe (case window r (keyOf rec) of None \<Rightarrow> newSeries | Some s \<Rightarrow> s) rec now))
       (rc_shards r ! shardOf (keyOf rec))]\<rparr>"
  using assms by (simp add: Observe_def window_def Let_def split_def)

lemma Observe_inactive: "\<not> rc_active r \<or> rc_closed r \<Longrightarrow> Observe r rec now = r"
  by (auto simp: Observe_def)

lemma Observe_fields [simp]:
  "rc_cfg (Observe r rec now) = rc_cfg r" "rc_active (Observe r rec now) = rc_active r"
  "rc_ring (Observe r rec now) = rc_ring r" "rc_dropped (Observe r rec now) = rc_dropped r"
  "rc_closed (Observe r rec now) = rc_closed r" "rc_startTime (Observe r rec now) = rc_startTime r"
  "rc_sampler (Observe r rec now) = rc_sampler r"
  by (simp_all add: Observe_def Let_def split_def)

lemma shards_ok_Observe: "shards_ok (rc_shards r) \<Longrightarrow> shards_ok (rc_shards (Observe r rec now))"
  by (cases "rc_active r \<and> \<not> rc_closed r") (auto simp: Observe_eq Observe_inactive shards_ok_update)

lemma window_Observe:
  assumes "rc_active r" and "\<not> rc_closed r" and "shards_ok (rc_shards r)"
  shows "window (Observe r rec now) k =
    (if k = keyOf rec
     then Some (fst (series_observe (case window r k of None \<Rightarrow> newSeries | Some s \<Rightarrow> s) rec now))
     else window r k)"
  using assms shardOf_less [of k]
  by (cases "shardOf k = shardOf (keyOf rec)") (auto simp: Observe_eq window_def shards_ok_def)

lemma observeWindow_simps:
  "observeWindow r [] = r"
  "observeWindow r (obs @ [(rec, now)]) = Observe (observeWindow r obs) rec now"
  by (simp_all add: observeWindow_def)

lemma observeWindow_fields [simp]:
  "rc_cfg (observeWindow r obs) = rc_cfg r" "rc_active (observeWindow r obs) = rc_active r"
  "rc_ring (observeWindow r obs) = rc_ring r" "rc_dropped (observeWindow r obs) = rc_dropped r"
  "rc_closed (observeWindow r obs) = rc_closed r" "rc_startTime (observeWindow r obs) = rc_startTime r"
  by (induction obs rule: rev_induct) (auto simp: observeWindow_simps)

lemma shards_ok_observeWindow:
  "shards_ok (rc_shards r) \<Longrightarrow> shards_ok (rc_shards (observeWindow r obs))"
  by (induction obs rule: rev_induct) (auto simp: observeWindow_simps shards_ok_Observe)

abbreviation requestsOf :: "seriesKey \<Rightarrow> (Record \<times> instant) list \<Rightarrow> (Record \<times> instant) list" where
  "requestsOf k obs \<equiv> filter (\<lambda>(rec, now). keyOf rec = k) obs"

text \<open>Whatever the hash, the sharded map holds for every key the aggregate of that key's requests.\<close>

lemma window_observeWindow:
  assumes "rc_active r" and "\<not> rc_closed r" and "rc_shards r = replicate numShards []"
  shows "window (observeWindow r obs) k =
    (if requestsOf k obs = [] then None else Some (series_observeAll newSeries (requestsOf k obs)))"
proof (induction obs rule: rev_induct)
  case Nil
  then show ?case using assms(3) shardOf_less [of k] by (simp add: observeWindow_simps window_def)
next
  case (snoc o' obs)
  obtain rec now where o': "o' = (rec, now)" by fastforce
  have "shards_ok (rc_shards (observeWindow r obs))"
    using assms(3) shards_ok_observeWindow shards_ok_new by simp
  with snoc assms show ?case
    by (auto simp: o' observeWindow_simps window_Observe series_observeAll_snoc)
qed

section \<open>Swapping the shards\<close>

lemma update_fresh: "k \<notin> fst ` set m \<Longrightarrow> AList.update k v m = m @ [(k, v)]"
  by (induction m) auto

lemma maps_Copy_disjoint: "gomap_ok (dst @ src) \<Longrightarrow> maps_Copy dst src = dst @ src"
proof (induction src arbitrary: dst)
  case (Cons kv src)
  then show ?case
    using Cons.IH [of "dst @ [kv]"] by (cases kv) (simp add: maps_Copy_def update_fresh)
qed (simp add: maps_Copy_def)

lemma fold_Copy_disjoint:
  "gomap_ok (m @ concat shs) \<Longrightarrow> fold (\<lambda>old merged. maps_Copy merged old) shs m = m @ concat shs"
proof (induction shs arbitrary: m)
  case (Cons sh shs)
  then have "maps_Copy m sh = m @ sh" by (intro maps_Copy_disjoint) auto
  with Cons.prems Cons.IH [of "m @ sh"] show ?case by simp
qed simp

lemma shards_distinct:
  assumes "\<forall>i < length shs. shard_ok (n + i) (shs ! i)"
  shows "gomap_ok (concat shs) \<and> fst ` set (concat shs) \<subseteq> {k. n \<le> shardOf k}"
  using assms
proof (induction shs arbitrary: n)
  case (Cons sh shs)
  have "shard_ok n sh" using Cons.prems by force
  moreover have "\<forall>i < length shs. shard_ok (Suc n + i) (shs ! i)" using Cons.prems by force
  from Cons.IH [OF this] have "gomap_ok (concat shs)" "fst ` set (concat shs) \<subseteq> {k. Suc n \<le> shardOf k}" by auto
  ultimately show ?case by (auto simp: shard_ok_def) fastforce+
qed simp

lemma gomap_ok_shards: "shards_ok shs \<Longrightarrow> gomap_ok (concat shs)"
  using shards_distinct [of shs 0] by (simp add: shards_ok_def)

lemma map_of_shards:
  assumes "shards_ok shs"
  shows "map_of (concat shs) k = map_of (shs ! shardOf k) k"
proof (cases "map_of (shs ! shardOf k) k")
  case None
  have "k \<notin> fst ` set sh" if sh: "sh \<in> set shs" for sh
  proof
    assume k: "k \<in> fst ` set sh"
    obtain i where i: "i < length shs" "sh = shs ! i"
      using sh unfolding in_set_conv_nth by blast
    then have "shard_ok i sh" using assms by (simp add: shards_ok_def)
    then have "shardOf k = i" using k unfolding shard_ok_def by blast
    with i(2) have "map_of sh k = None" using None by simp
    then show False using k unfolding map_of_eq_None_iff by blast
  qed
  then have "k \<notin> fst ` set (concat shs)" unfolding set_concat image_UN by blast
  then have "map_of (concat shs) k = None" by (rule map_of_eq_None_iff [THEN iffD2])
  then show ?thesis using None by (rule trans [OF _ sym])
next
  case (Some s)
  have "shs ! shardOf k \<in> set shs" using assms shardOf_less [of k] by (simp add: shards_ok_def)
  moreover have "(k, s) \<in> set (shs ! shardOf k)" using Some by (rule map_of_SomeD)
  ultimately have "(k, s) \<in> set (concat shs)" unfolding set_concat by (rule UN_I)
  then have "map_of (concat shs) k = Some s" by (rule map_of_is_SomeI [OF gomap_ok_shards [OF assms]])
  then show ?thesis using Some by (rule trans [OF _ sym])
qed

lemma swapShards_eq:
  assumes "shards_ok (rc_shards r)"
  shows "swapShards r = (r\<lparr>rc_shards := replicate numShards []\<rparr>, concat (rc_shards r))"
proof -
  have "map (\<lambda>old. if length old > 0 then [] else old) (rc_shards r) = replicate numShards []"
  proof -
    have "(\<lambda>old. if length old > 0 then [] else old) = (\<lambda>_ :: (seriesKey, series) gomap. [])" by auto
    with assms show ?thesis by (simp add: shards_ok_def map_replicate_const)
  qed
  moreover have "fold (\<lambda>old merged. maps_Copy merged old) (rc_shards r) [] = concat (rc_shards r)"
    using fold_Copy_disjoint [of "[]" "rc_shards r"] gomap_ok_shards [OF assms] by simp
  ultimately show ?thesis by (simp add: swapShards_def)
qed

section \<open>Flushing\<close>

definition rec_ok :: "recorder \<Rightarrow> bool" where
  "rec_ok r \<longleftrightarrow> shards_ok (rc_shards r) \<and> ring_inv (rc_ring r)"

lemma rec_ok_new: "rec_ok (newRecorderWithTransport cfg now)"
  by (simp add: rec_ok_def newRecorderWithTransport_def shards_ok_new ring_inv_new)

lemma rec_ok_Observe: "rec_ok r \<Longrightarrow> rec_ok (Observe r rec now)"
  by (simp add: rec_ok_def shards_ok_Observe)

lemma buildRequest_state:
  "fst (buildRequest r w end' rd) = r\<lparr>rc_inFlightPeak := rc_inFlight r,
     rc_sampler := rc_sampler (fst (buildRequest r w end' rd))\<rparr>"
  by (simp add: buildRequest_def takeInFlightPeak_def Let_def split_def)

lemma buildRequest_fields [simp]:
  "rc_ring (fst (buildRequest r w end' rd)) = rc_ring r"
  "rc_dropped (fst (buildRequest r w end' rd)) = rc_dropped r"
  "rc_shards (fst (buildRequest r w end' rd)) = rc_shards r"
  "rc_active (fst (buildRequest r w end' rd)) = rc_active r"
  "rc_closed (fst (buildRequest r w end' rd)) = rc_closed r"
  "rc_cfg (fst (buildRequest r w end' rd)) = rc_cfg r"
  by (subst buildRequest_state, simp)+

lemma buildRequest_summaries:
  "u_Summaries (snd (buildRequest r w end' rd)) =
     map (summaryOf (to_unix_milli (end' + neg64 (c_FlushWindow (rc_cfg r)))) (to_unix_milli end')) w"
  by (simp add: buildRequest_def Let_def split_def)

text \<open>The request a flush builds, as a function of the recorder before the flush.\<close>

definition flushedRequest :: "recorder \<Rightarrow> instant \<Rightarrow> reading \<Rightarrow> UploadRequest" where
  "flushedRequest r windowEnd rd =
     snd (buildRequest (r\<lparr>rc_shards := replicate numShards []\<rparr>) (concat (rc_shards r)) windowEnd rd)"

lemma flush_empty:
  assumes "shards_ok (rc_shards r)" and "concat (rc_shards r) = []"
  shows "flush r t rd = (r\<lparr>rc_shards := replicate numShards []\<rparr>, False)"
  using assms by (simp add: flush_def swapShards_eq)

lemma flush_push:
  fixes r :: recorder and t :: instant and rd :: reading
  assumes "shards_ok (rc_shards r)" and "concat (rc_shards r) \<noteq> []"
  defines "p \<equiv> ring_push (rc_ring r) (flushedRequest r t rd)"
  shows "snd (flush r t rd)"
    and "rc_ring (fst (flush r t rd)) = fst p"
    and "rc_dropped (fst (flush r t rd)) = rc_dropped r +
      (case snd p of None \<Rightarrow> 0 | Some ev \<Rightarrow> of_nat (length (u_Summaries ev)))"
    and "rc_shards (fst (flush r t rd)) = replicate numShards []"
    and "rc_active (fst (flush r t rd)) = rc_active r" and "rc_closed (fst (flush r t rd)) = rc_closed r"
    and "rc_cfg (fst (flush r t rd)) = rc_cfg r"
  using assms(1,2) unfolding p_def
  by (simp_all add: flush_def swapShards_eq Let_def split_def flushedRequest_def
      del: concat_eq_Nil_conv split: option.split)

lemma rec_ok_flush:
  assumes "rec_ok r"
  shows "rec_ok (fst (flush r t rd))"
proof (cases "concat (rc_shards r) = []")
  case True
  with assms show ?thesis by (simp add: rec_ok_def flush_empty shards_ok_new)
next
  case False
  from assms have "shards_ok (rc_shards r)" by (simp add: rec_ok_def)
  note f = flush_push [OF this False, of t rd]
  from assms show ?thesis by (simp add: rec_ok_def f shards_ok_new rg.invar_push)
qed

lemma flush_shards:
  "shards_ok (rc_shards r) \<Longrightarrow> rc_shards (fst (flush r t rd)) = replicate numShards []"
  by (cases "concat (rc_shards r) = []") (auto simp: flush_empty flush_push)

lemma window_nonempty:
  assumes "rc_active r" and "\<not> rc_closed r" and "rc_shards r = replicate numShards []"
  shows "concat (rc_shards (observeWindow r obs)) = [] \<longleftrightarrow> obs = []"
proof -
  have ok: "shards_ok (rc_shards (observeWindow r obs))"
    using assms(3) shards_ok_observeWindow shards_ok_new by simp
  have "requestsOf (keyOf (fst o')) obs \<noteq> []" if "o' \<in> set obs" for o'
    using that by (auto simp: filter_empty_conv split_def)
  then have "obs \<noteq> [] \<Longrightarrow> \<exists>k. window (observeWindow r obs) k \<noteq> None"
    using window_observeWindow [OF assms] by (cases obs) fastforce+
  moreover have "concat (rc_shards (observeWindow r obs)) = [] \<longleftrightarrow> (\<forall>k. window (observeWindow r obs) k = None)"
    unfolding window_def map_of_shards [OF ok, symmetric] by (metis map_of_eq_empty_iff)
  moreover have "obs = [] \<Longrightarrow> concat (rc_shards (observeWindow r obs)) = []"
    using assms(3) by (simp add: observeWindow_simps)
  ultimately show ?thesis by metis
qed

text \<open>C4. One flush cycle is exact. On a recorder with an empty window, observing any sequence of
  requests and flushing pushes a request exactly when there was an observation; its summaries are one
  per series key, and the summary of a key is built from the aggregate of exactly the requests with
  that key, whatever shards the keys hash to. The window is empty again afterwards.\<close>

theorem flush_cycle_exact:
  fixes r :: recorder and obs :: "(Record \<times> instant) list" and windowEnd :: instant
  assumes "rec_ok r" and "rc_active r" and "\<not> rc_closed r" and "rc_shards r = replicate numShards []"
  defines "startMs \<equiv> to_unix_milli (windowEnd + neg64 (c_FlushWindow (rc_cfg r)))"
  shows "\<exists>w req. gomap_ok w \<and>
    (\<forall>k. map_of w k =
      (if requestsOf k obs = [] then None else Some (series_observeAll newSeries (requestsOf k obs)))) \<and>
    u_Summaries req = map (summaryOf startMs (to_unix_milli windowEnd)) w \<and>
    (let (r', pushed) = flush (observeWindow r obs) windowEnd rd in
      pushed = (obs \<noteq> []) \<and> rec_ok r' \<and> rc_shards r' = replicate numShards [] \<and>
      ring_list (rc_ring r') =
        (if obs = [] then ring_list (rc_ring r)
         else (if ring_len (rc_ring r) = ring_cap (rc_ring r) then tl (ring_list (rc_ring r))
               else ring_list (rc_ring r)) @ [req]))"
proof (intro exI conjI allI)
  let ?r = "observeWindow r obs" and ?w = "concat (rc_shards (observeWindow r obs))"
  let ?req = "flushedRequest ?r windowEnd rd"
  have ok: "shards_ok (rc_shards ?r)" using assms(1) by (simp add: rec_ok_def shards_ok_observeWindow)
  have inv: "ring_inv (rc_ring r)" using assms(1) by (simp add: rec_ok_def)
  show "gomap_ok ?w" by (rule gomap_ok_shards [OF ok])
  show "map_of ?w k = (if requestsOf k obs = [] then None
      else Some (series_observeAll newSeries (requestsOf k obs)))" for k
    using window_observeWindow [OF assms(2-4), of obs k] by (simp add: map_of_shards [OF ok] window_def)
  show "u_Summaries ?req = map (summaryOf startMs (to_unix_milli windowEnd)) ?w"
    by (simp add: flushedRequest_def buildRequest_summaries startMs_def)
  have "rec_ok (fst (flush ?r windowEnd rd))"
    using assms(1) ok by (intro rec_ok_flush) (simp add: rec_ok_def)
  moreover have "snd (flush ?r windowEnd rd) = (obs \<noteq> [])"
    using window_nonempty [OF assms(2-4), of obs] ok
    by (cases "obs = []") (auto simp: flush_empty flush_push)
  moreover have "ring_list (rc_ring (fst (flush ?r windowEnd rd))) =
      (if obs = [] then ring_list (rc_ring r)
       else (if ring_len (rc_ring r) = ring_cap (rc_ring r) then tl (ring_list (rc_ring r))
             else ring_list (rc_ring r)) @ [?req])"
    using window_nonempty [OF assms(2-4), of obs] ok inv
    by (cases "obs = []") (auto simp: flush_empty flush_push rg.elems_push ring_len_def)
  ultimately show "let (r', pushed) = flush ?r windowEnd rd in
      pushed = (obs \<noteq> []) \<and> rec_ok r' \<and> rc_shards r' = replicate numShards [] \<and>
      ring_list (rc_ring r') =
        (if obs = [] then ring_list (rc_ring r)
         else (if ring_len (rc_ring r) = ring_cap (rc_ring r) then tl (ring_list (rc_ring r))
               else ring_list (rc_ring r)) @ [?req])"
    using flush_shards [OF ok] by (simp add: split_def)
qed

text \<open>A concrete configuration, request and reading, used to instantiate the properties.\<close>

definition demoConfig :: Config where
  "demoConfig = \<lparr>c_Key = ''dev-key'', c_Endpoint = ''https://www.mapi-ng.com'', c_Service = ''api'',
     c_Instance = ''i-1'', c_FlushWindow = 10 * second, c_DeployVersion = ''v1'', c_DeployID = ''abc'',
     c_Environment = ''prod'', c_Region = ''eu''\<rparr>"

definition demoRecord :: "int \<Rightarrow> duration \<Rightarrow> Record" where
  "demoRecord status d = \<lparr>rec_Method = ''GET'', rec_RouteTemplate = ''/users/:id'', rec_Status = status,
     rec_Duration = d, rec_ReqBytes = 10, rec_RespBytes = 20, rec_TraceID = '''', rec_SpanID = '''',
     rec_RequestID = '''', rec_ErrorClass = '''', rec_NoStatusReason = NoStatusUnspecified,
     rec_DownstreamDuration = 0\<rparr>"

definition demoReading :: reading where
  "demoReading = \<lparr>ms_PauseTotalNs = 0, ms_NumGC = 0, ms_TotalAlloc = 0, ms_Mallocs = 0, ms_Sys = 0,
     ms_HeapAlloc = 0, ms_HeapInuse = 0, ms_GCCPUFraction = Fin 0, rd_cpuTimeNs = 0, rd_liveHeap = None,
     rd_numGoroutine = 1, rd_gomaxprocs = 1, rd_rssBytes = 0, rd_fdStats = (0, 0)\<rparr>"

theorem flush_cycle_exact_witness:
  "let r = newRecorderWithTransport demoConfig 0;
       obs = [(demoRecord 200 5, 1), (demoRecord 500 7, 2), (demoRecord 204 9, 3)];
       (r', pushed) = flush (observeWindow r obs) (20 * second) demoReading
   in pushed \<and> length (ring_list (rc_ring r')) = 1 \<and> rc_shards r' = replicate numShards []"
proof -
  let ?r = "newRecorderWithTransport demoConfig 0"
  let ?obs = "[(demoRecord 200 5, 1), (demoRecord 500 7, 2), (demoRecord 204 9, 3)]"
  have new: "rec_ok ?r" "rc_active ?r" "\<not> rc_closed ?r" "rc_shards ?r = replicate numShards []"
    "ring_list (rc_ring ?r) = []" "ring_len (rc_ring ?r) \<noteq> ring_cap (rc_ring ?r)"
    using rec_ok_new [of demoConfig 0] rg.cap_pos [of "rc_ring ?r"]
    by (simp_all add: newRecorderWithTransport_def rec_ok_def ring_list_new ring_len_def ring_inv_new)
      (simp add: ring_new_def Let_def)
  show ?thesis
    using flush_cycle_exact [OF new(1-4), of ?obs "20 * second" demoReading] new(5,6)
    by (auto simp: Let_def split_def simp flip: length_ring_list)
qed

text \<open>The pending ring always has between 8 and 300 slots, for every flush window, the
  degenerate ones (zero, negative, longer than the span) included, and it never shrinks below the
  five minutes it is sized for: with whole-second windows of at most 37 seconds, the slots cover the
  span up to one window.\<close>

theorem ringCapacity_bounds:
  "minRingCapacity \<le> ringCapacity d \<and> ringCapacity d \<le> ringWindowsSpan \<and>
   (\<forall>n \<in> {1..37}. ringWindowsSpan - n < ringCapacity (n * second) * n)"
proof -
  have q: "quot 300 s = 300 div s" if "s \<ge> 1" for s using that by (simp add: quot_def)
  have "300 div s \<le> 300" "0 \<le> 300 div s" if "s \<ge> 1" for s :: int
    using that zdiv_mono2 [of 300 1 s] by (simp_all add: pos_imp_zdiv_nonneg_iff)
  then have "minRingCapacity \<le> ringCapacity d" "ringCapacity d \<le> ringWindowsSpan"
    by (auto simp: ringCapacity_def minRingCapacity_def ringWindowsSpan_def Let_def q)
  moreover have "ringWindowsSpan - n < ringCapacity (n * second) * n" if "n \<in> {1..37}" for n
  proof -
    have "quot (n * second) second = n" using that by (simp add: quot_def second_def sgn_mult)
    then have "300 div n \<le> ringCapacity (n * second)"
      using that by (simp add: ringCapacity_def ringWindowsSpan_def Let_def q)
    then have "300 div n * n \<le> ringCapacity (n * second) * n" using that by (intro mult_right_mono) auto
    moreover have "300 div n * n = 300 - 300 mod n" by (rule minus_mod_eq_div_mult [symmetric])
    moreover have "300 mod n < n" using that by (intro pos_mod_bound) auto
    ultimately show ?thesis by (simp add: ringWindowsSpan_def)
  qed
  ultimately show ?thesis by blast
qed

theorem ringCapacity_bounds_witness:
  "ringWindowsSpan - 10 < ringCapacity (10 * second) * 10 \<and> minRingCapacity \<le> ringCapacity (10 * second)"
  using ringCapacity_bounds [of "10 * second"] by simp

end
