(* ===== verification/Uploader.thy ===== *)
theory Uploader
  imports Recorder "HOL-Library.Sublist"
begin

text \<open>
  The background uploader, src/client/uploader.go: the event loop \<open>run\<close> with its flush and retry
  timers, the drain of the oldest pending request with the dropped-summary stamp, the exponential
  backoff and \<open>Shutdown\<close>.

  A timer is stopped, armed with a delay, or has put its tick in its channel. The loop is a step
  relation: the host observes requests and the clock lets armed timers tick at any moment, and each
  select case of the loop is one step, enabled as in the code. Whether an upload succeeds is decided
  by the collector, so the outcome is an argument of the retry step. A ledger of history variables
  (what was observed, built, acknowledged and evicted) is carried beside the state; no step reads it.
\<close>

section \<open>Sending the oldest request\<close>

definition baseBackoff :: duration where
  "baseBackoff = 1 * second"

definition maxBackoff :: duration where
  "maxBackoff = 30 * second"

definition firstFlushDelay :: duration where
  "firstFlushDelay = 2 * second"

datatype drainResult = drainEmpty | drainSent | drainFailed

definition stamp :: "u64 \<Rightarrow> UploadRequest \<Rightarrow> UploadRequest" where
  "stamp n req = req\<lparr>u_Envelope := (u_Envelope req)\<lparr>e_DroppedSummaries := n\<rparr>\<rparr>"

text \<open>\<open>req\<close> is the pointer to the oldest request of the ring, so the stamp is written into the ring.
  \<open>ok\<close> is the outcome of \<open>tx.Upload\<close>.\<close>

definition sendStamped :: "recorder \<Rightarrow> bool \<Rightarrow> recorder \<times> bool" where
  "sendStamped r ok =
     (let stamped = rc_dropped r;
          r = r\<lparr>rc_ring := ring_write_oldest (stamp stamped) (rc_ring r)\<rparr>
      in if \<not> ok then (r, False) else (r\<lparr>rc_dropped := rc_dropped r - stamped\<rparr>, True))"

definition tryDrainOldest :: "recorder \<Rightarrow> bool \<Rightarrow> recorder \<times> drainResult" where
  "tryDrainOldest r ok =
     (case ring_peek (rc_ring r) of
        None \<Rightarrow> (r, drainEmpty)
      | Some req \<Rightarrow>
          let (r', sent) = sendStamped r ok in
          if \<not> sent then (r', drainFailed)
          else (r'\<lparr>rc_ring := fst (ring_pop (rc_ring r'))\<rparr>, drainSent))"

definition nextBackoff :: "duration \<Rightarrow> duration" where
  "nextBackoff cur = (let next = wrap64 (cur * 2) in if next > maxBackoff then maxBackoff else next)"

section \<open>Timers and the event loop\<close>

datatype timer = Stopped | Armed duration | Ticked

definition timer_Stop :: "timer \<Rightarrow> timer \<times> bool" where
  "timer_Stop t = (case t of Armed d \<Rightarrow> (Stopped, True) | _ \<Rightarrow> (t, False))"

definition resetTimer :: "timer \<Rightarrow> duration \<Rightarrow> timer" where
  "resetTimer t d =
     (let (t1, active) = timer_Stop t;
          t2 = (if \<not> active then (case t1 of Ticked \<Rightarrow> Stopped | _ \<Rightarrow> t1) else t1)
      in (case t2 of Ticked \<Rightarrow> Ticked | _ \<Rightarrow> Armed d))"

record uploader =
  up_rec :: recorder
  up_flushTimer :: timer
  up_retryTimer :: timer
  up_backoff :: duration
  up_done :: bool

definition run_init :: "recorder \<Rightarrow> uploader" where
  "run_init r = \<lparr>up_rec = r, up_flushTimer = Armed firstFlushDelay, up_retryTimer = Stopped,
     up_backoff = baseBackoff, up_done = False\<rparr>"

definition onFlush :: "uploader \<Rightarrow> instant \<Rightarrow> reading \<Rightarrow> uploader" where
  "onFlush u now rd =
     (let (r, pushed) = flush (up_rec u) now rd;
          retry = (if pushed \<and> ring_len (rc_ring r) = 1 then resetTimer (up_retryTimer u) 0
                   else up_retryTimer u)
      in u\<lparr>up_rec := r, up_retryTimer := retry, up_flushTimer := Armed (c_FlushWindow (rc_cfg r))\<rparr>)"

definition onRetry :: "uploader \<Rightarrow> bool \<Rightarrow> uploader" where
  "onRetry u ok =
     (let u = u\<lparr>up_retryTimer := Stopped\<rparr>;
          (r, res) = tryDrainOldest (up_rec u) ok;
          u = u\<lparr>up_rec := r\<rparr>
      in case res of
           drainSent \<Rightarrow>
             (let u = u\<lparr>up_backoff := baseBackoff\<rparr> in
              if ring_len (rc_ring r) > 0 then u\<lparr>up_retryTimer := resetTimer (up_retryTimer u) 0\<rparr> else u)
         | drainFailed \<Rightarrow>
             u\<lparr>up_retryTimer := resetTimer (up_retryTimer u) (up_backoff u),
               up_backoff := nextBackoff (up_backoff u)\<rparr>
         | drainEmpty \<Rightarrow> u)"

section \<open>The ledger and the step relation\<close>

record ledger =
  lg_observed :: nat
  lg_built :: "UploadRequest list"
  lg_sent :: "UploadRequest list"
  lg_evicted :: "UploadRequest list"

definition ledger_zero :: ledger where
  "ledger_zero = \<lparr>lg_observed = 0, lg_built = [], lg_sent = [], lg_evicted = []\<rparr>"

abbreviation opt_list :: "'a option \<Rightarrow> 'a list" where
  "opt_list x \<equiv> (case x of None \<Rightarrow> [] | Some y \<Rightarrow> [y])"

definition log_flush :: "uploader \<Rightarrow> instant \<Rightarrow> reading \<Rightarrow> ledger \<Rightarrow> ledger" where
  "log_flush u now rd l =
     (if snd (flush (up_rec u) now rd)
      then let req = flushedRequest (up_rec u) now rd in
        l\<lparr>lg_built := lg_built l @ [req],
          lg_evicted := lg_evicted l @ opt_list (snd (ring_push (rc_ring (up_rec u)) req))\<rparr>
      else l)"

definition log_retry :: "uploader \<Rightarrow> bool \<Rightarrow> ledger \<Rightarrow> ledger" where
  "log_retry u ok l =
     (if ok then l\<lparr>lg_sent := lg_sent l @
        opt_list (map_option (stamp (rc_dropped (up_rec u))) (ring_peek (rc_ring (up_rec u))))\<rparr> else l)"

inductive run_step :: "uploader \<times> ledger \<Rightarrow> uploader \<times> ledger \<Rightarrow> bool" where
  observe: "rc_active (up_rec u) \<Longrightarrow> \<not> rc_closed (up_rec u) \<Longrightarrow>
    run_step (u, l) (u\<lparr>up_rec := Observe (up_rec u) rec now\<rparr>, l\<lparr>lg_observed := Suc (lg_observed l)\<rparr>)"
| begin_request: "run_step (u, l) (u\<lparr>up_rec := BeginRequest (up_rec u)\<rparr>, l)"
| end_request: "run_step (u, l) (u\<lparr>up_rec := endRequest (up_rec u)\<rparr>, l)"
| tick_flush: "up_flushTimer u = Armed d \<Longrightarrow> run_step (u, l) (u\<lparr>up_flushTimer := Ticked\<rparr>, l)"
| tick_retry: "up_retryTimer u = Armed d \<Longrightarrow> run_step (u, l) (u\<lparr>up_retryTimer := Ticked\<rparr>, l)"
| flush: "\<not> up_done u \<Longrightarrow> up_flushTimer u = Ticked \<Longrightarrow>
    run_step (u, l) (onFlush u now rd, log_flush u now rd l)"
| retry: "\<not> up_done u \<Longrightarrow> up_retryTimer u = Ticked \<Longrightarrow>
    run_step (u, l) (onRetry u ok, log_retry u ok l)"
| stop: "run_step (u, l) (u\<lparr>up_done := True\<rparr>, l)"

definition run_reachable :: "Config \<Rightarrow> instant \<Rightarrow> uploader \<times> ledger \<Rightarrow> bool" where
  "run_reachable cfg start s \<longleftrightarrow>
     run_step\<^sup>*\<^sup>* (run_init (newRecorderWithTransport cfg start), ledger_zero) s"

section \<open>Shutdown\<close>

text \<open>The drain loop of \<open>Shutdown\<close>. The list gives the outcomes of the upload attempts that fit the
  caller's context; the context has expired when the list is exhausted. The result carries the
  requests the collector acknowledged and whether \<open>ctx.Err()\<close> is non-nil.\<close>

fun drainLoop :: "recorder \<Rightarrow> bool list \<Rightarrow> recorder \<times> UploadRequest list \<times> bool" where
  "drainLoop r [] = (r, [], True)"
| "drainLoop r (ok # oks) =
     (if ring_len (rc_ring r) = 0 then (r, [], False)
      else
        let sent = (if ok then opt_list (map_option (stamp (rc_dropped r)) (ring_peek (rc_ring r))) else []);
            (r', rest, err) = drainLoop (fst (tryDrainOldest r ok)) oks
        in (r', sent @ rest, err))"

definition Shutdown ::
  "uploader \<Rightarrow> instant \<Rightarrow> reading \<Rightarrow> bool list \<Rightarrow> uploader \<times> UploadRequest list \<times> bool" where
  "Shutdown u now rd oks =
     (if \<not> rc_active (up_rec u) then (u, [], False)
      else
        let u = u\<lparr>up_done := True\<rparr>;
            r = (up_rec u)\<lparr>rc_closed := True\<rparr>;
            r = fst (flush r now rd);
            (r, sent, err) = drainLoop r oks
        in (u\<lparr>up_rec := r\<rparr>, sent, err))"

section \<open>Lemmas on the pieces\<close>

lemma stamp_fields [simp]:
  "u_Summaries (stamp n q) = u_Summaries q" "u_InstanceWindows (stamp n q) = u_InstanceWindows q"
  "e_DroppedSummaries (u_Envelope (stamp n q)) = n" "stamp m (stamp n q) = stamp m q"
  by (simp_all add: stamp_def)

lemma resetTimer_armed [simp]: "resetTimer t d = Armed d"
  by (cases t) (simp_all add: resetTimer_def timer_Stop_def)

lemma backoff_consts: "baseBackoff \<le> maxBackoff" "0 < baseBackoff" "maxBackoff * 2 \<le> int64_max"
  by (simp_all add: baseBackoff_def maxBackoff_def go_defs)

lemma nextBackoff_eq:
  assumes "0 \<le> d" and "d \<le> maxBackoff"
  shows "nextBackoff d = min (d * 2) maxBackoff"
proof -
  have "wrap64 (d * 2) = d * 2" using assms by (intro wrap64_id) (auto simp: maxBackoff_def go_defs)
  then show ?thesis by (simp add: nextBackoff_def min_def)
qed

lemma nextBackoff_iterate: "(nextBackoff ^^ n) baseBackoff = min (2 ^ n * baseBackoff) maxBackoff"
proof (induction n)
  case 0
  then show ?case using backoff_consts by (simp add: min_def)
next
  case (Suc n)
  have "0 \<le> min (2 ^ n * baseBackoff) maxBackoff" using backoff_consts by simp
  then show ?case
    using Suc backoff_consts by (simp add: nextBackoff_eq min_def)
qed

lemma tryDrainOldest_empty: "ring_peek (rc_ring r) = None \<Longrightarrow> tryDrainOldest r ok = (r, drainEmpty)"
  by (simp add: tryDrainOldest_def)

lemma tryDrainOldest_sent:
  "ring_peek (rc_ring r) = Some q \<Longrightarrow> tryDrainOldest r True =
     (r\<lparr>rc_ring := fst (ring_pop (ring_write_oldest (stamp (rc_dropped r)) (rc_ring r))), rc_dropped := 0\<rparr>, drainSent)"
  by (simp add: tryDrainOldest_def sendStamped_def Let_def)

lemma tryDrainOldest_failed:
  "ring_peek (rc_ring r) = Some q \<Longrightarrow> tryDrainOldest r False =
     (r\<lparr>rc_ring := ring_write_oldest (stamp (rc_dropped r)) (rc_ring r)\<rparr>, drainFailed)"
  by (simp add: tryDrainOldest_def sendStamped_def Let_def)

section \<open>Counting requests\<close>

definition shardCount :: "(seriesKey, series) gomap list \<Rightarrow> u64" where
  "shardCount shs = sum_list (map (\<lambda>sh. sum_list (map (se_count \<circ> snd) sh)) shs)"

definition requestCount :: "UploadRequest \<Rightarrow> u64" where
  "requestCount q = sum_list (map m_Count (u_Summaries q))"

abbreviation nSummaries :: "UploadRequest \<Rightarrow> nat" where
  "nSummaries q \<equiv> length (u_Summaries q)"

abbreviation summariesIn :: "UploadRequest list \<Rightarrow> nat" where
  "summariesIn qs \<equiv> sum_list (map nSummaries qs)"

lemma shardCount_concat: "shardCount shs = sum_list (map (se_count \<circ> snd) (concat shs))"
  by (induction shs) (simp_all add: shardCount_def comp_def)

lemma shardCount_new [simp]: "shardCount (replicate n []) = 0"
  by (simp add: shardCount_def sum_list_replicate)

lemma shardCount_Observe:
  assumes "rc_active r" and "\<not> rc_closed r" and "shards_ok (rc_shards r)"
  shows "shardCount (rc_shards (Observe r rec now)) = shardCount (rc_shards r) + 1"
proof -
  let ?k = "keyOf rec" and ?i = "shardOf (keyOf rec)"
  let ?sh = "rc_shards r ! ?i" and ?f = "\<lambda>sh. sum_list (map (se_count \<circ> snd) sh)"
  let ?v = "fst (series_observe (case window r ?k of None \<Rightarrow> newSeries | Some s \<Rightarrow> s) rec now)"
  have i: "?i < length (rc_shards r)" "gomap_ok ?sh"
    using assms(3) shardOf_less [of ?k] by (simp_all add: shards_ok_def shard_ok_def)
  have "?f (AList.update ?k ?v ?sh) = ?f ?sh + 1"
    using sum_list_update [OF i(2), of se_count ?k ?v]
    by (simp add: series_observe_fields window_def newSeries_def split: option.splits)
  then show ?thesis
    using i(1) assms by (simp add: Observe_eq shardCount_def map_update sum_list_upd_word)
qed

lemma requestCount_flushed: "requestCount (flushedRequest r t rd) = shardCount (rc_shards r)"
  by (simp add: requestCount_def flushedRequest_def buildRequest_summaries shardCount_concat
      summaryOf_def split_def comp_def)

lemma requestCount_stamp [simp]: "requestCount (stamp n q) = requestCount q"
  by (simp add: requestCount_def)

section \<open>The invariant of the loop\<close>

text \<open>Accounting of one state: nothing that was observed or built is unaccounted for.\<close>

definition accounted :: "uploader \<Rightarrow> ledger \<Rightarrow> bool" where
  "accounted u l \<longleftrightarrow>
     (let r = up_rec u in
      summariesIn (lg_built l) =
        summariesIn (lg_sent l) + summariesIn (ring_list (rc_ring r)) + summariesIn (lg_evicted l) \<and>
      rc_dropped r + sum_list (map (e_DroppedSummaries \<circ> u_Envelope) (lg_sent l)) =
        of_nat (summariesIn (lg_evicted l)) \<and>
      sum_list (map requestCount (lg_built l)) + shardCount (rc_shards r) = of_nat (lg_observed l))"

definition fifo :: "uploader \<Rightarrow> ledger \<Rightarrow> bool" where
  "fifo u l \<longleftrightarrow>
     subseq (map (stamp 0) (lg_sent l @ ring_list (rc_ring (up_rec u)))) (map (stamp 0) (lg_built l))"

definition timers_ok :: "uploader \<Rightarrow> bool" where
  "timers_ok u \<longleftrightarrow> up_flushTimer u \<noteq> Stopped \<and>
     (ring_list (rc_ring (up_rec u)) \<noteq> [] \<longrightarrow> up_retryTimer u \<noteq> Stopped) \<and>
     baseBackoff \<le> up_backoff u \<and> up_backoff u \<le> maxBackoff \<and>
     (\<forall>d. up_retryTimer u = Armed d \<longrightarrow> d = 0 \<or> baseBackoff \<le> d \<and> d \<le> maxBackoff)"

definition run_inv :: "uploader \<times> ledger \<Rightarrow> bool" where
  "run_inv s \<longleftrightarrow> (case s of (u, l) \<Rightarrow>
     rec_ok (up_rec u) \<and> rc_active (up_rec u) \<and> \<not> rc_closed (up_rec u) \<and>
     accounted u l \<and> fifo u l \<and> timers_ok u)"

lemma run_inv_init: "run_inv (run_init (newRecorderWithTransport cfg start), ledger_zero)"
  using backoff_consts rec_ok_new [of cfg start]
  by (simp add: run_inv_def run_init_def accounted_def fifo_def timers_ok_def ledger_zero_def)
    (simp add: newRecorderWithTransport_def ring_list_new)

lemma flush_pushed_iff: "shards_ok (rc_shards r) \<Longrightarrow> snd (flush r t rd) \<longleftrightarrow> concat (rc_shards r) \<noteq> []"
  by (cases "concat (rc_shards r) = []") (simp_all add: flush_empty flush_push del: concat_eq_Nil_conv)

lemma onFlush_push:
  assumes "rec_ok (up_rec u)" and "concat (rc_shards (up_rec u)) \<noteq> []"
  shows "up_rec (onFlush u t rd) = fst (flush (up_rec u) t rd)"
    and "up_retryTimer (onFlush u t rd) =
      (if ring_len (rc_ring (fst (flush (up_rec u) t rd))) = 1 then Armed 0 else up_retryTimer u)"
    and "up_backoff (onFlush u t rd) = up_backoff u" and "up_flushTimer (onFlush u t rd) \<noteq> Stopped"
  using assms
  by (simp_all add: onFlush_def split_def Let_def flush_pushed_iff rec_ok_def del: concat_eq_Nil_conv)

lemma onFlush_empty:
  assumes "rec_ok (up_rec u)" and "concat (rc_shards (up_rec u)) = []"
  shows "onFlush u t rd = u\<lparr>up_rec := (up_rec u)\<lparr>rc_shards := replicate numShards []\<rparr>,
      up_flushTimer := Armed (c_FlushWindow (rc_cfg (up_rec u)))\<rparr>" "log_flush u t rd l = l"
  using assms by (simp_all add: onFlush_def log_flush_def flush_empty rec_ok_def)

lemma log_flush_push:
  assumes "rec_ok (up_rec u)" and "concat (rc_shards (up_rec u)) \<noteq> []"
  shows "log_flush u t rd l =
    (let req = flushedRequest (up_rec u) t rd in
     l\<lparr>lg_built := lg_built l @ [req],
       lg_evicted := lg_evicted l @ opt_list (snd (ring_push (rc_ring (up_rec u)) req))\<rparr>)"
  using assms by (simp add: log_flush_def flush_pushed_iff rec_ok_def del: concat_eq_Nil_conv)

lemma accounted_flush:
  assumes "rec_ok (up_rec u)" and "accounted u l"
  shows "accounted (onFlush u t rd) (log_flush u t rd l)"
proof (cases "concat (rc_shards (up_rec u)) = []")
  case True
  then have "shardCount (rc_shards (up_rec u)) = 0" by (simp add: shardCount_concat del: concat_eq_Nil_conv)
  with assms True show ?thesis by (simp add: onFlush_empty accounted_def Let_def)
next
  case False
  let ?r = "up_rec u" and ?req = "flushedRequest (up_rec u) t rd"
  have ok: "shards_ok (rc_shards ?r)" and inv: "ring_inv (rc_ring ?r)" using assms(1) by (simp_all add: rec_ok_def)
  note f = flush_push [OF ok False, of t rd] and w = rg.push_weight [OF inv, of nSummaries ?req]
  show ?thesis
    using assms w
    by (cases "snd (ring_push (rc_ring ?r) ?req)")
      (auto simp: accounted_def onFlush_push [OF assms(1) False] log_flush_push [OF assms(1) False]
        f Let_def requestCount_flushed algebra_simps simp del: concat_eq_Nil_conv)
qed

lemma fifo_flush:
  assumes "rec_ok (up_rec u)" and "fifo u l"
  shows "fifo (onFlush u t rd) (log_flush u t rd l)"
proof (cases "concat (rc_shards (up_rec u)) = []")
  case True
  with assms show ?thesis by (simp add: onFlush_empty fifo_def)
next
  case False
  let ?r = "up_rec u" and ?req = "flushedRequest (up_rec u) t rd"
  have ok: "shards_ok (rc_shards ?r)" and inv: "ring_inv (rc_ring ?r)" using assms(1) by (simp_all add: rec_ok_def)
  let ?kept = "if length (ring_list (rc_ring ?r)) = ring_cap (rc_ring ?r)
    then tl (ring_list (rc_ring ?r)) else ring_list (rc_ring ?r)"
  have "subseq ?kept (ring_list (rc_ring ?r))"
    by (cases "ring_list (rc_ring ?r)") auto
  then have "subseq (map (stamp 0) (lg_sent l @ ?kept)) (map (stamp 0) (lg_sent l @ ring_list (rc_ring ?r)))"
    by (intro subseq_map list_emb_append_mono) auto
  then have "subseq (map (stamp 0) (lg_sent l @ ?kept)) (map (stamp 0) (lg_built l))"
    using assms(2) unfolding fifo_def by (rule subseq_order.order_trans)
  then have "subseq (map (stamp 0) (lg_sent l @ ?kept @ [?req])) (map (stamp 0) (lg_built l @ [?req]))"
    using list_emb_append_mono [of "(=)" "map (stamp 0) (lg_sent l @ ?kept)" _ "[stamp 0 ?req]" "[stamp 0 ?req]"]
    by simp
  then show ?thesis
    by (simp add: fifo_def onFlush_push [OF assms(1) False] log_flush_push [OF assms(1) False]
        flush_push [OF ok False] rg.elems_push [OF inv] Let_def del: concat_eq_Nil_conv length_ring_list)
qed

lemma timers_flush:
  assumes "rec_ok (up_rec u)" and "timers_ok u"
  shows "timers_ok (onFlush u t rd)"
proof (cases "concat (rc_shards (up_rec u)) = []")
  case True
  with assms show ?thesis by (simp add: onFlush_empty timers_ok_def)
next
  case False
  let ?r = "up_rec u" and ?req = "flushedRequest (up_rec u) t rd"
  have ok: "shards_ok (rc_shards ?r)" and inv: "ring_inv (rc_ring ?r)" using assms(1) by (simp_all add: rec_ok_def)
  have "ring_len (rc_ring (fst (flush ?r t rd))) = min (ring_cap (rc_ring ?r)) (Suc (ring_len (rc_ring ?r)))"
    by (simp add: flush_push [OF ok False] rg.len_push [OF inv] del: concat_eq_Nil_conv)
  then have "ring_list (rc_ring ?r) \<noteq> []" if "ring_len (rc_ring (fst (flush ?r t rd))) \<noteq> 1"
    using that rg.cap_pos [OF inv] by (auto simp: ring_len_def simp flip: length_ring_list)
  with assms(2) show ?thesis
    by (auto simp: timers_ok_def onFlush_push [OF assms(1) False] simp del: concat_eq_Nil_conv)
qed

text \<open>The retry step, by the three outcomes of the drain.\<close>

lemma ring_inv_rec: "rec_ok r \<Longrightarrow> ring_inv (rc_ring r)"
  by (simp add: rec_ok_def)

lemma onRetry_cases:
  assumes "rec_ok (up_rec u)"
  obtains (empty) "ring_list (rc_ring (up_rec u)) = []" "onRetry u ok = u\<lparr>up_retryTimer := Stopped\<rparr>"
      "log_retry u ok l = l"
  | (sent) q qs where "ok" "ring_list (rc_ring (up_rec u)) = q # qs" 
      "ring_list (rc_ring (up_rec (onRetry u ok))) = qs" "rec_ok (up_rec (onRetry u ok))"
      "rc_dropped (up_rec (onRetry u ok)) = 0"
      "rc_shards (up_rec (onRetry u ok)) = rc_shards (up_rec u)"
      "rc_active (up_rec (onRetry u ok)) = rc_active (up_rec u)"
      "rc_closed (up_rec (onRetry u ok)) = rc_closed (up_rec u)"
      "up_backoff (onRetry u ok) = baseBackoff" "up_flushTimer (onRetry u ok) = up_flushTimer u"
      "up_retryTimer (onRetry u ok) = (if qs = [] then Stopped else Armed 0)"
      "log_retry u ok l = l\<lparr>lg_sent := lg_sent l @ [stamp (rc_dropped (up_rec u)) q]\<rparr>"
  | (failed) q qs where "\<not> ok" "ring_list (rc_ring (up_rec u)) = q # qs"
      "ring_list (rc_ring (up_rec (onRetry u ok))) = stamp (rc_dropped (up_rec u)) q # qs"
      "rec_ok (up_rec (onRetry u ok))"
      "rc_dropped (up_rec (onRetry u ok)) = rc_dropped (up_rec u)"
      "rc_shards (up_rec (onRetry u ok)) = rc_shards (up_rec u)"
      "rc_active (up_rec (onRetry u ok)) = rc_active (up_rec u)"
      "rc_closed (up_rec (onRetry u ok)) = rc_closed (up_rec u)"
      "up_backoff (onRetry u ok) = nextBackoff (up_backoff u)" "up_flushTimer (onRetry u ok) = up_flushTimer u"
      "up_retryTimer (onRetry u ok) = Armed (up_backoff u)" "log_retry u ok l = l"
proof -
  let ?r = "up_rec u" and ?w = "ring_write_oldest (stamp (rc_dropped (up_rec u))) (rc_ring (up_rec u))"
  note inv = ring_inv_rec [OF assms]
  have winv: "ring_inv ?w" by (rule rg.invar_write [OF inv])
  show thesis
  proof (cases "ring_list (rc_ring ?r)")
    case Nil
    then have "ring_peek (rc_ring ?r) = None" by (simp add: rg.peek_elems [OF inv])
    then show thesis using Nil by (intro empty) (simp_all add: onRetry_def tryDrainOldest_empty log_retry_def Let_def)
  next
    case (Cons q qs)
    then have p: "ring_peek (rc_ring ?r) = Some q" by (simp add: rg.peek_elems [OF inv])
    have w: "ring_list ?w = stamp (rc_dropped ?r) q # qs" using Cons by (simp add: rg.elems_write [OF inv])
    then have pop: "ring_list (fst (ring_pop ?w)) = qs" "ring_inv (fst (ring_pop ?w))"
      by (simp_all add: rg.elems_pop [OF winv] rg.invar_pop [OF winv])
    then have len: "ring_len (fst (ring_pop ?w)) = length qs" using rg.len_elems [OF pop(2)] by simp
    have sh: "shards_ok (rc_shards ?r)" using assms by (simp add: rec_ok_def)
    show thesis
    proof (cases ok)
      case True
      with p have "onRetry u ok = (let u' = u\<lparr>up_rec := ?r\<lparr>rc_ring := fst (ring_pop ?w), rc_dropped := 0\<rparr>,
           up_retryTimer := Stopped, up_backoff := baseBackoff\<rparr> in
         if qs = [] then u' else u'\<lparr>up_retryTimer := Armed 0\<rparr>)"
        by (simp add: onRetry_def tryDrainOldest_sent len Let_def)
      then show thesis using True Cons pop sh p
        by (intro sent) (auto simp: Let_def rec_ok_def log_retry_def)
    next
      case False
      with p have "onRetry u ok = u\<lparr>up_rec := ?r\<lparr>rc_ring := ?w\<rparr>,
           up_retryTimer := Armed (up_backoff u), up_backoff := nextBackoff (up_backoff u)\<rparr>"
        by (simp add: onRetry_def tryDrainOldest_failed Let_def)
      then show thesis using False Cons winv sh w
        by (intro failed) (auto simp: rec_ok_def log_retry_def)
    qed
  qed
qed

lemma run_inv_retry:
  assumes "run_inv (u, l)"
  shows "run_inv (onRetry u ok, log_retry u ok l)"
proof -
  have recok: "rec_ok (up_rec u)" and b: "baseBackoff \<le> up_backoff u" "up_backoff u \<le> maxBackoff"
    using assms by (auto simp: run_inv_def timers_ok_def)
  have nb: "baseBackoff \<le> nextBackoff (up_backoff u)" "nextBackoff (up_backoff u) \<le> maxBackoff"
    using b backoff_consts by (auto simp: nextBackoff_eq)
  from recok show ?thesis
  proof (cases rule: onRetry_cases [where ok = ok and l = l, case_names empty sent failed])
    case empty
    then show ?thesis using assms by (auto simp: run_inv_def accounted_def fifo_def timers_ok_def)
  next
    case (sent q qs)
    then show ?thesis
      using assms backoff_consts
      by (auto simp: run_inv_def accounted_def fifo_def timers_ok_def Let_def add.commute)
  next
    case (failed q qs)
    then show ?thesis
      using assms b nb by (auto simp: run_inv_def accounted_def fifo_def timers_ok_def Let_def)
  qed
qed

lemma run_inv_flush:
  assumes "run_inv (u, l)"
  shows "run_inv (onFlush u t rd, log_flush u t rd l)"
proof -
  have ok: "rec_ok (up_rec u)" and sh: "shards_ok (rc_shards (up_rec u))"
    using assms by (auto simp: run_inv_def rec_ok_def)
  have "up_rec (onFlush u t rd) = fst (flush (up_rec u) t rd)" by (simp add: onFlush_def split_def Let_def)
  moreover have "rc_active (fst (flush (up_rec u) t rd)) = rc_active (up_rec u)"
      "rc_closed (fst (flush (up_rec u) t rd)) = rc_closed (up_rec u)"
    by (cases "concat (rc_shards (up_rec u)) = []";
        simp add: flush_empty [OF sh] flush_push [OF sh] del: concat_eq_Nil_conv)+
  ultimately show ?thesis
    using assms accounted_flush [OF ok] fifo_flush [OF ok] timers_flush [OF ok] rec_ok_flush [OF ok]
    by (auto simp: run_inv_def)
qed

lemma run_inv_observe:
  assumes "run_inv (u, l)"
  shows "run_inv (u\<lparr>up_rec := Observe (up_rec u) rec now\<rparr>, l\<lparr>lg_observed := Suc (lg_observed l)\<rparr>)"
  using assms shardCount_Observe [of "up_rec u" rec now]
  by (auto simp: run_inv_def accounted_def fifo_def timers_ok_def Let_def rec_ok_def shards_ok_Observe
      algebra_simps)

lemma run_inv_step: "run_step s s' \<Longrightarrow> run_inv s \<Longrightarrow> run_inv s'"
proof (induction rule: run_step.induct)
  case (observe u l rec now)
  then show ?case by (intro run_inv_observe)
next
  case (flush u l now rd)
  then show ?case by (intro run_inv_flush)
next
  case (retry u l ok)
  then show ?case by (intro run_inv_retry)
qed (auto simp: run_inv_def accounted_def fifo_def timers_ok_def Let_def rec_ok_def BeginRequest_def endRequest_def)

lemma run_inv_reachable: "run_reachable cfg start s \<Longrightarrow> run_inv s"
  unfolding run_reachable_def
  by (induction rule: rtranclp_induct) (auto intro: run_inv_init run_inv_step)

section \<open>Properties\<close>


text \<open>A run of three steps: one request is observed, the flush timer ticks, the window is flushed.\<close>

definition demoTicked :: uploader where
  "demoTicked = (run_init (newRecorderWithTransport demoConfig 0))
     \<lparr>up_rec := observeWindow (newRecorderWithTransport demoConfig 0) [(demoRecord 200 5, 1)],
      up_flushTimer := Ticked\<rparr>"

definition demoRun :: "uploader \<times> ledger" where
  "demoRun = (onFlush demoTicked 2 demoReading,
     log_flush demoTicked 2 demoReading (ledger_zero\<lparr>lg_observed := 1\<rparr>))"

lemma demoRun_reachable: "run_reachable demoConfig 0 demoRun"
proof -
  let ?r = "newRecorderWithTransport demoConfig 0"
  let ?u = "(run_init ?r)\<lparr>up_rec := Observe ?r (demoRecord 200 5) 1\<rparr>" and ?l = "ledger_zero\<lparr>lg_observed := 1\<rparr>"
  have t: "?u\<lparr>up_flushTimer := Ticked\<rparr> = demoTicked"
    by (simp add: demoTicked_def observeWindow_def run_init_def)
  have a: "run_step (run_init ?r, ledger_zero) (?u, ?l)"
    using run_step.observe [of "run_init ?r" ledger_zero "demoRecord 200 5" 1]
    by (simp add: run_init_def newRecorderWithTransport_def ledger_zero_def)
  have b: "run_step (?u, ?l) (demoTicked, ?l)"
    using run_step.tick_flush [of ?u firstFlushDelay ?l] unfolding t by (simp add: run_init_def)
  have c: "run_step (demoTicked, ?l) demoRun"
    unfolding demoRun_def by (rule run_step.flush) (simp_all add: demoTicked_def run_init_def)
  show ?thesis
    unfolding run_reachable_def
    by (rule rtranclp.rtrancl_into_rtrancl [OF rtranclp.rtrancl_into_rtrancl [OF r_into_rtranclp [of run_step, OF a] b] c])
qed

lemma demoRun_pending: "length (ring_list (rc_ring (up_rec (fst demoRun)))) = 1" "length (lg_built (snd demoRun)) = 1"
proof -
  let ?r = "newRecorderWithTransport demoConfig 0"
  have r: "rec_ok ?r" "rc_active ?r" "\<not> rc_closed ?r" "rc_shards ?r = replicate numShards []"
    using rec_ok_new [of demoConfig 0] by (simp_all add: newRecorderWithTransport_def)
  have c: "concat (rc_shards (up_rec demoTicked)) \<noteq> []"
    using window_nonempty [OF r(2-4), of "[(demoRecord 200 5, 1)]"] by (simp add: demoTicked_def)
  have sh: "shards_ok (rc_shards (up_rec demoTicked))" and inv: "ring_inv (rc_ring (up_rec demoTicked))"
    using r(1) by (simp_all add: demoTicked_def rec_ok_def shards_ok_observeWindow)
  then have ok: "rec_ok (up_rec demoTicked)" by (simp add: rec_ok_def)
  have "ring_list (rc_ring (up_rec demoTicked)) = []"
    by (simp add: demoTicked_def newRecorderWithTransport_def ring_list_new)
  then show "length (ring_list (rc_ring (up_rec (fst demoRun)))) = 1"
    using rg.cap_pos [OF inv]
    by (simp add: demoRun_def onFlush_push [OF ok c] flush_push [OF sh c] rg.elems_push [OF inv]
        del: length_ring_list)
  show "length (lg_built (snd demoRun)) = 1"
    by (simp add: demoRun_def log_flush_push [OF ok c] Let_def ledger_zero_def)
qed




text \<open>C16. Uploads are in order and never duplicated: the acknowledged requests followed by the
  pending ones are a subsequence of the requests in the order they were built (only the dropped
  stamp differs).\<close>

theorem uploader_fifo:
  assumes "run_reachable cfg start (u, l)"
  shows "subseq (map (stamp 0) (lg_sent l @ ring_list (rc_ring (up_rec u)))) (map (stamp 0) (lg_built l))"
  using run_inv_reachable [OF assms] by (simp add: run_inv_def fifo_def)

theorem uploader_fifo_witness:
  "subseq (map (stamp 0) (lg_sent (snd demoRun) @ ring_list (rc_ring (up_rec (fst demoRun)))))
     (map (stamp 0) (lg_built (snd demoRun)))"
  using uploader_fifo [of demoConfig 0 "fst demoRun" "snd demoRun"] demoRun_reachable by simp

section \<open>Graceful shutdown\<close>

lemma tryDrainOldest_list:
  assumes "ring_inv (rc_ring r)" and "ring_list (rc_ring r) = q # qs"
  shows "ring_inv (rc_ring (fst (tryDrainOldest r ok)))"
    and "ring_list (rc_ring (fst (tryDrainOldest r ok))) =
      (if ok then qs else stamp (rc_dropped r) q # qs)"
    and "rc_dropped (fst (tryDrainOldest r ok)) = (if ok then 0 else rc_dropped r)"
proof -
  have p: "ring_peek (rc_ring r) = Some q" using assms by (simp add: rg.peek_elems)
  note w = rg.invar_write [OF assms(1), of "stamp (rc_dropped r)"] rg.elems_write [OF assms(1), of "stamp (rc_dropped r)"]
  show "ring_inv (rc_ring (fst (tryDrainOldest r ok)))"
    "ring_list (rc_ring (fst (tryDrainOldest r ok))) = (if ok then qs else stamp (rc_dropped r) q # qs)"
    "rc_dropped (fst (tryDrainOldest r ok)) = (if ok then 0 else rc_dropped r)"
    using p w assms(2)
    by (cases ok; simp add: tryDrainOldest_sent tryDrainOldest_failed rg.invar_pop rg.elems_pop)+
qed

lemma drainLoop_ships:
  assumes "ring_inv (rc_ring r)" and "length (ring_list (rc_ring r)) \<le> count_list oks True"
  shows "case drainLoop r oks of (r', sent, err) \<Rightarrow>
    ring_list (rc_ring r') = [] \<and> map (stamp 0) sent = map (stamp 0) (ring_list (rc_ring r)) \<and>
    (\<not> snd (snd (drainLoop r (oks @ [ok]))))"
  using assms
proof (induction oks arbitrary: r)
  case (Cons ok' oks)
  show ?case
  proof (cases "ring_list (rc_ring r)")
    case Nil
    then have "ring_len (rc_ring r) = 0" by (simp add: ring_len_def flip: length_ring_list)
    with Nil show ?thesis by simp
  next
    case q: (Cons q qs)
    let ?r = "fst (tryDrainOldest r ok')"
    have "ring_len (rc_ring r) \<noteq> 0" using q by (simp add: ring_len_def flip: length_ring_list)
    moreover have "ring_peek (rc_ring r) = Some q" using q Cons.prems(1) by (simp add: rg.peek_elems)
    moreover note d = tryDrainOldest_list [OF Cons.prems(1) q, of ok']
    moreover have "length (ring_list (rc_ring ?r)) \<le> count_list oks True"
      using Cons.prems(2) q d(2) by (simp del: length_ring_list split: if_splits)
    note IH = Cons.IH [OF d(1) this]
    ultimately show ?thesis
      using IH q by (cases ok') (auto simp: split_def Let_def simp del: length_ring_list)
  qed
qed (auto simp: ring_list_empty ring_len_def)

text \<open>C17. A graceful shutdown ships everything: when the attempts that fit the caller's context
  contain at least as many successes as there are pending requests after the final flush (failures
  may come in between), \<open>Shutdown\<close> leaves an empty ring, the collector has acknowledged every pending
  request oldest first, and no error is returned if the context still has room for one attempt.\<close>

theorem shutdown_ships_everything:
  fixes u :: uploader and now :: instant and rd :: reading
  assumes "rec_ok (up_rec u)" and "rc_active (up_rec u)"
  defines "pending \<equiv> ring_list (rc_ring (fst (flush ((up_rec u)\<lparr>rc_closed := True\<rparr>) now rd)))"
  assumes "length pending \<le> count_list oks True"
  shows "(case Shutdown u now rd oks of (u', sent, err) \<Rightarrow>
      ring_list (rc_ring (up_rec u')) = [] \<and> map (stamp 0) sent = map (stamp 0) pending \<and> up_done u') \<and>
    \<not> snd (snd (Shutdown u now rd (oks @ [ok])))"
proof -
  let ?r = "fst (flush ((up_rec u)\<lparr>rc_closed := True\<rparr>) now rd)"
  have "rec_ok ((up_rec u)\<lparr>rc_closed := True\<rparr>)" using assms(1) by (simp add: rec_ok_def)
  then have "ring_inv (rc_ring ?r)" by (intro ring_inv_rec rec_ok_flush)
  from drainLoop_ships [OF this, of oks ok] assms(2,4) show ?thesis
    by (simp add: Shutdown_def pending_def split_def Let_def del: length_ring_list)
qed

theorem shutdown_ships_everything_witness:
  "case Shutdown (fst demoRun) 3 demoReading [False, True] of (u', sent, err) \<Rightarrow>
     ring_list (rc_ring (up_rec u')) = [] \<and> length sent = 1"
proof -
  let ?u = "fst demoRun" and ?c = "(up_rec (fst demoRun))\<lparr>rc_closed := True\<rparr>"
  have inv: "run_inv demoRun" using run_inv_reachable [OF demoRun_reachable] .
  then have ok: "rec_ok (up_rec ?u)" "rc_active (up_rec ?u)" by (auto simp: run_inv_def split_def)
  have "rec_ok (up_rec demoTicked)"
    using rec_ok_new [of demoConfig 0] by (simp add: demoTicked_def rec_ok_def shards_ok_observeWindow)
  then have "rc_shards ?c = replicate numShards []"
    by (simp add: demoRun_def onFlush_def split_def Let_def flush_shards rec_ok_def)
  moreover have "shards_ok (rc_shards ?c)" using ok by (simp add: rec_ok_def)
  ultimately have "rc_ring (fst (flush ?c 3 demoReading)) = rc_ring (up_rec ?u)"
    using flush_empty [of ?c 3 demoReading] by (simp add: concat_eq_Nil_conv)
  then have p: "length (ring_list (rc_ring (fst (flush ?c 3 demoReading)))) = 1" using demoRun_pending(1) by simp
  then have "length (ring_list (rc_ring (fst (flush ?c 3 demoReading)))) \<le> count_list [False, True] True" by simp
  from shutdown_ships_everything [OF ok this, where ok = True] show ?thesis
    using p by (auto simp: split_def dest!: map_eq_imp_length_eq simp del: length_ring_list)
qed

end
