(* ===== verification/Ttl_Cache.thy ===== *)
theory Ttl_Cache
  imports Prelude
begin

text \<open>
  The contract of the two read-through TTL caches of the server: the limits cache of
  src/server/internal/guardrail/limitcache.go and the key-resolution cache of
  src/server/internal/control/resolver.go. Both have a read that skips expired entries
  (\<open>getFresh\<close>), a write that may sweep expired entries first (\<open>store\<close>), and an operation that
  answers from a fresh entry or asks the backing source and stores the answer. The laws are the
  assumptions of the locale, the bound on the age of an answer is proved once, and each cache is an
  interpretation.

  A call reads the clock several times; the readings are arguments, in the order of the code: \<open>t1\<close>
  for the freshness test, \<open>t2\<close> for the expiry, \<open>t3\<close> for the sweep.
\<close>

text \<open>One call: the key, the first clock reading, the instant the backing source was read, and the
  two later clock readings.\<close>

record 'k cache_call =
  cc_key :: 'k
  cc_t1 :: instant
  cc_read :: instant
  cc_t2 :: instant
  cc_t3 :: instant

locale ttl_cache =
  fixes entries :: "'c \<Rightarrow> 'k \<Rightarrow> 'e option"
    and get :: "'c \<Rightarrow> 'k \<Rightarrow> instant \<Rightarrow> 'e option"
    and put :: "'c \<Rightarrow> 'k \<Rightarrow> 'e \<Rightarrow> instant \<Rightarrow> 'c"
    and answer :: "'e \<Rightarrow> 'v"
    and expiry :: "'e \<Rightarrow> instant"
    and make :: "'v \<Rightarrow> instant \<Rightarrow> 'e"
    and ttl :: "'v \<Rightarrow> duration"
    and refused :: 'v
    and resolve :: "'c \<Rightarrow> 'k \<Rightarrow> 'v option \<Rightarrow> instant \<Rightarrow> instant \<Rightarrow> instant \<Rightarrow> 'c \<times> 'v"
    and max_ttl :: duration
    and cache_ok :: "'c \<Rightarrow> bool"
  assumes get_fresh: "get c k now =
      (case entries c k of None \<Rightarrow> None | Some e \<Rightarrow> if now < expiry e then Some e else None)"
    and put_same: "cache_ok c \<Longrightarrow> entries (put c k e now) k = Some e"
    and put_other: "cache_ok c \<Longrightarrow> k' \<noteq> k \<Longrightarrow> entries (put c k e now) k' = Some e' \<Longrightarrow> entries c k' = Some e'"
    and put_live: "cache_ok c \<Longrightarrow> k' \<noteq> k \<Longrightarrow> entries c k' = Some e' \<Longrightarrow> now < expiry e' \<Longrightarrow>
      entries (put c k e now) k' = Some e'"
    and put_ok: "cache_ok c \<Longrightarrow> cache_ok (put c k e now)"
    and answer_make: "answer (make v x) = v"
    and expiry_make: "expiry (make v x) = x"
    and resolve_eq: "resolve c k source t1 t2 t3 =
      (case get c k t1 of
         Some e \<Rightarrow> (c, answer e)
       | None \<Rightarrow> (case source of
           None \<Rightarrow> (c, refused)
         | Some v \<Rightarrow> (put c k (make v (t2 + ttl v)) t3, v)))"
    and ttl_bound: "ttl v \<le> max_ttl"
begin

text \<open>A history of calls against a source that changes over time; \<open>None\<close> is a failing source.\<close>

fun run :: "(instant \<Rightarrow> 'k \<Rightarrow> 'v option) \<Rightarrow> 'c \<Rightarrow> 'k cache_call list \<Rightarrow> 'c" where
  "run source c [] = c"
| "run source c (x # xs) =
     run source (fst (resolve c (cc_key x) (source (cc_read x) (cc_key x)) (cc_t1 x) (cc_t2 x) (cc_t3 x))) xs"

text \<open>The readings of one call are ordered and the source answers within \<open>lat\<close>.\<close>

definition timely :: "duration \<Rightarrow> 'k cache_call \<Rightarrow> bool" where
  "timely lat x \<longleftrightarrow> cc_t1 x \<le> cc_read x \<and> cc_read x \<le> cc_t2 x \<and> cc_t2 x - cc_read x \<le> lat"

text \<open>Every cached answer is what the source said at some instant, no longer ago than its expiry
  admits.\<close>

definition sound :: "(instant \<Rightarrow> 'k \<Rightarrow> 'v option) \<Rightarrow> duration \<Rightarrow> 'c \<Rightarrow> bool" where
  "sound source lat c \<longleftrightarrow> cache_ok c \<and>
     (\<forall>k e. entries c k = Some e \<longrightarrow>
        (\<exists>r. source r k = Some (answer e) \<and> expiry e \<le> r + lat + max_ttl))"

lemma sound_resolve:
  assumes "sound source lat c" and "timely lat x"
  shows "sound source lat
    (fst (resolve c (cc_key x) (source (cc_read x) (cc_key x)) (cc_t1 x) (cc_t2 x) (cc_t3 x)))"
proof (cases "get c (cc_key x) (cc_t1 x)")
  case None
  show ?thesis
  proof (cases "source (cc_read x) (cc_key x)")
    case (Some v)
    let ?e = "make v (cc_t2 x + ttl v)"
    have "cc_t2 x + ttl v \<le> cc_read x + lat + max_ttl"
      using assms(2) ttl_bound [of v] by (auto simp: timely_def)
    moreover have ok: "cache_ok c" using assms(1) by (simp add: sound_def)
    ultimately show ?thesis
      using None Some assms(1) put_same [OF ok] put_other [OF ok] put_ok [OF ok]
      unfolding sound_def resolve_eq
      by (simp add: answer_make expiry_make) (metis answer_make expiry_make option.inject)
  qed (use None assms(1) in \<open>simp add: resolve_eq\<close>)
qed (use assms(1) in \<open>simp add: resolve_eq\<close>)

lemma sound_run: "sound source lat c \<Longrightarrow> \<forall>x \<in> set xs. timely lat x \<Longrightarrow> sound source lat (run source c xs)"
  by (induction xs arbitrary: c) (auto intro: sound_resolve)

text \<open>The age of an answer: it is what the source said less than \<open>max_ttl + lat\<close> before the call
  began (or during it), or it is the refusal of a failing source.\<close>

lemma answer_age:
  assumes "sound source lat c" and "timely lat x" and "0 \<le> max_ttl"
  defines "v \<equiv> snd (resolve c (cc_key x) (source (cc_read x) (cc_key x)) (cc_t1 x) (cc_t2 x) (cc_t3 x))"
  shows "(\<exists>r. source r (cc_key x) = Some v \<and> cc_t1 x < r + lat + max_ttl) \<or>
    (source (cc_read x) (cc_key x) = Some v) \<or> (source (cc_read x) (cc_key x) = None \<and> v = refused)"
proof (cases "get c (cc_key x) (cc_t1 x)")
  case None
  then show ?thesis
    unfolding v_def by (auto simp: resolve_eq split: option.splits)
next
  case (Some e)
  then have e: "entries c (cc_key x) = Some e" "cc_t1 x < expiry e"
    by (auto simp: get_fresh split: option.splits if_splits)
  moreover have "v = answer e" using Some by (simp add: v_def resolve_eq)
  ultimately show ?thesis using assms(1) unfolding sound_def by (meson order_less_le_trans)
qed

text \<open>A change of the source takes effect: once the source gives only answers in \<open>P\<close> from \<open>since\<close>
  on, every call that starts \<open>max_ttl + lat\<close> later answers in \<open>P\<close> or refuses.\<close>

lemma change_takes_effect:
  assumes "sound source lat c" and "timely lat x" and "0 \<le> max_ttl" and "0 \<le> lat"
    and "\<And>r v. since \<le> r \<Longrightarrow> source r (cc_key x) = Some v \<Longrightarrow> P v"
    and "since + lat + max_ttl \<le> cc_t1 x"
  shows "P (snd (resolve c (cc_key x) (source (cc_read x) (cc_key x)) (cc_t1 x) (cc_t2 x) (cc_t3 x))) \<or>
    snd (resolve c (cc_key x) (source (cc_read x) (cc_key x)) (cc_t1 x) (cc_t2 x) (cc_t3 x)) = refused"
proof -
  let ?v = "snd (resolve c (cc_key x) (source (cc_read x) (cc_key x)) (cc_t1 x) (cc_t2 x) (cc_t3 x))"
  consider r where "source r (cc_key x) = Some ?v" "cc_t1 x < r + lat + max_ttl"
    | "source (cc_read x) (cc_key x) = Some ?v" | "?v = refused"
    using answer_age [OF assms(1-3)] by blast
  then show ?thesis
  proof cases
    case (1 r)
    then have "since \<le> r" using assms(6) by simp
    with 1 show ?thesis using assms(5) by blast
  next
    case 2
    moreover have "since \<le> cc_read x" using assms(2-4,6) by (auto simp: timely_def)
    ultimately show ?thesis using assms(5) by blast
  qed blast
qed

end

text \<open>The sweep of both caches: entries whose expiry is not after \<open>now\<close> are removed.\<close>

lemma map_of_sweep_Some:
  "gomap_ok m \<Longrightarrow> map_of (filter (\<lambda>(k, e). P e) m) k = Some e \<Longrightarrow> map_of m k = Some e"
  by (auto simp: map_of_filter_Some split: option.splits if_splits)

lemma map_of_sweep_keep:
  "gomap_ok m \<Longrightarrow> map_of m k = Some e \<Longrightarrow> P e \<Longrightarrow> map_of (filter (\<lambda>(k, e). P e) m) k = Some e"
  by (simp add: map_of_filter_Some)

end
