(* ===== verification/Guardrail.thy ===== *)
theory Guardrail
  imports Ttl_Cache
begin

text \<open>
  The server-side limits of src/server/internal/guardrail/ and the tenant identity of
  src/server/internal/tenant/tenant.go: the budget of a plan, the per-node cardinality guard, the
  cached limit provider and the plan-driven rate limiter.

  Maps of maps are association lists. The token bucket of \<open>golang.org/x/time/rate\<close> is not code of
  this repository: it is a record of functions, and what the limiter relies on is the predicate
  \<open>ratelib_ok\<close>.
\<close>

section \<open>Tenants and limits\<close>

text \<open>A tenant id is a validated, non-empty string; the zero value is the empty string.\<close>

type_synonym tenantID = string

definition tenant_Parse :: "string \<Rightarrow> tenantID option" where
  "tenant_Parse s = (if s = '''' then None else Some s)"

definition tenant_IsZero :: "tenantID \<Rightarrow> bool" where
  "tenant_IsZero tid \<longleftrightarrow> tid = ''''"

record Limits =
  l_MaxRPS :: real
  l_Burst :: int
  l_CardinalityCap :: int
  l_MaxPayloadBytes :: int
  l_RetentionDays :: int

definition DefaultLimits :: Limits where
  "DefaultLimits = \<lparr>l_MaxRPS = 100, l_Burst = 200, l_CardinalityCap = 10000,
     l_MaxPayloadBytes = 4 * 2 ^ 20, l_RetentionDays = 30\<rparr>"

section \<open>The cardinality guard\<close>

definition seriesTTL :: duration where
  "seriesTTL = hour"

record cardinality =
  cd_tracked :: "(string, (string, instant) gomap) gomap"
  cd_frozenAt :: "(string, bool) gomap"

definition NewCardinality :: cardinality where
  "NewCardinality = \<lparr>cd_tracked = [], cd_frozenAt = []\<rparr>"

definition evictStale :: "(string, instant) gomap \<Rightarrow> instant \<Rightarrow> (string, instant) gomap" where
  "evictStale tracked now = filter (\<lambda>(key, seen). \<not> time_sub now seen \<ge> seriesTTL) tracked"

definition SeriesKey :: "string \<Rightarrow> string \<Rightarrow> string \<Rightarrow> string" where
  "SeriesKey method routeTemplate statusClass = method @ ''|'' @ routeTemplate @ ''|'' @ statusClass"

text \<open>The set of a tenant is shared through \<open>tracked\<close>, so every change to it is written back. The
  result is the new guard, \<open>allowed\<close> and \<open>frozen\<close>.\<close>

definition card_Allow :: "cardinality \<Rightarrow> string \<Rightarrow> string \<Rightarrow> int \<Rightarrow> instant \<Rightarrow> cardinality \<times> bool \<times> bool" where
  "card_Allow c tenant key capacity now =
     (let tset = (case map_of (cd_tracked c) tenant of None \<Rightarrow> [] | Some s \<Rightarrow> s);
          c = c\<lparr>cd_tracked := AList.update tenant tset (cd_tracked c)\<rparr>;
          tset = evictStale tset now;
          c = c\<lparr>cd_tracked := AList.update tenant tset (cd_tracked c)\<rparr>;
          c = (if length tset = 0
               then c\<lparr>cd_tracked := AList.update tenant [] (AList.delete tenant (cd_tracked c)),
                      cd_frozenAt := AList.delete tenant (cd_frozenAt c)\<rparr>
               else c)
      in if map_of tset key \<noteq> None \<or> capacity \<le> 0 \<or> int (length tset) < capacity
         then (c\<lparr>cd_tracked := AList.update tenant (AList.update key now tset) (cd_tracked c)\<rparr>,
               True, glookup False (cd_frozenAt c) tenant)
         else (c\<lparr>cd_frozenAt := AList.update tenant True (cd_frozenAt c)\<rparr>, False, True))"

definition card_Frozen :: "cardinality \<Rightarrow> string \<Rightarrow> bool" where
  "card_Frozen c tenant = glookup False (cd_frozenAt c) tenant"

text \<open>What a tenant has tracked, and the part of it that is still in the active window.\<close>

definition trackedSet :: "cardinality \<Rightarrow> string \<Rightarrow> (string, instant) gomap" where
  "trackedSet c tenant = glookup [] (cd_tracked c) tenant"

definition activeSet :: "cardinality \<Rightarrow> string \<Rightarrow> instant \<Rightarrow> (string, instant) gomap" where
  "activeSet c tenant now = evictStale (trackedSet c tenant) now"

definition card_ok :: "cardinality \<Rightarrow> bool" where
  "card_ok c \<longleftrightarrow> gomap_ok (cd_tracked c) \<and> (\<forall>t. gomap_ok (trackedSet c t))"

lemma card_Allow_eq:
  "card_Allow c tenant key capacity now =
     (let act = activeSet c tenant now;
          fz = (if act = [] then AList.delete tenant (cd_frozenAt c) else cd_frozenAt c);
          tr = (if act = [] then AList.update tenant [] (AList.delete tenant
                  (AList.update tenant act (AList.update tenant (trackedSet c tenant) (cd_tracked c))))
                else AList.update tenant act (AList.update tenant (trackedSet c tenant) (cd_tracked c)))
      in if map_of act key \<noteq> None \<or> capacity \<le> 0 \<or> int (length act) < capacity
         then (\<lparr>cd_tracked = AList.update tenant (AList.update key now act) tr, cd_frozenAt = fz\<rparr>,
               True, glookup False fz tenant)
         else (\<lparr>cd_tracked = tr, cd_frozenAt = AList.update tenant True fz\<rparr>, False, True))"
  by (simp add: card_Allow_def activeSet_def trackedSet_def glookup_def Let_def)

lemma glookup_delete: "glookup d (AList.delete k m) k' = (if k' = k then d else glookup d m k')"
  by (simp add: glookup_def delete_conv')

lemma gomap_ok_evict [simp]: "gomap_ok s \<Longrightarrow> gomap_ok (evictStale s now)"
  by (simp add: evictStale_def)

text \<open>The effect of one call on the tracked sets: other tenants are untouched; the tenant's set is
  the active one, with the series added or refreshed when it is allowed.\<close>

lemma trackedSet_Allow:
  "trackedSet (fst (card_Allow c tenant key capacity now)) t =
     (if t \<noteq> tenant then trackedSet c t
      else if fst (snd (card_Allow c tenant key capacity now))
        then AList.update key now (activeSet c tenant now) else activeSet c tenant now)"
  unfolding card_Allow_eq by (auto simp: Let_def trackedSet_def glookup_delete)

lemma allowed_iff:
  "fst (snd (card_Allow c tenant key capacity now)) \<longleftrightarrow>
     map_of (activeSet c tenant now) key \<noteq> None \<or> capacity \<le> 0 \<or>
     int (length (activeSet c tenant now)) < capacity"
  unfolding card_Allow_eq by (simp add: Let_def)

lemma Frozen_Allow:
  "card_Frozen (fst (card_Allow c tenant key capacity now)) t =
     (if t \<noteq> tenant then card_Frozen c t
      else \<not> fst (snd (card_Allow c tenant key capacity now)) \<or>
           activeSet c tenant now \<noteq> [] \<and> card_Frozen c tenant)"
  unfolding card_Allow_eq by (auto simp: Let_def card_Frozen_def glookup_delete)

lemma card_ok_new: "card_ok NewCardinality"
  by (simp add: card_ok_def NewCardinality_def trackedSet_def)

lemma gomap_ok_active: "card_ok c \<Longrightarrow> gomap_ok (activeSet c t now)"
  by (simp add: card_ok_def activeSet_def)

lemma card_ok_Allow:
  assumes "card_ok c"
  shows "card_ok (fst (card_Allow c tenant key capacity now))"
proof -
  have "gomap_ok (cd_tracked (fst (card_Allow c tenant key capacity now)))"
    using assms unfolding card_Allow_eq by (simp add: Let_def card_ok_def)
  moreover have "gomap_ok (trackedSet (fst (card_Allow c tenant key capacity now)) t)" for t
    using assms gomap_ok_active [OF assms, of tenant now] by (simp add: trackedSet_Allow card_ok_def)
  ultimately show ?thesis by (simp add: card_ok_def)
qed

lemma length_active_le: "length (activeSet c t now) \<le> length (trackedSet c t)"
  by (simp add: activeSet_def evictStale_def)

text \<open>A sequence of calls of any tenants, each with the capacity its plan gives.\<close>

definition card_run :: "(string \<Rightarrow> int) \<Rightarrow> cardinality \<Rightarrow> (string \<times> string \<times> instant) list \<Rightarrow> cardinality" where
  "card_run cap c calls = fold (\<lambda>(t, k, now) c. fst (card_Allow c t k (cap t) now)) calls c"

lemma card_run_cap:
  assumes "card_ok c" and "\<And>t. 0 < cap t \<Longrightarrow> int (length (trackedSet c t)) \<le> cap t"
  shows "card_ok (card_run cap c calls) \<and>
    (\<forall>t. 0 < cap t \<longrightarrow> int (length (trackedSet (card_run cap c calls) t)) \<le> cap t)"
  using assms
proof (induction calls arbitrary: c)
  case (Cons x calls)
  obtain t k now where x: "x = (t, k, now)" by (cases x) auto
  let ?c = "fst (card_Allow c t k (cap t) now)"
  have "int (length (trackedSet ?c t')) \<le> cap t'" if "0 < cap t'" for t'
    using Cons.prems(2) [OF that] that length_active_le [of c t now]
    by (auto simp: trackedSet_Allow allowed_iff length_update)
  from Cons.IH [OF card_ok_Allow [OF Cons.prems(1)] this] show ?case by (simp add: card_run_def x)
qed (simp add: card_run_def)

text \<open>C28. The cardinality guard holds its cap and freezes only new series. After any sequence of
  calls, a tenant with a positive cap has at most that many tracked series. A call is allowed exactly
  when the series was seen within the last hour, or fewer series than the cap were, or the cap is not
  positive; an allowed series is tracked with the current instant, and a call never touches the
  tracked series or the frozen flag of another tenant.\<close>

theorem cardinality_guard:
  fixes cap :: "string \<Rightarrow> int" and calls :: "(string \<times> string \<times> instant) list"
  defines "c \<equiv> card_run cap NewCardinality calls"
  shows "(\<forall>t. 0 < cap t \<longrightarrow> int (length (trackedSet c t)) \<le> cap t) \<and>
    (let (c', allowed, frozen) = card_Allow c tenant key capacity now;
         active = [(k, seen) \<leftarrow> trackedSet c tenant. time_sub now seen < hour]
     in (allowed \<longleftrightarrow> map_of active key \<noteq> None \<or> capacity \<le> 0 \<or> int (length active) < capacity) \<and>
        (allowed \<longrightarrow> map_of (trackedSet c' tenant) key = Some now) \<and>
        (\<not> allowed \<longrightarrow> frozen \<and> card_Frozen c' tenant \<and> trackedSet c' tenant = active) \<and>
        (\<forall>t. t \<noteq> tenant \<longrightarrow> trackedSet c' t = trackedSet c t \<and> card_Frozen c' t = card_Frozen c t))"
proof -
  have new: "trackedSet NewCardinality t = []" for t by (simp add: NewCardinality_def trackedSet_def)
  have act: "[(k, seen) \<leftarrow> trackedSet c tenant. time_sub now seen < hour] = activeSet c tenant now"
    by (simp add: activeSet_def evictStale_def seriesTTL_def not_le)
  have "snd (snd (card_Allow c tenant key capacity now))"
    if "\<not> fst (snd (card_Allow c tenant key capacity now))"
    using that unfolding card_Allow_eq by (auto simp: Let_def split: if_splits)
  then show ?thesis
    using card_run_cap [OF card_ok_new, of cap calls]
    unfolding act by (simp add: c_def [symmetric] new split_def Let_def trackedSet_Allow Frozen_Allow allowed_iff)
qed

theorem cardinality_guard_witness:
  "let c = card_run (\<lambda>_. 1) NewCardinality [(''acme'', ''GET|/a|2XX'', 0)];
       (c', allowed, frozen) = card_Allow c ''acme'' ''GET|/b|2XX'' 1 5
   in \<not> allowed \<and> frozen \<and> card_Frozen c' ''acme''"
proof -
  let ?c = "card_run (\<lambda>_. 1) NewCardinality [(''acme'', ''GET|/a|2XX'', 0)]"
  have "trackedSet ?c ''acme'' = [(''GET|/a|2XX'', 0)]"
    by (simp add: card_run_def trackedSet_Allow allowed_iff activeSet_def evictStale_def)
      (simp add: trackedSet_def NewCardinality_def)
  then show ?thesis
    using cardinality_guard [where cap = "\<lambda>_. 1" and calls = "[(''acme'', ''GET|/a|2XX'', 0)]"
        and tenant = "''acme''" and key = "''GET|/b|2XX''" and capacity = 1 and now = 5]
    by (simp add: split_def Let_def time_sub_def go_defs)
qed

section \<open>The cached limit provider\<close>

definition limitPositiveTTL :: duration where
  "limitPositiveTTL = 30 * second"

definition limitNegativeTTL :: duration where
  "limitNegativeTTL = 5 * second"

definition limitCacheSweepThreshold :: nat where
  "limitCacheSweepThreshold = 4096"

record limitCacheEntry =
  lc_limits :: Limits
  lc_ok :: bool
  lc_expiry :: instant

type_synonym limitCache = "(string, limitCacheEntry) gomap"

definition limits_getFresh :: "limitCache \<Rightarrow> string \<Rightarrow> instant \<Rightarrow> limitCacheEntry option" where
  "limits_getFresh cache tenant now =
     (case map_of cache tenant of
        None \<Rightarrow> None
      | Some entry \<Rightarrow> if \<not> lc_expiry entry > now then None else Some entry)"

definition limits_store :: "limitCache \<Rightarrow> string \<Rightarrow> limitCacheEntry \<Rightarrow> instant \<Rightarrow> limitCache" where
  "limits_store cache tenant entry now =
     AList.update tenant entry
       (if length cache \<ge> limitCacheSweepThreshold
        then filter (\<lambda>(k, e). lc_expiry e > now) cache else cache)"

text \<open>\<open>Limits\<close> of the decorator. \<open>base\<close> is the answer of the wrapped provider, used on a miss.\<close>

definition cached_Limits ::
  "limitCache \<Rightarrow> string \<Rightarrow> Limits \<times> bool \<Rightarrow> instant \<Rightarrow> instant \<Rightarrow> instant \<Rightarrow> limitCache \<times> Limits \<times> bool" where
  "cached_Limits cache tenant base t1 t2 t3 =
     (case limits_getFresh cache tenant t1 of
        Some entry \<Rightarrow> (cache, lc_limits entry, lc_ok entry)
      | None \<Rightarrow>
          let (limits, ok) = base;
              ttl = (if \<not> ok then limitNegativeTTL else limitPositiveTTL)
          in (limits_store cache tenant \<lparr>lc_limits = limits, lc_ok = ok, lc_expiry = t2 + ttl\<rparr> t3, limits, ok))"

definition limits_resolve ::
  "limitCache \<Rightarrow> string \<Rightarrow> (Limits \<times> bool) option \<Rightarrow> instant \<Rightarrow> instant \<Rightarrow> instant \<Rightarrow> limitCache \<times> Limits \<times> bool" where
  "limits_resolve cache tenant source t1 t2 t3 =
     (case source of
        Some base \<Rightarrow> cached_Limits cache tenant base t1 t2 t3
      | None \<Rightarrow> (cache, case limits_getFresh cache tenant t1 of
          Some entry \<Rightarrow> (lc_limits entry, lc_ok entry) | None \<Rightarrow> (DefaultLimits, False)))"

interpretation lim: ttl_cache map_of limits_getFresh limits_store "\<lambda>e. (lc_limits e, lc_ok e)" lc_expiry
  "\<lambda>v x. \<lparr>lc_limits = fst v, lc_ok = snd v, lc_expiry = x\<rparr>"
  "\<lambda>v. if \<not> snd v then limitNegativeTTL else limitPositiveTTL" "(DefaultLimits, False)" limits_resolve
  limitPositiveTTL gomap_ok
proof (unfold_locales, goal_cases)
  case (3 c k' k e now e')
  then show ?case by (auto simp: limits_store_def intro: map_of_sweep_Some split: if_splits)
next
  case (4 c k' k e' now e)
  then show ?case by (auto simp: limits_store_def intro: map_of_sweep_keep)
next
  case (8 c k source t1 t2 t3)
  then show ?case
    by (auto simp: limits_resolve_def cached_Limits_def Let_def split_def split: option.splits)
qed (auto simp: limits_getFresh_def limits_store_def limitNegativeTTL_def limitPositiveTTL_def go_defs
    split: option.splits)

text \<open>A history of requests for limits, each call with its clock readings.\<close>

definition limits_run ::
  "(instant \<Rightarrow> string \<Rightarrow> Limits \<times> bool) \<Rightarrow> string cache_call list \<Rightarrow> limitCache" where
  "limits_run base xs = lim.run (\<lambda>t k. Some (base t k)) [] xs"

abbreviation timely_call :: "duration \<Rightarrow> 'k cache_call \<Rightarrow> bool" where
  "timely_call lat x \<equiv> cc_t1 x \<le> cc_read x \<and> cc_read x \<le> cc_t2 x \<and> cc_t2 x - cc_read x \<le> lat"

text \<open>A plan change is enforced within the positive TTL. After any history of calls, if the
  control plane gives from instant \<open>since\<close> on only budgets that satisfy \<open>P\<close> for a tenant (for
  example a suspension), then every resolution of that tenant that begins 30 seconds (plus the
  latency of a control-plane query) later satisfies \<open>P\<close>, whatever the cache held.\<close>

theorem limits_change_enforced:
  fixes base :: "instant \<Rightarrow> string \<Rightarrow> Limits \<times> bool" and x :: "string cache_call"
  assumes "\<forall>y \<in> set xs. timely_call lat y" and "timely_call lat x" and "0 \<le> lat"
    and "\<And>r. since \<le> r \<Longrightarrow> P (base r (cc_key x))"
    and "since + lat + 30 * second \<le> cc_t1 x"
  shows "P (snd (cached_Limits (limits_run base xs) (cc_key x) (base (cc_read x) (cc_key x))
    (cc_t1 x) (cc_t2 x) (cc_t3 x)))"
proof -
  let ?s = "\<lambda>t k. Some (base t k)" and ?c = "limits_run base xs"
  have "lim.sound ?s lat []" by (simp add: lim.sound_def)
  then have c: "lim.sound ?s lat ?c"
    unfolding limits_run_def by (rule lim.sound_run) (use assms(1) in \<open>simp add: lim.timely_def\<close>)
  have eq: "limits_resolve ?c (cc_key x) (?s (cc_read x) (cc_key x)) (cc_t1 x) (cc_t2 x) (cc_t3 x) =
      cached_Limits ?c (cc_key x) (base (cc_read x) (cc_key x)) (cc_t1 x) (cc_t2 x) (cc_t3 x)"
    by (simp add: limits_resolve_def)
  have t: "lim.timely lat x" using assms(2) by (simp add: lim.timely_def)
  have ttl: "(0::int) \<le> limitPositiveTTL" by (simp add: limitPositiveTTL_def go_defs)
  let ?v = "snd (cached_Limits ?c (cc_key x) (base (cc_read x) (cc_key x)) (cc_t1 x) (cc_t2 x) (cc_t3 x))"
  obtain r where r: "base r (cc_key x) = ?v" "cc_t1 x < r + lat + limitPositiveTTL \<or> r = cc_read x"
    using lim.answer_age [OF c t ttl] unfolding eq by auto
  moreover have "since \<le> r"
    using r(2) assms(2,3,5) ttl by (auto simp: limitPositiveTTL_def)
  ultimately show ?thesis using assms(4) [of r] by simp
qed

text \<open>A history in which a cached budget outlives a suspension for a while, and the call after it.\<close>

theorem limits_change_enforced_witness:
  "\<not> snd (snd (cached_Limits
     (limits_run (\<lambda>t k. (DefaultLimits, t < 10 * second))
        [\<lparr>cc_key = ''acme'', cc_t1 = 0, cc_read = 0, cc_t2 = 0, cc_t3 = 0\<rparr>])
     ''acme'' (DefaultLimits, False) (40 * second) (40 * second) (40 * second)))"
  using limits_change_enforced [where base = "\<lambda>t k. (DefaultLimits, t < 10 * second)" and lat = 0
      and xs = "[\<lparr>cc_key = ''acme'', cc_t1 = 0, cc_read = 0, cc_t2 = 0, cc_t3 = 0\<rparr>]"
      and x = "\<lparr>cc_key = ''acme'', cc_t1 = 40 * second, cc_read = 40 * second, cc_t2 = 40 * second, cc_t3 = 40 * second\<rparr>"
      and since = "10 * second" and P = "\<lambda>v. \<not> snd v"]
  by (simp add: go_defs)

section \<open>The rate limiter\<close>

text \<open>The token bucket of \<open>golang.org/x/time/rate\<close>.\<close>

record 'l ratelib =
  rl_new :: "real \<Rightarrow> int \<Rightarrow> 'l"
  rl_limit :: "'l \<Rightarrow> real"
  rl_burst :: "'l \<Rightarrow> int"
  rl_setLimit :: "real \<Rightarrow> 'l \<Rightarrow> 'l"
  rl_setBurst :: "int \<Rightarrow> 'l \<Rightarrow> 'l"
  rl_allow :: "'l \<Rightarrow> instant \<Rightarrow> 'l \<times> bool"

definition ratelib_ok :: "'l ratelib \<Rightarrow> bool" where
  "ratelib_ok lib \<longleftrightarrow>
     (\<forall>r b. rl_limit lib (rl_new lib r b) = r \<and> rl_burst lib (rl_new lib r b) = b) \<and>
     (\<forall>l r. rl_limit lib (rl_setLimit lib r l) = r \<and> rl_burst lib (rl_setLimit lib r l) = rl_burst lib l) \<and>
     (\<forall>l b. rl_burst lib (rl_setBurst lib b l) = b \<and> rl_limit lib (rl_setBurst lib b l) = rl_limit lib l) \<and>
     (\<forall>l t. rl_limit lib (fst (rl_allow lib l t)) = rl_limit lib l \<and>
        rl_burst lib (fst (rl_allow lib l t)) = rl_burst lib l) \<and>
     (\<forall>l t. rl_burst lib l = 0 \<longrightarrow> \<not> snd (rl_allow lib l t))"

text \<open>\<open>RateLimiter.Allow\<close>. \<open>provided\<close> is the answer of the provider: \<open>None\<close> when there is no
  provider or it cannot resolve the tenant.\<close>

definition rate_Allow ::
  "'l ratelib \<Rightarrow> (string, 'l) gomap \<Rightarrow> string \<Rightarrow> Limits option \<Rightarrow> instant \<Rightarrow> (string, 'l) gomap \<times> bool" where
  "rate_Allow lib limiters tenant provided now =
     (let limits = (case provided of Some l \<Rightarrow> l | None \<Rightarrow> DefaultLimits);
          rps = l_MaxRPS limits;
          bkt = (case map_of limiters tenant of
                   None \<Rightarrow> rl_new lib rps (l_Burst limits)
                 | Some bkt \<Rightarrow>
                     let bkt = (if rl_limit lib bkt \<noteq> rps then rl_setLimit lib rps bkt else bkt)
                     in if rl_burst lib bkt \<noteq> l_Burst limits then rl_setBurst lib (l_Burst limits) bkt else bkt);
          (bkt', allowed) = rl_allow lib bkt now
      in (AList.update tenant bkt' limiters, allowed))"

text \<open>The fixed default limiter of the ingest handler, src/server/internal/ingest/ratelimit.go.\<close>

definition tenantLimiter_allow ::
  "'l ratelib \<Rightarrow> real \<Rightarrow> int \<Rightarrow> (string, 'l) gomap \<Rightarrow> string \<Rightarrow> instant \<Rightarrow> (string, 'l) gomap \<times> bool" where
  "tenantLimiter_allow lib rps burst limiters tenant now =
     (let bkt = (case map_of limiters tenant of None \<Rightarrow> rl_new lib rps burst | Some bkt \<Rightarrow> bkt);
          (bkt', allowed) = rl_allow lib bkt now
      in (AList.update tenant bkt' limiters, allowed))"

text \<open>Plan-driven rate limits. Given a token bucket that behaves as documented, after every call
  the tenant's bucket carries exactly the budget resolved for this call (the defaults when no plan
  resolves), whatever budget it was created with, so an upgrade, a downgrade or a suspension is
  effective immediately; a suspended tenant (burst 0) is denied; no other tenant's bucket changes.\<close>

theorem rate_limiter_retunes:
  assumes "ratelib_ok lib"
  defines "limits \<equiv> (\<lambda>provided. case provided of Some l \<Rightarrow> l | None \<Rightarrow> DefaultLimits)"
  shows "case rate_Allow lib limiters tenant provided now of (limiters', allowed) \<Rightarrow>
    (\<exists>l. map_of limiters' tenant = Some l \<and> rl_limit lib l = l_MaxRPS (limits provided) \<and>
       rl_burst lib l = l_Burst (limits provided)) \<and>
    (l_Burst (limits provided) = 0 \<longrightarrow> \<not> allowed) \<and>
    (\<forall>t. t \<noteq> tenant \<longrightarrow> map_of limiters' t = map_of limiters t)"
  using assms(1) unfolding limits_def rate_Allow_def ratelib_ok_def
  by (auto simp: Let_def split_def split: option.splits)

text \<open>A token bucket that refills continuously, as the library does: tokens, the instant of the last
  update, the rate and the burst.\<close>

definition bucket_lib :: "(real \<times> instant \<times> real \<times> int) ratelib" where
  "bucket_lib =
     \<lparr>rl_new = (\<lambda>r b. (real_of_int b, 0, r, b)),
      rl_limit = (\<lambda>(tok, last, r, b). r), rl_burst = (\<lambda>(tok, last, r, b). b),
      rl_setLimit = (\<lambda>r' (tok, last, r, b). (tok, last, r', b)),
      rl_setBurst = (\<lambda>b' (tok, last, r, b). (tok, last, r, b')),
      rl_allow = (\<lambda>(tok, last, r, b) now.
        let tok' = min (real_of_int b) (tok + r * real_of_int (now - last) / 10 ^ 9)
        in if 1 \<le> b \<and> 1 \<le> tok' then ((tok' - 1, now, r, b), True) else ((tok, last, r, b), False))\<rparr>"

lemma bucket_lib_ok: "ratelib_ok bucket_lib"
  by (simp add: ratelib_ok_def bucket_lib_def Let_def split_def)

theorem rate_limiter_retunes_witness:
  "\<not> snd (rate_Allow bucket_lib [(''acme'', (5, 0, 100, 200))] ''acme''
     (Some (DefaultLimits\<lparr>l_MaxRPS := 0, l_Burst := 0\<rparr>)) 7)"
  using rate_limiter_retunes [OF bucket_lib_ok, where limiters = "[(''acme'', (5, 0, 100, 200))]"
      and tenant = "''acme''" and provided = "Some (DefaultLimits\<lparr>l_MaxRPS := 0, l_Burst := 0\<rparr>)" and now = 7]
  by (simp add: split_def)

end
