(* ===== verification/Go_Strings.thy ===== *)
theory Go_Strings
  imports Prelude
begin

text \<open>
  The functions of Go's \<open>strings\<close> and \<open>encoding/base64\<close> packages that the sources use, on byte
  strings (a character is a byte): prefixes and suffixes, searching, splitting and joining, trimming of
  white space (the Unicode spaces in their UTF-8 encoding included), and \<open>RawURLEncoding\<close>.
\<close>

section \<open>Prefixes, searching, splitting\<close>

definition hasPrefix :: "string \<Rightarrow> string \<Rightarrow> bool" where
  "hasPrefix s p \<longleftrightarrow> take (length p) s = p"

definition hasSuffix :: "string \<Rightarrow> string \<Rightarrow> bool" where
  "hasSuffix s p \<longleftrightarrow> length p \<le> length s \<and> drop (length s - length p) s = p"

definition trimPrefix :: "string \<Rightarrow> string \<Rightarrow> string" where
  "trimPrefix s p = (if hasPrefix s p then drop (length p) s else s)"

fun indexByte :: "string \<Rightarrow> char \<Rightarrow> nat option" where
  "indexByte [] c = None"
| "indexByte (x # s) c = (if x = c then Some 0 else map_option Suc (indexByte s c))"

text \<open>\<open>strings.Cut\<close> at a single byte: before, after, found.\<close>

definition cutByte :: "string \<Rightarrow> char \<Rightarrow> string \<times> string \<times> bool" where
  "cutByte s c = (case indexByte s c of None \<Rightarrow> (s, '''', False) | Some i \<Rightarrow> (take i s, drop (Suc i) s, True))"

fun splitByte :: "char \<Rightarrow> string \<Rightarrow> string list" where
  "splitByte c [] = [[]]"
| "splitByte c (x # s) =
     (if x = c then [] # splitByte c s else (case splitByte c s of [] \<Rightarrow> [[x]] | w # ws \<Rightarrow> (x # w) # ws))"

fun joinWith :: "string \<Rightarrow> string list \<Rightarrow> string" where
  "joinWith sep [] = ''''"
| "joinWith sep [w] = w"
| "joinWith sep (w # ws) = w @ sep @ joinWith sep ws"

lemma hasPrefix_append [simp]: "hasPrefix (p @ s) p"
  by (simp add: hasPrefix_def)

lemma hasPrefix_iff: "hasPrefix s p \<longleftrightarrow> (\<exists>r. s = p @ r)"
  by (metis append_take_drop_id hasPrefix_append hasPrefix_def)

lemma trimPrefix_append [simp]: "trimPrefix (p @ s) p = s"
  by (simp add: trimPrefix_def)

lemma indexByte_None: "indexByte s c = None \<longleftrightarrow> c \<notin> set s"
  by (induction s) auto

lemma indexByte_append: "c \<notin> set s \<Longrightarrow> indexByte (s @ c # t) c = Some (length s)"
  by (induction s) auto

lemma indexByte_Some:
  "indexByte s c = Some i \<Longrightarrow> i < length s \<and> s ! i = c \<and> c \<notin> set (take i s) \<and> s = take i s @ c # drop (Suc i) s"
proof (induction s arbitrary: i)
  case (Cons x s)
  then show ?case by (auto split: if_splits)
qed simp

lemma cutByte_append: "c \<notin> set s \<Longrightarrow> cutByte (s @ c # t) c = (s, t, True)"
  by (simp add: cutByte_def indexByte_append)

lemma cutByte_notin: "c \<notin> set s \<Longrightarrow> cutByte s c = (s, '''', False)"
  using indexByte_None [of s c] by (simp add: cutByte_def)

lemma splitByte_nonempty [simp]: "splitByte c s \<noteq> []"
  by (induction s) (auto split: list.splits)

lemma splitByte_parts: "w \<in> set (splitByte c s) \<Longrightarrow> c \<notin> set w"
  by (induction s arbitrary: w) (auto split: list.splits if_splits)

lemma join_Cons: "ws \<noteq> [] \<Longrightarrow> joinWith sep (w # ws) = w @ sep @ joinWith sep ws"
  by (cases ws) auto

lemma join_split: "joinWith [c] (splitByte c s) = s"
proof (induction s)
  case (Cons x s)
  then show ?case
    by (cases "splitByte c s") (auto simp: join_Cons split: list.splits, (case_tac list; auto)+)
qed simp

lemma splitByte_no_sep: "c \<notin> set w \<Longrightarrow> splitByte c w = [w]"
  by (induction w) auto

lemma splitByte_append: "c \<notin> set w \<Longrightarrow> splitByte c (w @ c # s) = w # splitByte c s"
  by (induction w) auto

lemma splitByte_join:
  "ws \<noteq> [] \<Longrightarrow> (\<And>w. w \<in> set ws \<Longrightarrow> c \<notin> set w) \<Longrightarrow> splitByte c (joinWith [c] ws) = ws"
  by (induction "[c]" ws rule: joinWith.induct) (auto simp: splitByte_no_sep splitByte_append)

text \<open>\<open>strings.ToLower\<close> on ASCII letters.\<close>

definition lower :: "string \<Rightarrow> string" where
  "lower s = map (\<lambda>c. let n = of_char c :: nat in if 65 \<le> n \<and> n \<le> 90 then char_of (n + 32) else c) s"

section \<open>White space\<close>

text \<open>The encodings of the runes \<open>unicode.IsSpace\<close> accepts.\<close>

definition spaceEncodings :: "string list" where
  "spaceEncodings =
     [[CHR 0x09], [CHR 0x0A], [CHR 0x0B], [CHR 0x0C], [CHR 0x0D], [CHR 0x20],
      [CHR 0xC2, CHR 0x85], [CHR 0xC2, CHR 0xA0], [CHR 0xE1, CHR 0x9A, CHR 0x80]] @
     map (\<lambda>n. [CHR 0xE2, CHR 0x80, char_of n]) ([128..<139] @ [168::nat, 169, 175]) @
     [[CHR 0xE2, CHR 0x81, CHR 0x9F], [CHR 0xE3, CHR 0x80, CHR 0x80]]"

fun trimWith :: "string list \<Rightarrow> nat \<Rightarrow> string \<Rightarrow> string" where
  "trimWith encs 0 s = s"
| "trimWith encs (Suc n) s =
     (case find (\<lambda>p. hasPrefix s p) encs of None \<Rightarrow> s | Some p \<Rightarrow> trimWith encs n (drop (length p) s))"

text \<open>Every step removes at least one byte, so the length of the string is enough fuel.\<close>

definition trimSpace :: "string \<Rightarrow> string" where
  "trimSpace s =
     (let l = trimWith spaceEncodings (length s) s
      in rev (trimWith (map rev spaceEncodings) (length l) (rev l)))"

lemma find_None_all: "find P xs = None \<Longrightarrow> x \<in> set xs \<Longrightarrow> \<not> P x"
  by (auto simp: find_None_iff)

lemma trimWith_fixed: "(\<And>p. p \<in> set encs \<Longrightarrow> \<not> hasPrefix s p) \<Longrightarrow> trimWith encs n s = s"
  by (cases n) (auto split: option.splits dest: find_Some_iff [THEN iffD1])

lemma trimWith_done:
  assumes "\<And>p. p \<in> set encs \<Longrightarrow> p \<noteq> []" and "length s \<le> n" and "p \<in> set encs"
  shows "\<not> hasPrefix (trimWith encs n s) p"
  using assms(2)
proof (induction n arbitrary: s)
  case 0
  then show ?case using assms(1,3) by (auto simp: hasPrefix_def)
next
  case (Suc n)
  show ?case
  proof (cases "find (\<lambda>p. hasPrefix s p) encs")
    case None
    then show ?thesis using assms(3) by (simp add: find_None_all)
  next
    case (Some q)
    then have "q \<noteq> []" using assms(1) by (auto simp: find_Some_iff)
    then have "length (drop (length q) s) \<le> n" using Suc.prems by (cases q) auto
    with Suc.IH Some show ?thesis by simp
  qed
qed

text \<open>Strings of visible ASCII characters are left alone.\<close>

definition visible :: "char \<Rightarrow> bool" where
  "visible c \<longleftrightarrow> (let n = of_char c :: nat in 33 \<le> n \<and> n \<le> 126)"

lemma spaceEncodings_visible: "p \<in> set spaceEncodings \<Longrightarrow> p \<noteq> [] \<and> \<not> visible (hd p) \<and> \<not> visible (last p)"
  by (auto simp: spaceEncodings_def visible_def)

lemma trimSpace_visible:
  assumes "\<forall>c \<in> set s. visible c"
  shows "trimSpace s = s"
proof -
  have "\<not> hasPrefix t p" if "p \<noteq> []" "\<not> visible (hd p)" "\<forall>c \<in> set t. visible c" for t p
    using that by (cases p; cases t) (auto simp: hasPrefix_def)
  then have "trimWith spaceEncodings n s = s" "trimWith (map rev spaceEncodings) m (rev s) = rev s" for n m
    using assms spaceEncodings_visible by (auto intro!: trimWith_fixed simp: hd_rev)
  then show ?thesis by (simp add: trimSpace_def)
qed

end
