(* ===== verification/Storage_Row.thy ===== *)
theory Storage_Row
  imports Guardrail Go_Strings Wire "HOL-Library.List_Lexorder" "HOL-Library.Char_ord"
begin

text \<open>
  The rows of the data plane, src/server/internal/storage/: the conversion of count maps to sorted
  columns and back (row.go), the choice of a rollup tier for a query window (tier.go) and the
  splitting of migration files into statements (migrate.go).

  The zero \<open>time.Time\<close> is \<open>None\<close>. \<open>slices.SortFunc\<close> is a sort by key; Go leaves the order of equal
  keys open, which matters only for no-status reasons beyond a byte, where two keys may become one.
\<close>

section \<open>Rows\<close>

record RowExemplar =
  re_At :: instant
  re_DurationNs :: u64
  re_StatusCode :: u32
  re_TraceID :: string
  re_SpanID :: string
  re_RequestID :: string

record Row =
  row_Tenant :: tenantID
  row_Service :: string
  row_Instance :: string
  row_Method :: string
  row_RouteTemplate :: string
  row_StatusClass :: string
  row_WindowStart :: instant
  row_WindowEnd :: instant
  row_Count :: u64
  row_SumDurationNs :: u64
  row_ReqBytes :: u64
  row_RespBytes :: u64
  row_Sketch :: "(int \<times> u64) list"
  row_StatusCodes :: "(u32 \<times> u64) list"
  row_MaxDurationNs :: u64
  row_Exemplars :: "RowExemplar list"
  row_ErrorClasses :: "(string \<times> u64) list"
  row_NoStatusReasons :: "(u8 \<times> u64) list"
  row_SumDownstreamNs :: u64
  row_DeployVersion :: string
  row_DeployID :: string
  row_Environment :: string
  row_Region :: string
  row_InstanceStart :: "instant option"

record InstanceWindowRow =
  iw_Tenant :: tenantID
  iw_Service :: string
  iw_Instance :: string
  iw_WindowStart :: instant
  iw_WindowEnd :: instant
  iw_CPUNs :: u64
  iw_RSSBytes :: u64
  iw_HeapAllocBytes :: u64
  iw_GCPauseNs :: u64
  iw_Goroutines :: u64
  iw_NumGC :: u64
  iw_TotalAllocBytes :: u64
  iw_Mallocs :: u64
  iw_GCCPUFraction :: float64
  iw_HeapInuseBytes :: u64
  iw_GOMAXPROCS :: u32
  iw_PostGCHeapBytes :: u64
  iw_RSSTrueBytes :: u64
  iw_OpenFDs :: u64
  iw_FDLimit :: u64
  iw_InFlight :: u64

definition sortedByKey :: "('k::linorder, u64) gomap \<Rightarrow> ('k \<times> u64) list" where
  "sortedByKey m = sort_key fst m"

definition sortedSketch :: "(int, u64) gomap \<Rightarrow> (int \<times> u64) list" where
  "sortedSketch m = sortedByKey m"

definition sortedStatusCodes :: "(u32, u64) gomap \<Rightarrow> (u32 \<times> u64) list" where
  "sortedStatusCodes m = sortedByKey m"

definition sortedErrorClasses :: "(string, u64) gomap \<Rightarrow> (string \<times> u64) list" where
  "sortedErrorClasses m = sortedByKey m"

definition sortedNoStatusReasons :: "(u32, u64) gomap \<Rightarrow> (u8 \<times> u64) list" where
  "sortedNoStatusReasons m = sort_key fst (map (\<lambda>(k, n). (ucast k, n)) m)"

definition NewRow ::
  "tenantID \<Rightarrow> string \<Rightarrow> string \<Rightarrow> string \<Rightarrow> string \<Rightarrow> string \<Rightarrow> instant \<Rightarrow> instant \<Rightarrow>
   u64 \<Rightarrow> u64 \<Rightarrow> u64 \<Rightarrow> u64 \<Rightarrow> (int, u64) gomap \<Rightarrow> (u32, u64) gomap \<Rightarrow> string \<Rightarrow> string \<Rightarrow> string \<Rightarrow> string \<Rightarrow>
   instant option \<Rightarrow> u64 \<Rightarrow> RowExemplar list \<Rightarrow> (string, u64) gomap \<Rightarrow> (u32, u64) gomap \<Rightarrow> u64 \<Rightarrow> Row" where
  "NewRow tid service instance' method route statusClass windowStart windowEnd
     cnt sumDurationNs reqBytes respBytes sketch statusCodes deployVersion deployID environment region
     instanceStart maxDurationNs exemplars errorClasses noStatusReasons sumDownstreamNs =
     \<lparr>row_Tenant = tid, row_Service = service, row_Instance = instance', row_Method = method,
      row_RouteTemplate = route, row_StatusClass = statusClass, row_WindowStart = windowStart,
      row_WindowEnd = windowEnd, row_Count = cnt, row_SumDurationNs = sumDurationNs,
      row_ReqBytes = reqBytes, row_RespBytes = respBytes, row_Sketch = sortedSketch sketch,
      row_StatusCodes = sortedStatusCodes statusCodes, row_MaxDurationNs = maxDurationNs,
      row_Exemplars = exemplars, row_ErrorClasses = sortedErrorClasses errorClasses,
      row_NoStatusReasons = sortedNoStatusReasons noStatusReasons, row_SumDownstreamNs = sumDownstreamNs,
      row_DeployVersion = deployVersion, row_DeployID = deployID, row_Environment = environment,
      row_Region = region, row_InstanceStart = instanceStart\<rparr>"

text \<open>The maps rebuilt for the driver: the pairs are written in order, so a later pair wins.\<close>

definition mapOfPairs :: "('k \<times> u64) list \<Rightarrow> ('k, u64) gomap" where
  "mapOfPairs ps = fold (\<lambda>(k, v) m. AList.update k v m) ps []"

definition sketchMap :: "Row \<Rightarrow> (int, u64) gomap" where
  "sketchMap r = mapOfPairs (row_Sketch r)"

definition statusCodeMap :: "Row \<Rightarrow> (u32, u64) gomap" where
  "statusCodeMap r = mapOfPairs (row_StatusCodes r)"

definition errorClassMap :: "Row \<Rightarrow> (string, u64) gomap" where
  "errorClassMap r = mapOfPairs (row_ErrorClasses r)"

definition noStatusReasonMap :: "Row \<Rightarrow> (u8, u64) gomap" where
  "noStatusReasonMap r = mapOfPairs (row_NoStatusReasons r)"

lemma map_of_fold_update:
  "gomap_ok ps \<Longrightarrow>
   map_of (fold (\<lambda>(k, v) m. AList.update k v m) ps m) k = (case map_of ps k of None \<Rightarrow> map_of m k | Some v \<Rightarrow> Some v)"
  by (induction ps arbitrary: m) (auto split: option.splits simp: map_of_eq_None_iff image_iff)

lemma gomap_ok_fold_update: "gomap_ok m \<Longrightarrow> gomap_ok (fold (\<lambda>(k, v) m. AList.update k v m) ps m)"
  by (induction ps arbitrary: m) auto

lemma gomap_ok_sort: "gomap_ok m \<Longrightarrow> gomap_ok (sort_key fst m)"
  by (metis distinct_map distinct_sort mset_map mset_sort set_sort distinct_count_atmost_1)

lemma map_of_perm: "gomap_ok m \<Longrightarrow> mset m' = mset m \<Longrightarrow> map_of m' = map_of m"
  by (metis map_of_inject_set mset_eq_imp_distinct_iff mset_eq_setD mset_map)

lemma map_of_mapOfPairs_sorted:
  assumes "gomap_ok m" and "mset ps = mset m"
  shows "map_of (mapOfPairs ps) = map_of m \<and> gomap_ok (mapOfPairs ps)"
proof -
  have "gomap_ok ps" using assms by (metis mset_eq_imp_distinct_iff mset_map)
  then show ?thesis
    using map_of_fold_update [of ps "[]"] map_of_perm [OF assms] gomap_ok_fold_update [of "[]" ps]
    by (auto simp: mapOfPairs_def fun_eq_iff split: option.splits)
qed

lemma mset_sortedByKey: "mset (sortedByKey m) = mset m"
  by (simp add: sortedByKey_def)

text \<open>The order in which a Go map is iterated does not show in a sorted column.\<close>

lemma sortedByKey_order:
  fixes m m' :: "('k::linorder, u64) gomap"
  assumes "gomap_ok m" and "mset m' = mset m"
  shows "sortedByKey m' = sortedByKey m"
proof (rule map_sorted_distinct_set_unique [where f = fst])
  show "inj_on fst (set (sortedByKey m') \<union> set (sortedByKey m))"
    using assms mset_eq_setD [OF assms(2)] by (simp add: sortedByKey_def distinct_map)
  show "sorted (map fst (sortedByKey m'))" "sorted (map fst (sortedByKey m))"
    by (simp_all add: sortedByKey_def)
  show "distinct (map fst (sortedByKey m'))" "distinct (map fst (sortedByKey m))"
    using assms gomap_ok_sort [of m] gomap_ok_sort [of m'] mset_eq_imp_distinct_iff [of "map fst m'" "map fst m"]
    by (simp_all add: sortedByKey_def)
  show "set (sortedByKey m') = set (sortedByKey m)"
    using mset_eq_setD [OF assms(2)] by (simp add: sortedByKey_def)
qed

lemma map_of_map_inj:
  assumes "inj_on f (insert k (fst ` set m))"
  shows "map_of (map (\<lambda>(a, b). (f a, b)) m) (f k) = map_of m k"
  using assms by (induction m) (auto simp: inj_on_def)

lemma ucast_u8_inj: "inj_on (ucast :: u32 \<Rightarrow> u8) {..<256}"
proof (rule inj_onI)
  fix a b :: u32
  assume less: "a \<in> {..<256}" "b \<in> {..<256}" and eq: "(ucast a :: u8) = ucast b"
  have "uint c < 256" if "c < 256" for c :: u32
    using that by (simp add: word_less_def)
  then have "take_bit 8 (uint a) = uint a" "take_bit 8 (uint b) = uint b"
    using less by (auto simp: take_bit_eq_mod)
  moreover have "uint (ucast a :: u8) = uint (ucast b :: u8)" using eq by simp
  ultimately have "uint a = uint b" by (simp add: unsigned_ucast_eq)
  then show "a = b" by (simp only: word_uint_eq_iff)
qed

lemma noStatusReasons_map:
  assumes "gomap_ok m" and "fst ` set m \<subseteq> {..<256}" and "k < 256"
  shows "map_of (mapOfPairs (sortedNoStatusReasons m)) (ucast k) = map_of m k"
proof -
  let ?m = "map (\<lambda>(k, n). (ucast k :: u8, n)) m"
  have inj: "inj_on (ucast :: u32 \<Rightarrow> u8) (insert k (fst ` set m))"
    using assms(2,3) by (intro inj_on_subset [OF ucast_u8_inj]) auto
  have eq: "map fst ?m = map ucast (map fst m)" by auto
  have "inj_on (ucast :: u32 \<Rightarrow> u8) (set (map fst m))" using inj by (simp add: inj_on_subset)
  then have "gomap_ok ?m" unfolding eq using assms(1) by (simp only: distinct_map [of ucast] simp_thms)
  from map_of_mapOfPairs_sorted [OF this, of "sortedNoStatusReasons m"] show ?thesis
    using map_of_map_inj [OF inj] by (simp add: sortedNoStatusReasons_def)
qed

section \<open>Tiers\<close>

datatype tierTable = tableRaw | table1m | table1h | table1d

record tier =
  ti_table :: tierTable
  ti_minStep :: duration

definition selectTier :: "instant \<Rightarrow> instant \<Rightarrow> tier" where
  "selectTier from' to =
     (let width = time_sub to from' in
      if width \<le> 2 * hour then \<lparr>ti_table = tableRaw, ti_minStep = 10 * second\<rparr>
      else if width \<le> 48 * hour then \<lparr>ti_table = table1m, ti_minStep = minute\<rparr>
      else if width \<le> 60 * 24 * hour then \<lparr>ti_table = table1h, ti_minStep = hour\<rparr>
      else \<lparr>ti_table = table1d, ti_minStep = 24 * hour\<rparr>)"

text \<open>A window is at most 2880 steps of the tier it reads (below the day tier).\<close>

lemma selectTier_points:
  assumes "0 \<le> to - from'" and "to - from' \<le> 60 * 24 * hour"
  shows "to - from' \<le> 2880 * ti_minStep (selectTier from' to)"
proof -
  have "time_sub to from' = to - from'" using assms by (intro time_sub_exact) (auto simp: go_defs)
  then show ?thesis using assms by (auto simp: selectTier_def Let_def go_defs)
qed

section \<open>Migration statements\<close>

fun findSub :: "string \<Rightarrow> string \<Rightarrow> nat option" where
  "findSub p [] = (if p = [] then Some 0 else None)"
| "findSub p (c # s) = (if hasPrefix (c # s) p then Some 0 else map_option Suc (findSub p s))"

definition stripComment :: "string \<Rightarrow> string" where
  "stripComment lin = (case findSub ''--'' lin of Some i \<Rightarrow> take i lin | None \<Rightarrow> lin)"

definition splitStatements :: "string \<Rightarrow> string list" where
  "splitStatements sql =
     (let clean = concat (map (\<lambda>lin. stripComment lin @ [CHR 0x0A]) (splitByte (CHR 0x0A) sql))
      in filter (\<lambda>stmt. stmt \<noteq> '''') (map trimSpace (splitByte (CHR '';'') clean)))"

text \<open>
  \<open>ApplyMigrations\<close> over the embedded files (name and contents, already in lexical order); \<open>exec\<close> is the
  ClickHouse connection, a function of the database state. An error names the file and the number of
  the statement.
\<close>

datatype migrationError = ApplyFailed string nat

fun applyStatements :: "(string \<Rightarrow> 's \<Rightarrow> bool \<times> 's) \<Rightarrow> string \<Rightarrow> nat \<Rightarrow> string list \<Rightarrow> 's \<Rightarrow> migrationError option \<times> 's" where
  "applyStatements exec' name i [] s = (None, s)"
| "applyStatements exec' name i (stmt # rest) s =
     (case exec' stmt s of
        (True, s') \<Rightarrow> applyStatements exec' name (Suc i) rest s'
      | (False, s') \<Rightarrow> (Some (ApplyFailed name (Suc i)), s'))"

fun ApplyMigrations :: "(string \<Rightarrow> 's \<Rightarrow> bool \<times> 's) \<Rightarrow> (string \<times> string) list \<Rightarrow> 's \<Rightarrow> migrationError option \<times> 's" where
  "ApplyMigrations exec' [] s = (None, s)"
| "ApplyMigrations exec' ((name, sql) # files) s =
     (case applyStatements exec' name 0 (splitStatements sql) s of
        (None, s') \<Rightarrow> ApplyMigrations exec' files s'
      | (Some e, s') \<Rightarrow> (Some e, s'))"

definition execTrace :: "(string \<Rightarrow> bool) \<Rightarrow> string \<Rightarrow> string list \<Rightarrow> bool \<times> string list" where
  "execTrace okay stmt tr = (okay stmt, tr @ [stmt])"

lemma applyStatements_trace:
  "applyStatements (execTrace okay) name i stmts tr =
     (case dropWhile okay stmts of
        [] \<Rightarrow> (None, tr @ stmts)
      | bad # _ \<Rightarrow> (Some (ApplyFailed name (i + length (takeWhile okay stmts) + 1)), tr @ takeWhile okay stmts @ [bad]))"
proof (induction stmts arbitrary: i tr)
  case (Cons x stmts)
  then show ?case
    by (cases "okay x"; cases "dropWhile okay stmts") (simp_all add: execTrace_def del: dropWhile_eq_Nil_conv)
qed simp



lemma trimWith_suffix: "\<exists>p. s = p @ trimWith encs n s"
proof (induction n arbitrary: s)
  case (Suc n)
  show ?case
  proof (cases "find (\<lambda>p. hasPrefix s p) encs")
    case (Some q)
    obtain p where "drop (length q) s = p @ trimWith encs n (drop (length q) s)" using Suc.IH by blast
    then have "s = (take (length q) s @ p) @ trimWith encs n (drop (length q) s)"
      by (metis append.assoc append_take_drop_id)
    then have "\<exists>p. s = p @ trimWith encs n (drop (length q) s)" ..
    with Some show ?thesis by simp
  qed simp
qed simp

lemma trimSpace_sub: "\<exists>p q. s = p @ trimSpace s @ q"
proof -
  obtain p where p: "s = p @ trimWith spaceEncodings (length s) s" using trimWith_suffix by blast
  let ?l = "trimWith spaceEncodings (length s) s"
  obtain q where "rev ?l = q @ trimWith (map rev spaceEncodings) (length ?l) (rev ?l)"
    using trimWith_suffix by blast
  then have "?l = rev (trimWith (map rev spaceEncodings) (length ?l) (rev ?l)) @ rev q"
    by (metis rev_append rev_rev_ident)
  with p show ?thesis unfolding trimSpace_def Let_def by metis
qed

lemma findSub_None: "findSub p s = None \<Longrightarrow> s \<noteq> a @ p @ b"
proof (induction s arbitrary: a)
  case (Cons c s)
  then show ?case by (cases a) (auto split: if_splits simp del: append_assoc simp: hasPrefix_iff append_eq_Cons_conv)
qed auto

lemma splitStatements_clean:
  assumes "stmt \<in> set (splitStatements sql)"
  shows "stmt \<noteq> [] \<and> CHR '';'' \<notin> set stmt"
proof -
  from assms obtain raw where raw: "stmt = trimSpace raw" "CHR '';'' \<notin> set raw" "stmt \<noteq> []"
    by (auto simp: splitStatements_def Let_def dest: splitByte_parts)
  obtain p q where "raw = p @ trimSpace raw @ q" using trimSpace_sub by blast
  then have "set (trimSpace raw) \<subseteq> set raw" by (metis le_sup_iff order_refl set_append)
  with raw show ?thesis by auto
qed

text \<open>What the migration runs: every statement of every file, in order, up to the first that fails.\<close>

fun migrationStatements :: "(string \<times> string) list \<Rightarrow> string list" where
  "migrationStatements [] = []"
| "migrationStatements ((name, sql) # files) = splitStatements sql @ migrationStatements files"

lemma ApplyMigrations_trace:
  "case ApplyMigrations (execTrace okay) files tr of (err, tr') \<Rightarrow>
     (\<exists>run rest. migrationStatements files = run @ rest \<and> tr' = tr @ run \<and>
        (if err = None then rest = [] \<and> (\<forall>x\<in>set run. okay x)
         else run \<noteq> [] \<and> \<not> okay (last run) \<and> (\<forall>x\<in>set (butlast run). okay x)))"
proof (induction files arbitrary: tr)
  case (Cons f files)
  obtain name sql where f: "f = (name, sql)" by (cases f)
  let ?st = "splitStatements sql"
  show ?case
  proof (cases "dropWhile okay ?st")
    case Nil
    then have all: "\<forall>x\<in>set ?st. okay x" by simp
    obtain err tr' where r: "ApplyMigrations (execTrace okay) files (tr @ ?st) = (err, tr')" by fastforce
    obtain run rest where h: "migrationStatements files = run @ rest" "tr' = (tr @ ?st) @ run"
      "if err = None then rest = [] \<and> (\<forall>x\<in>set run. okay x)
       else run \<noteq> [] \<and> \<not> okay (last run) \<and> (\<forall>x\<in>set (butlast run). okay x)"
      using Cons.IH [of "tr @ ?st"] unfolding r by auto
    have "ApplyMigrations (execTrace okay) (f # files) tr = (err, tr')"
      using Nil r by (simp add: f applyStatements_trace del: dropWhile_eq_Nil_conv)
    then show ?thesis using h all by (intro case_prodI2 exI [of _ "?st @ run"] exI [of _ rest])
        (auto simp: f butlast_append split: if_splits)
  next
    case (Cons bad rest)
    let ?run = "takeWhile okay ?st @ [bad]"
    have "?st = ?run @ rest" "\<not> okay bad"
      using Cons takeWhile_dropWhile_id [of okay ?st] hd_dropWhile [of okay ?st] by auto
    moreover have "ApplyMigrations (execTrace okay) (f # files) tr =
        (Some (ApplyFailed name (length (takeWhile okay ?st) + 1)), tr @ ?run)"
      using Cons by (simp add: f applyStatements_trace)
    ultimately show ?thesis
      by (intro case_prodI2 exI [of _ ?run] exI [of _ "rest @ migrationStatements files"])
        (auto simp: f dest: set_takeWhileD)
  qed
qed auto

section \<open>Properties\<close>


definition demoRow :: "(int, u64) gomap \<Rightarrow> (u32, u64) gomap \<Rightarrow> Row" where
  "demoRow sk ns = NewRow ''tenant'' ''svc'' ''i1'' ''GET'' ''/users'' ''5xx'' 0 10 3 9 0 0
     sk [(500, 2), (404, 1)] '''' '''' '''' '''' None 5 [] [(''timeout'', 1)] ns 0"


text \<open>A reason of 256 or more is cut to its low byte and takes the place of the reason it collides with.\<close>

theorem no_status_reason_narrowing:
  "noStatusReasonMap (demoRow [] [(1, 5), (257, 7)]) = [(1, 7)]"
  by (simp add: demoRow_def NewRow_def noStatusReasonMap_def sortedNoStatusReasons_def mapOfPairs_def)

text \<open>
  ApplyMigrations runs the statements of the files in order, each one non-empty and without a
  semicolon, and stops at the first that fails: when it reports no error every statement ran and
  succeeded, and when it reports one the last statement that ran is the one that failed.
\<close>

theorem migrations_in_order:
  "case ApplyMigrations (execTrace okay) files [] of (err, run) \<Rightarrow>
     (\<exists>rest. migrationStatements files = run @ rest \<and>
        (if err = None then rest = [] \<and> list_all okay run
         else run \<noteq> [] \<and> \<not> okay (last run) \<and> list_all okay (butlast run))) \<and>
     list_all (\<lambda>stmt. stmt \<noteq> [] \<and> CHR '';'' \<notin> set stmt) run"
proof -
  have clean: "list_all (\<lambda>stmt. stmt \<noteq> [] \<and> CHR '';'' \<notin> set stmt) (migrationStatements files)"
    by (induction files) (auto simp: list_all_iff dest: splitStatements_clean)
  obtain err run where "ApplyMigrations (execTrace okay) files [] = (err, run)" by fastforce
  with ApplyMigrations_trace [where okay = okay and files = files and tr = "[]"] clean show ?thesis by (auto simp: list_all_iff)
qed

text \<open>
  selectTier never lets a query window read more than 2880 steps of its tier, up to 60 days: the
  raw table only for two hours, the minute table for two days, the hour table beyond.
\<close>

theorem tier_bounds:
  assumes "0 \<le> to - from'" and "to - from' \<le> 60 * 24 * hour"
  shows "to - from' \<le> 2880 * ti_minStep (selectTier from' to) \<and>
    (to - from' \<le> 2 * hour \<longleftrightarrow> ti_table (selectTier from' to) = tableRaw)"
proof -
  have "time_sub to from' = to - from'" using assms by (intro time_sub_exact) (auto simp: go_defs)
  then have "to - from' \<le> 2 * hour \<longleftrightarrow> ti_table (selectTier from' to) = tableRaw"
    by (auto simp: selectTier_def Let_def)
  with selectTier_points [OF assms] show ?thesis by blast
qed

theorem tier_bounds_witness: "ti_table (selectTier 0 (3 * hour)) \<noteq> tableRaw"
  using tier_bounds [of "3 * hour" 0] by (simp add: go_defs)

end
