(* ===== verification/Token.thy ===== *)
theory Token
  imports Go_Strings
begin

text \<open>
  The ingest-key format of src/proto/token/token.go, shared by client and server: a key embeds the
  collector origin in unpadded base64url before a dot and the secret. \<open>RawURLEncoding\<close> is modelled
  as Go implements it: decoding skips carriage returns and newlines, rejects padding and a single
  leftover character, and does not check the unused trailing bits.
\<close>

section \<open>Unpadded base64url\<close>

definition b64Alphabet :: string where
  "b64Alphabet = ''ABCDEFGHIJKLMNOPQRSTUVWXYZabcdefghijklmnopqrstuvwxyz0123456789-_''"

definition b64Char :: "nat \<Rightarrow> char" where
  "b64Char i = b64Alphabet ! (i mod 64)"

definition b64Value :: "char \<Rightarrow> nat option" where
  "b64Value c = indexByte b64Alphabet c"

abbreviation byteVal :: "char \<Rightarrow> nat" where
  "byteVal c \<equiv> of_char c"

fun b64Encode :: "string \<Rightarrow> string" where
  "b64Encode [] = []"
| "b64Encode [a] =
     (let n = byteVal a * 16 in [b64Char (n div 64), b64Char n])"
| "b64Encode [a, b] =
     (let n = (byteVal a * 256 + byteVal b) * 4 in [b64Char (n div 4096), b64Char (n div 64), b64Char n])"
| "b64Encode (a # b # c # s) =
     (let n = (byteVal a * 256 + byteVal b) * 256 + byteVal c in
      [b64Char (n div 262144), b64Char (n div 4096), b64Char (n div 64), b64Char n] @ b64Encode s)"

fun b64Groups :: "nat list \<Rightarrow> string option" where
  "b64Groups [] = Some []"
| "b64Groups [_] = None"
| "b64Groups [w, x] = Some [char_of ((w * 64 + x) div 16)]"
| "b64Groups [w, x, y] =
     (let n = ((w * 64 + x) * 64 + y) div 4 in Some [char_of (n div 256), char_of n])"
| "b64Groups (w # x # y # z # vs) =
     (let n = ((w * 64 + x) * 64 + y) * 64 + z in
      map_option (\<lambda>s. [char_of (n div 65536), char_of (n div 256), char_of n] @ s) (b64Groups vs))"

fun b64Values :: "string \<Rightarrow> nat list option" where
  "b64Values [] = Some []"
| "b64Values (c # s) =
     (case b64Value c of None \<Rightarrow> None | Some v \<Rightarrow> map_option ((#) v) (b64Values s))"

definition b64Decode :: "string \<Rightarrow> string option" where
  "b64Decode s =
     (case b64Values (filter (\<lambda>c. c \<noteq> CHR 0x0A \<and> c \<noteq> CHR 0x0D) s) of
        None \<Rightarrow> None | Some vs \<Rightarrow> b64Groups vs)"

section \<open>Keys\<close>

definition tokenPrefix :: string where
  "tokenPrefix = ''mk_live_''"

definition Encode :: "string \<Rightarrow> string \<Rightarrow> string" where
  "Encode origin secret =
     (if origin = '''' then tokenPrefix @ secret
      else tokenPrefix @ b64Encode origin @ ''.'' @ secret)"

definition decodeStructured :: "string \<Rightarrow> string \<Rightarrow> (string \<times> string) option" where
  "decodeStructured originB64 sec =
     (case b64Decode originB64 of
        None \<Rightarrow> None
      | Some raw \<Rightarrow> if sec = '''' then None else Some (raw, sec))"

definition Decode :: "string \<Rightarrow> (string \<times> string) option" where
  "Decode tok =
     (if tok = '''' then None
      else
        let body = (if hasPrefix tok tokenPrefix then drop (length tokenPrefix) tok else tok);
            plain = (if body = '''' then None else Some ('''', body))
        in if hasPrefix tok tokenPrefix then
             (case indexByte body (CHR ''.'') of
                Some i \<Rightarrow> decodeStructured (take i body) (drop (i + 1) body)
              | None \<Rightarrow> plain)
           else plain)"

text \<open>\<open>NewSecret\<close> on the bytes the random source gave.\<close>

definition NewSecret :: "string \<Rightarrow> string" where
  "NewSecret b = b64Encode b"

section \<open>Base64 round trip\<close>

lemma b64Alphabet_facts: "length b64Alphabet = 64" "distinct b64Alphabet"
  "CHR ''.'' \<notin> set b64Alphabet" "CHR 0x0A \<notin> set b64Alphabet" "CHR 0x0D \<notin> set b64Alphabet"
  by (simp_all add: b64Alphabet_def)

lemma indexByte_nth: "distinct s \<Longrightarrow> i < length s \<Longrightarrow> indexByte s (s ! i) = Some i"
proof (induction s arbitrary: i)
  case (Cons x s)
  then show ?case by (cases i) (auto simp: in_set_conv_nth)
qed simp

lemma b64Value_Char [simp]: "b64Value (b64Char i) = Some (i mod 64)"
  using indexByte_nth [OF b64Alphabet_facts(2), of "i mod 64"] b64Alphabet_facts(1)
  by (simp add: b64Value_def b64Char_def)

lemma b64Char_in: "b64Char i \<in> set b64Alphabet"
  using b64Alphabet_facts(1) by (simp add: b64Char_def)

lemma set_b64Encode: "set (b64Encode s) \<subseteq> set b64Alphabet"
  by (induction s rule: b64Encode.induct) (auto simp: Let_def b64Char_in)

lemma b64Encode_no_dot: "CHR ''.'' \<notin> set (b64Encode s)"
  using set_b64Encode [of s] b64Alphabet_facts(3) by auto

lemma b64Encode_no_newline: "filter (\<lambda>c. c \<noteq> CHR 0x0A \<and> c \<noteq> CHR 0x0D) (b64Encode s) = b64Encode s"
  using set_b64Encode [of s] b64Alphabet_facts(4,5) by (auto simp: filter_id_conv)

lemma byteVal_less: "byteVal c < 256"
  by simp

lemma b64_pair_bound: "x < 256 \<Longrightarrow> y < 256 \<Longrightarrow> (x * 256 + y) * 4 < 64 * (4096::nat)"
  by presburger

lemma b64_digits3:
  fixes a b c :: nat
  assumes "a < 256" and "b < 256" and "c < 256"
  defines "n \<equiv> (a * 256 + b) * 256 + c"
  shows "((n div 262144 * 64 + n div 4096 mod 64) * 64 + n div 64 mod 64) * 64 + n mod 64 = n"
    and "n div 262144 mod 64 = n div 262144" and "n div 65536 = a" and "n div 256 mod 256 = b" and "n mod 256 = c"
proof -
  have "n < 64 * 262144" using assms by (simp add: n_def)
  then have "n div 262144 < 64" by (simp add: less_mult_imp_div_less)
  moreover have "n div 262144 * 64 + n div 4096 mod 64 = n div 4096"
    using div_mult2_eq [of n 4096 64] div_mult_mod_eq [of "n div 4096" 64] by simp
  moreover have "n div 4096 * 64 + n div 64 mod 64 = n div 64"
    using div_mult2_eq [of n 64 64] div_mult_mod_eq [of "n div 64" 64] by simp
  ultimately show "((n div 262144 * 64 + n div 4096 mod 64) * 64 + n div 64 mod 64) * 64 + n mod 64 = n"
    "n div 262144 mod 64 = n div 262144"
    by simp_all
  have d: "n div 256 = a * 256 + b" "n mod 256 = c"
    using assms(3) div_mult_self3 [of 256 "a * 256 + b" c] mod_mult_self3 [of "a * 256 + b" 256 c]
    by (simp_all add: n_def)
  then show "n mod 256 = c" by simp
  show "n div 65536 = a" using d(1) assms(2) div_mult2_eq [of n 256 256] by simp
  show "n div 256 mod 256 = b" using d(1) assms(2) by simp
qed

lemma b64Groups_Encode: "Option.bind (b64Values (b64Encode s)) b64Groups = Some s"
proof (induction s rule: b64Encode.induct)
  case (2 a)
  define n where "n = byteVal a * 16"
  have e: "b64Encode [a] = [b64Char (n div 64), b64Char n]" by (simp only: b64Encode.simps n_def Let_def)
  have "n div 64 < 64" using byteVal_less [of a] by (simp add: n_def less_mult_imp_div_less)
  then have "n div 64 mod 64 * 64 + n mod 64 = n" using div_mult_mod_eq [of n 64] by simp
  moreover have "char_of (n div 16) = a" by (simp add: n_def)
  ultimately show ?case unfolding e by simp
next
  case (3 a b)
  define n where "n = (byteVal a * 256 + byteVal b) * 4"
  have e: "b64Encode [a, b] = [b64Char (n div 4096), b64Char (n div 64), b64Char n]"
    by (simp only: b64Encode.simps n_def Let_def)
  have "n < 64 * 4096" unfolding n_def by (rule b64_pair_bound [OF byteVal_less byteVal_less])
  then have "n div 4096 < 64" by (rule less_mult_imp_div_less)
  moreover have "n div 4096 * 64 + n div 64 mod 64 = n div 64"
    using div_mult2_eq [of n 64 64] div_mult_mod_eq [of "n div 64" 64] by simp
  ultimately have "(n div 4096 * 64 + n div 64 mod 64) * 64 + n mod 64 = n" "n div 4096 mod 64 = n div 4096"
    using div_mult_mod_eq [of n 64] by simp_all
  moreover have "char_of (n div 4) = b" "char_of (n div 4 div 256) = a"
    using char_of_mod_256 [of "byteVal a * 256 + byteVal b"] by (simp_all add: n_def mult.commute)
  ultimately show ?case unfolding e by (simp add: Let_def)
next
  case (4 a b c s)
  define n where "n = (byteVal a * 256 + byteVal b) * 256 + byteVal c"
  have e: "b64Encode (a # b # c # s) =
      [b64Char (n div 262144), b64Char (n div 4096), b64Char (n div 64), b64Char n] @ b64Encode s"
    by (simp only: b64Encode.simps n_def Let_def)
  obtain vs where vs: "b64Values (b64Encode s) = Some vs" "b64Groups vs = Some s"
    using 4 by (auto simp: bind_eq_Some_conv)
  note d = b64_digits3 [OF byteVal_less [of a] byteVal_less [of b] byteVal_less [of c], folded n_def]
  have "char_of (n div 256) = b" "char_of n = c" using d(4,5) by (metis char_of_char char_of_mod_256)+
  with vs d(1-3) show ?case unfolding e by (simp add: Let_def)
qed simp

lemma b64_roundtrip: "b64Decode (b64Encode s) = Some s"
  using b64Groups_Encode [of s] by (auto simp: b64Decode_def b64Encode_no_newline bind_eq_Some_conv)

lemma token_roundtrip_lemma:
  assumes "secret \<noteq> ''''" and "origin = '''' \<longrightarrow> CHR ''.'' \<notin> set secret"
  shows "Decode (Encode origin secret) = Some (origin, secret)"
proof (cases "origin = ''''")
  case True
  then have "indexByte secret (CHR ''.'') = None" using assms(2) by (simp add: indexByte_None)
  with True assms(1) show ?thesis by (simp add: Decode_def Encode_def)
next
  case False
  let ?body = "b64Encode origin @ ''.'' @ secret"
  have "indexByte ?body (CHR ''.'') = Some (length (b64Encode origin))"
    using indexByte_append [OF b64Encode_no_dot, of origin secret] by simp
  moreover have "tokenPrefix @ ?body \<noteq> ''''" by (simp add: tokenPrefix_def)
  ultimately show ?thesis
    using False assms(1) by (simp add: Decode_def Encode_def decodeStructured_def b64_roundtrip Let_def)
qed

section \<open>Properties\<close>

text \<open>Keys round-trip: decoding the key built for an origin and a non-empty secret gives back
  both, for every origin (any bytes, dots and control characters included). Without an origin the
  secret must not contain a dot, which no generated secret does.\<close>

theorem token_roundtrip:
  assumes "secret \<noteq> ''''" and "origin = '''' \<longrightarrow> CHR ''.'' \<notin> set secret"
  shows "Decode (Encode origin secret) = Some (origin, secret) \<and> CHR ''.'' \<notin> set (NewSecret b)"
  using token_roundtrip_lemma [OF assms] by (simp add: NewSecret_def b64Encode_no_dot)

theorem token_roundtrip_witness:
  "Decode (Encode ''https://www.mapi-ng.com:443'' ''s.e=cret'') = Some (''https://www.mapi-ng.com:443'', ''s.e=cret'')"
  using token_roundtrip [of "''s.e=cret''" "''https://www.mapi-ng.com:443''"] by simp

end
