(* ===== verification/Control.thy ===== *)
theory Control
  imports Guardrail Token "HOL-Library.List_Lexorder" "HOL-Library.Char_ord"
begin

text \<open>
  The control plane of src/server/internal/control/: the Postgres tables and the operations of
  store.go, member.go and handshake.go on them, and the key resolver with its cache (resolver.go).

  A table is the list of its rows; the constraints of the migrations (unique key hashes, unique OIDC
  subjects, foreign keys to \<open>orgs\<close>) are checked by the insert statements. Every statement may fail:
  \<open>db_fault\<close> says how many more statements succeed before the connection fails (\<open>None\<close>: none fails).
  A transaction restores the tables when its body or its commit fails. Generated ids, \<open>now()\<close> and
  random bytes are arguments. SHA-256 is a function \<open>sha\<close> from strings to digests, arbitrary in every
  definition and theorem.
\<close>

section \<open>Tables\<close>

record org =
  o_id :: string
  o_name :: string
  o_plan :: string
  o_created :: instant

record ingestKey =
  ik_id :: string
  ik_org :: string
  ik_label :: string
  ik_hash :: string
  ik_last4 :: string
  ik_created :: instant
  ik_revoked :: "instant option"

record member =
  mb_id :: string
  mb_org :: string
  mb_email :: string
  mb_role :: string
  mb_subject :: "string option"

record handshakeRow =
  hs_org :: string
  hs_service :: string
  hs_instance :: string
  hs_sdk :: string
  hs_first :: instant
  hs_last :: instant

record tables =
  tb_orgs :: "org list"
  tb_keys :: "ingestKey list"
  tb_members :: "member list"
  tb_plans :: "(string \<times> Limits) list"
  tb_handshakes :: "handshakeRow list"

record db =
  db_tables :: tables
  db_fault :: "nat option"

datatype dberr = DbFailure | NoRows | UniqueViolation | ForeignKeyViolation

datatype ctlerr = Wrapped dberr | ErrKeyNotFound | DevOrgNotFound

type_synonym 'a stmt = "tables \<Rightarrow> (dberr + 'a) \<times> tables"
type_synonym 'a dbop = "db \<Rightarrow> (ctlerr + 'a) \<times> db"

definition exec :: "'a stmt \<Rightarrow> db \<Rightarrow> (dberr + 'a) \<times> db" where
  "exec f d =
     (case db_fault d of
        Some 0 \<Rightarrow> (Inl DbFailure, d)
      | _ \<Rightarrow> (let (r, t) = f (db_tables d)
             in (r, d\<lparr>db_tables := t, db_fault := map_option (\<lambda>n. n - 1) (db_fault d)\<rparr>)))"

definition select :: "(tables \<Rightarrow> 'a option) \<Rightarrow> 'a stmt" where
  "select f t = (case f t of None \<Rightarrow> (Inl NoRows, t) | Some x \<Rightarrow> (Inr x, t))"

definition insertOrg :: "org \<Rightarrow> string stmt" where
  "insertOrg o' t =
     (if o_id o' \<in> o_id ` set (tb_orgs t) then (Inl UniqueViolation, t)
      else (Inr (o_id o'), t\<lparr>tb_orgs := tb_orgs t @ [o']\<rparr>))"

definition insertKey :: "ingestKey \<Rightarrow> unit stmt" where
  "insertKey k t =
     (if ik_id k \<in> ik_id ` set (tb_keys t) \<or> ik_hash k \<in> ik_hash ` set (tb_keys t) then (Inl UniqueViolation, t)
      else if ik_org k \<notin> o_id ` set (tb_orgs t) then (Inl ForeignKeyViolation, t)
      else (Inr (), t\<lparr>tb_keys := tb_keys t @ [k]\<rparr>))"

definition insertMember :: "member \<Rightarrow> string stmt" where
  "insertMember m t =
     (if mb_id m \<in> mb_id ` set (tb_members t) \<or>
         (mb_subject m \<noteq> None \<and> mb_subject m \<in> mb_subject ` set (tb_members t)) then (Inl UniqueViolation, t)
      else if mb_org m \<notin> o_id ` set (tb_orgs t) then (Inl ForeignKeyViolation, t)
      else (Inr (mb_id m), t\<lparr>tb_members := tb_members t @ [m]\<rparr>))"

definition tables_ok :: "tables \<Rightarrow> bool" where
  "tables_ok t \<longleftrightarrow> distinct (map o_id (tb_orgs t)) \<and> distinct (map ik_id (tb_keys t)) \<and>
     distinct (map ik_hash (tb_keys t)) \<and> distinct (map mb_id (tb_members t)) \<and>
     distinct (filter (\<lambda>s. s \<noteq> None) (map mb_subject (tb_members t))) \<and>
     ik_org ` set (tb_keys t) \<subseteq> o_id ` set (tb_orgs t) \<and>
     mb_org ` set (tb_members t) \<subseteq> o_id ` set (tb_orgs t)"

section \<open>Keys (store.go)\<close>

definition hashKey :: "(string \<Rightarrow> string) \<Rightarrow> string \<Rightarrow> string" where
  "hashKey sha key = sha key"

definition poolLookup :: "string \<Rightarrow> db \<Rightarrow> (dberr + string \<times> bool) \<times> db" where
  "poolLookup keyHash d =
     (case exec (select (\<lambda>t. map_option ik_org
          (find (\<lambda>k. ik_hash k = keyHash \<and> ik_revoked k = None) (tb_keys t)))) d of
        (Inl NoRows, d') \<Rightarrow> (Inr ('''', False), d')
      | (Inl e, d') \<Rightarrow> (Inl e, d')
      | (Inr tenant, d') \<Rightarrow> (Inr (tenant, True), d'))"

definition newOrg :: "string \<Rightarrow> string \<Rightarrow> instant \<Rightarrow> org" where
  "newOrg oid name now = \<lparr>o_id = oid, o_name = name, o_plan = ''free'', o_created = now\<rparr>"

definition ensureDevKey ::
  "(string \<Rightarrow> string) \<Rightarrow> string \<Rightarrow> string \<Rightarrow> string \<Rightarrow> string \<Rightarrow> instant \<Rightarrow> string dbop" where
  "ensureDevKey sha key orgName newOrgId newKeyId now d =
     (let h = hashKey sha key in
      case exec (select (\<lambda>t. map_option ik_org (find (\<lambda>k. ik_hash k = h) (tb_keys t)))) d of
        (Inr orgID, d) \<Rightarrow> (Inr orgID, d)
      | (Inl e, d) \<Rightarrow>
          if e \<noteq> NoRows then (Inl (Wrapped e), d)
          else
            let (org, d) =
              (case exec (select (\<lambda>t. map_option o_id (find (\<lambda>o'. o_name o' = orgName) (tb_orgs t)))) d of
                 (Inl e, d) \<Rightarrow>
                   if e = NoRows then exec (insertOrg (newOrg newOrgId orgName now)) d else (Inl e, d)
               | (Inr oid, d) \<Rightarrow> (Inr oid, d))
            in case org of
                 Inl e \<Rightarrow> (Inl (Wrapped e), d)
               | Inr orgID \<Rightarrow>
                   (case exec (insertKey \<lparr>ik_id = newKeyId, ik_org = orgID, ik_label = ''dev'', ik_hash = h,
                        ik_last4 = '''', ik_created = now, ik_revoked = None\<rparr>) d of
                      (Inl e, d) \<Rightarrow> (Inl (Wrapped e), d)
                    | (Inr _, d) \<Rightarrow> (Inr orgID, d)))"

definition last4 :: "string \<Rightarrow> string" where
  "last4 secret = (if length secret > 4 then drop (length secret - 4) secret else secret)"

definition issueKey ::
  "(string \<Rightarrow> string) \<Rightarrow> string \<Rightarrow> string \<Rightarrow> string \<Rightarrow> string \<Rightarrow> instant \<Rightarrow> string dbop" where
  "issueKey sha orgID label random newKeyId now d =
     (let secret = NewSecret random in
      case exec (insertKey \<lparr>ik_id = newKeyId, ik_org = orgID, ik_label = label, ik_hash = hashKey sha secret,
           ik_last4 = last4 secret, ik_created = now, ik_revoked = None\<rparr>) d of
        (Inl e, d) \<Rightarrow> (Inl (Wrapped e), d)
      | (Inr _, d) \<Rightarrow> (Inr secret, d))"

definition updateRevoked :: "string \<Rightarrow> string \<Rightarrow> instant \<Rightarrow> nat stmt" where
  "updateRevoked keyID orgID now t =
     (let hit = (\<lambda>k. ik_id k = keyID \<and> ik_org k = orgID \<and> ik_revoked k = None)
      in (Inr (length (filter hit (tb_keys t))),
          t\<lparr>tb_keys := map (\<lambda>k. if hit k then k\<lparr>ik_revoked := Some now\<rparr> else k) (tb_keys t)\<rparr>))"

definition execExpectOne :: "ctlerr \<Rightarrow> nat stmt \<Rightarrow> unit dbop" where
  "execExpectOne notFound f d =
     (case exec f d of
        (Inl e, d) \<Rightarrow> (Inl (Wrapped e), d)
      | (Inr rows, d) \<Rightarrow> if rows = 0 then (Inl notFound, d) else (Inr (), d))"

definition revokeKey :: "string \<Rightarrow> string \<Rightarrow> instant \<Rightarrow> unit dbop" where
  "revokeKey orgID keyID now d = execExpectOne ErrKeyNotFound (updateRevoked keyID orgID now) d"

definition ListKeys :: "string \<Rightarrow> (string \<times> string \<times> string \<times> instant \<times> instant option) list dbop" where
  "ListKeys orgID d =
     (case exec (\<lambda>t. (Inr (map (\<lambda>k. (ik_id k, ik_label k, ik_last4 k, ik_created k, ik_revoked k))
            (sort_key (\<lambda>k. - ik_created k) (filter (\<lambda>k. ik_org k = orgID) (tb_keys t)))), t)) d of
        (Inl e, d) \<Rightarrow> (Inl (Wrapped e), d)
      | (Inr ks, d) \<Rightarrow> (Inr ks, d))"

definition queryLimits :: "string \<Rightarrow> Limits dbop" where
  "queryLimits tenant d =
     (case exec (select (\<lambda>t. case find (\<lambda>o'. o_id o' = tenant) (tb_orgs t) of
            None \<Rightarrow> None | Some o' \<Rightarrow> map_of (tb_plans t) (o_plan o'))) d of
        (Inl NoRows, d) \<Rightarrow> (Inr DefaultLimits, d)
      | (Inl e, d) \<Rightarrow> (Inl (Wrapped e), d)
      | (Inr l, d) \<Rightarrow> (Inr l, d))"

section \<open>Members (member.go)\<close>

text \<open>A transaction: \<open>Begin\<close>, the body, \<open>Commit\<close>; the deferred rollback restores the tables unless
  the commit succeeded.\<close>

definition transaction :: "'a dbop \<Rightarrow> 'a dbop" where
  "transaction body d =
     (case exec (\<lambda>t. (Inr (), t)) d of
        (Inl e, d1) \<Rightarrow> (Inl (Wrapped e), d1)
      | (Inr _, d1) \<Rightarrow>
          (case body d1 of
             (Inl e, d2) \<Rightarrow> (Inl e, d2\<lparr>db_tables := db_tables d1\<rparr>)
           | (Inr x, d2) \<Rightarrow>
               (case exec (\<lambda>t. (Inr (), t)) d2 of
                  (Inl e, d3) \<Rightarrow> (Inl (Wrapped e), d3\<lparr>db_tables := db_tables d1\<rparr>)
                | (Inr _, d3) \<Rightarrow> (Inr x, d3))))"

text \<open>The org a verified email is linked into: a paid one before a free one, the oldest first.\<close>

definition linkableOrg :: "string \<Rightarrow> tables \<Rightarrow> string option" where
  "linkableOrg email t =
     (let mine = filter (\<lambda>o'. o_id o' \<in> mb_org ` set (filter (\<lambda>m. lower (mb_email m) = lower email) (tb_members t)))
            (tb_orgs t);
          paid = filter (\<lambda>o'. o_plan o' \<noteq> ''free'') mine
      in case sort_key o_created (if paid \<noteq> [] then paid else mine) of
           [] \<Rightarrow> None | o' # _ \<Rightarrow> Some (o_id o'))"

definition newMember :: "string \<Rightarrow> string \<Rightarrow> string \<Rightarrow> string \<Rightarrow> member" where
  "newMember mid orgID email subject =
     \<lparr>mb_id = mid, mb_org = orgID, mb_email = email, mb_role = ''admin'', mb_subject = Some subject\<rparr>"

definition firstLoginOrLink ::
  "string \<Rightarrow> string \<Rightarrow> string \<Rightarrow> string \<Rightarrow> instant \<Rightarrow> (string \<times> string \<times> string \<times> bool) dbop" where
  "firstLoginOrLink subject email newOrgId newMemberId now d =
     (case exec (select (linkableOrg email)) d of
        (Inr orgID, d) \<Rightarrow>
          (case exec (insertMember (newMember newMemberId orgID email subject)) d of
             (Inl e, d) \<Rightarrow> (Inl (Wrapped e), d)
           | (Inr memberID, d) \<Rightarrow> (Inr (orgID, memberID, ''admin'', False), d))
      | (Inl e, d) \<Rightarrow>
          if e \<noteq> NoRows then (Inl (Wrapped e), d)
          else
            (case exec (insertOrg (newOrg newOrgId email now)) d of
               (Inl e, d) \<Rightarrow> (Inl (Wrapped e), d)
             | (Inr orgID, d) \<Rightarrow>
                 (case exec (insertMember (newMember newMemberId orgID email subject)) d of
                    (Inl e, d) \<Rightarrow> (Inl (Wrapped e), d)
                  | (Inr memberID, d) \<Rightarrow> (Inr (orgID, memberID, ''admin'', True), d))))"

definition upsertMemberFromOIDC ::
  "string \<Rightarrow> string \<Rightarrow> string \<Rightarrow> string \<Rightarrow> instant \<Rightarrow> (string \<times> string \<times> string \<times> bool) dbop" where
  "upsertMemberFromOIDC subject email newOrgId newMemberId now =
     transaction (\<lambda>d.
       case exec (select (\<lambda>t. find (\<lambda>m. mb_subject m = Some subject) (tb_members t))) d of
         (Inr m, d) \<Rightarrow> (Inr (mb_org m, mb_id m, mb_role m, False), d)
       | (Inl e, d) \<Rightarrow>
           if e \<noteq> NoRows then (Inl (Wrapped e), d)
           else firstLoginOrLink subject email newOrgId newMemberId now d)"

definition devDBSubject :: string where
  "devDBSubject = ''dev:admin''"

definition devOrgAdmin :: "string \<Rightarrow> string \<Rightarrow> (string \<times> string) dbop" where
  "devOrgAdmin devOrgName newMemberId d =
     (case exec (select (\<lambda>t. map_option o_id (find (\<lambda>o'. o_name o' = devOrgName) (tb_orgs t)))) d of
        (Inl NoRows, d) \<Rightarrow> (Inl DevOrgNotFound, d)
      | (Inl e, d) \<Rightarrow> (Inl (Wrapped e), d)
      | (Inr orgID, d) \<Rightarrow>
          (case exec (select (\<lambda>t. map_option mb_id
               (find (\<lambda>m. mb_subject m = Some devDBSubject) (tb_members t)))) d of
             (Inr memberID, d) \<Rightarrow> (Inr (orgID, memberID), d)
           | (Inl e, d) \<Rightarrow>
               if e \<noteq> NoRows then (Inl (Wrapped e), d)
               else
                 (case exec (insertMember (newMember newMemberId orgID ''dev@maping.local'' devDBSubject)) d of
                    (Inl e, d) \<Rightarrow> (Inl (Wrapped e), d)
                  | (Inr memberID, d) \<Rightarrow> (Inr (orgID, memberID), d))))"

section \<open>Handshakes (handshake.go)\<close>

definition recordHandshake :: "string \<Rightarrow> string \<Rightarrow> string \<Rightarrow> string \<Rightarrow> instant \<Rightarrow> unit dbop" where
  "recordHandshake tenant service instance' sdk now d =
     (case exec (\<lambda>t.
          if tenant \<notin> o_id ` set (tb_orgs t) then (Inl ForeignKeyViolation, t)
          else
            let same = (\<lambda>h. hs_org h = tenant \<and> hs_service h = service \<and> hs_instance h = instance')
            in (Inr (), t\<lparr>tb_handshakes :=
                 (if \<exists>h \<in> set (tb_handshakes t). same h
                  then map (\<lambda>h. if same h then h\<lparr>hs_last := now, hs_sdk := sdk\<rparr> else h) (tb_handshakes t)
                  else tb_handshakes t @ [\<lparr>hs_org = tenant, hs_service = service, hs_instance = instance',
                     hs_sdk = sdk, hs_first = now, hs_last = now\<rparr>])\<rparr>)) d of
        (Inl e, d) \<Rightarrow> (Inl (Wrapped e), d)
      | (Inr _, d) \<Rightarrow> (Inr (), d))"

definition onboardingState :: "string \<Rightarrow> (string \<times> string \<times> instant) list dbop" where
  "onboardingState tenant d =
     (case exec (\<lambda>t. (Inr (map (\<lambda>h. (hs_service h, hs_instance h, hs_first h))
            (sort_key hs_first (filter (\<lambda>h. hs_org h = tenant) (tb_handshakes t)))), t)) d of
        (Inl e, d) \<Rightarrow> (Inl (Wrapped e), d)
      | (Inr hs, d) \<Rightarrow> (Inr hs, d))"

section \<open>Migrations\<close>

text \<open>A migration source: the entries of its directory (name, whether it is a directory, contents).
  The result is the list of executed scripts and whether every one of them succeeded.\<close>

type_synonym migrationSource = "(string \<times> bool \<times> string) list"

fun execScripts :: "(string \<Rightarrow> bool) \<Rightarrow> string list \<Rightarrow> string list \<times> bool" where
  "execScripts ok [] = ([], True)"
| "execScripts ok (s # ss) =
     (if \<not> ok s then ([s], False) else let (done', r) = execScripts ok ss in (s # done', r))"

definition migrationFiles :: "migrationSource \<Rightarrow> string list" where
  "migrationFiles src =
     (let files = filter (\<lambda>(name, dir, _). \<not> dir \<and> hasSuffix name ''.sql'') src
      in map (\<lambda>(name, dir, sql). sql) (sort_key fst files))"

fun applyMigrations :: "(string \<Rightarrow> bool) \<Rightarrow> migrationSource list \<Rightarrow> string list \<times> bool" where
  "applyMigrations ok [] = ([], True)"
| "applyMigrations ok (src # srcs) =
     (let (done1, r1) = execScripts ok (migrationFiles src) in
      if \<not> r1 then (done1, False)
      else let (done2, r2) = applyMigrations ok srcs in (done1 @ done2, r2))"

section \<open>The key resolver (resolver.go)\<close>

definition positiveTTL :: duration where
  "positiveTTL = 30 * second"

definition negativeTTL :: duration where
  "negativeTTL = 5 * second"

definition dbErrorLogEvery :: duration where
  "dbErrorLogEvery = 5 * second"

definition cacheSweepThreshold :: nat where
  "cacheSweepThreshold = 4096"

record cacheEntry =
  ce_tenant :: string
  ce_ok :: bool
  ce_expiry :: instant

type_synonym keyCache = "(string, cacheEntry) gomap"

record resolver =
  rs_cache :: keyCache
  rs_lastErrorAt :: instant
  rs_errorLogs :: nat

definition keys_getFresh :: "keyCache \<Rightarrow> string \<Rightarrow> instant \<Rightarrow> cacheEntry option" where
  "keys_getFresh cache digest now =
     (case map_of cache digest of
        None \<Rightarrow> None
      | Some entry \<Rightarrow> if \<not> ce_expiry entry > now then None else Some entry)"

definition keys_store :: "keyCache \<Rightarrow> string \<Rightarrow> cacheEntry \<Rightarrow> instant \<Rightarrow> keyCache" where
  "keys_store cache digest entry now =
     AList.update digest entry
       (if length cache \<ge> cacheSweepThreshold
        then filter (\<lambda>(k, e). ce_expiry e > now) cache else cache)"

definition logDBError :: "resolver \<Rightarrow> instant \<Rightarrow> resolver" where
  "logDBError r now =
     (if time_sub now (rs_lastErrorAt r) < dbErrorLogEvery then r
      else r\<lparr>rs_lastErrorAt := now, rs_errorLogs := rs_errorLogs r + 1\<rparr>)"

text \<open>\<open>lookup\<close> is the answer of the database for a digest, \<open>None\<close> for a database error.\<close>

definition Resolve ::
  "(string \<Rightarrow> string) \<Rightarrow> (string \<Rightarrow> (string \<times> bool) option) \<Rightarrow> resolver \<Rightarrow> string \<Rightarrow>
    instant \<Rightarrow> instant \<Rightarrow> instant \<Rightarrow> resolver \<times> string \<times> bool" where
  "Resolve sha lookup r key t1 t2 t3 =
     (case Decode key of
        None \<Rightarrow> (r, '''', False)
      | Some (_, secret) \<Rightarrow>
          let digest = hashKey sha secret in
          case keys_getFresh (rs_cache r) digest t1 of
            Some entry \<Rightarrow> (r, ce_tenant entry, ce_ok entry)
          | None \<Rightarrow>
              (case lookup digest of
                 None \<Rightarrow> (logDBError r t2, '''', False)
               | Some (tenant, ok) \<Rightarrow>
                   let ttl = (if \<not> ok then negativeTTL else positiveTTL)
                   in (r\<lparr>rs_cache := keys_store (rs_cache r) digest
                         \<lparr>ce_tenant = tenant, ce_ok = ok, ce_expiry = t2 + ttl\<rparr> t3\<rparr>, tenant, ok)))"

definition newResolver :: resolver where
  "newResolver = \<lparr>rs_cache = [], rs_lastErrorAt = 0, rs_errorLogs = 0\<rparr>"

text \<open>The part of \<open>Resolve\<close> after the digest is known, as the cache sees it.\<close>

definition keys_resolve ::
  "keyCache \<Rightarrow> string \<Rightarrow> (string \<times> bool) option \<Rightarrow> instant \<Rightarrow> instant \<Rightarrow> instant \<Rightarrow> keyCache \<times> string \<times> bool" where
  "keys_resolve cache digest source t1 t2 t3 =
     (case keys_getFresh cache digest t1 of
        Some entry \<Rightarrow> (cache, ce_tenant entry, ce_ok entry)
      | None \<Rightarrow> (case source of
          None \<Rightarrow> (cache, '''', False)
        | Some v \<Rightarrow> (keys_store cache digest \<lparr>ce_tenant = fst v, ce_ok = snd v,
            ce_expiry = t2 + (if \<not> snd v then negativeTTL else positiveTTL)\<rparr> t3, v)))"

interpretation keys: ttl_cache map_of keys_getFresh keys_store "\<lambda>e. (ce_tenant e, ce_ok e)" ce_expiry
  "\<lambda>v x. \<lparr>ce_tenant = fst v, ce_ok = snd v, ce_expiry = x\<rparr>"
  "\<lambda>v. if \<not> snd v then negativeTTL else positiveTTL" "('''', False)" keys_resolve positiveTTL gomap_ok
proof (unfold_locales, goal_cases)
  case (3 c k' k e now e')
  then show ?case by (auto simp: keys_store_def intro: map_of_sweep_Some split: if_splits)
next
  case (4 c k' k e' now e)
  then show ?case by (auto simp: keys_store_def intro: map_of_sweep_keep)
qed (auto simp: keys_getFresh_def keys_store_def keys_resolve_def negativeTTL_def positiveTTL_def go_defs
    split: option.splits)

lemma Resolve_keys:
  assumes "Decode key = Some (origin, secret)"
  shows "rs_cache (fst (Resolve sha lookup r key t1 t2 t3)) =
      fst (keys_resolve (rs_cache r) (sha secret) (lookup (sha secret)) t1 t2 t3)"
    and "snd (Resolve sha lookup r key t1 t2 t3) =
      snd (keys_resolve (rs_cache r) (sha secret) (lookup (sha secret)) t1 t2 t3)"
  using assms
  by (auto simp: Resolve_def keys_resolve_def hashKey_def logDBError_def Let_def split: option.splits)

text \<open>A history of calls; \<open>source t digest\<close> is what the database answers at instant \<open>t\<close>.\<close>

definition resolver_run ::
  "(string \<Rightarrow> string) \<Rightarrow> (instant \<Rightarrow> string \<Rightarrow> (string \<times> bool) option) \<Rightarrow> string cache_call list \<Rightarrow> resolver" where
  "resolver_run sha source xs =
     fold (\<lambda>x r. fst (Resolve sha (source (cc_read x)) r (cc_key x) (cc_t1 x) (cc_t2 x) (cc_t3 x))) xs newResolver"

lemma resolver_run_sound:
  assumes "\<forall>y \<in> set xs. timely_call lat y"
  shows "keys.sound source lat (rs_cache (resolver_run sha source xs))"
  using assms
proof (induction xs rule: rev_induct)
  case Nil
  then show ?case by (simp add: resolver_run_def newResolver_def keys.sound_def)
next
  case (snoc x xs)
  let ?r = "resolver_run sha source xs"
  have IH: "keys.sound source lat (rs_cache ?r)" using snoc by simp
  have run: "resolver_run sha source (xs @ [x]) =
      fst (Resolve sha (source (cc_read x)) ?r (cc_key x) (cc_t1 x) (cc_t2 x) (cc_t3 x))"
    by (simp add: resolver_run_def)
  show ?case
  proof (cases "Decode (cc_key x)")
    case None
    then show ?thesis using IH unfolding run by (simp add: Resolve_def)
  next
    case (Some os)
    then obtain origin secret where d: "Decode (cc_key x) = Some (origin, secret)" by (cases os) auto
    let ?y = "\<lparr>cc_key = sha secret, cc_t1 = cc_t1 x, cc_read = cc_read x, cc_t2 = cc_t2 x, cc_t3 = cc_t3 x\<rparr>"
    have "keys.timely lat ?y" using snoc.prems by (simp add: keys.timely_def)
    from keys.sound_resolve [OF IH this] show ?thesis
      unfolding run Resolve_keys(1) [OF d] by simp
  qed
qed

text \<open>C7. Key resolution is sound and fails closed. After any history of calls, with a database that
  changes over time and may fail: a key is accepted for a tenant only if the database itself resolved
  the digest of that key's secret to that tenant, as an active key, less than 30 seconds (plus the
  latency of a lookup) before the call began or during the call. So a revocation takes effect within
  the positive TTL, a database outage lets no unknown key in, and a malformed key is refused.\<close>

theorem key_resolution_sound:
  fixes x :: "string cache_call"
  assumes "\<forall>y \<in> set xs. timely_call lat y" and "timely_call lat x"
    and "snd (Resolve sha (source (cc_read x)) (resolver_run sha source xs) (cc_key x)
           (cc_t1 x) (cc_t2 x) (cc_t3 x)) = (tenant, True)"
  shows "\<exists>origin secret r. Decode (cc_key x) = Some (origin, secret) \<and>
    source r (sha secret) = Some (tenant, True) \<and> (cc_t1 x < r + lat + 30 * second \<or> r = cc_read x)"
proof (cases "Decode (cc_key x)")
  case None
  then show ?thesis using assms(3) by (simp add: Resolve_def)
next
  case (Some os)
  then obtain origin secret where d: "Decode (cc_key x) = Some (origin, secret)" by (cases os) auto
  let ?y = "\<lparr>cc_key = sha secret, cc_t1 = cc_t1 x, cc_read = cc_read x, cc_t2 = cc_t2 x, cc_t3 = cc_t3 x\<rparr>"
  have t: "keys.timely lat ?y" using assms(2) by (simp add: keys.timely_def)
  have ttl: "(0::int) \<le> positiveTTL" by (simp add: positiveTTL_def go_defs)
  have "snd (keys_resolve (rs_cache (resolver_run sha source xs)) (sha secret)
      (source (cc_read x) (sha secret)) (cc_t1 x) (cc_t2 x) (cc_t3 x)) = (tenant, True)"
    using assms(3) unfolding Resolve_keys(2) [OF d] .
  with keys.answer_age [OF resolver_run_sound [OF assms(1), where source = source and sha = sha] t ttl] d show ?thesis
    by (auto simp: positiveTTL_def)
qed

theorem key_resolution_sound_witness:
  "let source = (\<lambda>t k. Some (''acme'', t < 10 * second));
       r = resolver_run id source [\<lparr>cc_key = ''dev-key'', cc_t1 = 0, cc_read = 0, cc_t2 = 0, cc_t3 = 0\<rparr>]
   in snd (Resolve id (source (20 * second)) r ''dev-key'' (20 * second) (20 * second) (20 * second)) = (''acme'', True) \<and>
      (\<exists>t. source t ''dev-key'' = Some (''acme'', True) \<and> 20 * second < t + 30 * second)"
proof -
  let ?source = "\<lambda>t k. Some (''acme'', t < 10 * second)"
  let ?first = "\<lparr>cc_key = ''dev-key'', cc_t1 = 0, cc_read = 0, cc_t2 = 0, cc_t3 = 0\<rparr> :: string cache_call"
  let ?x = "\<lparr>cc_key = ''dev-key'', cc_t1 = 20 * second, cc_read = 20 * second, cc_t2 = 20 * second,
    cc_t3 = 20 * second\<rparr> :: string cache_call"
  have d: "Decode ''dev-key'' = Some ('''', ''dev-key'')" by (simp add: Decode_def hasPrefix_def tokenPrefix_def)
  have ans: "snd (Resolve id (?source (20 * second)) (resolver_run id ?source [?first]) ''dev-key''
      (20 * second) (20 * second) (20 * second)) = (''acme'', True)"
    by (simp add: resolver_run_def Resolve_def d newResolver_def keys_getFresh_def keys_store_def hashKey_def
        cacheSweepThreshold_def positiveTTL_def Let_def) (simp add: second_def)
  then obtain r where "r < 10 * second" "20 * second < r + 30 * second \<or> r = 20 * second"
    using key_resolution_sound [where xs = "[?first]" and lat = 0 and x = ?x and sha = id and source = ?source
        and tenant = "''acme''"] d
    by (auto simp: second_def)
  with ans show ?thesis by (auto simp: Let_def second_def intro!: exI [of _ r])
qed

section \<open>The life of a key\<close>

lemma exec_ok: "db_fault d = None \<Longrightarrow> exec f d = (fst (f (db_tables d)), d\<lparr>db_tables := snd (f (db_tables d))\<rparr>)"
  by (cases d) (simp add: exec_def split_def Let_def)

lemma exec_failed: "db_fault d = Some 0 \<Longrightarrow> exec f d = (Inl DbFailure, d)"
  by (simp add: exec_def)

lemma exec_tables:
  "db_tables (snd (exec f d)) = (if db_fault d = Some 0 then db_tables d else snd (f (db_tables d)))"
  by (auto simp: exec_def split_def Let_def split: option.split nat.split)

lemma find_hash:
  assumes "distinct (map ik_hash ks)" and "k \<in> set ks"
  shows "find (\<lambda>k'. ik_hash k' = ik_hash k \<and> ik_revoked k' = None) ks =
    (if ik_revoked k = None then Some k else None)"
  using assms by (induction ks) (auto simp: find_None_iff image_iff)

definition lookupKey :: "tables \<Rightarrow> string \<Rightarrow> string option" where
  "lookupKey t h = map_option ik_org (find (\<lambda>k. ik_hash k = h \<and> ik_revoked k = None) (tb_keys t))"

lemma poolLookup_eq:
  "db_fault d = None \<Longrightarrow> poolLookup h d =
     (Inr (case lookupKey (db_tables d) h of None \<Rightarrow> ('''', False) | Some tenant \<Rightarrow> (tenant, True)), d)"
  by (simp add: poolLookup_def exec_ok select_def lookupKey_def split: option.splits)

lemma find_append: "find P (xs @ ys) = (case find P xs of None \<Rightarrow> find P ys | Some x \<Rightarrow> Some x)"
  by (induction xs) auto

lemma find_cong_map:
  assumes "\<And>x. x \<in> set xs \<Longrightarrow> P (f x) \<longleftrightarrow> Q x"
  shows "find P (map f xs) = map_option f (find Q xs)"
  using assms by (induction xs) auto

text \<open>Revoking by id touches only the named key of the named org.\<close>

lemma lookup_revoked:
  assumes "tables_ok t" and "k \<in> set (tb_keys t)" and "ik_org k = orgID" and "ik_revoked k = None"
  shows "lookupKey (snd (updateRevoked (ik_id k) orgID now t)) h =
    (if h = ik_hash k then None else lookupKey t h)"
proof -
  let ?hit = "\<lambda>x. ik_id x = ik_id k \<and> ik_org x = orgID \<and> ik_revoked x = None"
  have only: "?hit x \<longleftrightarrow> x = k" if "x \<in> set (tb_keys t)" for x
    using assms that by (auto simp: tables_ok_def distinct_map dest: inj_onD)
  have hash: "ik_hash x = ik_hash k \<longleftrightarrow> x = k" if "x \<in> set (tb_keys t)" for x
    using assms that by (auto simp: tables_ok_def distinct_map dest: inj_onD)
  let ?f = "\<lambda>x. if ?hit x then x\<lparr>ik_revoked := Some now\<rparr> else x"
  have "find (\<lambda>x. ik_hash x = h \<and> ik_revoked x = None) (map ?f (tb_keys t)) =
      map_option ?f (find (\<lambda>x. ik_hash x = h \<and> ik_revoked x = None \<and> x \<noteq> k) (tb_keys t))"
    using only by (intro find_cong_map) auto
  moreover have "find (\<lambda>x. ik_hash x = h \<and> ik_revoked x = None \<and> x \<noteq> k) (tb_keys t) =
      (if h = ik_hash k then None else find (\<lambda>x. ik_hash x = h \<and> ik_revoked x = None) (tb_keys t))"
  proof (cases "h = ik_hash k")
    case True
    then show ?thesis using hash by (simp add: find_None_iff) blast
  next
    case False
    have "find (\<lambda>x. ik_hash x = h \<and> ik_revoked x = None \<and> x \<noteq> k) (tb_keys t) =
        find (\<lambda>x. ik_hash x = h \<and> ik_revoked x = None) (tb_keys t)"
      using False by (intro find_cong) auto
    with False show ?thesis by simp
  qed
  ultimately show ?thesis
    by (cases "find (\<lambda>x. ik_hash x = h \<and> ik_revoked x = None) (tb_keys t)")
      (auto simp: lookupKey_def updateRevoked_def Let_def)
qed

lemma find_fresh: "h \<notin> ik_hash ` set ks \<Longrightarrow> find (\<lambda>k. ik_hash k = h \<and> P k) ks = None"
  by (auto simp: find_None_iff)

lemma issueKey_ok:
  assumes "db_fault d = None" and "orgID \<in> o_id ` set (tb_orgs (db_tables d))"
    and "sha (NewSecret random) \<notin> ik_hash ` set (tb_keys (db_tables d))"
    and "newKeyId \<notin> ik_id ` set (tb_keys (db_tables d))"
  shows "issueKey sha orgID label random newKeyId now d =
    (Inr (NewSecret random), d\<lparr>db_tables := (db_tables d)\<lparr>tb_keys := tb_keys (db_tables d) @
      [\<lparr>ik_id = newKeyId, ik_org = orgID, ik_label = label, ik_hash = sha (NewSecret random),
        ik_last4 = last4 (NewSecret random), ik_created = now, ik_revoked = None\<rparr>]\<rparr>\<rparr>)"
  using assms by (simp add: issueKey_def exec_ok insertKey_def hashKey_def Let_def)

text \<open>The life of an ingest key. On well-formed tables, with fresh ids and a fresh digest: issuing
  a key for an org returns its secret, and from then on the key shown to the user (the secret wrapped
  with any origin) resolves to that org; every other digest resolves as before. Revoking the key makes
  it unknown and changes nothing else; revoking it in the name of another org is refused and changes
  nothing.\<close>

theorem key_lifecycle:
  fixes d :: db and sha :: "string \<Rightarrow> string"
  assumes "tables_ok (db_tables d)" and "db_fault d = None" and "orgID \<in> o_id ` set (tb_orgs (db_tables d))"
    and "sha (NewSecret random) \<notin> ik_hash ` set (tb_keys (db_tables d))"
    and "newKeyId \<notin> ik_id ` set (tb_keys (db_tables d))" and "NewSecret random \<noteq> ''''"
  shows "\<exists>d1 d2. issueKey sha orgID label random newKeyId now d = (Inr (NewSecret random), d1) \<and>
    (\<forall>origin. \<exists>secret. Decode (Encode origin (NewSecret random)) = Some (origin, secret) \<and>
       poolLookup (sha secret) d1 = (Inr (orgID, True), d1)) \<and>
    (\<forall>h. h \<noteq> sha (NewSecret random) \<longrightarrow> fst (poolLookup h d1) = fst (poolLookup h d)) \<and>
    revokeKey orgID newKeyId later d1 = (Inr (), d2) \<and>
    poolLookup (sha (NewSecret random)) d2 = (Inr ('''', False), d2) \<and>
    (\<forall>h. h \<noteq> sha (NewSecret random) \<longrightarrow> fst (poolLookup h d2) = fst (poolLookup h d1)) \<and>
    (\<forall>other. other \<noteq> orgID \<longrightarrow> revokeKey other newKeyId later d1 = (Inl ErrKeyNotFound, d1))"
proof -
  let ?s = "NewSecret random" and ?t = "db_tables d"
  define k where "k = \<lparr>ik_id = newKeyId, ik_org = orgID, ik_label = label, ik_hash = sha ?s,
    ik_last4 = last4 ?s, ik_created = now, ik_revoked = None\<rparr>"
  let ?t1 = "?t\<lparr>tb_keys := tb_keys ?t @ [k]\<rparr>"
  let ?d1 = "d\<lparr>db_tables := ?t1\<rparr>" and ?t2 = "snd (updateRevoked newKeyId orgID later ?t1)"
  let ?d2 = "?d1\<lparr>db_tables := ?t2\<rparr>"
  have kf: "ik_id k = newKeyId" "ik_org k = orgID" "ik_hash k = sha ?s" "ik_revoked k = None" by (simp_all add: k_def)
  have ok1: "tables_ok ?t1" using assms(1,3-5) kf by (auto simp: tables_ok_def)
  have l1: "lookupKey ?t1 h = (if h = sha ?s then Some orgID else lookupKey ?t h)" for h
  proof (cases "h = sha ?s")
    case True
    then show ?thesis using find_fresh [OF assms(4)] kf by (simp add: lookupKey_def find_append)
  next
    case False
    then show ?thesis using kf by (simp add: lookupKey_def find_append split: option.split)
  qed
  have in1: "k \<in> set (tb_keys ?t1)" by simp
  have l2: "lookupKey ?t2 h = (if h = sha ?s then None else lookupKey ?t1 h)" for h
    using lookup_revoked [OF ok1 in1 kf(2,4), of later h] kf by simp
  have issue: "issueKey sha orgID label random newKeyId now d = (Inr ?s, ?d1)"
    using issueKey_ok [of d orgID sha random newKeyId label now] assms(2-5) by (simp add: k_def)
  have rev: "revokeKey orgID newKeyId later ?d1 = (Inr (), ?d2)"
    using assms(2) kf by (simp add: revokeKey_def execExpectOne_def exec_ok updateRevoked_def Let_def)
  have "revokeKey other newKeyId later ?d1 = (Inl ErrKeyNotFound, ?d1)" if "other \<noteq> orgID" for other
  proof -
    have none: "\<not> (ik_id x = newKeyId \<and> ik_org x = other \<and> ik_revoked x = None)" if "x \<in> set (tb_keys ?t1)" for x
      using that \<open>other \<noteq> orgID\<close> kf assms(5) by (force simp: image_iff)
    have "map (\<lambda>x. if ik_id x = newKeyId \<and> ik_org x = other \<and> ik_revoked x = None
        then x\<lparr>ik_revoked := Some later\<rparr> else x) (tb_keys ?t1) = tb_keys ?t1"
      using none by (intro map_idI) auto
    moreover have "filter (\<lambda>x. ik_id x = newKeyId \<and> ik_org x = other \<and> ik_revoked x = None) (tb_keys ?t1) = []"
      using none by (auto simp: filter_empty_conv)
    ultimately show ?thesis
      using assms(2) by (simp add: revokeKey_def execExpectOne_def exec_ok updateRevoked_def Let_def)
  qed
  moreover have "Decode (Encode origin ?s) = Some (origin, ?s)" for origin
    using token_roundtrip_lemma [OF assms(6)] b64Encode_no_dot by (simp add: NewSecret_def)
  ultimately show ?thesis
    using issue rev assms(2) l1 l2 by (intro exI [of _ ?d1] exI [of _ ?d2]) (simp add: poolLookup_eq)
qed

definition demoTables :: tables where
  "demoTables = \<lparr>tb_orgs = [\<lparr>o_id = ''org-1'', o_name = ''acme'', o_plan = ''free'', o_created = 0\<rparr>],
     tb_keys = [], tb_members = [], tb_plans = [(''free'', DefaultLimits)], tb_handshakes = []\<rparr>"

definition demoDb :: db where
  "demoDb = \<lparr>db_tables = demoTables, db_fault = None\<rparr>"

theorem key_lifecycle_witness:
  "\<exists>d1 d2. issueKey id ''org-1'' ''ci'' ''abc'' ''key-1'' 5 demoDb = (Inr ''YWJj'', d1) \<and>
     poolLookup ''YWJj'' d1 = (Inr (''org-1'', True), d1) \<and>
     revokeKey ''org-1'' ''key-1'' 9 d1 = (Inr (), d2) \<and> poolLookup ''YWJj'' d2 = (Inr ('''', False), d2)"
proof -
  have s: "NewSecret ''abc'' = ''YWJj''" by (simp add: NewSecret_def b64Char_def b64Alphabet_def)
  have a: "tables_ok (db_tables demoDb)" "db_fault demoDb = None" "''org-1'' \<in> o_id ` set (tb_orgs (db_tables demoDb))"
    "id (NewSecret ''abc'') \<notin> ik_hash ` set (tb_keys (db_tables demoDb))"
    "''key-1'' \<notin> ik_id ` set (tb_keys (db_tables demoDb))" "NewSecret ''abc'' \<noteq> ''''"
    by (simp_all add: demoDb_def demoTables_def tables_ok_def s)
  obtain d1 d2 where d: "issueKey id ''org-1'' ''ci'' ''abc'' ''key-1'' 5 demoDb = (Inr (NewSecret ''abc''), d1)"
    "\<forall>origin. \<exists>secret. Decode (Encode origin (NewSecret ''abc'')) = Some (origin, secret) \<and>
       poolLookup (id secret) d1 = (Inr (''org-1'', True), d1)"
    "revokeKey ''org-1'' ''key-1'' 9 d1 = (Inr (), d2)"
    "poolLookup (id (NewSecret ''abc'')) d2 = (Inr ('''', False), d2)"
    using key_lifecycle [where d = demoDb and sha = id and orgID = "''org-1''" and random = "''abc''"
        and newKeyId = "''key-1''" and label = "''ci''" and now = 5 and later = 9, OF a]
    by (elim exE conjE) blast
  have "Decode (Encode ''x'' ''YWJj'') = Some (''x'', ''YWJj'')" by (rule token_roundtrip_lemma) simp_all
  then have "poolLookup ''YWJj'' d1 = (Inr (''org-1'', True), d1)"
    using d(2) [THEN spec, of "''x''"] unfolding s by simp
  then show ?thesis using d(1,3,4) unfolding s by auto
qed

text \<open>A development key that carries the key prefix is useless: the seed stores the digest of the
  whole key, the resolver looks up the digest of the secret only. If the two digests differ and the
  secret's digest is not stored otherwise, the seeding succeeds and the key does not resolve.\<close>

theorem dev_key_prefixed_never_resolves:
  fixes sha :: "string \<Rightarrow> string" and secret :: string
  defines "key \<equiv> ''mk_live_'' @ secret"
  assumes "secret \<noteq> ''''" and "CHR ''.'' \<notin> set secret" and "sha key \<noteq> sha secret"
    and "tb_keys (db_tables d) = []" and "tb_orgs (db_tables d) = []" and "db_fault d = None"
  shows "\<exists>d'. ensureDevKey sha key orgName newOrgId newKeyId now d = (Inr newOrgId, d') \<and>
    Decode key = Some ('''', secret) \<and> poolLookup (hashKey sha secret) d' = (Inr ('''', False), d')"
proof -
  have "Decode key = Some ('''', secret)"
    using token_roundtrip_lemma [of secret "''''"] assms(2,3) by (simp add: key_def Encode_def tokenPrefix_def)
  then show ?thesis
    using assms(4-7)
    by (simp add: ensureDevKey_def exec_ok select_def insertOrg_def insertKey_def newOrg_def hashKey_def
        poolLookup_eq lookupKey_def Let_def)
qed

theorem dev_key_prefixed_never_resolves_witness:
  "\<exists>d'. ensureDevKey id ''mk_live_x'' ''dev'' ''o'' ''k'' 0
      \<lparr>db_tables = demoTables\<lparr>tb_orgs := []\<rparr>, db_fault = None\<rparr> = (Inr ''o'', d') \<and>
    poolLookup ''x'' d' = (Inr ('''', False), d')"
  using dev_key_prefixed_never_resolves [where sha = id and secret = "''x''" and orgName = "''dev''"
      and newOrgId = "''o''" and newKeyId = "''k''" and now = 0
      and d = "\<lparr>db_tables = demoTables\<lparr>tb_orgs := []\<rparr>, db_fault = None\<rparr>"]
  by (auto simp: demoTables_def hashKey_def)

section \<open>Members\<close>

lemma exec_select_tables [simp]: "db_tables (snd (exec (select f) d)) = db_tables d"
  by (auto simp: exec_tables select_def split: option.splits)

lemma transaction_atomic:
  assumes "fst (transaction body d) = Inl e"
  shows "db_tables (snd (transaction body d)) = db_tables d"
  using assms exec_tables [of "\<lambda>t. (Inr (), t)" d]
  by (auto simp: transaction_def split: prod.splits sum.splits)

text \<open>The tables that a successful first login leaves: the linked org gets one more admin, or a new
  org of one is appended together with its admin.\<close>

definition loginTables :: "string \<Rightarrow> string \<Rightarrow> string \<Rightarrow> string \<Rightarrow> instant \<Rightarrow> tables \<Rightarrow> tables" where
  "loginTables subject email newOrgId newMemberId now t =
     (case linkableOrg email t of
        Some orgID \<Rightarrow> t\<lparr>tb_members := tb_members t @ [newMember newMemberId orgID email subject]\<rparr>
      | None \<Rightarrow> t\<lparr>tb_orgs := tb_orgs t @ [newOrg newOrgId email now],
          tb_members := tb_members t @ [newMember newMemberId newOrgId email subject]\<rparr>)"

lemma linkableOrg_in: "linkableOrg email t = Some oid \<Longrightarrow> oid \<in> o_id ` set (tb_orgs t)"
proof -
  assume l: "linkableOrg email t = Some oid"
  define mine where "mine = filter (\<lambda>o'. o_id o' \<in> mb_org ` set (filter (\<lambda>m. lower (mb_email m) = lower email)
    (tb_members t))) (tb_orgs t)"
  define cand where "cand = (if filter (\<lambda>o'. o_plan o' \<noteq> ''free'') mine \<noteq> []
    then filter (\<lambda>o'. o_plan o' \<noteq> ''free'') mine else mine)"
  have "(case sort_key o_created cand of [] \<Rightarrow> None | o' # _ \<Rightarrow> Some (o_id o')) = Some oid"
    using l by (simp only: linkableOrg_def Let_def cand_def mine_def)
  then obtain x xs where "sort_key o_created cand = x # xs" "oid = o_id x"
    by (cases "sort_key o_created cand") auto
  then have "x \<in> set cand" "oid = o_id x" by (metis list.set_intros(1) set_sort, simp)
  moreover have "set cand \<subseteq> set (tb_orgs t)" by (auto simp: cand_def mine_def)
  ultimately show ?thesis by auto
qed

lemma firstLogin_ok:
  assumes "db_fault d = None" and "newOrgId \<notin> o_id ` set (tb_orgs (db_tables d))"
    and "newMemberId \<notin> mb_id ` set (tb_members (db_tables d))"
    and "Some subject \<notin> mb_subject ` set (tb_members (db_tables d))"
  shows "firstLoginOrLink subject email newOrgId newMemberId now d =
    (Inr (case linkableOrg email (db_tables d) of Some o' \<Rightarrow> o' | None \<Rightarrow> newOrgId, newMemberId, ''admin'',
        linkableOrg email (db_tables d) = None),
     d\<lparr>db_tables := loginTables subject email newOrgId newMemberId now (db_tables d)\<rparr>)"
proof (cases "linkableOrg email (db_tables d)")
  case None
  then show ?thesis
    using assms by (simp add: firstLoginOrLink_def exec_ok select_def insertOrg_def insertMember_def newOrg_def
        newMember_def loginTables_def)
next
  case (Some oid)
  then show ?thesis
    using assms linkableOrg_in [OF Some]
    by (simp add: firstLoginOrLink_def exec_ok select_def insertMember_def newMember_def loginTables_def)
qed



text \<open>Linking by email promotes: a person who is a plain \<open>member\<close> of an org and signs in through a
  second provider with the same verified email is added to that org as an \<open>admin\<close>.\<close>

theorem second_provider_becomes_admin:
  "\<exists>d1. upsertMemberFromOIDC ''google:7'' ''A@x.io'' ''org-2'' ''m-2'' 4
      (demoDb\<lparr>db_tables := demoTables\<lparr>tb_members := [\<lparr>mb_id = ''m-1'', mb_org = ''org-1'', mb_email = ''a@x.io'',
         mb_role = ''member'', mb_subject = Some ''github:1''\<rparr>]\<rparr>\<rparr>) =
    (Inr (''org-1'', ''m-2'', ''admin'', False), d1)"
proof -
  have "lower ''A@x.io'' = ''a@x.io''" "lower ''a@x.io'' = ''a@x.io''" by code_simp+
  then show ?thesis
    by (simp add: upsertMemberFromOIDC_def transaction_def exec_ok select_def firstLoginOrLink_def
        insertMember_def newMember_def linkableOrg_def demoDb_def demoTables_def Let_def)
qed

end
