(* ===== verification/Ingest.thy ===== *)
theory Ingest
  imports Writer Control "HOL-Library.Sublist"
begin

text \<open>
  The ingest service, src/server/internal/ingest/: the static key resolver (resolver.go), the
  timestamp policy and the conversion of wire messages to rows (convert.go), and the handler of the
  two calls Register and Upload with its options (handler.go).

  What the handler is given (the resolver, the limiter, the guards, the two sinks, the clock) is a
  record of functions on a state \<open>'s\<close>, the way the Go struct holds interfaces and functions; an option
  that is not set is \<open>None\<close>. A nil summary of a request is \<open>None\<close>, and the getters of a nil message
  give zero values.
\<close>

section \<open>Static keys (resolver.go)\<close>

type_synonym staticKeys = "(string \<times> string) list"

definition NewStaticKeyResolver :: "(string \<Rightarrow> string) \<Rightarrow> (string, string) gomap \<Rightarrow> staticKeys" where
  "NewStaticKeyResolver sha keyToTenant = map (\<lambda>(key, tenant). (hashKey sha key, tenant)) keyToTenant"

definition static_Resolve :: "(string \<Rightarrow> string) \<Rightarrow> staticKeys \<Rightarrow> string \<Rightarrow> string \<times> bool" where
  "static_Resolve sha keys key =
     (let h = hashKey sha key
      in fold (\<lambda>(hash, tenant) acc. if h = hash then (tenant, True) else acc) keys ('''', False))"

lemma static_fold:
  "fold (\<lambda>(hash, tenant) acc. if h = hash then (tenant, True) else acc) keys acc =
     (case map_of (rev keys) h of None \<Rightarrow> acc | Some t \<Rightarrow> (t, True))"
  by (induction keys arbitrary: acc) (auto simp: map_add_def split: option.splits)

section \<open>Timestamp policy (convert.go)\<close>

definition skewTolerance :: duration where
  "skewTolerance = 10 * minute"

definition unixMilli :: "int \<Rightarrow> instant" where
  "unixMilli ms = ms * millisecond"

record timestampDecision =
  td_accepted :: bool
  td_start :: instant
  td_end :: instant

definition applyTimestampPolicy :: "int \<Rightarrow> int \<Rightarrow> instant \<Rightarrow> timestampDecision" where
  "applyTimestampPolicy startMs endMs now =
     (let end' = unixMilli endMs;
          drift = time_sub now end';
          drift = (if drift < 0 then neg64 drift else drift)
      in if drift > skewTolerance then \<lparr>td_accepted = False, td_start = 0, td_end = 0\<rparr>
         else \<lparr>td_accepted = True, td_start = unixMilli startMs, td_end = end'\<rparr>)"

fun statusClassName :: "StatusClass \<Rightarrow> string" where
  "statusClassName SC_2XX = ''STATUS_CLASS_2XX''"
| "statusClassName SC_3XX = ''STATUS_CLASS_3XX''"
| "statusClassName SC_4XX = ''STATUS_CLASS_4XX''"
| "statusClassName SC_5XX = ''STATUS_CLASS_5XX''"
| "statusClassName SC_NO_STATUS = ''STATUS_CLASS_NO_STATUS''"
| "statusClassName _ = ''STATUS_CLASS_UNSPECIFIED''"

section \<open>Rows from messages (convert.go)\<close>

definition exemplarsToRows :: "Exemplar list \<Rightarrow> RowExemplar list" where
  "exemplarsToRows exs =
     map (\<lambda>e. \<lparr>re_At = unixMilli (x_AtMs e), re_DurationNs = x_DurationNs e, re_StatusCode = x_StatusCode e,
               re_TraceID = x_TraceId e, re_SpanID = x_SpanId e, re_RequestID = x_RequestId e\<rparr>) exs"

definition summaryToRow ::
  "tenantID \<Rightarrow> string \<Rightarrow> string \<Rightarrow> string \<Rightarrow> string \<Rightarrow> string \<Rightarrow> string \<Rightarrow> instant option \<Rightarrow>
   Summary option \<Rightarrow> instant \<Rightarrow> instant \<Rightarrow> Row option" where
  "summaryToRow tid service inst deployVersion deployID environment region instanceStart s start end' =
     (case s of
        None \<Rightarrow> None
      | Some s \<Rightarrow> Some (NewRow tid service inst
          (m_Method s) (m_RouteTemplate s) (statusClassName (m_StatusClass s))
          start end'
          (m_Count s) (m_SumDurationNs s) (m_ReqBytes s) (m_RespBytes s)
          (m_LatencySketch s) (m_StatusCodeBreakdown s)
          deployVersion deployID environment region instanceStart
          (m_MaxDurationNs s) (exemplarsToRows (m_Exemplars s))
          (m_ErrorClassBreakdown s) (m_NoStatusReasons s)
          (m_SumDownstreamDurationNs s)))"

definition instanceWindowToRow ::
  "tenantID \<Rightarrow> string \<Rightarrow> string \<Rightarrow> InstanceWindow option \<Rightarrow> instant \<Rightarrow> InstanceWindowRow option" where
  "instanceWindowToRow tid service inst iw now =
     (case iw of
        None \<Rightarrow> None
      | Some iw \<Rightarrow>
          let decision = applyTimestampPolicy (w_WindowStartMs iw) (w_WindowEndMs iw) now
          in if \<not> td_accepted decision then None
             else Some \<lparr>iw_Tenant = tid, iw_Service = service, iw_Instance = inst,
               iw_WindowStart = td_start decision, iw_WindowEnd = td_end decision,
               iw_CPUNs = w_CpuNs iw, iw_RSSBytes = w_RssBytes iw, iw_HeapAllocBytes = w_HeapAllocBytes iw,
               iw_GCPauseNs = w_GcPauseNs iw, iw_Goroutines = w_Goroutines iw, iw_NumGC = w_NumGc iw,
               iw_TotalAllocBytes = w_TotalAllocBytes iw, iw_Mallocs = w_Mallocs iw,
               iw_GCCPUFraction = w_GcCpuFraction iw, iw_HeapInuseBytes = w_HeapInuseBytes iw,
               iw_GOMAXPROCS = w_Gomaxprocs iw, iw_PostGCHeapBytes = w_PostGcHeapBytes iw,
               iw_RSSTrueBytes = w_RssTrueBytes iw, iw_OpenFDs = w_OpenFds iw, iw_FDLimit = w_FdLimit iw,
               iw_InFlight = w_InFlight iw\<rparr>)"

section \<open>The handler (handler.go)\<close>

record 's Handler =
  hd_resolver :: "string \<Rightarrow> 's \<Rightarrow> (string \<times> bool) \<times> 's"
  hd_sink :: "Row \<Rightarrow> 's \<Rightarrow> writerError option \<times> 's"
  hd_limiter :: "string \<Rightarrow> 's \<Rightarrow> bool \<times> 's"
  hd_now :: "'s \<Rightarrow> instant \<times> 's"
  hd_cardinality :: "(string \<Rightarrow> string \<Rightarrow> int \<Rightarrow> 's \<Rightarrow> (bool \<times> bool) \<times> 's) option"
  hd_cap :: "(string \<Rightarrow> 's \<Rightarrow> int \<times> 's) option"
  hd_payloadLimit :: "(string \<Rightarrow> 's \<Rightarrow> int \<times> 's) option"
  hd_handshakes :: "(string \<Rightarrow> string \<Rightarrow> string \<Rightarrow> string \<Rightarrow> 's \<Rightarrow> bool \<times> 's) option"
  hd_iwSink :: "(InstanceWindowRow \<Rightarrow> 's \<Rightarrow> writerError option \<times> 's) option"
  hd_size :: "UploadRequest \<Rightarrow> int"

text \<open>\<open>proto.Size\<close> is not code of this repository: it is the field \<open>hd_size\<close>.\<close>

definition WithLimiter :: "(string \<Rightarrow> 's \<Rightarrow> bool \<times> 's) option \<Rightarrow> 's Handler \<Rightarrow> 's Handler" where
  "WithLimiter allow h = (case allow of Some f \<Rightarrow> h\<lparr>hd_limiter := f\<rparr> | None \<Rightarrow> h)"

definition WithCardinality ::
  "(string \<Rightarrow> string \<Rightarrow> int \<Rightarrow> 's \<Rightarrow> (bool \<times> bool) \<times> 's) option \<Rightarrow> (string \<Rightarrow> 's \<Rightarrow> int \<times> 's) option \<Rightarrow>
   's Handler \<Rightarrow> 's Handler" where
  "WithCardinality allow capacity h = h\<lparr>hd_cardinality := allow, hd_cap := capacity\<rparr>"

definition WithPayloadLimit :: "(string \<Rightarrow> 's \<Rightarrow> int \<times> 's) option \<Rightarrow> 's Handler \<Rightarrow> 's Handler" where
  "WithPayloadLimit limit h = (case limit of Some f \<Rightarrow> h\<lparr>hd_payloadLimit := Some f\<rparr> | None \<Rightarrow> h)"

definition WithHandshakeRecorder ::
  "(string \<Rightarrow> string \<Rightarrow> string \<Rightarrow> string \<Rightarrow> 's \<Rightarrow> bool \<times> 's) option \<Rightarrow> 's Handler \<Rightarrow> 's Handler" where
  "WithHandshakeRecorder r h = (case r of Some f \<Rightarrow> h\<lparr>hd_handshakes := Some f\<rparr> | None \<Rightarrow> h)"

definition WithInstanceWindowSink ::
  "(InstanceWindowRow \<Rightarrow> 's \<Rightarrow> writerError option \<times> 's) option \<Rightarrow> 's Handler \<Rightarrow> 's Handler" where
  "WithInstanceWindowSink sink h = (case sink of Some f \<Rightarrow> h\<lparr>hd_iwSink := Some f\<rparr> | None \<Rightarrow> h)"

definition defaultTenantRPS :: real where "defaultTenantRPS = 100"
definition defaultTenantBurst :: int where "defaultTenantBurst = 200"

text \<open>\<open>limiter\<close> is the default limiter, \<open>newTenantLimiter(defaultTenantRPS, defaultTenantBurst)\<close>.\<close>

definition NewHandler ::
  "(string \<Rightarrow> 's \<Rightarrow> (string \<times> bool) \<times> 's) \<Rightarrow> (Row \<Rightarrow> 's \<Rightarrow> writerError option \<times> 's) \<Rightarrow>
   (real \<Rightarrow> int \<Rightarrow> string \<Rightarrow> 's \<Rightarrow> bool \<times> 's) \<Rightarrow> ('s \<Rightarrow> instant \<times> 's) \<Rightarrow> (UploadRequest \<Rightarrow> int) \<Rightarrow>
   ('s Handler \<Rightarrow> 's Handler) list \<Rightarrow> 's Handler" where
  "NewHandler resolver sink newLimiter now size' opts =
     fold (\<lambda>opt h. opt h) opts
       \<lparr>hd_resolver = resolver, hd_sink = sink, hd_limiter = newLimiter defaultTenantRPS defaultTenantBurst,
        hd_now = now, hd_cardinality = None, hd_cap = None, hd_payloadLimit = None, hd_handshakes = None,
        hd_iwSink = None, hd_size = size'\<rparr>"

subsection \<open>Authentication\<close>

type_synonym header = "string \<Rightarrow> string"

definition extractKey :: "header \<Rightarrow> string" where
  "extractKey h =
     (let auth = h ''Authorization''
      in if hasPrefix auth ''Bearer '' then trimSpace (trimPrefix auth ''Bearer '')
         else trimSpace (h ''X-Maping-Key''))"

datatype code = CodeUnauthenticated | CodeResourceExhausted | CodeUnimplemented
datatype connectError = ConnectError code string

definition authenticate :: "'s Handler \<Rightarrow> header \<Rightarrow> 's \<Rightarrow> (connectError + tenantID) \<times> 's" where
  "authenticate h hdr s =
     (let key = extractKey hdr in
      if key = '''' then (Inl (ConnectError CodeUnauthenticated ''missing ingest key''), s)
      else (case hd_resolver h key s of
              ((resolved, okay), s1) \<Rightarrow>
                if \<not> okay then (Inl (ConnectError CodeUnauthenticated ''invalid ingest key''), s1)
                else (case tenant_Parse resolved of
                        None \<Rightarrow> (Inl (ConnectError CodeUnauthenticated ''invalid ingest key''), s1)
                      | Some tid \<Rightarrow> (Inr tid, s1))))"

subsection \<open>Register\<close>

definition Register :: "'s Handler \<Rightarrow> header \<Rightarrow> Handshake \<Rightarrow> 's \<Rightarrow> (connectError + bool) \<times> 's" where
  "Register h hdr msg s =
     (case authenticate h hdr s of
        (Inl e, s1) \<Rightarrow> (Inl e, s1)
      | (Inr tid, s1) \<Rightarrow>
          (case hd_handshakes h of
             None \<Rightarrow> (Inr True, s1)
           | Some rec \<Rightarrow> (Inr True, snd (rec tid (h_Service msg) (h_Instance msg) (h_SdkVersion msg) s1))))"

subsection \<open>Upload\<close>

definition instanceStartTime :: "int \<Rightarrow> instant option" where
  "instanceStartTime ms = (if ms = 0 then None else Some (unixMilli ms))"

record deployIdentity =
  dp_version :: string
  dp_id :: string
  dp_environment :: string
  dp_region :: string
  dp_start :: "instant option"

definition payloadWithinLimit :: "'s Handler \<Rightarrow> tenantID \<Rightarrow> UploadRequest \<Rightarrow> 's \<Rightarrow> bool \<times> 's" where
  "payloadWithinLimit h tid req s =
     (case hd_payloadLimit h of
        None \<Rightarrow> (True, s)
      | Some f \<Rightarrow> (case f tid s of (limit, s1) \<Rightarrow> if limit \<le> 0 then (True, s1) else (hd_size h req \<le> limit, s1)))"

definition nilSummary :: Summary where
  "nilSummary = \<lparr>m_WindowStartMs = 0, m_WindowEndMs = 0, m_Method = '''', m_RouteTemplate = '''',
     m_StatusClass = SC_UNSPECIFIED, m_Count = 0, m_SumDurationNs = 0, m_ReqBytes = 0, m_RespBytes = 0,
     m_LatencySketch = [], m_StatusCodeBreakdown = [], m_MaxDurationNs = 0, m_Exemplars = [],
     m_ErrorClassBreakdown = [], m_NoStatusReasons = [], m_SumDownstreamDurationNs = 0\<rparr>"

definition storeSummary ::
  "'s Handler \<Rightarrow> tenantID \<Rightarrow> string \<Rightarrow> string \<Rightarrow> deployIdentity \<Rightarrow> Summary option \<Rightarrow> instant \<Rightarrow> int \<Rightarrow> 's \<Rightarrow> bool \<times> 's" where
  "storeSummary h tid service inst deploy s now cardCap st =
     (let g = (case s of None \<Rightarrow> nilSummary | Some m \<Rightarrow> m);
          decision = applyTimestampPolicy (m_WindowStartMs g) (m_WindowEndMs g) now
      in if \<not> td_accepted decision then (False, st)
         else
           let (allowed, st1) =
             (case hd_cardinality h of
                None \<Rightarrow> (True, st)
              | Some guard \<Rightarrow>
                  (case guard tid (SeriesKey (m_Method g) (m_RouteTemplate g) (statusClassName (m_StatusClass g))) cardCap st of
                     ((allowed, _), st') \<Rightarrow> (allowed, st')))
           in if \<not> allowed then (False, st1)
              else (case summaryToRow tid service inst (dp_version deploy) (dp_id deploy) (dp_environment deploy)
                           (dp_region deploy) (dp_start deploy) s (td_start decision) (td_end decision) of
                      None \<Rightarrow> (False, st1)
                    | Some row \<Rightarrow> (case hd_sink h row st1 of (e, st2) \<Rightarrow> (e = None, st2))))"

fun storeSummaries ::
  "'s Handler \<Rightarrow> tenantID \<Rightarrow> string \<Rightarrow> string \<Rightarrow> deployIdentity \<Rightarrow> Summary option list \<Rightarrow> instant \<Rightarrow> int \<Rightarrow> u64 \<Rightarrow> 's \<Rightarrow>
   u64 \<times> 's" where
  "storeSummaries h tid service inst deploy [] now cardCap rejected st = (rejected, st)"
| "storeSummaries h tid service inst deploy (s # ss) now cardCap rejected st =
     (case storeSummary h tid service inst deploy s now cardCap st of
        (okay, st') \<Rightarrow> storeSummaries h tid service inst deploy ss now cardCap (if okay then rejected else rejected + 1) st')"

fun storeWindows ::
  "(InstanceWindowRow \<Rightarrow> 's \<Rightarrow> writerError option \<times> 's) \<Rightarrow> tenantID \<Rightarrow> string \<Rightarrow> string \<Rightarrow> InstanceWindow option list \<Rightarrow>
   instant \<Rightarrow> 's \<Rightarrow> 's" where
  "storeWindows sink tid service inst [] now st = st"
| "storeWindows sink tid service inst (iw # iws) now st =
     (case instanceWindowToRow tid service inst iw now of
        None \<Rightarrow> storeWindows sink tid service inst iws now st
      | Some row \<Rightarrow>
          (case sink row st of
             (Some e, st') \<Rightarrow> st'
           | (None, st') \<Rightarrow> storeWindows sink tid service inst iws now st'))"

definition storeInstanceWindows ::
  "'s Handler \<Rightarrow> tenantID \<Rightarrow> string \<Rightarrow> string \<Rightarrow> InstanceWindow option list \<Rightarrow> instant \<Rightarrow> 's \<Rightarrow> 's" where
  "storeInstanceWindows h tid service inst windows now st =
     (case hd_iwSink h of None \<Rightarrow> st | Some sink \<Rightarrow> storeWindows sink tid service inst windows now st)"

record UploadResponse =
  ur_Accepted :: bool
  ur_RejectedSummaries :: u64

definition envelopeDeploy :: "Envelope \<Rightarrow> deployIdentity" where
  "envelopeDeploy env =
     \<lparr>dp_version = e_DeployVersion env, dp_id = e_DeployId env, dp_environment = e_Environment env,
      dp_region = e_Region env, dp_start = instanceStartTime (e_InstanceStartTimeMs env)\<rparr>"

definition Upload :: "'s Handler \<Rightarrow> header \<Rightarrow> UploadRequest \<Rightarrow> 's \<Rightarrow> (connectError + UploadResponse) \<times> 's" where
  "Upload h hdr req s =
     (case authenticate h hdr s of
        (Inl e, s1) \<Rightarrow> (Inl e, s1)
      | (Inr tid, s1) \<Rightarrow>
          (case hd_limiter h tid s1 of
             (False, s2) \<Rightarrow> (Inl (ConnectError CodeResourceExhausted ''rate limit exceeded''), s2)
           | (True, s2) \<Rightarrow>
               (case payloadWithinLimit h tid req s2 of
                  (False, s3) \<Rightarrow> (Inl (ConnectError CodeResourceExhausted ''payload exceeds per-tenant max_payload_bytes''), s3)
                | (True, s3) \<Rightarrow>
                    let env = u_Envelope req;
                        (now, s4) = hd_now h s3;
                        (cardCap, s5) = (case (hd_cardinality h, hd_cap h) of (Some _, Some f) \<Rightarrow> f tid s4 | _ \<Rightarrow> (0, s4));
                        (rejected, s6) = storeSummaries h tid (e_Service env) (e_Instance env) (envelopeDeploy env)
                                           (map Some (u_Summaries req)) now cardCap 0 s5;
                        s7 = storeInstanceWindows h tid (e_Service env) (e_Instance env)
                               (map Some (u_InstanceWindows req)) now s6
                    in (Inr \<lparr>ur_Accepted = True, ur_RejectedSummaries = rejected\<rparr>, s7))))"

section \<open>What Upload does to a sink\<close>

text \<open>The row a summary becomes.\<close>

definition summaryRow :: "tenantID \<Rightarrow> string \<Rightarrow> string \<Rightarrow> deployIdentity \<Rightarrow> Summary \<Rightarrow> Row" where
  "summaryRow tid service inst deploy m =
     NewRow tid service inst (m_Method m) (m_RouteTemplate m) (statusClassName (m_StatusClass m))
       (unixMilli (m_WindowStartMs m)) (unixMilli (m_WindowEndMs m))
       (m_Count m) (m_SumDurationNs m) (m_ReqBytes m) (m_RespBytes m) (m_LatencySketch m) (m_StatusCodeBreakdown m)
       (dp_version deploy) (dp_id deploy) (dp_environment deploy) (dp_region deploy) (dp_start deploy)
       (m_MaxDurationNs m) (exemplarsToRows (m_Exemplars m)) (m_ErrorClassBreakdown m) (m_NoStatusReasons m)
       (m_SumDownstreamDurationNs m)"

definition inBand :: "instant \<Rightarrow> Summary \<Rightarrow> bool" where
  "inBand now m \<longleftrightarrow> td_accepted (applyTimestampPolicy (m_WindowStartMs m) (m_WindowEndMs m) now)"

lemma policy_times:
  "td_accepted (applyTimestampPolicy a b now) \<Longrightarrow>
   td_start (applyTimestampPolicy a b now) = unixMilli a \<and> td_end (applyTimestampPolicy a b now) = unixMilli b"
  by (simp add: applyTimestampPolicy_def Let_def split: if_splits)

lemma row_Tenant_summaryRow [simp]: "row_Tenant (summaryRow tid service inst deploy m) = tid"
  by (simp add: summaryRow_def NewRow_def)

text \<open>
  The contract under which the handler works: the rows a sink has accepted only ever grow by the row
  of a call that returned no error, and nothing else the handler calls touches them.
\<close>

locale ingest_service =
  fixes h :: "'s Handler"
    and rows :: "'s \<Rightarrow> Row list"
    and valid :: "'s \<Rightarrow> bool"
  assumes sink: "valid s \<Longrightarrow> valid (snd (hd_sink h r s)) \<and>
      rows (snd (hd_sink h r s)) = rows s @ (if fst (hd_sink h r s) = None then [r] else [])"
    and resolver: "valid s \<Longrightarrow> valid (snd (hd_resolver h k s)) \<and> rows (snd (hd_resolver h k s)) = rows s"
    and limiter: "valid s \<Longrightarrow> valid (snd (hd_limiter h t s)) \<and> rows (snd (hd_limiter h t s)) = rows s"
    and clock: "valid s \<Longrightarrow> valid (snd (hd_now h s)) \<and> rows (snd (hd_now h s)) = rows s"
    and cardinality: "hd_cardinality h = Some f \<Longrightarrow> valid s \<Longrightarrow> valid (snd (f t k c s)) \<and> rows (snd (f t k c s)) = rows s"
    and cap: "hd_cap h = Some g \<Longrightarrow> valid s \<Longrightarrow> valid (snd (g t s)) \<and> rows (snd (g t s)) = rows s"
    and payload: "hd_payloadLimit h = Some p \<Longrightarrow> valid s \<Longrightarrow> valid (snd (p t s)) \<and> rows (snd (p t s)) = rows s"
    and handshakes: "hd_handshakes h = Some q \<Longrightarrow> valid s \<Longrightarrow> valid (snd (q t a b c' s)) \<and> rows (snd (q t a b c' s)) = rows s"
    and windows: "hd_iwSink h = Some w \<Longrightarrow> valid s \<Longrightarrow> valid (snd (w i s)) \<and> rows (snd (w i s)) = rows s"
begin

lemma authenticate_frame:
  "valid s \<Longrightarrow> authenticate h hdr s = (r, s') \<Longrightarrow> valid s' \<and> rows s' = rows s"
  using resolver [of s "extractKey hdr"]
  by (auto simp: authenticate_def Let_def split: if_splits prod.splits option.splits)

lemma authenticate_tenant: "authenticate h hdr s = (Inr tid, s') \<Longrightarrow> tid \<noteq> ''''"
  by (auto simp: authenticate_def Let_def tenant_Parse_def split: if_splits prod.splits option.splits)

lemma payload_frame:
  "valid s \<Longrightarrow> payloadWithinLimit h tid req s = (b, s') \<Longrightarrow> valid s' \<and> rows s' = rows s"
  using payload [of _ s tid] by (auto simp: payloadWithinLimit_def split: option.splits prod.splits if_splits)

lemma register_frame: "valid s \<Longrightarrow> Register h hdr msg s = (r, s') \<Longrightarrow> rows s' = rows s"
  using authenticate_frame [of s hdr] handshakes
  by (auto simp: Register_def split: sum.splits prod.splits option.splits)

lemma storeSummary_spec:
  assumes "valid st" and "storeSummary h tid service inst deploy (Some m) now cardCap st = (okay, st')"
  shows "valid st' \<and> rows st' = rows st @ (if okay then [summaryRow tid service inst deploy m] else []) \<and>
    (okay \<longrightarrow> inBand now m)"
proof (cases "inBand now m")
  case False
  with assms show ?thesis by (simp add: storeSummary_def inBand_def Let_def)
next
  case True
  define guard where "guard = (case hd_cardinality h of None \<Rightarrow> (True, st)
    | Some f \<Rightarrow> (case f tid (SeriesKey (m_Method m) (m_RouteTemplate m) (statusClassName (m_StatusClass m))) cardCap st of
        ((allowed, _), st') \<Rightarrow> (allowed, st')))"
  obtain allowed st1 where g: "guard = (allowed, st1)" by fastforce
  have fr: "valid st1 \<and> rows st1 = rows st"
  proof (cases "hd_cardinality h")
    case (Some f)
    then show ?thesis
      using g cardinality [OF Some assms(1), of tid
          "SeriesKey (m_Method m) (m_RouteTemplate m) (statusClassName (m_StatusClass m))" cardCap]
      by (auto simp: guard_def split: prod.splits)
  qed (use g assms(1) in \<open>simp add: guard_def\<close>)
  have row: "summaryToRow tid service inst (dp_version deploy) (dp_id deploy) (dp_environment deploy)
      (dp_region deploy) (dp_start deploy) (Some m)
      (td_start (applyTimestampPolicy (m_WindowStartMs m) (m_WindowEndMs m) now))
      (td_end (applyTimestampPolicy (m_WindowStartMs m) (m_WindowEndMs m) now)) =
      Some (summaryRow tid service inst deploy m)"
    using True by (simp add: summaryToRow_def summaryRow_def inBand_def policy_times)
  show ?thesis
    using assms(2) True g row sink [of st1 "summaryRow tid service inst deploy m"] fr
    unfolding storeSummary_def Let_def inBand_def option.case guard_def [symmetric]
    by (auto split: prod.splits if_splits)
qed

lemma storeSummaries_spec:
  "valid st \<Longrightarrow> storeSummaries h tid service inst deploy (map Some ms) now cardCap rejected st = (rejected', st') \<Longrightarrow>
   valid st' \<and> (\<exists>kept. subseq kept ms \<and> list_all (inBand now) kept \<and>
     rows st' = rows st @ map (summaryRow tid service inst deploy) kept \<and>
     rejected' = rejected + of_nat (length ms - length kept))"
proof (induction ms arbitrary: rejected st)
  case (Cons m ms)
  obtain okay st1 where 1: "storeSummary h tid service inst deploy (Some m) now cardCap st = (okay, st1)" by fastforce
  note spec = storeSummary_spec [OF Cons.prems(1) 1]
  let ?rej = "if okay then rejected else rejected + 1"
  have "storeSummaries h tid service inst deploy (map Some ms) now cardCap ?rej st1 = (rejected', st')"
    using Cons.prems(2) 1 by simp
  from Cons.IH [OF _ this] spec obtain kept where kept: "valid st'" "subseq kept ms" "list_all (inBand now) kept"
    "rows st' = rows st1 @ map (summaryRow tid service inst deploy) kept"
    "rejected' = ?rej + of_nat (length ms - length kept)" by blast
  have len: "length kept \<le> length ms" using kept(2) by (rule list_emb_length)
  show ?case
  proof (cases okay)
    case True
    with kept spec have "subseq (m # kept) (m # ms) \<and> list_all (inBand now) (m # kept) \<and>
        rows st' = rows st @ map (summaryRow tid service inst deploy) (m # kept) \<and>
        rejected' = rejected + of_nat (length (m # ms) - length (m # kept))" by simp
    with kept(1) show ?thesis by blast
  next
    case False
    with kept spec len have "subseq kept (m # ms) \<and> list_all (inBand now) kept \<and>
        rows st' = rows st @ map (summaryRow tid service inst deploy) kept \<and>
        rejected' = rejected + of_nat (length (m # ms) - length kept)" by (auto simp: Suc_diff_le)
    with kept(1) show ?thesis by blast
  qed
qed auto

lemma storeWindows_frame:
  assumes w: "hd_iwSink h = Some w"
  shows "valid st \<Longrightarrow> valid (storeWindows w tid service inst iws now st) \<and>
    rows (storeWindows w tid service inst iws now st) = rows st"
proof (induction iws arbitrary: st)
  case (Cons iw iws)
  show ?case
  proof (cases "instanceWindowToRow tid service inst iw now")
    case (Some row)
    obtain e st1 where 1: "w row st = (e, st1)" by fastforce
    with windows [OF w Cons.prems, of row] have "valid st1 \<and> rows st1 = rows st" by simp
    with Cons.IH [of st1] Some 1 show ?thesis by (cases e) auto
  qed (use Cons in auto)
qed simp

lemma storeInstanceWindows_frame:
  "valid st \<Longrightarrow> valid (storeInstanceWindows h tid service inst iws now st) \<and>
   rows (storeInstanceWindows h tid service inst iws now st) = rows st"
  using storeWindows_frame by (simp add: storeInstanceWindows_def split: option.split)

text \<open>A refused call stores nothing.\<close>

lemma upload_refused: "valid s \<Longrightarrow> Upload h hdr req s = (Inl e, s') \<Longrightarrow> rows s' = rows s"
proof -
  assume v: "valid s" and u: "Upload h hdr req s = (Inl e, s')"
  obtain r s1 where a: "authenticate h hdr s = (r, s1)" by fastforce
  have 1: "valid s1 \<and> rows s1 = rows s" using authenticate_frame [OF v a] .
  show ?thesis
  proof (cases r)
    case (Inl e')
    then show ?thesis using u a 1 by (simp add: Upload_def)
  next
    case r: (Inr tid)
    obtain b s2 where l: "hd_limiter h tid s1 = (b, s2)" by fastforce
    then have 2: "valid s2 \<and> rows s2 = rows s" using limiter [of s1 tid] 1 by simp
    obtain p s3 where p: "payloadWithinLimit h tid req s2 = (p, s3)" by fastforce
    then have 3: "rows s3 = rows s" using payload_frame [OF _ p] 2 by simp
    show ?thesis
      using u a r l p 2 3 by (cases b; cases p) (simp_all add: Upload_def Let_def split: prod.splits)
  qed
qed

lemma upload_accepted:
  assumes "valid s" and "Upload h hdr req s = (Inr resp, s')"
  shows "\<exists>tid now kept. fst (authenticate h hdr s) = Inr tid \<and> subseq kept (u_Summaries req) \<and> list_all (inBand now) kept \<and>
    rows s' = rows s @ map (summaryRow tid (e_Service (u_Envelope req)) (e_Instance (u_Envelope req))
                              (envelopeDeploy (u_Envelope req))) kept \<and>
    ur_RejectedSummaries resp = of_nat (length (u_Summaries req) - length kept)"
proof -
  obtain r s1 where a: "authenticate h hdr s = (r, s1)" by fastforce
  then obtain tid where r: "r = Inr tid" using assms(2) by (cases r) (auto simp: Upload_def)
  obtain b s2 where l: "hd_limiter h tid s1 = (b, s2)" by fastforce
  then have b: "b" using assms(2) a r by (cases b) (auto simp: Upload_def)
  obtain p s3 where p: "payloadWithinLimit h tid req s2 = (p, s3)" by fastforce
  then have pb: "p" using assms(2) a r l b by (cases p) (auto simp: Upload_def)
  obtain now s4 where n: "hd_now h s3 = (now, s4)" by fastforce
  obtain cc s5 where c: "(case (hd_cardinality h, hd_cap h) of (Some _, Some f) \<Rightarrow> f tid s4 | _ \<Rightarrow> (0, s4)) = (cc, s5)"
    by fastforce
  let ?env = "u_Envelope req"
  obtain rej s6 where ss: "storeSummaries h tid (e_Service ?env) (e_Instance ?env) (envelopeDeploy ?env)
      (map Some (u_Summaries req)) now cc 0 s5 = (rej, s6)" by fastforce
  have s': "s' = storeInstanceWindows h tid (e_Service ?env) (e_Instance ?env) (map Some (u_InstanceWindows req)) now s6"
    and rej: "ur_RejectedSummaries resp = rej"
    using assms(2) a r l b p pb n c ss by (auto simp: Upload_def Let_def)
  have "valid s1 \<and> rows s1 = rows s" using authenticate_frame [OF assms(1) a] .
  then have "valid s2 \<and> rows s2 = rows s" using limiter [of s1 tid] l by simp
  then have "valid s3 \<and> rows s3 = rows s" using payload_frame [OF _ p] by simp
  then have "valid s4 \<and> rows s4 = rows s" using clock [of s3] n by simp
  then have 5: "valid s5 \<and> rows s5 = rows s"
    using cap [of _ s4 tid] c by (auto split: option.splits)
  obtain kept where "valid s6" "subseq kept (u_Summaries req)" "list_all (inBand now) kept"
    "rows s6 = rows s @ map (summaryRow tid (e_Service ?env) (e_Instance ?env) (envelopeDeploy ?env)) kept"
    "rej = of_nat (length (u_Summaries req) - length kept)"
    using storeSummaries_spec [OF _ ss] 5 by auto
  then show ?thesis using storeInstanceWindows_frame [of s6] rej by (auto simp: s' a r)
qed

end

section \<open>Properties\<close>

text \<open>
  C37. The timestamp policy, exactly: a window is accepted when it ends within ten minutes of the
  server's clock, before or after, and its times are stored as sent. The one exception is a window that
  ends 2^63 nanoseconds (292 years) or more ahead: there the saturated difference is the least int64,
  its negation overflows back to itself, and the window passes the test.
\<close>

theorem timestamp_policy:
  "td_accepted (applyTimestampPolicy startMs endMs now) \<longleftrightarrow>
     \<bar>now - unixMilli endMs\<bar> \<le> 10 * minute \<or> 2 ^ 63 \<le> unixMilli endMs - now"
proof -
  let ?d = "now - unixMilli endMs"
  consider "?d \<le> int64_min" | "int64_min < ?d" "?d < 0" | "0 \<le> ?d" by linarith
  then show ?thesis
  proof cases
    case 1
    then have "time_sub now (unixMilli endMs) = int64_min" by (simp add: time_sub_def int64_max_def int64_min_def)
    then show ?thesis using 1 by (simp add: applyTimestampPolicy_def Let_def skewTolerance_def go_defs neg64_def wrap64_def)
  next
    case 2
    then have "time_sub now (unixMilli endMs) = ?d" by (intro time_sub_exact) (simp_all add: go_defs)
    moreover have "neg64 ?d = - ?d" using 2 by (intro neg64_neg) (simp_all add: int64_max_def)
    ultimately show ?thesis
      using 2 by (auto simp: applyTimestampPolicy_def Let_def skewTolerance_def int64_min_def)
  next
    case 3
    then show ?thesis
      using time_sub_less_iff [of "10 * minute + 1" now "unixMilli endMs"]
        time_sub_ge_iff [of 0 now "unixMilli endMs"]
      by (auto simp: applyTimestampPolicy_def Let_def skewTolerance_def go_defs)
  qed
qed

text \<open>A summary of the year 2400 is stored by a server of the year 2000.\<close>

theorem far_future_accepted:
  "td_accepted (applyTimestampPolicy 0 (13569465600000) (946684800 * second))"
  by (simp add: applyTimestampPolicy_def skewTolerance_def Let_def time_sub_def unixMilli_def neg64_def wrap64_def go_defs)

end
