(* ===== verification/Server_App.thy ===== *)
theory Server_App
  imports Ingest
begin

text \<open>
  The composition of the server, src/server/app/: how \<open>build\<close> and \<open>buildIngestWiring\<close> (app.go) put the
  key resolver, the cached limits, the rate limiter, the cardinality guard, the handshake store and the
  writer behind the ingest handler. How the process starts and stops is in \<open>App_Lifecycle\<close>.

  The state is everything the handler can change: the database, the two caches, the buckets, the
  guard, the writer, and the clock, a sequence of readings with the number already taken.
\<close>

section \<open>The server's state\<close>

record ('c, 'l) server =
  sv_db :: db
  sv_resolver :: resolver
  sv_limits :: limitCache
  sv_buckets :: "(string, 'l) gomap"
  sv_card :: cardinality
  sv_writer :: "'c writer"
  sv_clock :: "nat \<Rightarrow> instant"
  sv_reads :: nat

definition readClock :: "('c, 'l) server \<Rightarrow> instant \<times> ('c, 'l) server" where
  "readClock s = (sv_clock s (sv_reads s), s\<lparr>sv_reads := Suc (sv_reads s)\<rparr>)"

definition devIngestKey :: string where "devIngestKey = ''dev-key''"
definition devTenant :: string where "devTenant = ''dev-tenant''"
definition devOrgName :: string where "devOrgName = ''dev-org''"

section \<open>The wiring with a control plane (buildIngestWiring)\<close>

definition zeroLimits :: Limits where
  "zeroLimits = \<lparr>l_MaxRPS = 0, l_Burst = 0, l_CardinalityCap = 0, l_MaxPayloadBytes = 0, l_RetentionDays = 0\<rparr>"

text \<open>The adapter of the store to a limit provider: a failed query is \<open>ok = false\<close> with zero limits.\<close>

definition limitProvider_Limits :: "string \<Rightarrow> db \<Rightarrow> (Limits \<times> bool) \<times> db" where
  "limitProvider_Limits tenant d =
     (case queryLimits tenant d of (Inl e, d') \<Rightarrow> ((zeroLimits, False), d') | (Inr l, d') \<Rightarrow> ((l, True), d'))"

text \<open>The provider behind the TTL cache: the store is asked on a miss only.\<close>

definition provider_Limits :: "string \<Rightarrow> ('c, 'l) server \<Rightarrow> (Limits \<times> bool) \<times> ('c, 'l) server" where
  "provider_Limits tenant s =
     (let (t1, s) = readClock s in
      case limits_getFresh (sv_limits s) tenant t1 of
        Some entry \<Rightarrow> ((lc_limits entry, lc_ok entry), s)
      | None \<Rightarrow>
          let (base, d) = limitProvider_Limits tenant (sv_db s);
              (t2, s) = readClock (s\<lparr>sv_db := d\<rparr>);
              (t3, s) = readClock s;
              (cache, l, okay) = cached_Limits (sv_limits s) tenant base t1 t2 t3
          in ((l, okay), s\<lparr>sv_limits := cache\<rparr>))"

text \<open>The digest the resolver asks the database for (none on a cache hit or a malformed key), and the answer.\<close>

definition resolverAsk :: "(string \<Rightarrow> string) \<Rightarrow> resolver \<Rightarrow> string \<Rightarrow> instant \<Rightarrow> string option" where
  "resolverAsk sha r key t1 =
     (case Decode key of
        None \<Rightarrow> None
      | Some (_, secret) \<Rightarrow>
          if keys_getFresh (rs_cache r) (hashKey sha secret) t1 = None then Some (hashKey sha secret) else None)"

definition resolverQuery :: "string option \<Rightarrow> db \<Rightarrow> (string \<times> bool) option \<times> db" where
  "resolverQuery ask d =
     (case ask of
        None \<Rightarrow> (None, d)
      | Some digest \<Rightarrow> (case poolLookup digest d of (Inl e, d') \<Rightarrow> (None, d') | (Inr v, d') \<Rightarrow> (Some v, d')))"

definition wired_resolve :: "(string \<Rightarrow> string) \<Rightarrow> string \<Rightarrow> ('c, 'l) server \<Rightarrow> (string \<times> bool) \<times> ('c, 'l) server" where
  "wired_resolve sha key s =
     (let (t1, s) = readClock s;
          (answer, d) = resolverQuery (resolverAsk sha (sv_resolver s) key t1) (sv_db s);
          (t2, s) = readClock (s\<lparr>sv_db := d\<rparr>);
          (t3, s) = readClock s;
          (r, tenant, okay) = Resolve sha (\<lambda>_. answer) (sv_resolver s) key t1 t2 t3
      in ((tenant, okay), s\<lparr>sv_resolver := r\<rparr>))"

definition wired_allow :: "'l ratelib \<Rightarrow> string \<Rightarrow> ('c, 'l) server \<Rightarrow> bool \<times> ('c, 'l) server" where
  "wired_allow lib tenant s =
     (let ((l, okay), s) = provider_Limits tenant s;
          (now, s) = readClock s;
          (buckets, allowed) = rate_Allow lib (sv_buckets s) tenant (if okay then Some l else None) now
      in (allowed, s\<lparr>sv_buckets := buckets\<rparr>))"

definition wired_card :: "string \<Rightarrow> string \<Rightarrow> int \<Rightarrow> ('c, 'l) server \<Rightarrow> (bool \<times> bool) \<times> ('c, 'l) server" where
  "wired_card tenant key capacity s =
     (let (now, s) = readClock s;
          (c, allowed, frozen) = card_Allow (sv_card s) tenant key capacity now
      in ((allowed, frozen), s\<lparr>sv_card := c\<rparr>))"

definition wired_cap :: "string \<Rightarrow> ('c, 'l) server \<Rightarrow> int \<times> ('c, 'l) server" where
  "wired_cap tenant s = (let ((l, _), s) = provider_Limits tenant s in (l_CardinalityCap l, s))"

definition wired_payload :: "string \<Rightarrow> ('c, 'l) server \<Rightarrow> int \<times> ('c, 'l) server" where
  "wired_payload tenant s = (let ((l, _), s) = provider_Limits tenant s in (l_MaxPayloadBytes l, s))"

definition wired_handshake :: "string \<Rightarrow> string \<Rightarrow> string \<Rightarrow> string \<Rightarrow> ('c, 'l) server \<Rightarrow> bool \<times> ('c, 'l) server" where
  "wired_handshake tenant service inst sdk s =
     (let (now, s) = readClock s;
          (r, d) = recordHandshake tenant service inst sdk now (sv_db s)
      in (case r of Inr _ \<Rightarrow> True | Inl _ \<Rightarrow> False, s\<lparr>sv_db := d\<rparr>))"

definition writer_sink :: "'c driver \<Rightarrow> Row \<Rightarrow> ('c, 'l) server \<Rightarrow> writerError option \<times> ('c, 'l) server" where
  "writer_sink drv row s = (let (e, w) = Enqueue drv row (sv_writer s) in (e, s\<lparr>sv_writer := w\<rparr>))"

definition writer_iwSink :: "'c driver \<Rightarrow> InstanceWindowRow \<Rightarrow> ('c, 'l) server \<Rightarrow> writerError option \<times> ('c, 'l) server" where
  "writer_iwSink drv iw s = (let (e, w) = EnqueueInstanceWindow drv iw (sv_writer s) in (e, s\<lparr>sv_writer := w\<rparr>))"

definition default_allow :: "'l ratelib \<Rightarrow> real \<Rightarrow> int \<Rightarrow> string \<Rightarrow> ('c, 'l) server \<Rightarrow> bool \<times> ('c, 'l) server" where
  "default_allow lib rps burst tenant s =
     (let (now, s) = readClock s;
          (buckets, allowed) = tenantLimiter_allow lib rps burst (sv_buckets s) tenant now
      in (allowed, s\<lparr>sv_buckets := buckets\<rparr>))"

definition buildIngestWiring ::
  "(string \<Rightarrow> string) \<Rightarrow> 'l ratelib \<Rightarrow> bool \<Rightarrow>
   (string \<Rightarrow> ('c, 'l) server \<Rightarrow> (string \<times> bool) \<times> ('c, 'l) server) \<times>
   ((('c, 'l) server Handler \<Rightarrow> ('c, 'l) server Handler) list)" where
  "buildIngestWiring sha lib postgres =
     (if \<not> postgres
      then (\<lambda>key s. (static_Resolve sha (NewStaticKeyResolver sha [(devIngestKey, devTenant)]) key, s), [])
      else (wired_resolve sha,
            [WithLimiter (Some (wired_allow lib)), WithCardinality (Some wired_card) (Some wired_cap),
             WithPayloadLimit (Some wired_payload), WithHandshakeRecorder (Some wired_handshake)]))"

definition ingestHandler ::
  "(string \<Rightarrow> string) \<Rightarrow> 'l ratelib \<Rightarrow> 'c driver \<Rightarrow> (UploadRequest \<Rightarrow> int) \<Rightarrow> bool \<Rightarrow> ('c, 'l) server Handler" where
  "ingestHandler sha lib drv size' postgres =
     (let (resolver, opts) = buildIngestWiring sha lib postgres
      in NewHandler resolver (writer_sink drv) (default_allow lib) readClock size'
           (opts @ [WithInstanceWindowSink (Some (writer_iwSink drv))]))"

section \<open>The handler's contract holds for the wiring\<close>

lemma handler_fields [simp]:
  "hd_sink (ingestHandler sha lib drv size' pg) = writer_sink drv"
  "hd_now (ingestHandler sha lib drv size' pg) = readClock"
  "hd_size (ingestHandler sha lib drv size' pg) = size'"
  "hd_iwSink (ingestHandler sha lib drv size' pg) = Some (writer_iwSink drv)"
  "hd_resolver (ingestHandler sha lib drv size' True) = wired_resolve sha"
  "hd_limiter (ingestHandler sha lib drv size' True) = wired_allow lib"
  "hd_cardinality (ingestHandler sha lib drv size' True) = Some wired_card"
  "hd_cap (ingestHandler sha lib drv size' True) = Some wired_cap"
  "hd_payloadLimit (ingestHandler sha lib drv size' True) = Some wired_payload"
  "hd_handshakes (ingestHandler sha lib drv size' True) = Some wired_handshake"
  "hd_resolver (ingestHandler sha lib drv size' False) =
     (\<lambda>key s. (static_Resolve sha (NewStaticKeyResolver sha [(devIngestKey, devTenant)]) key, s))"
  "hd_limiter (ingestHandler sha lib drv size' False) = default_allow lib defaultTenantRPS defaultTenantBurst"
  "hd_cardinality (ingestHandler sha lib drv size' False) = None"
  "hd_cap (ingestHandler sha lib drv size' False) = None"
  "hd_payloadLimit (ingestHandler sha lib drv size' False) = None"
  "hd_handshakes (ingestHandler sha lib drv size' False) = None"
  by (cases pg; simp add: ingestHandler_def buildIngestWiring_def NewHandler_def WithLimiter_def WithCardinality_def
        WithPayloadLimit_def WithHandshakeRecorder_def WithInstanceWindowSink_def)+

lemma writer_readClock [simp]: "sv_writer (snd (readClock s)) = sv_writer s"
  by (simp add: readClock_def)

lemma writer_provider [simp]: "sv_writer (snd (provider_Limits tenant s)) = sv_writer s"
  by (simp add: provider_Limits_def readClock_def Let_def split: option.splits prod.splits)

lemma writer_resolve [simp]: "sv_writer (snd (wired_resolve sha key s)) = sv_writer s"
  by (simp add: wired_resolve_def readClock_def Let_def split: prod.splits)

lemma writer_guards [simp]:
  "sv_writer (snd (wired_allow lib tenant s)) = sv_writer s"
  "sv_writer (snd (default_allow lib rps burst tenant s)) = sv_writer s"
  "sv_writer (snd (wired_card tenant key c s)) = sv_writer s"
  "sv_writer (snd (wired_cap tenant s)) = sv_writer s"
  "sv_writer (snd (wired_payload tenant s)) = sv_writer s"
  "sv_writer (snd (wired_handshake tenant service inst sdk s)) = sv_writer s"
  by (simp_all add: wired_allow_def default_allow_def wired_card_def wired_cap_def wired_payload_def
      wired_handshake_def readClock_def Let_def split_def)

lemma iw_keeps_rows:
  assumes "writer_ok w"
  shows "st_acked (wr_rows (snd (EnqueueInstanceWindow drv iw w))) = st_acked (wr_rows w)"
  by (simp add: EnqueueInstanceWindow_def makeRoomIw_def Let_def split: option.split)

interpretation app: ingest_service "ingestHandler sha lib drv size' pg"
  "\<lambda>s. st_acked (wr_rows (sv_writer s))" "\<lambda>s. writer_ok (sv_writer s)" for sha lib drv size' pg
proof (unfold_locales, goal_cases)
  case (1 s r)
  then show ?case using rowq.keeps [of "sv_writer s" drv r] rowq.enqueue_acked [of "sv_writer s" drv r]
    by (simp add: writer_sink_def Let_def split_def)
next
  case (9 w s i)
  then show ?case using iwq.keeps [of "sv_writer s" drv i] iw_keeps_rows [of "sv_writer s" drv i]
    by (auto simp: writer_iwSink_def Let_def split_def)
qed (cases pg; auto)+

section \<open>Authorisation\<close>

text \<open>Every positive answer in the resolver's cache names a live key of that tenant.\<close>

definition live_key :: "tables \<Rightarrow> string \<Rightarrow> string \<Rightarrow> bool" where
  "live_key t digest tenant \<longleftrightarrow>
     (\<exists>k \<in> set (tb_keys t). ik_hash k = digest \<and> ik_revoked k = None \<and> ik_org k = tenant)"

definition cache_matches :: "tables \<Rightarrow> keyCache \<Rightarrow> bool" where
  "cache_matches t cache \<longleftrightarrow> gomap_ok cache \<and>
     (\<forall>digest e. map_of cache digest = Some e \<longrightarrow> ce_ok e \<longrightarrow> live_key t digest (ce_tenant e))"

lemma poolLookup_live: "poolLookup digest d = (Inr (tenant, True), d') \<Longrightarrow> live_key (db_tables d) digest tenant"
  by (auto simp: poolLookup_def exec_def select_def live_key_def find_Some_iff split: option.splits sum.splits nat.splits
      dberr.splits prod.splits dest!: nth_mem)

lemma poolLookup_tables: "db_tables (snd (poolLookup digest d)) = db_tables d"
  by (simp add: poolLookup_def exec_def select_def split: option.splits sum.splits nat.splits dberr.splits prod.splits)

lemma cache_matches_store:
  assumes "cache_matches t cache" and "ce_ok e \<Longrightarrow> live_key t digest (ce_tenant e)"
  shows "cache_matches t (keys_store cache digest e now)"
proof -
  have ok: "gomap_ok (keys_store cache digest e now)"
    using assms(1) by (auto simp: cache_matches_def intro: keys.put_ok)
  have "map_of (keys_store cache digest e now) k = Some e' \<Longrightarrow> ce_ok e' \<Longrightarrow> live_key t k (ce_tenant e')" for k e'
    using assms keys.put_same [of cache digest e now] keys.put_other [of cache k digest e now e']
    by (cases "k = digest") (auto simp: cache_matches_def)
  with ok show ?thesis by (auto simp: cache_matches_def)
qed

lemma Resolve_live:
  assumes "cache_matches t (rs_cache r)" and "Resolve sha (\<lambda>_. answer) r key t1 t2 t3 = (r', tenant, okay)"
    and "\<And>origin secret x. Decode key = Some (origin, secret) \<Longrightarrow>
      keys_getFresh (rs_cache r) (sha secret) t1 = None \<Longrightarrow> answer = Some (x, True) \<Longrightarrow> live_key t (sha secret) x"
  shows "cache_matches t (rs_cache r') \<and>
    (okay \<longrightarrow> (\<exists>origin secret. Decode key = Some (origin, secret) \<and> live_key t (sha secret) tenant))"
proof (cases "Decode key")
  case None
  then show ?thesis using assms(1,2) by (simp add: Resolve_def)
next
  case (Some p)
  obtain origin secret where p: "p = (origin, secret)" by (cases p)
  show ?thesis
  proof (cases "keys_getFresh (rs_cache r) (sha secret) t1")
    case None
    show ?thesis
    proof (cases answer)
      case None': None
      then show ?thesis using assms(1,2) Some p None by (auto simp: Resolve_def hashKey_def logDBError_def)
    next
      case (Some v)
      obtain x b where v: "v = (x, b)" by (cases v)
      have live: "b \<Longrightarrow> live_key t (sha secret) x"
        using assms(3) [of origin secret x] None Some v p \<open>Decode key = Some p\<close> by simp
      have "r' = r\<lparr>rs_cache := keys_store (rs_cache r) (sha secret)
          \<lparr>ce_tenant = x, ce_ok = b, ce_expiry = t2 + (if \<not> b then negativeTTL else positiveTTL)\<rparr> t3\<rparr>"
        "tenant = x" "okay = b"
        using assms(2) None Some v p \<open>Decode key = Some p\<close> by (auto simp: Resolve_def hashKey_def Let_def)
      moreover have "cache_matches t (keys_store (rs_cache r) (sha secret) \<lparr>ce_tenant = x, ce_ok = b, ce_expiry = z\<rparr> t3)" for z
        using live by (intro cache_matches_store [OF assms(1)]) simp
      ultimately show ?thesis using live p \<open>Decode key = Some p\<close> by simp
    qed
  next
    case (Some e)
    then have "map_of (rs_cache r) (sha secret) = Some e"
      by (auto simp: keys_getFresh_def split: option.splits if_splits)
    then show ?thesis
      using assms(1,2) Some p \<open>Decode key = Some p\<close> by (auto simp: Resolve_def hashKey_def cache_matches_def)
  qed
qed

lemma wired_resolve_live:
  assumes "cache_matches (db_tables (sv_db s)) (rs_cache (sv_resolver s))"
    and "wired_resolve sha key s = ((tenant, okay), s')"
  shows "db_tables (sv_db s') = db_tables (sv_db s) \<and>
    cache_matches (db_tables (sv_db s)) (rs_cache (sv_resolver s')) \<and>
    (okay \<longrightarrow> (\<exists>origin secret. Decode key = Some (origin, secret) \<and> live_key (db_tables (sv_db s)) (sha secret) tenant))"
proof -
  define t1 where "t1 = sv_clock s (sv_reads s)"
  define res where "res = resolverQuery (resolverAsk sha (sv_resolver s) key t1) (sv_db s)"
  obtain r' where run: "Resolve sha (\<lambda>_. fst res) (sv_resolver s) key t1 (sv_clock s (Suc (sv_reads s)))
      (sv_clock s (Suc (Suc (sv_reads s)))) = (r', tenant, okay)" and s': "sv_resolver s' = r'" "sv_db s' = snd res"
    using assms(2)
    by (auto simp: wired_resolve_def readClock_def Let_def res_def t1_def split: prod.splits)
  have "db_tables (snd res) = db_tables (sv_db s)"
    using poolLookup_tables [of _ "sv_db s"]
    by (auto simp: res_def resolverQuery_def split: option.splits sum.splits prod.splits) (metis snd_conv)+
  moreover have "live_key (db_tables (sv_db s)) (sha secret) x"
    if "Decode key = Some (origin, secret)" "keys_getFresh (rs_cache (sv_resolver s)) (sha secret) t1 = None"
      "fst res = Some (x, True)" for origin secret x
    using that
    by (auto simp: res_def resolverAsk_def resolverQuery_def hashKey_def split: sum.splits prod.splits dest: poolLookup_live)
  ultimately show ?thesis using Resolve_live [OF assms(1) run] s' by auto
qed

lemma authenticate_live:
  assumes "cache_matches (db_tables (sv_db s)) (rs_cache (sv_resolver s))"
    and "fst (authenticate (ingestHandler sha lib drv size' True) hdr s) = Inr tid"
  shows "\<exists>origin secret. Decode (extractKey hdr) = Some (origin, secret) \<and>
    live_key (db_tables (sv_db s)) (sha secret) tid"
proof -
  obtain tenant okay s' where r: "wired_resolve sha (extractKey hdr) s = ((tenant, okay), s')"
    by (metis prod.collapse)
  then have "okay" "tenant = tid"
    using assms(2) by (auto simp: authenticate_def Let_def tenant_Parse_def split: if_splits)
  then show ?thesis using wired_resolve_live [OF assms(1) r] by simp
qed

section \<open>Properties\<close>


text \<open>A server with one organisation, one key and an empty writer; the clock stands still.\<close>

definition demoKeyTables :: tables where
  "demoKeyTables = demoTables\<lparr>tb_keys := [\<lparr>ik_id = ''key-1'', ik_org = ''org-1'', ik_label = ''ci'',
     ik_hash = ''secret'', ik_last4 = ''cret'', ik_created = 0, ik_revoked = None\<rparr>]\<rparr>"

definition demoServer :: "nat option \<Rightarrow> (memConn, real \<times> instant \<times> real \<times> int) server" where
  "demoServer fault = \<lparr>sv_db = \<lparr>db_tables = demoKeyTables, db_fault = fault\<rparr>, sv_resolver = newResolver, sv_limits = [],
     sv_buckets = [], sv_card = NewCardinality, sv_writer = demoWriter 0, sv_clock = (\<lambda>_. 0), sv_reads = 0\<rparr>"

definition demoSummary :: Summary where
  "demoSummary = nilSummary\<lparr>m_Method := ''GET'', m_RouteTemplate := ''/users'', m_StatusClass := SC_2XX, m_Count := 1\<rparr>"

definition demoUpload :: UploadRequest where
  "demoUpload = \<lparr>u_Envelope = \<lparr>e_Service = ''svc'', e_Instance = ''i1'', e_SdkVersion = '''', e_SketchFormatVersion = 1,
       e_DroppedSummaries = 0, e_DeployVersion = '''', e_DeployId = '''', e_Environment = '''', e_Region = '''',
       e_InstanceStartTimeMs = 0\<rparr>,
     u_Summaries = [demoSummary, demoSummary\<lparr>m_WindowEndMs := 3600000\<rparr>], u_InstanceWindows = []\<rparr>"

definition demoHeader :: header where
  "demoHeader name = (if name = ''X-Maping-Key'' then ''secret'' else '''')"

lemma demoServer_ok:
  "writer_ok (sv_writer (demoServer f)) \<and>
   cache_matches (db_tables (sv_db (demoServer f))) (rs_cache (sv_resolver (demoServer f)))"
  using writer_ok_new by (auto simp: demoServer_def demoWriter_def cache_matches_def newResolver_def)

lemma demo_upload_eval:
  "case Upload (ingestHandler id bucket_lib memDriver (\<lambda>_. 100) True) demoHeader demoUpload (demoServer None) of
     (r, s') \<Rightarrow> r = Inr \<lparr>ur_Accepted = True, ur_RejectedSummaries = 1\<rparr> \<and>
       map row_Tenant (st_acked (wr_rows (sv_writer s'))) = [''org-1'']"
  by code_simp


text \<open>
  While the limits of a tenant cannot be read (the query fails and no cached answer is fresh), the
  rate limiter falls back to the default budget, but the cardinality cap and the payload limit read the
  zero budget, which disables both checks: any payload passes and any number of new series is admitted.
\<close>

theorem limits_outage_disables_caps:
  assumes "db_fault (sv_db s) = Some 0" and "limits_getFresh (sv_limits s) tid (sv_clock s (sv_reads s)) = None"
    and "hd_payloadLimit h = Some wired_payload"
  shows "fst (payloadWithinLimit h tid req s) \<and> fst (wired_cap tid s) = 0 \<and>
    fst (snd (card_Allow c tid key (fst (wired_cap tid s)) now)) \<and> snd (fst (provider_Limits tid s)) = False"
proof -
  have q: "limitProvider_Limits tid (sv_db s) = ((zeroLimits, False), sv_db s)"
    using assms(1) by (simp add: limitProvider_Limits_def queryLimits_def exec_def)
  have p: "fst (provider_Limits tid s) = (zeroLimits, False)"
    using assms(2) q by (simp add: provider_Limits_def readClock_def cached_Limits_def Let_def)
  then have z: "fst (wired_cap tid s) = 0" "fst (wired_payload tid s) = 0"
    by (simp_all add: wired_cap_def wired_payload_def zeroLimits_def split_def)
  have "fst (payloadWithinLimit h tid req s)"
    using assms(3) z(2) by (cases "wired_payload tid s") (simp add: payloadWithinLimit_def)
  moreover have "fst (snd (card_Allow c tid key 0 now))" by (simp add: card_Allow_def Let_def)
  ultimately show ?thesis using z p by simp
qed

theorem limits_outage_disables_caps_witness:
  "fst (payloadWithinLimit (ingestHandler id bucket_lib memDriver (\<lambda>_. 2 ^ 40) True) ''org-1'' demoUpload (demoServer (Some 0)))"
  using limits_outage_disables_caps [where s = "demoServer (Some 0)" and tid = "''org-1''" and
      h = "ingestHandler id bucket_lib memDriver (\<lambda>_. 2 ^ 40) True" and req = demoUpload]
  by (simp add: demoServer_def limits_getFresh_def)

end
