(* ===== verification/End_To_End.thy ===== *)
theory End_To_End
  imports Uploader Server_App
begin

text \<open>
  From a request served by an instrumented process to a percentile on the dashboard: the recorder
  aggregates (src/client/maping.go, series.go), the uploader builds and stamps the request
  (src/client/uploader.go), the ingest handler stores the rows (src/server/internal/ingest/), and the
  storage layer reads the quantile of a row's bucket map (src/server/internal/storage/sketch.go).
\<close>

lemma series_sketch_wf: "sk_wf (se_sk (series_observeAll newSeries obs))"
  using series_ok_observeAll [OF series_ok_new, of obs] by (simp add: series_ok_def)

text \<open>The bucket map a row is read with gives back the client's quantile.\<close>

lemma row_quantile:
  assumes "sk_wf (se_sk ser)" and "0 \<le> q" and "q \<le> 1"
  shows "storageQuantile (sketchMap (summaryRow tid svc inst deploy (summaryOf a b (k, ser)))) q = sk_quantile (se_sk ser) q"
proof -
  let ?m = "sketchMap (summaryRow tid svc inst deploy (summaryOf a b (k, ser)))"
  have "?m = mapOfPairs (sortedByKey (sk_Buckets (se_sk ser)))"
    by (simp add: sketchMap_def summaryRow_def NewRow_def summaryOf_def sortedSketch_def)
  then have m: "map_of ?m = map_of (sk_Buckets (se_sk ser))" "gomap_ok ?m"
    using map_of_mapOfPairs_sorted [OF gomap_ok_Buckets mset_sortedByKey, of "se_sk ser"] by simp_all
  then have "inDomain ?m" using inDomain_Buckets [OF assms(1)] by (simp add: inDomain_map_of)
  then show ?thesis
    using storageQuantile_eq [OF m(2) _ assms(2,3)] QuantileFromBuckets_eq [OF m(2)]
      FromBuckets_Buckets [OF assms(1) m(2,1)] by simp
qed

lemma subseq_full: "subseq xs ys \<Longrightarrow> length ys \<le> length xs \<Longrightarrow> xs = ys"
  by (metis le_antisym list_emb_length subseq_same_length)

lemma flushed_summary:
  assumes "rec_ok r" and "rc_active r" and "\<not> rc_closed r" and "rc_shards r = replicate numShards []"
    and "requestsOf k obs \<noteq> []"
  shows "\<exists>a b. summaryOf a b (k, series_observeAll newSeries (requestsOf k obs))
    \<in> set (u_Summaries (flushedRequest (observeWindow r obs) windowEnd rd))"
proof -
  have ok: "shards_ok (rc_shards (observeWindow r obs))" using assms(1) by (simp add: rec_ok_def shards_ok_observeWindow)
  have "map_of (concat (rc_shards (observeWindow r obs))) k = Some (series_observeAll newSeries (requestsOf k obs))"
    using window_observeWindow [OF assms(2-4), of obs k] assms(5) by (simp add: map_of_shards [OF ok] window_def)
  then have "(k, series_observeAll newSeries (requestsOf k obs)) \<in> set (concat (rc_shards (observeWindow r obs)))"
    by (rule map_of_SomeD)
  then have "summaryOf a b (k, series_observeAll newSeries (requestsOf k obs)) \<in>
      set (map (summaryOf a b) (concat (rc_shards (observeWindow r obs))))" for a b
    unfolding set_map by (rule imageI)
  then show ?thesis unfolding flushedRequest_def buildRequest_summaries by blast
qed

text \<open>
  C1. End to end: an application observes any requests in a window, the window is flushed and uploaded,
  and the server answers that no summary was rejected. Then for every series (method, route, status
  class) with requests in the window, a row of the owner of the presented key is stored with the number
  of those requests, and the quantile the server computes from that row is within the relative error
  (Gamma - 1) / (Gamma + 1) of the exact order statistic of the (clamped) latencies of exactly those
  requests.
\<close>

theorem dashboard_quantile_end_to_end:
  fixes r :: recorder and s :: "('c, 'l) server" and k :: seriesKey
  assumes rec: "rec_ok r" "rc_active r" "\<not> rc_closed r" "rc_shards r = replicate numShards []"
    and srv: "writer_ok (sv_writer s)" "cache_matches (db_tables (sv_db s)) (rs_cache (sv_resolver s))"
    and req: "req = stamp dropped (flushedRequest (observeWindow r obs) windowEnd rd)" "length (u_Summaries req) < 2 ^ 64"
    and up: "Upload (ingestHandler sha lib drv size' True) hdr req s = (Inr \<lparr>ur_Accepted = True, ur_RejectedSummaries = 0\<rparr>, s')"
    and k: "requestsOf k obs \<noteq> []" "length (requestsOf k obs) < 2 ^ 64" and q: "0 \<le> q" "q \<le> 1"
  shows "\<exists>row origin secret. row \<in> set (st_acked (wr_rows (sv_writer s'))) \<and>
    Decode (extractKey hdr) = Some (origin, secret) \<and> live_key (db_tables (sv_db s)) (sha secret) (row_Tenant row) \<and>
    row_Method row = k_method k \<and> row_RouteTemplate row = k_route k \<and> row_StatusClass row = statusClassName (k_class k) \<and>
    row_Count row = of_nat (length (requestsOf k obs)) \<and>
    (let latencies = map (clamp \<circ> seconds \<circ> rec_Duration \<circ> fst) (requestsOf k obs);
         v = sort latencies ! (max 1 (nat \<lceil>q * real (length latencies)\<rceil>) - 1)
     in \<bar>storageQuantile (sketchMap row) q - v\<bar> \<le> (Gamma - 1) / (Gamma + 1) * v)"
proof -
  let ?ser = "series_observeAll newSeries (requestsOf k obs)"
  let ?xs = "map (seconds \<circ> rec_Duration \<circ> fst) (requestsOf k obs)"
  let ?env = "u_Envelope req"
  obtain a b where m: "summaryOf a b (k, ?ser) \<in> set (u_Summaries req)"
    using flushed_summary [OF rec k(1), of windowEnd rd] req(1) by (auto simp: stamp_def)
  obtain tid kept where tid: "fst (authenticate (ingestHandler sha lib drv size' True) hdr s) = Inr tid"
    and kept: "subseq kept (u_Summaries req)" "of_nat (length (u_Summaries req) - length kept) = (0 :: u64)"
    and stored: "st_acked (wr_rows (sv_writer s')) = st_acked (wr_rows (sv_writer s)) @
      map (summaryRow tid (e_Service ?env) (e_Instance ?env) (envelopeDeploy ?env)) kept"
    using app.upload_accepted [OF srv(1) up] by auto
  obtain origin secret where key: "Decode (extractKey hdr) = Some (origin, secret)"
    "live_key (db_tables (sv_db s)) (sha secret) tid" using authenticate_live [OF srv(2) tid] by blast
  have "length (u_Summaries req) - length kept = unat (of_nat (length (u_Summaries req) - length kept) :: u64)"
    using req(2) by (subst unat_of_nat_less) simp_all
  then have "length (u_Summaries req) - length kept = 0" using kept(2) by simp
  then have all: "kept = u_Summaries req" using subseq_full [OF kept(1)] by simp
  define row where "row = summaryRow tid (e_Service ?env) (e_Instance ?env) (envelopeDeploy ?env) (summaryOf a b (k, ?ser))"
  have "row \<in> set (st_acked (wr_rows (sv_writer s')))" using stored all m by (auto simp: row_def)
  moreover have "row_Tenant row = tid" "row_Method row = k_method k" "row_RouteTemplate row = k_route k"
    "row_StatusClass row = statusClassName (k_class k)" "row_Count row = of_nat (length (requestsOf k obs))"
    using observeAll_sums [of "requestsOf k obs"] by (simp_all add: row_def summaryRow_def NewRow_def summaryOf_def)
  moreover have "storageQuantile (sketchMap row) q = sk_quantile (se_sk ?ser) q"
    unfolding row_def by (rule row_quantile [OF series_sketch_wf q])
  moreover have "\<bar>sk_quantile (se_sk ?ser) q - sort (map clamp ?xs) ! (max 1 (nat \<lceil>q * real (length ?xs)\<rceil>) - 1)\<bar>
      \<le> (Gamma - 1) / (Gamma + 1) * sort (map clamp ?xs) ! (max 1 (nat \<lceil>q * real (length ?xs)\<rceil>) - 1)"
    using feed_quantile_error [of ?xs q] k q observeAll_sketch [of "requestsOf k obs"] by (auto simp: Let_def)
  ultimately show ?thesis
    using key by (intro exI [of _ row] exI [of _ origin] exI [of _ secret]) (simp add: Let_def comp_assoc)
qed

text \<open>A summary with any counts, in the band of a clock that reads zero, is stored by the demonstration server.\<close>

lemma demo_upload_any:
  "case Upload (ingestHandler id bucket_lib memDriver (\<lambda>_. 100) True) demoHeader
      \<lparr>u_Envelope = env,
       u_Summaries = [\<lparr>m_WindowStartMs = a, m_WindowEndMs = 0, m_Method = ''GET'', m_RouteTemplate = ''/users/:id'',
         m_StatusClass = SC_2XX, m_Count = n, m_SumDurationNs = d, m_ReqBytes = rq, m_RespBytes = rs,
         m_LatencySketch = sk, m_StatusCodeBreakdown = sc, m_MaxDurationNs = mx, m_Exemplars = exs,
         m_ErrorClassBreakdown = ec, m_NoStatusReasons = ns, m_SumDownstreamDurationNs = dn\<rparr>],
       u_InstanceWindows = []\<rparr> (demoServer None) of
     (r, s') \<Rightarrow> r = Inr \<lparr>ur_Accepted = True, ur_RejectedSummaries = 0\<rparr>"
  by code_simp

lemma upload_result_windows:
  assumes "hd_size h = (\<lambda>_. n)"
  shows "fst (Upload h hdr (req\<lparr>u_InstanceWindows := ws\<rparr>) s) = fst (Upload h hdr req s)"
proof -
  have "payloadWithinLimit h tid (req\<lparr>u_InstanceWindows := ws\<rparr>) s = payloadWithinLimit h tid req s" for tid s
    using assms by (simp add: payloadWithinLimit_def split_def split: option.split)
  then show ?thesis by (simp add: Upload_def Let_def split_def split: sum.split bool.split)
qed

lemma single_map:
  assumes "gomap_ok w" and "\<And>k'. map_of w k' = (if k' = k then Some v else None)"
  shows "w = [(k, v)]"
proof -
  have "(x, y) \<in> set w \<longleftrightarrow> (x, y) = (k, v)" for x y
    using map_of_eq_Some_iff [OF assms(1), of x y] assms(2) [of x] by (auto split: if_splits)
  then have "set w = {(k, v)}" by auto
  moreover have "distinct w" using assms(1) by (simp add: distinct_map)
  ultimately have "length w = 1" using distinct_card by fastforce
  with \<open>set w = {(k, v)}\<close> show ?thesis by (cases w) auto
qed

theorem dashboard_quantile_end_to_end_witness:
  "\<exists>s' row. snd (Upload (ingestHandler id bucket_lib memDriver (\<lambda>_. 100) True) demoHeader
       (stamp 0 (flushedRequest (observeWindow (newRecorderWithTransport demoConfig 0) [(demoRecord 200 (3 * second), 1)]) 0 demoReading))
       (demoServer None)) = s' \<and>
     row \<in> set (st_acked (wr_rows (sv_writer s'))) \<and> row_Count row = 1 \<and>
     \<bar>storageQuantile (sketchMap row) (1 / 2) - 3\<bar> \<le> (Gamma - 1) / (Gamma + 1) * 3"
proof -
  let ?r = "newRecorderWithTransport demoConfig 0" and ?obs = "[(demoRecord 200 (3 * second), 1)]"
  let ?k = "keyOf (demoRecord 200 (3 * second))"
  let ?req = "stamp 0 (flushedRequest (observeWindow ?r ?obs) 0 demoReading)"
  let ?h = "ingestHandler id bucket_lib memDriver (\<lambda>_. 100) True"
  have new: "rec_ok ?r" "rc_active ?r" "\<not> rc_closed ?r" "rc_shards ?r = replicate numShards []"
    using rec_ok_new [of demoConfig 0] by (simp_all add: newRecorderWithTransport_def)
  have ok: "shards_ok (rc_shards (observeWindow ?r ?obs))" using new(1) by (simp add: rec_ok_def shards_ok_observeWindow)
  let ?ser = "series_observeAll newSeries ?obs"
  have "concat (rc_shards (observeWindow ?r ?obs)) = [(?k, ?ser)]"
    using window_observeWindow [OF new(2-4), of ?obs]
    by (intro single_map gomap_ok_shards [OF ok]) (simp add: map_of_shards [OF ok] window_def)
  then obtain a where sums: "u_Summaries ?req = [summaryOf a 0 (?k, ?ser)]"
    by (simp add: stamp_def flushedRequest_def buildRequest_summaries to_unix_milli_def)
  have key: "?k = \<lparr>k_method = ''GET'', k_route = ''/users/:id'', k_class = SC_2XX\<rparr>"
    by (simp add: keyOf_def demoRecord_def classify_def)
  let ?bare = "\<lparr>u_Envelope = u_Envelope ?req, u_Summaries = u_Summaries ?req, u_InstanceWindows = []\<rparr>"
  have "fst (Upload ?h demoHeader ?bare (demoServer None)) = Inr \<lparr>ur_Accepted = True, ur_RejectedSummaries = 0\<rparr>"
    using demo_upload_any unfolding sums by (simp add: summaryOf_def key split_def)
  moreover have "fst (Upload ?h demoHeader (?bare\<lparr>u_InstanceWindows := u_InstanceWindows ?req\<rparr>) (demoServer None)) =
      fst (Upload ?h demoHeader ?bare (demoServer None))"
    by (rule upload_result_windows) (rule handler_fields(3))
  moreover have "?bare\<lparr>u_InstanceWindows := u_InstanceWindows ?req\<rparr> = ?req" by simp
  ultimately have "fst (Upload ?h demoHeader ?req (demoServer None)) = Inr \<lparr>ur_Accepted = True, ur_RejectedSummaries = 0\<rparr>"
    by metis
  then have up: "Upload ?h demoHeader ?req (demoServer None) =
      (Inr \<lparr>ur_Accepted = True, ur_RejectedSummaries = 0\<rparr>, snd (Upload ?h demoHeader ?req (demoServer None)))"
    by (metis prod.collapse)
  have len: "length (u_Summaries ?req) < 2 ^ 64" unfolding sums by simp
  have reqs: "requestsOf ?k ?obs = ?obs" by simp
  have lat: "map (clamp \<circ> seconds \<circ> rec_Duration \<circ> fst) ?obs = [3]"
    by (simp add: seconds_def demoRecord_def MinValue_def MaxValue_def second_def)
  show ?thesis
    using dashboard_quantile_end_to_end [where r = ?r and s = "demoServer None" and req = ?req and k = ?k and q = "1 / 2" and
        obs = ?obs, OF new conjunct1 [OF demoServer_ok] conjunct2 [OF demoServer_ok] refl len up, unfolded reqs lat]
    by (auto simp: Let_def)
qed

end
