(* ===== verification/Go_Url.thy ===== *)
theory Go_Url
  imports Go_Strings
begin

text \<open>
  \<open>net/url\<close> as the repository uses it: control characters and escapes, and \<open>url.Parse\<close> of an absolute
  URL to its scheme and host. A bracketed IP literal is parsed by a function argument \<open>ipHost\<close>, since no
  code of the repository depends on how: it gives the host, or \<open>None\<close> for a malformed literal.
\<close>

section \<open>Control characters and escapes\<close>

definition isCTL :: "char \<Rightarrow> bool" where
  "isCTL c \<longleftrightarrow> (let n = of_char c :: nat in n < 32 \<or> n = 127)"

definition isHex :: "char \<Rightarrow> bool" where
  "isHex c \<longleftrightarrow> c \<in> set ''0123456789abcdefABCDEF''"

fun badEscape :: "string \<Rightarrow> bool" where
  "badEscape [] = False"
| "badEscape (c # s) =
     (if c = CHR ''%'' then \<not> (2 \<le> length s \<and> isHex (s ! 0) \<and> isHex (s ! 1)) \<or> badEscape (drop 2 s)
      else badEscape s)"

section \<open>Absolute URLs\<close>

definition isLetter :: "char \<Rightarrow> bool" where
  "isLetter c \<longleftrightarrow> (let n = of_char c :: nat in 65 \<le> n \<and> n \<le> 90 \<or> 97 \<le> n \<and> n \<le> 122)"

definition isDigitChar :: "char \<Rightarrow> bool" where
  "isDigitChar c \<longleftrightarrow> (let n = of_char c :: nat in 48 \<le> n \<and> n \<le> 57)"

text \<open>\<open>getScheme\<close>: the scheme and the rest, an empty scheme when there is none, or an error.\<close>

fun getScheme :: "string \<Rightarrow> string \<Rightarrow> (string \<times> string) option" where
  "getScheme acc [] = Some ('''', acc)"
| "getScheme acc (c # s) =
     (if isLetter c \<or> acc \<noteq> '''' \<and> (isDigitChar c \<or> c \<in> set ''+-.'') then getScheme (acc @ [c]) s
      else if c = CHR '':'' then (if acc = '''' then None else Some (acc, s))
      else Some ('''', acc @ c # s))"

definition validOptionalPort :: "string \<Rightarrow> bool" where
  "validOptionalPort port \<longleftrightarrow> (case port of [] \<Rightarrow> True | c # ds \<Rightarrow> c = CHR '':'' \<and> list_all isDigitChar ds)"

definition lastIndexByte :: "string \<Rightarrow> char \<Rightarrow> nat option" where
  "lastIndexByte s c = map_option (\<lambda>i. length s - 1 - i) (indexByte (rev s) c)"

definition hostByteOk :: "char \<Rightarrow> bool" where
  "hostByteOk c \<longleftrightarrow> (of_char c :: nat) \<ge> 128 \<or> isLetter c \<or> isDigitChar c \<or> c \<in> set ''!$&()*+,;=:[]<>-_.~'' \<or>
     c = CHR 0x27 \<or> c = CHR 0x22"

definition hexVal :: "char \<Rightarrow> nat" where
  "hexVal c = (let n = of_char c in if n \<le> 57 then n - 48 else if n \<le> 70 then n - 55 else n - 87)"

text \<open>\<open>unescape\<close> in host mode: escapes only of non-ASCII bytes and of the percent sign.\<close>

fun unescapeHost :: "string \<Rightarrow> string option" where
  "unescapeHost [] = Some []"
| "unescapeHost (c # s) =
     (if c = CHR ''%'' then
        (case s of
           x # y # r \<Rightarrow>
             if \<not> (isHex x \<and> isHex y) \<or> hexVal x < 8 \<and> [x, y] \<noteq> ''25'' then None
             else map_option ((#) (char_of (hexVal x * 16 + hexVal y))) (unescapeHost r)
         | _ \<Rightarrow> None)
      else if hostByteOk c then map_option ((#) c) (unescapeHost s) else None)"

definition parseHost :: "(string \<Rightarrow> string option) \<Rightarrow> string \<Rightarrow> string option" where
  "parseHost ipHost host =
     (if CHR ''['' \<in> set host then ipHost host
      else (case lastIndexByte host (CHR '':'') of
              Some i \<Rightarrow> if \<not> validOptionalPort (drop i host) then None else unescapeHost host
            | None \<Rightarrow> unescapeHost host))"

definition validUserinfo :: "string \<Rightarrow> bool" where
  "validUserinfo s \<longleftrightarrow>
     list_all (\<lambda>c. isLetter c \<or> isDigitChar c \<or> c \<in> set ''-._:~!$&()*+,;=%@'' \<or> c = CHR 0x27) s \<and> \<not> badEscape s"

definition parseAuthority :: "(string \<Rightarrow> string option) \<Rightarrow> string \<Rightarrow> string option" where
  "parseAuthority ipHost authority =
     (case lastIndexByte authority (CHR ''@'') of
        None \<Rightarrow> parseHost ipHost authority
      | Some i \<Rightarrow>
          (case parseHost ipHost (drop (i + 1) authority) of
             None \<Rightarrow> None
           | Some h \<Rightarrow> if validUserinfo (take i authority) then Some h else None))"

text \<open>\<open>url.Parse\<close>: the scheme in lower case and the host of the URL.\<close>

definition urlParse :: "(string \<Rightarrow> string option) \<Rightarrow> string \<Rightarrow> (string \<times> string) option" where
  "urlParse ipHost raw =
     (case cutByte raw (CHR ''#'') of (u, frag, _) \<Rightarrow>
        if list_ex isCTL u \<or> badEscape frag then None
        else (case getScheme '''' u of
                None \<Rightarrow> None
              | Some (scheme, rest) \<Rightarrow>
                  (case cutByte rest (CHR ''?'') of (rest, _, _) \<Rightarrow>
                     if \<not> hasPrefix rest ''/'' \<and> scheme \<noteq> '''' then Some (lower scheme, '''')
                     else if \<not> hasPrefix rest ''/'' \<and> CHR '':'' \<in> set (fst (cutByte rest (CHR ''/''))) then None
                     else if hasPrefix rest ''//'' \<and> (scheme \<noteq> '''' \<or> \<not> hasPrefix rest ''///'') then
                       (case cutByte (drop 2 rest) (CHR ''/'') of (authority, path, _) \<Rightarrow>
                          (case parseAuthority ipHost authority of
                             None \<Rightarrow> None
                           | Some h \<Rightarrow> if badEscape path then None else Some (lower scheme, h)))
                     else if badEscape rest then None else Some (lower scheme, ''''))))"

text \<open>\<open>URL.Hostname\<close>: the host without a port and without the brackets of a literal.\<close>

definition hostname :: "string \<Rightarrow> string" where
  "hostname hostPort =
     (let h = (case lastIndexByte hostPort (CHR '':'') of
                 Some i \<Rightarrow> if validOptionalPort (drop i hostPort) then take i hostPort else hostPort
               | None \<Rightarrow> hostPort)
      in if hasPrefix h ''['' \<and> hasSuffix h '']'' then take (length h - 2) (drop 1 h) else h)"

end
