(* ===== verification/Serve_Mux.thy ===== *)
theory Serve_Mux
  imports Go_Strings Go_Url
begin

text \<open>
  The request multiplexer of \<open>net/http\<close> (Go 1.22 patterns), as the server uses it: patterns of an optional
  method and a path without a host, whose segments are literals, single-segment wildcards, and a trailing
  slash that stands for a subtree. The routing tree tries the request's method before method-less patterns,
  and at each segment a literal before a wildcard before a subtree, which is the order \<open>kinds\<close> below.
\<close>

section \<open>Patterns\<close>

datatype segment = Lit string | Wild string | Subtree

record 'h muxEntry =
  me_method :: string
  me_segs :: "segment list"
  me_handler :: 'h

definition parseSegment :: "string \<Rightarrow> segment" where
  "parseSegment s =
     (if s = '''' then Subtree
      else if hasPrefix s ''{'' \<and> hasSuffix s ''}'' then Wild (butlast (tl s)) else Lit s)"

text \<open>A path after its leading slash, cut at the slashes; a trailing slash gives a last empty segment.\<close>

definition pathSegs :: "string \<Rightarrow> string list" where
  "pathSegs path = splitByte (CHR ''/'') (tl path)"

definition handle :: "string \<Rightarrow> 'h \<Rightarrow> 'h muxEntry" where
  "handle pattern h =
     (case cutByte pattern (CHR '' '') of (before, after, found) \<Rightarrow>
        if found then \<lparr>me_method = before, me_segs = map parseSegment (pathSegs after), me_handler = h\<rparr>
        else \<lparr>me_method = '''', me_segs = map parseSegment (pathSegs pattern), me_handler = h\<rparr>)"

section \<open>Matching\<close>

fun unescapePct :: "string \<Rightarrow> string option" where
  "unescapePct [] = Some []"
| "unescapePct (c # s) =
     (if c = CHR ''%'' then
        (case s of
           x # y # r \<Rightarrow>
             if isHex x \<and> isHex y then map_option ((#) (char_of (hexVal x * 16 + hexVal y))) (unescapePct r) else None
         | _ \<Rightarrow> None)
      else map_option ((#) c) (unescapePct s))"

definition pathUnescape :: "string \<Rightarrow> string" where
  "pathUnescape s = (case unescapePct s of Some u \<Rightarrow> u | None \<Rightarrow> s)"

fun matchSegs :: "segment list \<Rightarrow> string list \<Rightarrow> string list option" where
  "matchSegs [] [] = Some []"
| "matchSegs (Subtree # ps) (x # xs) = (if ps = [] then Some [] else None)"
| "matchSegs (Lit l # ps) (x # xs) =
     (if (x = '''' \<and> xs = []) \<or> pathUnescape x \<noteq> l then None else matchSegs ps xs)"
| "matchSegs (Wild n # ps) (x # xs) =
     (if x = '''' \<and> xs = [] then None else map_option ((#) (pathUnescape x)) (matchSegs ps xs))"
| "matchSegs _ _ = None"

fun kind :: "segment \<Rightarrow> nat" where
  "kind (Lit _) = 0"
| "kind (Wild _) = 1"
| "kind Subtree = 2"

fun before :: "segment list \<Rightarrow> segment list \<Rightarrow> bool" where
  "before (p # ps) (q # qs) \<longleftrightarrow> kind p < kind q \<or> (kind p = kind q \<and> before ps qs)"
| "before _ _ \<longleftrightarrow> False"

fun best :: "'h muxEntry list \<Rightarrow> 'h muxEntry option" where
  "best [] = None"
| "best (e # es) =
     (case best es of None \<Rightarrow> Some e | Some e' \<Rightarrow> if before (me_segs e') (me_segs e) then Some e' else Some e)"

definition matchPath :: "'h muxEntry list \<Rightarrow> string \<Rightarrow> string \<Rightarrow> 'h muxEntry option" where
  "matchPath es method path = best (filter (\<lambda>e. me_method e = method \<and> matchSegs (me_segs e) (pathSegs path) \<noteq> None) es)"

definition treeMatch :: "'h muxEntry list \<Rightarrow> string \<Rightarrow> string \<Rightarrow> 'h muxEntry option" where
  "treeMatch es method path =
     (case matchPath es method path of
        Some e \<Rightarrow> Some e
      | None \<Rightarrow>
          (case if method = ''HEAD'' then matchPath es ''GET'' path else None of
             Some e \<Rightarrow> Some e
           | None \<Rightarrow> matchPath es '''' path))"

section \<open>Canonical paths and redirects\<close>

fun cleanSegs :: "string list \<Rightarrow> string list \<Rightarrow> string list" where
  "cleanSegs acc [] = acc"
| "cleanSegs acc (x # xs) =
     (if x = '''' \<or> x = ''.'' then cleanSegs acc xs
      else if x = ''..'' then cleanSegs (butlast acc) xs
      else cleanSegs (acc @ [x]) xs)"

definition rootedPath :: "string \<Rightarrow> string" where
  "rootedPath p = (if hasPrefix p ''/'' then p else CHR ''/'' # p)"

definition cleanPath :: "string \<Rightarrow> string" where
  "cleanPath p =
     (if p = '''' then ''/''
      else
        let np = CHR ''/'' # joinWith ''/'' (cleanSegs [] (pathSegs (rootedPath p)))
        in if hasSuffix (rootedPath p) ''/'' \<and> np \<noteq> ''/'' then np @ ''/'' else np)"

definition exactMatch :: "'h muxEntry \<Rightarrow> string \<Rightarrow> bool" where
  "exactMatch e path \<longleftrightarrow>
     last (me_segs e) \<noteq> Subtree \<or> (hasSuffix path ''/'' \<and> length (me_segs e) = length (filter (\<lambda>c. c = CHR ''/'') path))"

datatype 'h found = Found 'h "string list" | MovedPermanently string | MethodNotAllowed | NotFound

definition matchOrRedirect :: "'h muxEntry list \<Rightarrow> string \<Rightarrow> string \<Rightarrow> 'h muxEntry option + string" where
  "matchOrRedirect es method path =
     (let n = treeMatch es method path
      in if (case n of Some e \<Rightarrow> exactMatch e path | None \<Rightarrow> False) \<or> hasSuffix path ''/'' then Inl n
         else (case treeMatch es method (path @ ''/'') of
                 Some e \<Rightarrow> if exactMatch e (path @ ''/'') then Inr (path @ ''/'') else Inl n
               | None \<Rightarrow> Inl n))"

text \<open>\<open>ServeMux.Handler\<close> for a request that is not CONNECT, whose path comes escaped.\<close>

definition findHandler :: "'h muxEntry list \<Rightarrow> string \<Rightarrow> string \<Rightarrow> 'h found" where
  "findHandler es method escapedPath =
     (let path = cleanPath escapedPath
      in case matchOrRedirect es method path of
           Inr u \<Rightarrow> MovedPermanently u
         | Inl n \<Rightarrow>
             if path \<noteq> escapedPath then MovedPermanently path
             else (case n of
                     Some e \<Rightarrow> Found (me_handler e) (case matchSegs (me_segs e) (pathSegs path) of Some ms \<Rightarrow> ms | None \<Rightarrow> [])
                   | None \<Rightarrow>
                       if list_ex (\<lambda>e. matchSegs (me_segs e) (pathSegs path) \<noteq> None \<or>
                            \<not> hasSuffix path ''/'' \<and> matchSegs (me_segs e) (pathSegs (path @ ''/'')) \<noteq> None) es
                       then MethodNotAllowed else NotFound))"

section \<open>What a match guarantees\<close>

lemma best_in: "best es = Some e \<Longrightarrow> e \<in> set es"
  by (induction es arbitrary: e) (auto split: option.splits if_splits)

lemma best_some: "best es = None \<longleftrightarrow> es = []"
  by (cases es) (auto split: option.splits)

lemma matchPath_matches:
  "matchPath es method path = Some e \<Longrightarrow> e \<in> set es \<and> me_method e = method \<and> matchSegs (me_segs e) (pathSegs path) \<noteq> None"
  unfolding matchPath_def by (drule best_in) auto

lemma treeMatch_matches:
  assumes "treeMatch es method path = Some e"
  shows "e \<in> set es \<and> (me_method e = '''' \<or> me_method e = method \<or> method = ''HEAD'' \<and> me_method e = ''GET'') \<and>
    matchSegs (me_segs e) (pathSegs path) \<noteq> None"
  using assms matchPath_matches [of es _ path e] unfolding treeMatch_def by (auto split: option.splits if_splits)

lemma treeMatch_some:
  assumes "e \<in> set es" and "me_method e = ''''" and "matchSegs (me_segs e) (pathSegs path) \<noteq> None"
  shows "treeMatch es method path \<noteq> None"
proof -
  have "matchPath es '''' path \<noteq> None"
    unfolding matchPath_def best_some filter_empty_conv using assms by blast
  then show ?thesis unfolding treeMatch_def by (auto split: option.splits)
qed

lemma found_matches:
  assumes "findHandler es method path = Found h ms"
  shows "cleanPath path = path \<and> (\<exists>e \<in> set es. me_handler e = h \<and> matchSegs (me_segs e) (pathSegs path) = Some ms \<and>
    (me_method e = '''' \<or> me_method e = method \<or> method = ''HEAD'' \<and> me_method e = ''GET''))"
proof -
  obtain n where n: "matchOrRedirect es method (cleanPath path) = Inl n" and p: "cleanPath path = path"
    using assms unfolding findHandler_def Let_def by (auto split: sum.splits if_splits)
  then obtain e where e: "n = Some e" "h = me_handler e" "ms = (case matchSegs (me_segs e) (pathSegs path) of Some ms \<Rightarrow> ms | None \<Rightarrow> [])"
    using assms unfolding findHandler_def Let_def by (auto split: option.splits if_splits)
  have "treeMatch es method path = Some e"
    using n e(1) unfolding p matchOrRedirect_def Let_def by (auto split: option.splits if_splits)
  from treeMatch_matches [OF this] show ?thesis using e p by (auto split: option.splits)
qed

end
