(* ===== verification/Storage_Query.thy ===== *)
theory Storage_Query
  imports Storage_Row Sketch
begin

text \<open>
  The read side of the data plane, src/server/internal/storage/: query.go, dashboard.go, debug.go,
  signature.go, performance.go, usage.go and the memory trend of instancewindows.go. The SQL of each
  query is read as a function of the rows of the table it names: the filter of its WHERE clause, the
  groups of its GROUP BY, the expressions of its SELECT and the order and limit of the result.

  What the model takes from ClickHouse: \<open>sum\<close> and \<open>sumMap\<close> add in UInt64, \<open>sumMap\<close> drops keys whose
  sum is zero, arrays count from one and an index of zero reads the default value, and
  \<open>toStartOfInterval\<close> rounds down to a multiple of the step. A connection \<open>conn\<close> is the content of the
  tables, a flag for a failing query, and the order in which unordered groups come out, which
  \<open>ORDER BY cnt DESC\<close> leaves open for equal counts.
\<close>

section \<open>Connection, results and errors\<close>

record conn =
  cn_rows :: "tierTable \<Rightarrow> Row list"
  cn_windows :: "InstanceWindowRow list"
  cn_parts :: "(u64 \<times> u64) option"
  cn_ok :: bool
  cn_groups :: "string list list \<Rightarrow> string list list"

datatype queryError = UnknownTier | BadStep duration | QueryFailed

record TimePoint =
  tp_TS :: instant
  tp_Count :: u64
  tp_ErrorRate :: real
  tp_P50 :: real
  tp_P95 :: real
  tp_P99 :: real

record ServiceStat =
  sst_Service :: string
  sst_Count :: u64
  sst_ErrorRate :: real
  sst_Client4xxRate :: real
  sst_P50 :: real
  sst_P95 :: real
  sst_P99 :: real

record EndpointStat =
  es_Method :: string
  es_Route :: string
  es_Count :: u64
  es_ErrorRate :: real
  es_Client4xxRate :: real
  es_P50 :: real
  es_P95 :: real
  es_P99 :: real
  es_ReqBytesAvg :: real
  es_RespBytesAvg :: real

record InstanceStat =
  is_Instance :: string
  is_Count :: u64
  is_ErrorRate :: real
  is_P50 :: real
  is_P95 :: real
  is_P99 :: real
  is_ReqBytesAvg :: real
  is_RespBytesAvg :: real

record VersionStat =
  vs_Version :: string
  vs_Count :: u64
  vs_ErrorRate :: real
  vs_P50 :: real
  vs_P95 :: real
  vs_P99 :: real

record ClassLatency =
  cl_Count :: u64
  cl_P50 :: real
  cl_P95 :: real
  cl_P99 :: real

record DownstreamStat =
  dw_Count :: u64
  dw_SumDurationNs :: u64
  dw_SumDownstreamNs :: u64

record ErrorClassStat =
  ec_Class :: string
  ec_Count :: u64

record NoStatusReasonStat =
  nr_Reason :: u8
  nr_Count :: u64

record HistogramBar =
  hb_LatencySeconds :: real
  hb_Count :: u64

record EndpointDetail =
  ed_Count :: u64
  ed_ErrorRate :: real
  ed_P50 :: real
  ed_P95 :: real
  ed_P99 :: real
  ed_Histogram :: "HistogramBar list"
  ed_StatusClasses :: "(string \<times> u64) list"
  ed_StatusCodes :: "(u32, u64) gomap"

record MemoryTrendPoint =
  mt_TS :: instant
  mt_PostGCHeapBytes :: u64
  mt_HeapInuseBytes :: u64

record PerformanceStat =
  pf_Requests :: u64
  pf_Summaries :: u64
  pf_SummaryDiskBytes :: u64

record TenantUsage =
  tu_FirstIngest :: "instant option"
  tu_LastIngest :: "instant option"
  tu_Endpoints :: nat
  tu_Series :: nat
  tu_Services :: nat
  tu_Instances :: nat
  tu_Requests30d :: u64
  tu_DiskBytes :: u64

section \<open>The SQL vocabulary\<close>

definition sumMap :: "('k, u64) gomap list \<Rightarrow> ('k, u64) gomap" where
  "sumMap ms = filter (\<lambda>(k, c). c \<noteq> 0) (fold (\<lambda>(k, c) acc. bump k c acc) (concat ms) [])"

fun arrayCumSum :: "u64 \<Rightarrow> u64 list \<Rightarrow> u64 list" where
  "arrayCumSum acc [] = []"
| "arrayCumSum acc (x # xs) = (acc + x) # arrayCumSum (acc + x) xs"

fun indexOf :: "bool list \<Rightarrow> nat" where
  "indexOf [] = 0"
| "indexOf (b # bs) = (if b then 1 else if indexOf bs = 0 then 0 else Suc (indexOf bs))"

definition arrayElement :: "int list \<Rightarrow> nat \<Rightarrow> int" where
  "arrayElement ks i = (if i = 0 \<or> length ks < i then 0 else ks ! (i - 1))"

definition percentileExpr :: "real \<Rightarrow> (int, u64) gomap \<Rightarrow> u64 \<Rightarrow> real" where
  "percentileExpr q merged total_count =
     (let ks = sort (map fst merged);
          vs = map (glookup 0 merged) ks;
          cs = arrayCumSum 0 vs;
          rnk = (word_of_int (max 1 \<lceil>q * real (unat total_count)\<rceil>) :: u64)
      in 2 * (101 / 100) powi (arrayElement ks (indexOf (map (\<lambda>c. c \<ge> rnk) cs))) / (201 / 100))"

definition sumOf :: "(Row \<Rightarrow> u64) \<Rightarrow> Row list \<Rightarrow> u64" where
  "sumOf f rs = sum_list (map f rs)"

definition sumIf :: "(Row \<Rightarrow> bool) \<Rightarrow> Row list \<Rightarrow> u64" where
  "sumIf P rs = sumOf row_Count (filter P rs)"

definition ratio :: "u64 \<Rightarrow> u64 \<Rightarrow> real" where
  "ratio n total_count = (if total_count = 0 then 0 else real (unat n) / real (unat total_count))"

definition isFailure :: "Row \<Rightarrow> bool" where
  "isFailure r \<longleftrightarrow> row_StatusClass r \<in> {''STATUS_CLASS_5XX'', ''STATUS_CLASS_NO_STATUS''}"

definition mergedSketch :: "Row list \<Rightarrow> (int, u64) gomap" where
  "mergedSketch rs = sumMap (map sketchMap rs)"

definition pct :: "real \<Rightarrow> Row list \<Rightarrow> real" where
  "pct q rs = percentileExpr q (mergedSketch rs) (sumOf row_Count rs)"

definition groupBy :: "('r \<Rightarrow> 'k) \<Rightarrow> 'r list \<Rightarrow> 'k \<Rightarrow> 'r list" where
  "groupBy key rs k = filter (\<lambda>r. key r = k) rs"

definition inWindow :: "instant \<Rightarrow> instant \<Rightarrow> instant \<Rightarrow> bool" where
  "inWindow from' to t \<longleftrightarrow> from' \<le> t \<and> t < to"

definition optFilter :: "string \<Rightarrow> string \<Rightarrow> bool" where
  "optFilter v col \<longleftrightarrow> v = '''' \<or> col = v"

definition endpointRows ::
  "tenantID \<Rightarrow> string \<Rightarrow> string \<Rightarrow> string \<Rightarrow> instant \<Rightarrow> instant \<Rightarrow> Row list \<Rightarrow> Row list" where
  "endpointRows tid service method route from' to rs =
     filter (\<lambda>r. row_Tenant r = tid \<and> row_Service r = service \<and> optFilter method (row_Method r) \<and>
        optFilter route (row_RouteTemplate r) \<and> inWindow from' to (row_WindowStart r)) rs"

definition startOfInterval :: "int \<Rightarrow> instant \<Rightarrow> instant" where
  "startOfInterval stepSeconds t = t div (stepSeconds * second) * (stepSeconds * second)"

section \<open>Time series (query.go)\<close>

definition tierTables :: "tierTable list" where
  "tierTables = [tableRaw, table1m, table1h, table1d]"

definition buildSeriesQuery :: "instant \<Rightarrow> instant \<Rightarrow> duration \<Rightarrow> queryError + tierTable \<times> int" where
  "buildSeriesQuery from' to step =
     (let t = selectTier from' to;
          step = (if step < ti_minStep t then ti_minStep t else step)
      in if ti_table t \<notin> set tierTables then Inl UnknownTier
         else
           let stepSeconds = quot step second
           in if stepSeconds \<le> 0 then Inl (BadStep step) else Inr (ti_table t, stepSeconds))"

definition seriesRows :: "int \<Rightarrow> Row list \<Rightarrow> TimePoint list" where
  "seriesRows stepSeconds rs =
     (let bucket = (\<lambda>r. startOfInterval stepSeconds (row_WindowStart r))
      in map (\<lambda>b. let g = groupBy bucket rs b; total_count = sumOf row_Count g in
               \<lparr>tp_TS = b, tp_Count = total_count, tp_ErrorRate = ratio (sumIf isFailure g) total_count,
                tp_P50 = pct (50 / 100) g, tp_P95 = pct (95 / 100) g, tp_P99 = pct (99 / 100) g\<rparr>)
           (sort (remdups (map bucket rs))))"

definition SeriesOverTime ::
  "conn \<Rightarrow> tenantID \<Rightarrow> string \<Rightarrow> string \<Rightarrow> string \<Rightarrow> instant \<Rightarrow> instant \<Rightarrow> duration \<Rightarrow> queryError + TimePoint list" where
  "SeriesOverTime c tid service method route from' to step =
     (case buildSeriesQuery from' to step of
        Inl e \<Rightarrow> Inl e
      | Inr (table, stepSeconds) \<Rightarrow>
          if \<not> cn_ok c then Inl QueryFailed
          else Inr (seriesRows stepSeconds (endpointRows tid service method route from' to (cn_rows c table))))"

section \<open>Dashboard aggregates (dashboard.go)\<close>

definition aggregateRowCap :: nat where
  "aggregateRowCap = 500"

definition tierQuery :: "conn \<Rightarrow> instant \<Rightarrow> instant \<Rightarrow> queryError + Row list" where
  "tierQuery c from' to =
     (let t = selectTier from' to
      in if ti_table t \<notin> set tierTables then Inl UnknownTier
         else if \<not> cn_ok c then Inl QueryFailed
         else Inr (cn_rows c (ti_table t)))"

definition HasAnySummary :: "conn \<Rightarrow> tenantID \<Rightarrow> queryError + bool" where
  "HasAnySummary c tid =
     (if \<not> cn_ok c then Inl QueryFailed
      else Inr (list_ex (\<lambda>r. row_Tenant r = tid) (cn_rows c tableRaw)))"

definition servicesQueryTemplate ::
  "(string list list \<Rightarrow> string list list) \<Rightarrow> tenantID \<Rightarrow> instant \<Rightarrow> instant \<Rightarrow> Row list \<Rightarrow> ServiceStat list" where
  "servicesQueryTemplate groups tid from' to table =
     (let rs = filter (\<lambda>r. row_Tenant r = tid \<and> inWindow from' to (row_WindowStart r)) table;
         key = (\<lambda>r. [row_Service r]);
         stats = map (\<lambda>k. let g = groupBy key rs k; total_count = sumOf row_Count g in
            \<lparr>sst_Service = hd k, sst_Count = total_count, sst_ErrorRate = ratio (sumIf isFailure g) total_count,
             sst_Client4xxRate = ratio (sumIf (\<lambda>r. row_StatusClass r = ''STATUS_CLASS_4XX'') g) total_count,
             sst_P50 = pct (50 / 100) g, sst_P95 = pct (95 / 100) g, sst_P99 = pct (99 / 100) g\<rparr>)
           (groups (remdups (map key rs)))
     in (take aggregateRowCap (sort_key (\<lambda>s. - int (unat (sst_Count s))) stats)))"

definition Services :: "conn \<Rightarrow> tenantID \<Rightarrow> instant \<Rightarrow> instant \<Rightarrow> queryError + ServiceStat list" where
  "Services c tid from' to =
     (case tierQuery c from' to of
        Inl e \<Rightarrow> Inl e
      | Inr table \<Rightarrow> Inr (servicesQueryTemplate (cn_groups c) tid from' to table))"

definition endpointsQueryTemplate ::
  "(string list list \<Rightarrow> string list list) \<Rightarrow> tenantID \<Rightarrow> string \<Rightarrow> instant \<Rightarrow> instant \<Rightarrow> Row list \<Rightarrow> EndpointStat list" where
  "endpointsQueryTemplate groups tid service from' to table =
     (let rs = filter (\<lambda>r. row_Tenant r = tid \<and> row_Service r = service \<and> inWindow from' to (row_WindowStart r)) table;
         key = (\<lambda>r. [row_Method r, row_RouteTemplate r]);
         stats = map (\<lambda>k. let g = groupBy key rs k; total_count = sumOf row_Count g in
            \<lparr>es_Method = hd k, es_Route = last k, es_Count = total_count,
             es_ErrorRate = ratio (sumIf isFailure g) total_count,
             es_Client4xxRate = ratio (sumIf (\<lambda>r. row_StatusClass r = ''STATUS_CLASS_4XX'') g) total_count,
             es_P50 = pct (50 / 100) g, es_P95 = pct (95 / 100) g, es_P99 = pct (99 / 100) g,
             es_ReqBytesAvg = ratio (sumOf row_ReqBytes g) total_count,
             es_RespBytesAvg = ratio (sumOf row_RespBytes g) total_count\<rparr>)
           (groups (remdups (map key rs)))
     in (take aggregateRowCap (sort_key (\<lambda>s. - int (unat (es_Count s))) stats)))"

definition Endpoints :: "conn \<Rightarrow> tenantID \<Rightarrow> string \<Rightarrow> instant \<Rightarrow> instant \<Rightarrow> queryError + EndpointStat list" where
  "Endpoints c tid service from' to =
     (case tierQuery c from' to of
        Inl e \<Rightarrow> Inl e
      | Inr table \<Rightarrow> Inr (endpointsQueryTemplate (cn_groups c) tid service from' to table))"

definition buildEndpointDetail ::
  "u64 \<Rightarrow> u64 \<Rightarrow> u64 \<Rightarrow> u64 \<Rightarrow> u64 \<Rightarrow> u64 \<Rightarrow> int list \<Rightarrow> u64 list \<Rightarrow> u32 list \<Rightarrow> u64 list \<Rightarrow> EndpointDetail" where
  "buildEndpointDetail total' c2xx c3xx c4xx c5xx cno ks vs codeKeys codeVals =
     (let hist = (if length ks = length vs
                  then map (\<lambda>(idx, v). \<lparr>hb_LatencySeconds = bucketValue idx, hb_Count = v\<rparr>) (zip ks vs) else []);
          buckets = (if length ks = length vs then mapOfPairs (zip ks vs) else [])
      in \<lparr>ed_Count = total',
          ed_ErrorRate = (if total' > 0 then real (unat (c5xx + cno)) / real (unat total') else 0),
          ed_P50 = storageQuantile buckets (50 / 100), ed_P95 = storageQuantile buckets (95 / 100),
          ed_P99 = storageQuantile buckets (99 / 100), ed_Histogram = hist,
          ed_StatusClasses = [(''2xx'', c2xx), (''3xx'', c3xx), (''4xx'', c4xx), (''5xx'', c5xx), (''no_status'', cno)],
          ed_StatusCodes = (if length codeKeys = length codeVals then mapOfPairs (zip codeKeys codeVals) else [])\<rparr>)"

definition detailRows ::
  "tenantID \<Rightarrow> string \<Rightarrow> string \<Rightarrow> string \<Rightarrow> instant \<Rightarrow> instant \<Rightarrow> Row list \<Rightarrow> Row list" where
  "detailRows tid service method route from' to rs =
     filter (\<lambda>r. row_Tenant r = tid \<and> row_Service r = service \<and> row_Method r = method \<and>
        row_RouteTemplate r = route \<and> inWindow from' to (row_WindowStart r)) rs"

definition endpointDetailQueryTemplate ::
  "tenantID \<Rightarrow> string \<Rightarrow> string \<Rightarrow> string \<Rightarrow> instant \<Rightarrow> instant \<Rightarrow> Row list \<Rightarrow>
   (u64 \<times> u64 \<times> u64 \<times> u64 \<times> u64 \<times> u64) \<times> (int list \<times> u64 list) \<times> (u32 list \<times> u64 list)" where
  "endpointDetailQueryTemplate tid service method route from' to table =
     (let rs = detailRows tid service method route from' to table;
          cls = (\<lambda>s. sumIf (\<lambda>r. row_StatusClass r = s) rs);
          merged = mergedSketch rs;
          ks = sort (map fst merged);
          codes = sumMap (map statusCodeMap rs)
      in ((sumOf row_Count rs, cls ''STATUS_CLASS_2XX'', cls ''STATUS_CLASS_3XX'', cls ''STATUS_CLASS_4XX'',
            cls ''STATUS_CLASS_5XX'', cls ''STATUS_CLASS_NO_STATUS''),
          (ks, map (glookup 0 merged) ks), (map fst codes, map snd codes)))"

definition QueryEndpointDetail ::
  "conn \<Rightarrow> tenantID \<Rightarrow> string \<Rightarrow> string \<Rightarrow> string \<Rightarrow> instant \<Rightarrow> instant \<Rightarrow> queryError + EndpointDetail" where
  "QueryEndpointDetail c tid service method route from' to =
     (case tierQuery c from' to of
        Inl e \<Rightarrow> Inl e
      | Inr table \<Rightarrow>
          case endpointDetailQueryTemplate tid service method route from' to table of
            ((total', c2xx, c3xx, c4xx, c5xx, cno), (ks, vs), (codeKeys, codeVals)) \<Rightarrow>
              Inr (buildEndpointDetail total' c2xx c3xx c4xx c5xx cno ks vs codeKeys codeVals))"

section \<open>Breakdowns of an endpoint (debug.go, signature.go)\<close>

definition instancesQueryTemplate ::
  "tenantID \<Rightarrow> string \<Rightarrow> string \<Rightarrow> string \<Rightarrow> instant \<Rightarrow> instant \<Rightarrow> Row list \<Rightarrow> InstanceStat list" where
  "instancesQueryTemplate tid service method route from' to table =
     (let rs = endpointRows tid service method route from' to table
     in (map (\<lambda>k. let g = groupBy row_Instance rs k; total_count = sumOf row_Count g in
          \<lparr>is_Instance = k, is_Count = total_count, is_ErrorRate = ratio (sumIf isFailure g) total_count,
           is_P50 = pct (50 / 100) g, is_P95 = pct (95 / 100) g, is_P99 = pct (99 / 100) g,
           is_ReqBytesAvg = ratio (sumOf row_ReqBytes g) total_count,
           is_RespBytesAvg = ratio (sumOf row_RespBytes g) total_count\<rparr>)
         (sort (remdups (map row_Instance rs)))))"

definition InstancesForEndpoint ::
  "conn \<Rightarrow> tenantID \<Rightarrow> string \<Rightarrow> string \<Rightarrow> string \<Rightarrow> instant \<Rightarrow> instant \<Rightarrow> queryError + InstanceStat list" where
  "InstancesForEndpoint c tid service method route from' to =
     (case tierQuery c from' to of
        Inl e \<Rightarrow> Inl e
      | Inr table \<Rightarrow> Inr (instancesQueryTemplate tid service method route from' to table))"

definition versionsQueryTemplate ::
  "tenantID \<Rightarrow> string \<Rightarrow> string \<Rightarrow> string \<Rightarrow> instant \<Rightarrow> instant \<Rightarrow> Row list \<Rightarrow> VersionStat list" where
  "versionsQueryTemplate tid service method route from' to table =
     (let rs = endpointRows tid service method route from' to table
     in (map (\<lambda>k. let g = groupBy row_DeployVersion rs k; total_count = sumOf row_Count g in
          \<lparr>vs_Version = k, vs_Count = total_count, vs_ErrorRate = ratio (sumIf isFailure g) total_count,
           vs_P50 = pct (50 / 100) g, vs_P95 = pct (95 / 100) g, vs_P99 = pct (99 / 100) g\<rparr>)
         (sort (remdups (map row_DeployVersion rs)))))"

definition VersionsForEndpoint ::
  "conn \<Rightarrow> tenantID \<Rightarrow> string \<Rightarrow> string \<Rightarrow> string \<Rightarrow> instant \<Rightarrow> instant \<Rightarrow> queryError + VersionStat list" where
  "VersionsForEndpoint c tid service method route from' to =
     (case tierQuery c from' to of
        Inl e \<Rightarrow> Inl e
      | Inr table \<Rightarrow> Inr (versionsQueryTemplate tid service method route from' to table))"

definition statusClasses :: "string list" where
  "statusClasses = [''STATUS_CLASS_2XX'', ''STATUS_CLASS_3XX'', ''STATUS_CLASS_4XX'', ''STATUS_CLASS_5XX'',
     ''STATUS_CLASS_NO_STATUS'']"

definition zeroClassLatency :: ClassLatency where
  "zeroClassLatency = \<lparr>cl_Count = 0, cl_P50 = 0, cl_P95 = 0, cl_P99 = 0\<rparr>"

definition latencyByClassQueryTemplate ::
  "tenantID \<Rightarrow> string \<Rightarrow> string \<Rightarrow> string \<Rightarrow> instant \<Rightarrow> instant \<Rightarrow> Row list \<Rightarrow> (string \<times> ClassLatency) list" where
  "latencyByClassQueryTemplate tid service method route from' to table =
     (let rs = endpointRows tid service method route from' to table
      in map (\<lambda>k. let g = groupBy row_StatusClass rs k in
             (k, \<lparr>cl_Count = sumOf row_Count g, cl_P50 = pct (50 / 100) g, cl_P95 = pct (95 / 100) g,
                  cl_P99 = pct (99 / 100) g\<rparr>))
           (remdups (map row_StatusClass rs)))"

definition LatencyByStatusClass ::
  "conn \<Rightarrow> tenantID \<Rightarrow> string \<Rightarrow> string \<Rightarrow> string \<Rightarrow> instant \<Rightarrow> instant \<Rightarrow> queryError + (string, ClassLatency) gomap" where
  "LatencyByStatusClass c tid service method route from' to =
     (case tierQuery c from' to of
        Inl e \<Rightarrow> Inl e
      | Inr table \<Rightarrow>
          let out = map (\<lambda>k. (k, zeroClassLatency)) statusClasses
          in Inr (fold (\<lambda>(k, cl) m. if map_of m k = None then m else AList.update k cl m)
               (latencyByClassQueryTemplate tid service method route from' to table) out))"

definition downstreamQueryTemplate ::
  "tenantID \<Rightarrow> string \<Rightarrow> string \<Rightarrow> string \<Rightarrow> instant \<Rightarrow> instant \<Rightarrow> Row list \<Rightarrow> DownstreamStat" where
  "downstreamQueryTemplate tid service method route from' to table =
     (let rs = endpointRows tid service method route from' to table
     in \<lparr>dw_Count = sumOf row_Count rs, dw_SumDurationNs = sumOf row_SumDurationNs rs,
             dw_SumDownstreamNs = sumOf row_SumDownstreamNs rs\<rparr>)"

definition DownstreamForEndpoint ::
  "conn \<Rightarrow> tenantID \<Rightarrow> string \<Rightarrow> string \<Rightarrow> string \<Rightarrow> instant \<Rightarrow> instant \<Rightarrow> queryError + DownstreamStat" where
  "DownstreamForEndpoint c tid service method route from' to =
     (case tierQuery c from' to of
        Inl e \<Rightarrow> Inl e
      | Inr table \<Rightarrow> Inr (downstreamQueryTemplate tid service method route from' to table))"

definition maxExemplarsPerEndpoint :: nat where
  "maxExemplarsPerEndpoint = 20"

definition exemplarsQueryTemplate ::
  "nat \<Rightarrow> tenantID \<Rightarrow> string \<Rightarrow> string \<Rightarrow> string \<Rightarrow> instant \<Rightarrow> instant \<Rightarrow> Row list \<Rightarrow> RowExemplar list" where
  "exemplarsQueryTemplate limit tid service method route from' to table =
     take limit (sort_key (\<lambda>e. - int (unat (re_DurationNs e)))
       (concat (map row_Exemplars (endpointRows tid service method route from' to table))))"

definition ExemplarsForEndpoint ::
  "conn \<Rightarrow> tenantID \<Rightarrow> string \<Rightarrow> string \<Rightarrow> string \<Rightarrow> instant \<Rightarrow> instant \<Rightarrow> queryError + RowExemplar list" where
  "ExemplarsForEndpoint c tid service method route from' to =
     (if \<not> cn_ok c then Inl QueryFailed
      else Inr (exemplarsQueryTemplate maxExemplarsPerEndpoint tid service method route from' to (cn_rows c tableRaw)))"

definition maxErrorClassesPerEndpoint :: nat where
  "maxErrorClassesPerEndpoint = 20"

definition errorClassesQueryTemplate ::
  "tenantID \<Rightarrow> string \<Rightarrow> string \<Rightarrow> string \<Rightarrow> instant \<Rightarrow> instant \<Rightarrow> Row list \<Rightarrow> ErrorClassStat list" where
  "errorClassesQueryTemplate tid service method route from' to table =
     (let merged = sumMap (map errorClassMap (endpointRows tid service method route from' to table))
     in (map (\<lambda>(k, n). \<lparr>ec_Class = k, ec_Count = n\<rparr>)
          (take maxErrorClassesPerEndpoint (sort_key (\<lambda>e. - int (unat (snd e))) (sort_key fst merged)))))"

definition ErrorClassesForEndpoint ::
  "conn \<Rightarrow> tenantID \<Rightarrow> string \<Rightarrow> string \<Rightarrow> string \<Rightarrow> instant \<Rightarrow> instant \<Rightarrow> queryError + ErrorClassStat list" where
  "ErrorClassesForEndpoint c tid service method route from' to =
     (case tierQuery c from' to of
        Inl e \<Rightarrow> Inl e
      | Inr table \<Rightarrow> Inr (errorClassesQueryTemplate tid service method route from' to table))"

definition noStatusReasonsQueryTemplate ::
  "tenantID \<Rightarrow> string \<Rightarrow> string \<Rightarrow> string \<Rightarrow> instant \<Rightarrow> instant \<Rightarrow> Row list \<Rightarrow> NoStatusReasonStat list" where
  "noStatusReasonsQueryTemplate tid service method route from' to table =
     (let merged = sumMap (map noStatusReasonMap (endpointRows tid service method route from' to table))
     in (map (\<lambda>(k, n). \<lparr>nr_Reason = k, nr_Count = n\<rparr>) (sort_key fst merged)))"

definition NoStatusReasonsForEndpoint ::
  "conn \<Rightarrow> tenantID \<Rightarrow> string \<Rightarrow> string \<Rightarrow> string \<Rightarrow> instant \<Rightarrow> instant \<Rightarrow> queryError + NoStatusReasonStat list" where
  "NoStatusReasonsForEndpoint c tid service method route from' to =
     (case tierQuery c from' to of
        Inl e \<Rightarrow> Inl e
      | Inr table \<Rightarrow> Inr (noStatusReasonsQueryTemplate tid service method route from' to table))"

section \<open>Memory trend, storage volume and usage\<close>

definition maxOf :: "u64 list \<Rightarrow> u64" where
  "maxOf xs = fold max xs 0"

definition memoryTrendQueryTemplate ::
  "int \<Rightarrow> tenantID \<Rightarrow> string \<Rightarrow> instant \<Rightarrow> instant \<Rightarrow> InstanceWindowRow list \<Rightarrow> MemoryTrendPoint list" where
  "memoryTrendQueryTemplate stepSeconds tid service from' to windows =
     (let ws = filter (\<lambda>w. iw_Tenant w = tid \<and> iw_Service w = service \<and> inWindow from' to (iw_WindowStart w)) windows;
          bucket = (\<lambda>w. startOfInterval stepSeconds (iw_WindowStart w))
      in map (\<lambda>b. let g = groupBy bucket ws b in
             \<lparr>mt_TS = b, mt_PostGCHeapBytes = maxOf (map iw_PostGCHeapBytes g),
              mt_HeapInuseBytes = maxOf (map iw_HeapInuseBytes g)\<rparr>)
           (sort (remdups (map bucket ws))))"

definition MemoryTrendForService ::
  "conn \<Rightarrow> tenantID \<Rightarrow> string \<Rightarrow> instant \<Rightarrow> instant \<Rightarrow> duration \<Rightarrow> queryError + MemoryTrendPoint list" where
  "MemoryTrendForService c tid service from' to step =
     (let stepSeconds = quot step second;
          stepSeconds = (if stepSeconds \<le> 0 then 1 else stepSeconds)
      in if \<not> cn_ok c then Inl QueryFailed
         else Inr (memoryTrendQueryTemplate stepSeconds tid service from' to (cn_windows c)))"

definition fallbackBytesPerSummary :: real where
  "fallbackBytesPerSummary = 400"

definition summaryRowBytes :: "conn \<Rightarrow> real" where
  "summaryRowBytes c =
     (case cn_parts c of
        None \<Rightarrow> fallbackBytesPerSummary
      | Some (bytesOnDisk, rows) \<Rightarrow>
          if rows = 0 then fallbackBytesPerSummary else real (unat bytesOnDisk) / real (unat rows))"

definition PerformanceStats :: "conn \<Rightarrow> tenantID \<Rightarrow> instant \<Rightarrow> instant \<Rightarrow> queryError + PerformanceStat" where
  "PerformanceStats c tid from' to =
     (if \<not> cn_ok c then Inl QueryFailed
      else
        let rs = filter (\<lambda>r. row_Tenant r = tid \<and> inWindow from' to (row_WindowStart r)) (cn_rows c tableRaw)
        in Inr \<lparr>pf_Requests = sumOf row_Count rs, pf_Summaries = of_nat (length rs),
                pf_SummaryDiskBytes = word_of_int \<lfloor>real (unat (of_nat (length rs) :: u64)) * summaryRowBytes c\<rfloor>\<rparr>)"

definition usageCardinalityWindow :: duration where
  "usageCardinalityWindow = 30 * 24 * hour"

definition usageDiskWindow :: duration where
  "usageDiskWindow = 7 * 24 * hour"

definition uniqExact :: "('r \<Rightarrow> 'k) \<Rightarrow> 'r list \<Rightarrow> nat" where
  "uniqExact f rs = length (remdups (map f rs))"

definition Usage :: "conn \<Rightarrow> tenantID \<Rightarrow> instant \<Rightarrow> queryError + TenantUsage" where
  "Usage c tid now =
     (if \<not> cn_ok c then Inl QueryFailed
      else
        let days = filter (\<lambda>r. row_Tenant r = tid) (cn_rows c table1d);
            mins = filter (\<lambda>r. row_Tenant r = tid \<and> row_WindowStart r \<ge> now - usageCardinalityWindow) (cn_rows c table1m)
        in case PerformanceStats c tid (now - usageDiskWindow) now of
             Inl e \<Rightarrow> Inl e
           | Inr perf \<Rightarrow>
               Inr \<lparr>tu_FirstIngest = (if days = [] then None else Some (Min (set (map row_WindowStart days)))),
                    tu_LastIngest = (if days = [] then None else Some (Max (set (map row_WindowEnd days)))),
                    tu_Endpoints = uniqExact row_RouteTemplate mins,
                    tu_Series = uniqExact (\<lambda>r. (row_Method r, row_RouteTemplate r, row_StatusClass r)) mins,
                    tu_Services = uniqExact row_Service mins, tu_Instances = uniqExact row_Instance mins,
                    tu_Requests30d = sumOf row_Count mins, tu_DiskBytes = pf_SummaryDiskBytes perf\<rparr>)"

definition LastIngestByTenant :: "conn \<Rightarrow> queryError + (tenantID, instant) gomap" where
  "LastIngestByTenant c =
     (if \<not> cn_ok c then Inl QueryFailed
      else
        let rs = cn_rows c table1d
        in Inr (map (\<lambda>t. (t, Max (set (map row_WindowEnd (groupBy row_Tenant rs t))))) (remdups (map row_Tenant rs))))"

lemmas query_templates = servicesQueryTemplate_def endpointsQueryTemplate_def endpointDetailQueryTemplate_def
  instancesQueryTemplate_def versionsQueryTemplate_def latencyByClassQueryTemplate_def downstreamQueryTemplate_def
  exemplarsQueryTemplate_def errorClassesQueryTemplate_def noStatusReasonsQueryTemplate_def memoryTrendQueryTemplate_def

section \<open>The percentile SQL is the quantile of the merged sketch\<close>

lemma sum_bump_fold:
  "gomap_ok acc \<Longrightarrow>
   gomap_ok (fold (\<lambda>(k, c) acc. bump k c acc) ps acc) \<and>
   sum_list (map snd (fold (\<lambda>(k, c) acc. bump k c acc) ps acc)) = sum_list (map snd acc) + sum_list (map snd ps)"
  by (induction ps arbitrary: acc) (auto simp: sum_list_bump)

lemma sum_list_nonzero: "sum_list (map snd (filter (\<lambda>(k, c). c \<noteq> 0) m)) = (sum_list (map snd m) :: u64)"
  by (induction m) auto

lemma gomap_ok_sumMap: "gomap_ok (sumMap ms)"
  using sum_bump_fold [of "[]" "concat ms"] by (simp add: sumMap_def)

lemma sum_sumMap: "sum_list (map snd (sumMap ms)) = sum_list (map (\<lambda>m. sum_list (map snd m)) ms)"
proof -
  have "sum_list (map snd (concat ms)) = sum_list (map (\<lambda>m. sum_list (map snd m)) ms)"
    by (induction ms) auto
  then show ?thesis using sum_bump_fold [of "[]" "concat ms"] by (simp add: sumMap_def sum_list_nonzero)
qed

lemma indexOf_le: "indexOf bs \<le> length bs"
  by (induction bs) auto

lemma indexOf_pos: "True \<in> set bs \<Longrightarrow> 0 < indexOf bs"
  by (induction bs) auto

lemma arrayCumSum_nonempty: "xs \<noteq> [] \<Longrightarrow> arrayCumSum acc xs \<noteq> []"
  by (cases xs) auto

lemma last_arrayCumSum: "xs \<noteq> [] \<Longrightarrow> last (arrayCumSum acc xs) = acc + sum_list xs"
proof (induction xs arbitrary: acc)
  case (Cons x xs)
  then show ?case using arrayCumSum_nonempty [of xs "acc + x"] by (cases "xs = []") (auto simp: ac_simps)
qed simp

lemma length_arrayCumSum [simp]: "length (arrayCumSum acc xs) = length xs"
  by (induction xs arbitrary: acc) auto

lemma scanIndices_indexOf:
  "scanIndices m ks cum r =
     (let i = indexOf (map (\<lambda>c. c \<ge> r) (arrayCumSum cum (map (glookup 0 m) ks))) in
      if i = 0 then None else Some (ks ! (i - 1)))"
  by (induction ks arbitrary: cum) (auto simp: Let_def)

lemma map_glookup_keys: "gomap_ok m \<Longrightarrow> map (glookup 0 m) (map fst m) = map snd m"
  by (auto simp: glookup_def)

lemma sum_sorted_keys:
  assumes "gomap_ok m"
  shows "sum_list (map (glookup 0 m) (sort (map fst m))) = (sum_list (map snd m) :: u64)"
proof -
  have "mset (map (glookup 0 m) (sort (map fst m))) = mset (map (glookup 0 m) (map fst m))"
    by (simp only: mset_map mset_sort)
  then show ?thesis by (metis map_glookup_keys [OF assms] sum_mset_sum_list)
qed

lemma sql_rank:
  assumes "0 \<le> q" and "q \<le> 1" and "tot \<noteq> 0"
  shows "(word_of_int (max 1 \<lceil>q * real (unat tot)\<rceil>) :: u64) = quantileRank q tot"
proof -
  define n where "n = unat tot"
  let ?c = "\<lceil>q * real n\<rceil>"
  have "0 \<le> q * real n" using assms(1) by simp
  moreover have "q * real n \<le> real n" using assms(1,2) by (simp add: mult_left_le_one_le)
  ultimately have c: "0 \<le> ?c" "?c \<le> int n" by linarith+
  have tot: "0 < n" "n < 2 ^ 64" using assms(3) unsigned_less [of tot, where ?'a = nat] by (simp_all add: n_def unat_gt_0)
  have u: "uint (word_of_int i :: u64) = i" if "0 \<le> i" "i \<le> int n" for i
    using that tot(2) by (simp add: uint_word_of_int)
  have "quantileRank q tot = min (max (word_of_int ?c) 1) tot"
    using assms(1,2) unfolding quantileRank_def Let_def n_def by simp
  moreover have "uint (min (max (word_of_int i) 1) tot) = max 1 i" if "0 \<le> i" "i \<le> int n" for i
  proof -
    have "uint tot = int n" by (simp add: n_def)
    with u [OF that] that tot(1) show ?thesis by (auto simp: min_def max_def word_le_def)
  qed
  then have "uint (min (max (word_of_int ?c) 1) tot) = max 1 ?c" using c by blast
  moreover have "uint (word_of_int (max 1 ?c) :: u64) = max 1 ?c" using c tot by (intro u) linarith+
  ultimately show ?thesis unfolding n_def by (metis word_uint_eq_iff)
qed

lemma percentileExpr_exact:
  assumes "gomap_ok m" and "sum_list (map snd m) = tot" and "tot \<noteq> 0" and "0 \<le> q" and "q \<le> 1"
  shows "percentileExpr q m tot = storageQuantile m q"
proof -
  define ks where "ks = sort (map fst m)"
  define cs where "cs = arrayCumSum 0 (map (glookup 0 m) ks)"
  define r where "r = quantileRank q tot"
  define i where "i = indexOf (map (\<lambda>c. c \<ge> r) cs)"
  have "m \<noteq> []" using assms(2,3) by auto
  then have "ks \<noteq> []" unfolding ks_def by (metis length_0_conv length_map length_sort)
  then have last: "last cs = tot" and cs: "cs \<noteq> []"
    using sum_sorted_keys [OF assms(1)] assms(2) by (simp_all add: cs_def ks_def last_arrayCumSum arrayCumSum_nonempty)
  have "r \<le> tot" using assms(3) by (simp add: r_def quantileRank_def Let_def)
  then have "True \<in> set (map (\<lambda>c. c \<ge> r) cs)" using last cs by (metis (mono_tags, lifting) image_eqI last_in_set list.set_map)
  then have pos: "0 < i" unfolding i_def by (rule indexOf_pos)
  have le: "i \<le> length ks" using indexOf_le [of "map (\<lambda>c. c \<ge> r) cs"] by (simp add: i_def cs_def)
  have "percentileExpr q m tot = 2 * (101 / 100) powi (ks ! (i - 1)) / (201 / 100)"
    using pos le sql_rank [OF assms(4,5,3)]
    by (simp add: percentileExpr_def Let_def arrayElement_def i_def cs_def ks_def r_def)
  moreover have "storageQuantile m q = bucketValue (ks ! (i - 1))"
  proof -
    have "scanIndices m ks 0 r = Some (ks ! (i - 1))"
      using pos by (simp add: scanIndices_indexOf Let_def i_def cs_def)
    then show ?thesis
      using storage_rank_eq [OF assms(4,5,3)] assms(2,3) unfolding storageQuantile_def
      by (simp only: assms(2) Let_def if_False ks_def [symmetric] r_def [symmetric] option.case)
  qed
  ultimately show ?thesis by (simp add: bucketValue_def)
qed

lemma gomap_ok_mergedSketch: "gomap_ok (mergedSketch rs)"
  by (simp add: mergedSketch_def gomap_ok_sumMap)

text \<open>A row whose count is the number of latencies in its sketch, as every client window has it.\<close>

definition sketchExact :: "Row \<Rightarrow> bool" where
  "sketchExact r \<longleftrightarrow> row_Count r = sum_list (map snd (sketchMap r))"

lemma sum_mergedSketch:
  "\<forall>r \<in> set rs. sketchExact r \<Longrightarrow> sum_list (map snd (mergedSketch rs)) = sumOf row_Count rs"
  by (simp add: mergedSketch_def sum_sumMap sumOf_def sketchExact_def comp_def cong: map_cong)

lemma pct_exact:
  assumes "\<forall>r \<in> set rs. sketchExact r" and "sumOf row_Count rs \<noteq> 0" and "0 \<le> q" and "q \<le> 1"
  shows "pct q rs = storageQuantile (mergedSketch rs) q"
  unfolding pct_def
  by (intro percentileExpr_exact gomap_ok_mergedSketch sum_mergedSketch assms)

lemma mapOfPairs_id: "gomap_ok ps \<Longrightarrow> mapOfPairs ps = ps"
proof -
  have "fold (\<lambda>(k, v) m. AList.update k v m) ps acc = acc @ ps" if "distinct (map fst (acc @ ps))" for acc
    using that
  proof (induction ps arbitrary: acc)
    case (Cons p ps)
    have "AList.update (fst p) (snd p) acc = acc @ [p]" if "fst p \<notin> fst ` set acc"
      using that by (induction acc) auto
    with Cons show ?case by (auto simp: split_def)
  qed simp
  then show "gomap_ok ps \<Longrightarrow> mapOfPairs ps = ps" unfolding mapOfPairs_def by fastforce
qed

lemma storageQuantile_perm:
  assumes "gomap_ok m" and "mset m' = mset m"
  shows "storageQuantile m' q = storageQuantile m q"
proof -
  have "map_of m' = map_of m" by (rule map_of_perm [OF assms])
  then have "glookup 0 m' = glookup 0 m" by (auto simp: glookup_def fun_eq_iff)
  then have "scanIndices m' ks cum r = scanIndices m ks cum r" for ks cum r
    by (induction ks arbitrary: cum) (auto simp: Let_def)
  moreover have "sort (map fst m') = sort (map fst m)"
    by (metis assms(2) mset_map mset_sort properties_for_sort sorted_sort)
  moreover have "sum_list (map snd m') = sum_list (map snd m)" by (metis assms(2) mset_map sum_mset_sum_list)
  ultimately show ?thesis unfolding storageQuantile_def by presburger
qed

lemma zip_map_self: "zip ks (map f ks) = map (\<lambda>k. (k, f k)) ks"
  by (induction ks) auto

lemma zip_sorted_keys:
  assumes "gomap_ok m"
  shows "mset (zip (sort (map fst m)) (map (glookup 0 m) (sort (map fst m)))) = mset m"
proof -
  have "(k, glookup 0 m k) = (k, v)" if "(k, v) \<in> set m" for k v
    using that assms by (simp add: glookup_def)
  then have "map ((\<lambda>k. (k, glookup 0 m k)) \<circ> fst) m = m" by (intro map_idI) auto
  then show ?thesis unfolding zip_map_self by (simp only: mset_map mset_sort multiset.map_comp) (simp flip: mset_map)
qed

text \<open>The percentiles of the detail page, computed in Go, are those of the merged sketch.\<close>

lemma detail_quantile:
  assumes "gomap_ok m"
  shows "storageQuantile (mapOfPairs (zip (sort (map fst m)) (map (glookup 0 m) (sort (map fst m))))) q =
    storageQuantile m q"
proof -
  let ?z = "zip (sort (map fst m)) (map (glookup 0 m) (sort (map fst m)))"
  have "map fst ?z = sort (map fst m)" by simp
  then have "mapOfPairs ?z = ?z" using assms by (intro mapOfPairs_id) simp
  with storageQuantile_perm [OF assms zip_sorted_keys [OF assms]] show ?thesis by simp
qed

section \<open>Scoping of the queries to one tenant\<close>

text \<open>Two connections that hold the same rows of a tenant, whatever they hold of the others.\<close>

definition sameTenant :: "tenantID \<Rightarrow> conn \<Rightarrow> conn \<Rightarrow> bool" where
  "sameTenant tid c c' \<longleftrightarrow>
     (\<forall>t. filter (\<lambda>r. row_Tenant r = tid) (cn_rows c t) = filter (\<lambda>r. row_Tenant r = tid) (cn_rows c' t)) \<and>
     filter (\<lambda>w. iw_Tenant w = tid) (cn_windows c) = filter (\<lambda>w. iw_Tenant w = tid) (cn_windows c') \<and>
     cn_ok c = cn_ok c' \<and> cn_groups c = cn_groups c'"

lemma filter_scoped: "filter (\<lambda>r. f r = tid \<and> P r) rs = filter P (filter (\<lambda>r. f r = tid) rs)"
  by (simp add: conj_commute)

lemma endpointRows_scoped:
  "endpointRows tid service method route from' to rs =
   endpointRows tid service method route from' to (filter (\<lambda>r. row_Tenant r = tid) rs)"
  by (simp add: endpointRows_def conj_commute conj_left_commute cong: conj_cong)

lemma sameTenant_endpointRows:
  assumes "sameTenant tid c c'"
  shows "endpointRows tid service method route from' to (cn_rows c t) =
    endpointRows tid service method route from' to (cn_rows c' t)"
  using assms endpointRows_scoped [of tid service "method" "route" from' to "cn_rows c t"]
    endpointRows_scoped [of tid service "method" "route" from' to "cn_rows c' t"]
  by (simp add: sameTenant_def)

lemma sameTenant_rows:
  assumes "sameTenant tid c c'"
  shows "filter (\<lambda>r. row_Tenant r = tid \<and> P r) (cn_rows c t) = filter (\<lambda>r. row_Tenant r = tid \<and> P r) (cn_rows c' t)"
  using assms unfolding filter_scoped [of row_Tenant] by (simp add: sameTenant_def)

lemma sameTenant_windows:
  assumes "sameTenant tid c c'"
  shows "filter (\<lambda>w. iw_Tenant w = tid \<and> P w) (cn_windows c) = filter (\<lambda>w. iw_Tenant w = tid \<and> P w) (cn_windows c')"
  using assms unfolding filter_scoped [of iw_Tenant] by (simp add: sameTenant_def)

lemma sameTenant_ok: "sameTenant tid c c' \<Longrightarrow> cn_ok c = cn_ok c' \<and> cn_groups c = cn_groups c'"
  by (simp add: sameTenant_def)

lemma tierQuery_cases:
  "tierQuery c from' to = (if cn_ok c then Inr (cn_rows c (ti_table (selectTier from' to))) else Inl QueryFailed)"
  by (cases "ti_table (selectTier from' to)") (simp_all add: tierQuery_def tierTables_def Let_def)

lemma sameTenant_has:
  assumes "sameTenant tid c c'"
  shows "list_ex (\<lambda>r. row_Tenant r = tid) (cn_rows c t) = list_ex (\<lambda>r. row_Tenant r = tid) (cn_rows c' t)"
proof -
  have "list_ex P rs \<longleftrightarrow> filter P rs \<noteq> []" for P and rs :: "Row list"
    by (auto simp: list_ex_iff filter_empty_conv)
  with assms show ?thesis by (simp add: sameTenant_def)
qed

text \<open>
  Every dashboard query is scoped to the tenant it is bound to: if two databases hold the same rows
  of the tenant then each query of the tenant's read interface returns the same result on both,
  whatever the rows of the other tenants.
\<close>

lemma queries_scoped_to_tenant:
  assumes "sameTenant tid c c'"
  shows "SeriesOverTime c tid service method route from' to step = SeriesOverTime c' tid service method route from' to step \<and>
    Services c tid from' to = Services c' tid from' to \<and>
    Endpoints c tid service from' to = Endpoints c' tid service from' to \<and>
    QueryEndpointDetail c tid service method route from' to = QueryEndpointDetail c' tid service method route from' to \<and>
    InstancesForEndpoint c tid service method route from' to = InstancesForEndpoint c' tid service method route from' to \<and>
    VersionsForEndpoint c tid service method route from' to = VersionsForEndpoint c' tid service method route from' to \<and>
    LatencyByStatusClass c tid service method route from' to = LatencyByStatusClass c' tid service method route from' to \<and>
    DownstreamForEndpoint c tid service method route from' to = DownstreamForEndpoint c' tid service method route from' to \<and>
    ExemplarsForEndpoint c tid service method route from' to = ExemplarsForEndpoint c' tid service method route from' to \<and>
    ErrorClassesForEndpoint c tid service method route from' to = ErrorClassesForEndpoint c' tid service method route from' to \<and>
    NoStatusReasonsForEndpoint c tid service method route from' to = NoStatusReasonsForEndpoint c' tid service method route from' to \<and>
    MemoryTrendForService c tid service from' to step = MemoryTrendForService c' tid service from' to step \<and>
    HasAnySummary c tid = HasAnySummary c' tid"
proof -
  note rows = sameTenant_endpointRows [OF assms] sameTenant_rows [OF assms] sameTenant_windows [OF assms]
    sameTenant_has [OF assms]
  have ok: "cn_ok c = cn_ok c'" "cn_groups c = cn_groups c'" using sameTenant_ok [OF assms] by simp_all
  show ?thesis
    unfolding SeriesOverTime_def Services_def Endpoints_def QueryEndpointDetail_def InstancesForEndpoint_def
      VersionsForEndpoint_def LatencyByStatusClass_def DownstreamForEndpoint_def ExemplarsForEndpoint_def detailRows_def
      ErrorClassesForEndpoint_def NoStatusReasonsForEndpoint_def MemoryTrendForService_def HasAnySummary_def
      query_templates tierQuery_cases ok
    by (cases "cn_ok c'") (simp_all only: rows if_True if_False sum.case simp_thms refl)
qed

definition demoConn :: "Row list \<Rightarrow> conn" where
  "demoConn rs = \<lparr>cn_rows = (\<lambda>t. rs), cn_windows = [], cn_parts = None, cn_ok = True, cn_groups = id\<rparr>"

definition queryRow :: Row where
  "queryRow = demoRow [(0, 2), (10, 1)] []"

section \<open>Exact percentiles on every page\<close>

lemma sumOf_nonempty: "sumOf f rs \<noteq> 0 \<Longrightarrow> rs \<noteq> []"
  by (auto simp: sumOf_def)

lemma sketchExact_subset:
  "\<forall>r \<in> set table. sketchExact r \<Longrightarrow> set rs \<subseteq> set table \<Longrightarrow> \<forall>r \<in> set rs. sketchExact r"
  by blast

text \<open>
  C9. The percentiles of the dashboard are quantiles of the merged sketches: when every stored row counts
  what its sketch holds, each bucket with traffic of a time series shows the p50, p95 and p99 that
  \<open>QuantileFromBuckets\<close> computes on the merged sketch of exactly the rows of the bucket, and the
  percentiles of the detail page, computed in Go, are those of the merged sketch of the endpoint's rows.
\<close>

theorem dashboard_percentiles_exact:
  assumes exact: "\<forall>t. \<forall>r \<in> set (cn_rows c t). sketchExact r"
    and series: "SeriesOverTime c tid service method route from' to step = Inr pts" and "p \<in> set pts" and "tp_Count p \<noteq> 0"
    and detail: "QueryEndpointDetail c tid service method route from' to = Inr d"
  shows "(\<exists>table stepSeconds g. buildSeriesQuery from' to step = Inr (table, stepSeconds) \<and>
      g = filter (\<lambda>r. startOfInterval stepSeconds (row_WindowStart r) = tp_TS p)
            (endpointRows tid service method route from' to (cn_rows c table)) \<and>
      tp_Count p = sum_list (map row_Count g) \<and>
      tp_P50 p = storageQuantile (mergedSketch g) (50 / 100) \<and> tp_P95 p = storageQuantile (mergedSketch g) (95 / 100) \<and>
      tp_P99 p = storageQuantile (mergedSketch g) (99 / 100)) \<and>
    (let rs = detailRows tid service method route from' to (cn_rows c (ti_table (selectTier from' to))) in
      ed_Count d = sum_list (map row_Count rs) \<and>
      ed_P50 d = storageQuantile (mergedSketch rs) (50 / 100) \<and> ed_P95 d = storageQuantile (mergedSketch rs) (95 / 100) \<and>
      ed_P99 d = storageQuantile (mergedSketch rs) (99 / 100))"
proof (intro conjI)
  obtain table s where b: "buildSeriesQuery from' to step = Inr (table, s)"
    using series by (cases "buildSeriesQuery from' to step") (auto simp: SeriesOverTime_def)
  define rs where "rs = endpointRows tid service method route from' to (cn_rows c table)"
  define bucket where "bucket = (\<lambda>r. startOfInterval s (row_WindowStart r))"
  have pts: "pts = seriesRows s rs"
    using series b by (simp add: SeriesOverTime_def rs_def split: if_splits)
  define g where "g = filter (\<lambda>r. startOfInterval s (row_WindowStart r) = tp_TS p) rs"
  have p: "tp_Count p = sumOf row_Count g" "tp_P50 p = pct (50 / 100) g" "tp_P95 p = pct (95 / 100) g"
    "tp_P99 p = pct (99 / 100) g"
    using assms(3) unfolding pts seriesRows_def Let_def groupBy_def g_def by auto
  have "set g \<subseteq> set (cn_rows c table)" by (auto simp: g_def rs_def endpointRows_def)
  then have e: "\<forall>r \<in> set g. sketchExact r" using exact by blast
  have "pct q g = storageQuantile (mergedSketch g) q" if "0 \<le> q" "q \<le> 1" for q
    using that assms(4) p(1) by (intro pct_exact e) simp_all
  then show "\<exists>table stepSeconds g. buildSeriesQuery from' to step = Inr (table, stepSeconds) \<and>
      g = filter (\<lambda>r. startOfInterval stepSeconds (row_WindowStart r) = tp_TS p)
            (endpointRows tid service method route from' to (cn_rows c table)) \<and>
      tp_Count p = sum_list (map row_Count g) \<and>
      tp_P50 p = storageQuantile (mergedSketch g) (50 / 100) \<and> tp_P95 p = storageQuantile (mergedSketch g) (95 / 100) \<and>
      tp_P99 p = storageQuantile (mergedSketch g) (99 / 100)"
    using b p by (intro exI [of _ table] exI [of _ s] exI [of _ g]) (simp add: g_def rs_def sumOf_def)
next
  define rs where "rs = detailRows tid service method route from' to (cn_rows c (ti_table (selectTier from' to)))"
  have "ed_Count d = sum_list (map row_Count rs) \<and> ed_P50 d = storageQuantile (mergedSketch rs) (50 / 100) \<and>
    ed_P95 d = storageQuantile (mergedSketch rs) (95 / 100) \<and> ed_P99 d = storageQuantile (mergedSketch rs) (99 / 100)"
    using detail unfolding QueryEndpointDetail_def endpointDetailQueryTemplate_def tierQuery_cases
    by (auto simp: Let_def buildEndpointDetail_def sumOf_def detail_quantile [OF gomap_ok_mergedSketch] simp flip: rs_def split: if_splits)
  then show "let rs = detailRows tid service method route from' to (cn_rows c (ti_table (selectTier from' to))) in
      ed_Count d = sum_list (map row_Count rs) \<and>
      ed_P50 d = storageQuantile (mergedSketch rs) (50 / 100) \<and> ed_P95 d = storageQuantile (mergedSketch rs) (95 / 100) \<and>
      ed_P99 d = storageQuantile (mergedSketch rs) (99 / 100)"
    unfolding rs_def Let_def .
qed

theorem dashboard_percentiles_exact_witness:
  "\<exists>pts d. SeriesOverTime (demoConn [queryRow]) ''tenant'' ''svc'' ''GET'' ''/users'' 0 minute minute = Inr pts \<and>
     QueryEndpointDetail (demoConn [queryRow]) ''tenant'' ''svc'' ''GET'' ''/users'' 0 minute = Inr d \<and>
     pts \<noteq> [] \<and> tp_P50 (hd pts) = ed_P50 d"
proof -
  let ?c = "demoConn [queryRow]"
  have row: "row_Tenant queryRow = ''tenant''" "row_Service queryRow = ''svc''" "row_Method queryRow = ''GET''"
    "row_RouteTemplate queryRow = ''/users''" "row_WindowStart queryRow = 0" "row_Count queryRow = 3"
    by (simp_all add: queryRow_def demoRow_def NewRow_def)
  have exact: "\<forall>t. \<forall>r \<in> set (cn_rows ?c t). sketchExact r"
    by (simp add: demoConn_def sketchExact_def sketchMap_def queryRow_def demoRow_def NewRow_def
        sortedSketch_def sortedByKey_def mapOfPairs_def)
  have b: "buildSeriesQuery 0 minute minute = Inr (tableRaw, 60)"
    by (simp add: buildSeriesQuery_def selectTier_def time_sub_def tierTables_def quot_def go_defs)
  have tier: "ti_table (selectTier 0 minute) = tableRaw" by (simp add: selectTier_def time_sub_def go_defs)
  have rows: "endpointRows ''tenant'' ''svc'' ''GET'' ''/users'' 0 minute [queryRow] = [queryRow]"
    "detailRows ''tenant'' ''svc'' ''GET'' ''/users'' 0 minute [queryRow] = [queryRow]"
    by (simp_all add: endpointRows_def detailRows_def optFilter_def inWindow_def row go_defs)
  have "startOfInterval 60 0 = 0" by (simp add: startOfInterval_def)
  then obtain p where series: "SeriesOverTime ?c ''tenant'' ''svc'' ''GET'' ''/users'' 0 minute minute = Inr [p]"
    and p: "tp_TS p = 0" "tp_Count p \<noteq> 0"
    using b rows by (simp add: SeriesOverTime_def demoConn_def seriesRows_def groupBy_def sumOf_def row Let_def)
  obtain d where detail: "QueryEndpointDetail ?c ''tenant'' ''svc'' ''GET'' ''/users'' 0 minute = Inr d"
    by (simp add: QueryEndpointDetail_def endpointDetailQueryTemplate_def tierQuery_cases demoConn_def Let_def)
  note h = dashboard_percentiles_exact [OF exact series _ p(2) detail]
  have "tp_P50 p = storageQuantile (mergedSketch [queryRow]) (50 / 100)"
    using h [THEN conjunct1] b p(1) rows by (auto simp: demoConn_def row startOfInterval_def)
  moreover have "ed_P50 d = storageQuantile (mergedSketch [queryRow]) (50 / 100)"
    using h [THEN conjunct2] rows by (simp add: demoConn_def Let_def)
  ultimately show ?thesis using series detail by auto
qed

text \<open>
  A series query always has a tier of the allowlist and a positive step: \<open>buildSeriesQuery\<close> never
  reports an error, the step it binds is at least ten seconds, and it is the requested step (in whole
  seconds) whenever that is not finer than the tier stores.
\<close>

theorem series_query_total:
  "\<exists>s. buildSeriesQuery from' to step = Inr (ti_table (selectTier from' to), s) \<and> 10 \<le> s \<and>
     s * second \<le> max step (ti_minStep (selectTier from' to)) \<and>
     (ti_minStep (selectTier from' to) \<le> step \<longrightarrow> s = step div second)"
proof -
  define t where "t = selectTier from' to"
  have t: "10 * second \<le> ti_minStep t" "ti_table t \<in> set tierTables"
    by (auto simp: t_def selectTier_def Let_def go_defs tierTables_def)
  define st where "st = max step (ti_minStep t)"
  have st: "10 * second \<le> st" using t by (simp add: st_def)
  then have q: "quot st second = st div second" by (simp add: quot_def go_defs sgn_if)
  have s: "10 \<le> st div second" "st div second * second \<le> st"
    using st by (simp_all add: go_defs)
  have "buildSeriesQuery from' to step = Inr (ti_table t, st div second)"
    using t(2) q s(1) by (auto simp: buildSeriesQuery_def Let_def t_def st_def max_def)
  then show ?thesis using s unfolding st_def t_def by auto
qed

text \<open>
  On a group of rows without requests the SQL reads bucket zero, almost a second, where
  \<open>QuantileFromBuckets\<close> gives zero.
\<close>

theorem sql_percentile_of_nothing: "percentileExpr q [] 0 = 200 / 201 \<and> storageQuantile [] q = 0"
  by (simp add: percentileExpr_def storageQuantile_def arrayElement_def)

end
