(* ===== verification/Go_Strconv.thy ===== *)
theory Go_Strconv
  imports Go_Strings
begin

text \<open>
  Decimal integers as Go's \<open>strconv\<close> prints and parses them: \<open>FormatInt(i, 10)\<close> and
  \<open>ParseInt(s, 10, 64)\<close> (an optional sign, at least one digit, nothing else, and the int64 range).
\<close>

definition digitChar :: "nat \<Rightarrow> char" where
  "digitChar d = char_of (48 + d)"

definition digitVal :: "char \<Rightarrow> nat option" where
  "digitVal c = (let n = of_char c in if 48 \<le> n \<and> n \<le> 57 then Some (n - 48) else None)"

fun natDigits :: "nat \<Rightarrow> string" where
  "natDigits n = (if n < 10 then [digitChar n] else natDigits (n div 10) @ [digitChar (n mod 10)])"

declare natDigits.simps [simp del]

definition formatInt :: "int \<Rightarrow> string" where
  "formatInt i = (if i < 0 then ''-'' @ natDigits (nat (- i)) else natDigits (nat i))"

fun digitsValue :: "nat \<Rightarrow> string \<Rightarrow> nat option" where
  "digitsValue acc [] = Some acc"
| "digitsValue acc (c # s) = (case digitVal c of None \<Rightarrow> None | Some d \<Rightarrow> digitsValue (acc * 10 + d) s)"

definition parseUint :: "string \<Rightarrow> nat option" where
  "parseUint s = (if s = '''' then None else digitsValue 0 s)"

definition parseInt64 :: "string \<Rightarrow> int option" where
  "parseInt64 s =
     (let neg = hasPrefix s ''-'';
          body = (if neg \<or> hasPrefix s ''+'' then tl s else s)
      in case parseUint body of
           None \<Rightarrow> None
         | Some n \<Rightarrow> (if \<not> neg \<and> int n \<ge> 2 ^ 63 \<or> neg \<and> int n > 2 ^ 63 then None
                      else Some (if neg then - int n else int n)))"

lemma digitVal_Char [simp]: "d < 10 \<Longrightarrow> digitVal (digitChar d) = Some d"
  by (simp add: digitVal_def digitChar_def Let_def)

lemma digitsValue_append:
  "digitsValue acc (s @ t) = (case digitsValue acc s of None \<Rightarrow> None | Some m \<Rightarrow> digitsValue m t)"
  by (induction s arbitrary: acc) (auto split: option.split)

lemma digitsValue_natDigits: "digitsValue 0 (natDigits n) = Some n"
proof (induction n rule: natDigits.induct)
  case (1 n)
  then show ?case by (subst natDigits.simps) (simp add: digitsValue_append)
qed

lemma natDigits_nonempty [simp]: "natDigits n \<noteq> []"
  by (subst natDigits.simps) simp

lemma natDigits_digits: "c \<in> set (natDigits n) \<Longrightarrow> digitVal c \<noteq> None"
proof (induction n rule: natDigits.induct)
  case (1 n)
  then show ?case by (subst (asm) (2) natDigits.simps) (auto split: if_splits)
qed

lemma hd_natDigits: "digitVal (hd (natDigits n)) \<noteq> None"
  using natDigits_digits natDigits_nonempty by (metis hd_in_set)

lemma hasPrefix_single: "hasPrefix s [c] \<longleftrightarrow> (s \<noteq> [] \<and> hd s = c)"
  by (cases s) (auto simp: hasPrefix_def)

lemma parseInt64_digits:
  assumes "s \<noteq> []" and "\<And>c. c \<in> set s \<Longrightarrow> digitVal c \<noteq> None"
  shows "\<not> hasPrefix s ''-'' \<and> \<not> hasPrefix s ''+''"
  using assms(2) [of "hd s"] assms(1) by (auto simp: hasPrefix_single digitVal_def Let_def)

lemma parse_format: "- (2 ^ 63) \<le> i \<Longrightarrow> i < 2 ^ 63 \<Longrightarrow> parseInt64 (formatInt i) = Some i"
proof (cases "i < 0")
  case True
  assume "- (2 ^ 63) \<le> i"
  with True show ?thesis
    by (simp add: parseInt64_def formatInt_def parseUint_def digitsValue_natDigits hasPrefix_def Let_def)
next
  case False
  assume "i < 2 ^ 63"
  moreover note parseInt64_digits [OF natDigits_nonempty natDigits_digits, of "nat i"]
  ultimately show ?thesis
    using False by (simp add: parseInt64_def formatInt_def parseUint_def digitsValue_natDigits Let_def)
qed

lemma formatInt_chars: "c \<in> set (formatInt i) \<Longrightarrow> c = CHR ''-'' \<or> digitVal c \<noteq> None"
  using natDigits_digits by (auto simp: formatInt_def split: if_splits)

lemma formatInt_no_bar: "CHR ''|'' \<notin> set (formatInt i)"
  using formatInt_chars [of "CHR ''|''" i] by (auto simp: digitVal_def Let_def)

end
