(* ===== verification/Go_Float.thy ===== *)
theory Go_Float
  imports Go_Strconv
begin

text \<open>
  Printing of floats as Go's \<open>strconv.FormatFloat\<close> does it, over the finite values read as reals:
  \<open>formatFixed d x\<close> is \<open>FormatFloat(x, 'f', d, 64)\<close> (rounded to nearest, ties to even) and
  \<open>formatG2 x\<close> is \<open>FormatFloat(x, 'g', 2, 64)\<close> for a positive value below one. Also
  \<open>math.Round\<close> (ties away from zero), \<open>strings.TrimSuffix\<close>, and the UTF-8 bytes of the few
  non-ASCII characters the dashboard prints.
\<close>

definition roundHalfEven :: "real \<Rightarrow> int" where
  "roundHalfEven x =
     (let f = \<lfloor>x\<rfloor>; r = x - of_int f in
      if r < 1 / 2 then f else if r > 1 / 2 then f + 1 else if even f then f else f + 1)"

definition mathRound :: "real \<Rightarrow> int" where
  "mathRound x = (if x < 0 then - \<lfloor>- x + 1 / 2\<rfloor> else \<lfloor>x + 1 / 2\<rfloor>)"

definition padLeft :: "nat \<Rightarrow> string \<Rightarrow> string" where
  "padLeft w s = replicate (w - length s) (CHR ''0'') @ s"

definition fixedDigits :: "nat \<Rightarrow> nat \<Rightarrow> string" where
  "fixedDigits d n =
     natDigits (n div 10 ^ d) @ (if d = 0 then '''' else ''.'' @ padLeft d (natDigits (n mod 10 ^ d)))"

definition formatFixed :: "nat \<Rightarrow> real \<Rightarrow> string" where
  "formatFixed d x = (if x < 0 then ''-'' else '''') @ fixedDigits d (nat (roundHalfEven (\<bar>x\<bar> * 10 ^ d)))"

text \<open>
  The decimal exponent of a value in (0, 1): how often it can be multiplied by ten while staying below
  one. The least positive float64 is above 10 to the power -324, so 324 steps are enough.
\<close>

fun decShift :: "nat \<Rightarrow> real \<Rightarrow> nat" where
  "decShift 0 x = 0"
| "decShift (Suc n) x = (if x \<ge> 1 then 0 else Suc (decShift n (x * 10)))"

definition maxDecShift :: nat where
  "maxDecShift = 324"

text \<open>
  Two significant digits: \<open>(n, k)\<close> stands for \<open>n / 10 ^ k\<close>, with a trailing zero of \<open>n\<close> dropped. The
  scientific form is used below 1e-4.
\<close>

definition sig2 :: "real \<Rightarrow> nat \<times> nat" where
  "sig2 x =
     (let k = decShift maxDecShift x;
          n = nat (roundHalfEven (x * 10 ^ (k + 1)));
          (n', k') = (if n \<ge> 100 then (10, k - 1) else (n, k))
      in if n' mod 10 = 0 then (n' div 10, k') else (n', k' + 1))"

definition formatG2 :: "real \<Rightarrow> string" where
  "formatG2 x =
     (let (n, k) = sig2 x; e = (if n < 10 then k else k - 1) in
      if e > 4 then
        (if n < 10 then natDigits n else natDigits (n div 10) @ ''.'' @ natDigits (n mod 10))
        @ ''e-'' @ padLeft 2 (natDigits e)
      else fixedDigits k n)"

definition trimSuffix :: "string \<Rightarrow> string \<Rightarrow> string" where
  "trimSuffix s suf = (if hasSuffix s suf then take (length s - length suf) s else s)"

definition emDash :: string where "emDash = [CHR 0xE2, CHR 0x80, CHR 0x94]"
definition enDash :: string where "enDash = [CHR 0xE2, CHR 0x80, CHR 0x93]"
definition arrowChar :: string where "arrowChar = [CHR 0xE2, CHR 0x86, CHR 0x92]"
definition timesChar :: string where "timesChar = [CHR 0xC3, CHR 0x97]"
definition middleDot :: string where "middleDot = [CHR 0xC2, CHR 0xB7]"
definition ellipsisChar :: string where "ellipsisChar = [CHR 0xE2, CHR 0x80, CHR 0xA6]"

section \<open>Rounding\<close>

lemma roundHalfEven_near: "\<bar>of_int (roundHalfEven x) - x\<bar> \<le> 1 / 2"
  unfolding roundHalfEven_def Let_def by (auto simp: abs_le_iff)

lemma roundHalfEven_nonneg: "0 \<le> x \<Longrightarrow> 0 \<le> roundHalfEven x"
  unfolding roundHalfEven_def Let_def by auto

lemma roundHalfEven_ge_1: "1 / 2 < x \<Longrightarrow> 1 \<le> roundHalfEven x"
  using roundHalfEven_near [of x] by linarith

lemma mathRound_near: "\<bar>of_int (mathRound x) - x\<bar> \<le> 1 / 2"
proof (cases "x < 0")
  case True
  then show ?thesis unfolding mathRound_def abs_le_iff by simp linarith
next
  case False
  then show ?thesis unfolding mathRound_def abs_le_iff by simp linarith
qed

lemma mathRound_int [simp]: "mathRound (of_int n) = n"
  unfolding mathRound_def by (auto simp: floor_unique)

lemma mathRound_ge_iff: "0 < n \<Longrightarrow> n \<le> mathRound x \<longleftrightarrow> of_int n - 1 / 2 \<le> x"
  unfolding mathRound_def by (auto simp: le_floor_iff) linarith+

section \<open>The printed decimal\<close>

text \<open>The value of a decimal string without sign: digits, optionally a point and more digits.\<close>

definition decimalValue :: "string \<Rightarrow> real option" where
  "decimalValue s =
     (case cutByte s (CHR ''.'') of (ip, fp, dot) \<Rightarrow>
        (case parseUint ip of
           None \<Rightarrow> None
         | Some i \<Rightarrow>
             if \<not> dot then Some (of_nat i)
             else (case parseUint fp of None \<Rightarrow> None | Some f \<Rightarrow> Some (of_nat i + of_nat f / 10 ^ length fp))))"

lemma digitsValue_zeros: "digitsValue 0 (replicate n (CHR ''0'') @ s) = digitsValue 0 s"
proof (induction n)
  case (Suc n)
  have "digitVal (CHR ''0'') = Some 0" by (simp add: digitVal_def)
  with Suc show ?case by simp
qed simp

lemma natDigits_no_dot: "CHR ''.'' \<notin> set (natDigits n)"
  using natDigits_digits [of "CHR ''.''" n] by (auto simp: digitVal_def)

lemma length_natDigits: "n < 10 ^ d \<Longrightarrow> 0 < d \<Longrightarrow> length (natDigits n) \<le> d"
proof (induction d arbitrary: n)
  case (Suc d)
  show ?case
  proof (cases "n < 10")
    case True
    then show ?thesis by (subst natDigits.simps) simp
  next
    case False
    then have "0 < d" using Suc.prems by (cases d) auto
    moreover have "n div 10 < 10 ^ d" using Suc.prems(1) by (simp add: less_mult_imp_div_less mult.commute)
    ultimately have "length (natDigits (n div 10)) \<le> d" by (rule Suc.IH [rotated])
    then show ?thesis using False by (subst natDigits.simps) simp
  qed
qed simp

lemma parseUint_natDigits: "parseUint (natDigits n) = Some n"
  by (simp add: parseUint_def digitsValue_natDigits)

lemma parseUint_pad: "parseUint (padLeft w (natDigits n)) = Some n"
  by (simp add: parseUint_def padLeft_def digitsValue_zeros digitsValue_natDigits)

lemma length_padLeft: "length s \<le> w \<Longrightarrow> length (padLeft w s) = w"
  by (simp add: padLeft_def)

lemma decimalValue_fixedDigits: "decimalValue (fixedDigits d n) = Some (of_nat n / 10 ^ d)"
proof (cases "d = 0")
  case True
  then show ?thesis
    by (simp add: decimalValue_def fixedDigits_def cutByte_notin natDigits_no_dot parseUint_natDigits)
next
  case False
  let ?i = "n div 10 ^ d" and ?f = "n mod 10 ^ d"
  have len: "length (padLeft d (natDigits ?f)) = d"
    using False by (intro length_padLeft length_natDigits) auto
  have "real (10 ^ d * ?i + ?f) = real n" by (simp only: mult_div_mod_eq)
  then have "10 ^ d * real ?i + real ?f = real n"
    by (simp only: of_nat_add of_nat_mult of_nat_power of_nat_numeral)
  then have "real ?i + real ?f / 10 ^ d = real n / 10 ^ d" by (simp add: field_simps)
  with False len show ?thesis
    by (simp add: decimalValue_def fixedDigits_def cutByte_append natDigits_no_dot parseUint_natDigits parseUint_pad)
qed

text \<open>Printing with \<open>d\<close> decimals gives a decimal within half a unit of the last place.\<close>

lemma formatFixed_near:
  assumes "0 \<le> x"
  obtains v where "decimalValue (formatFixed d x) = Some v" "\<bar>v - x\<bar> \<le> 1 / (2 * 10 ^ d)"
proof
  let ?n = "roundHalfEven (\<bar>x\<bar> * 10 ^ d)"
  have n: "0 \<le> ?n" by (simp add: roundHalfEven_nonneg)
  show "decimalValue (formatFixed d x) = Some (of_int ?n / 10 ^ d)"
    using assms n by (simp add: formatFixed_def decimalValue_fixedDigits)
  have "\<bar>of_int ?n - x * 10 ^ d\<bar> \<le> 1 / 2" using roundHalfEven_near [of "\<bar>x\<bar> * 10 ^ d"] assms by simp
  then have "\<bar>of_int ?n - x * 10 ^ d\<bar> / 10 ^ d \<le> (1 / 2) / 10 ^ d" by (intro divide_right_mono) auto
  moreover have "\<bar>of_int ?n - x * 10 ^ d\<bar> / 10 ^ d = \<bar>of_int ?n / 10 ^ d - x\<bar>"
    by (simp add: abs_if field_simps)
  ultimately show "\<bar>of_int ?n / 10 ^ d - x\<bar> \<le> 1 / (2 * 10 ^ d)" by simp
qed

section \<open>Two significant digits\<close>

lemma decShift_scale:
  assumes "x < 1" and "1 \<le> x * 10 ^ n"
  shows "1 \<le> x * 10 ^ decShift n x \<and> x * 10 ^ decShift n x < 10 \<and> 0 < decShift n x"
  using assms
proof (induction n x rule: decShift.induct)
  case (2 n x)
  show ?case
  proof (cases "x * 10 < 1")
    case True
    with 2 show ?thesis by (simp add: mult.assoc)
  next
    case False
    with 2 have "decShift (Suc n) x = 1" by (cases n) auto
    with False 2 show ?thesis by simp
  qed
qed simp

lemma sig2_pos:
  assumes "0 < x" and "x < 1" and "1 \<le> x * 10 ^ maxDecShift"
  shows "0 < fst (sig2 x)"
proof -
  define k where "k = decShift maxDecShift x"
  have k: "1 \<le> x * 10 ^ k" using decShift_scale [OF assms(2,3)] by (simp add: k_def)
  define n where "n = nat (roundHalfEven (x * 10 ^ (k + 1)))"
  have "10 \<le> x * 10 ^ (k + 1)" using k by simp
  then have "real_of_int (roundHalfEven (x * 10 ^ (k + 1))) \<ge> 10 - 1 / 2"
    using roundHalfEven_near [of "x * 10 ^ (k + 1)"] by linarith
  then have n: "10 \<le> n" unfolding n_def by linarith
  have "sig2 x = (let (n', k') = (if n \<ge> 100 then (10, k - 1) else (n, k))
      in if n' mod 10 = 0 then (n' div 10, k') else (n', k' + 1))"
    unfolding sig2_def k_def n_def Let_def by simp
  with n show ?thesis by (auto simp: div_greater_zero_iff)
qed

lemma fixedDigits_pos: "0 < n \<Longrightarrow> fixedDigits k n \<noteq> ''0''"
proof
  assume "0 < n" "fixedDigits k n = ''0''"
  then have "decimalValue ''0'' = Some (of_nat n / 10 ^ k)" using decimalValue_fixedDigits [of k n] by simp
  moreover have "decimalValue ''0'' = Some 0"
    by (simp add: decimalValue_def cutByte_notin parseUint_def digitVal_def)
  ultimately show False using \<open>0 < n\<close> by simp
qed

lemma formatG2_nonzero:
  assumes "0 < x" and "x < 1" and "1 \<le> x * 10 ^ maxDecShift"
  shows "formatG2 x \<noteq> ''0''"
proof -
  obtain n k where nk: "sig2 x = (n, k)" by fastforce
  define e where "e = (if n < 10 then k else k - 1)"
  define m where "m = (if n < 10 then natDigits n else natDigits (n div 10) @ ''.'' @ natDigits (n mod 10))"
  have "formatG2 x = (if e > 4 then m @ ''e-'' @ padLeft 2 (natDigits e) else fixedDigits k n)"
    unfolding formatG2_def nk e_def m_def Let_def by simp
  moreover have "m @ ''e-'' @ padLeft 2 (natDigits e) \<noteq> ''0''"
    by (auto simp: append_eq_Cons_conv)
  moreover have "0 < n" using sig2_pos [OF assms] nk by simp
  ultimately show ?thesis using fixedDigits_pos by simp
qed

end
