(* ===== verification/Web_Format.thy ===== *)
theory Web_Format
  imports Go_Float Prelude
begin

text \<open>
  The presentation formatters and colour classes of the dashboard (server/internal/web/chrome_format.go
  and \<open>fmtRatio\<close> of verdict.go). Rates, latencies and sizes are finite floats, read as reals.
\<close>

section \<open>Formatters\<close>

definition fmtRate :: "real \<Rightarrow> string" where
  "fmtRate r =
     (if r \<ge> 1000 then trimSuffix (formatFixed 1 (r / 1000)) ''.0'' @ ''k''
      else if r \<ge> 1 then formatFixed 0 r
      else if r > 0 then formatG2 r
      else ''0'')"

definition fmtCount :: "u64 \<Rightarrow> string" where
  "fmtCount c =
     (let f = real (unat c) in
      if f \<ge> 1000000 then formatFixed 1 (f / 1000000) @ ''M''
      else if f \<ge> 1000 then formatFixed 1 (f / 1000) @ ''k''
      else natDigits (unat c))"

definition fmtPctD :: "real \<Rightarrow> string" where
  "fmtPctD f = formatFixed (if f \<ge> 1 / 10 then 1 else 2) (f * 100) @ ''%''"

definition fmtMsVal :: "real \<Rightarrow> string" where
  "fmtMsVal sec =
     (let ms = sec * 1000 in
      if ms \<ge> 1000 then formatFixed 2 (ms / 1000)
      else if ms < 10 then formatFixed 1 ms
      else formatFixed 0 ms)"

definition fmtMsUnit :: "real \<Rightarrow> string" where
  "fmtMsUnit sec = (if sec * 1000 \<ge> 1000 then ''s'' else ''ms'')"

definition fmtMsFull :: "real \<Rightarrow> string" where
  "fmtMsFull sec = fmtMsVal sec @ '' '' @ fmtMsUnit sec"

definition fmtCores :: "real \<Rightarrow> string" where
  "fmtCores c = formatFixed 2 c @ '' cores''"

definition fmtBytes :: "real \<Rightarrow> string" where
  "fmtBytes avg =
     (if avg \<ge> 2 ^ 30 then trimSuffix (formatFixed 2 (avg / 2 ^ 30)) ''.00'' @ '' GB''
      else if avg \<ge> 2 ^ 20 then trimSuffix (formatFixed 1 (avg / 2 ^ 20)) ''.0'' @ '' MB''
      else if avg \<ge> 2 ^ 10 then trimSuffix (formatFixed 1 (avg / 2 ^ 10)) ''.0'' @ '' KB''
      else formatFixed 0 avg @ '' B'')"

definition fmtCompact :: "real \<Rightarrow> string" where
  "fmtCompact f =
     (if f \<ge> 10 ^ 9 then trimSuffix (formatFixed 1 (f / 10 ^ 9)) ''.0'' @ ''bn''
      else if f \<ge> 10 ^ 6 then trimSuffix (formatFixed 1 (f / 10 ^ 6)) ''.0'' @ ''M''
      else if f \<ge> 10 ^ 3 then trimSuffix (formatFixed 1 (f / 10 ^ 3)) ''.0'' @ ''k''
      else formatFixed 0 f)"

definition fmtSpread :: "real \<Rightarrow> real \<Rightarrow> string" where
  "fmtSpread p50 p95 =
     (if p50 \<le> 0 \<or> p95 \<le> 0 then emDash else formatFixed 2 (p95 / p50) @ timesChar)"

definition fmtRatio :: "real \<Rightarrow> string" where
  "fmtRatio x = formatFixed 1 x @ timesChar"

section \<open>Colour classes\<close>

definition errClass :: "real \<Rightarrow> string" where
  "errClass f = (if f \<ge> 5 / 100 then ''c-err'' else if f \<ge> 2 / 100 then ''c-warn'' else ''c-txt2'')"

definition p99Class :: "real \<Rightarrow> string" where
  "p99Class sec = (if sec \<ge> 6 / 10 then ''c-warn'' else ''c-txt2'')"

definition spreadClass :: "real \<Rightarrow> real \<Rightarrow> string" where
  "spreadClass p50 p95 =
     (if p50 \<le> 0 \<or> p95 \<le> 0 then ''c-txt'' else if p95 / p50 \<ge> 25 / 10 then ''c-warn'' else ''c-txt'')"

definition healthClass :: "real \<Rightarrow> string" where
  "healthClass f = (if f \<ge> 5 / 100 then ''dot-err'' else if f \<ge> 2 / 100 then ''dot-warn'' else ''dot-ok'')"

definition methodClass :: "string \<Rightarrow> string" where
  "methodClass m =
     (if m = ''GET'' then ''m-get'' else if m = ''POST'' then ''m-post''
      else if m = ''DELETE'' then ''m-delete'' else if m = ''PUT'' then ''m-put''
      else if m = ''PATCH'' then ''m-patch'' else ''m-other'')"

definition codeClass :: "u32 \<Rightarrow> string" where
  "codeClass code =
     (if code \<ge> 200 \<and> code < 300 then ''c-ok'' else if code < 400 then ''c-blue''
      else if code < 500 then ''c-warn'' else ''c-err'')"

definition classBarClass :: "string \<Rightarrow> string" where
  "classBarClass c =
     (if c = ''2xx'' then ''bar-ok'' else if c = ''3xx'' then ''bar-blue''
      else if c = ''4xx'' then ''bar-warn'' else if c = ''5xx'' \<or> c = ''no_status'' then ''bar-err''
      else ''bar-txt3'')"

section \<open>What a rate shows\<close>

text \<open>
  Only a zero rate prints as zero: for every float64 rate (a positive one is at least 1e-324), the cell
  reads ``0'' exactly when the rate is not positive.
\<close>

theorem fmtRate_zero:
  assumes "0 < r \<longrightarrow> 1 \<le> r * 10 ^ maxDecShift"
  shows "fmtRate r = ''0'' \<longleftrightarrow> r \<le> 0"
proof (cases "r < 1")
  case True
  then show ?thesis using formatG2_nonzero [of r] assms by (auto simp: fmtRate_def)
next
  case False
  have "formatFixed 0 r \<noteq> ''0''"
    using False roundHalfEven_ge_1 [of r] fixedDigits_pos [of "nat (roundHalfEven r)" 0]
    by (simp add: formatFixed_def)
  then show ?thesis using False by (auto simp: fmtRate_def append_eq_Cons_conv)
qed

theorem fmtRate_zero_witness: "fmtRate (1 / 2) \<noteq> ''0''"
  using fmtRate_zero [of "1 / 2"] by (simp add: maxDecShift_def)

end
