(* ===== verification/Stable_Sort.thy ===== *)
theory Stable_Sort
  imports Prelude "HOL-Library.Multiset"
begin

text \<open>
  Go's \<open>sort.SliceStable\<close> with a caller's less function, as a stable insertion sort. For a strict
  weak order the result of a stable sort is determined: it is the permutation that is ordered and keeps
  the order of equivalent elements, and the locale \<open>weak_order\<close> proves that \<open>stableSort\<close> is it. The
  less functions of the dashboard interpret the locale where they are defined.
\<close>

fun insertBy :: "('a \<Rightarrow> 'a \<Rightarrow> bool) \<Rightarrow> 'a \<Rightarrow> 'a list \<Rightarrow> 'a list" where
  "insertBy lt x [] = [x]"
| "insertBy lt x (y # ys) = (if lt y x then y # insertBy lt x ys else x # y # ys)"

definition stableSort :: "('a \<Rightarrow> 'a \<Rightarrow> bool) \<Rightarrow> 'a list \<Rightarrow> 'a list" where
  "stableSort lt xs = foldr (insertBy lt) xs []"

lemma stableSort_simps [simp]:
  "stableSort lt [] = []"
  "stableSort lt (x # xs) = insertBy lt x (stableSort lt xs)"
  by (simp_all add: stableSort_def)

lemma mset_insertBy [simp]: "mset (insertBy lt x ys) = add_mset x (mset ys)"
  by (induction ys) auto

lemma mset_stableSort [simp]: "mset (stableSort lt xs) = mset xs"
  by (induction xs) auto

lemma set_stableSort [simp]: "set (stableSort lt xs) = set xs"
  by (metis mset_stableSort set_mset_mset)

lemma length_stableSort [simp]: "length (stableSort lt xs) = length xs"
  by (metis mset_stableSort size_mset)

locale weak_order =
  fixes lt :: "'a \<Rightarrow> 'a \<Rightarrow> bool"
  assumes asym: "lt x y \<Longrightarrow> \<not> lt y x"
    and neg_trans: "\<not> lt x y \<Longrightarrow> \<not> lt y z \<Longrightarrow> \<not> lt x z"
begin

lemma lt_trans: "lt x y \<Longrightarrow> lt y z \<Longrightarrow> lt x z"
  using asym neg_trans by blast

lemma insertBy_sorted:
  "sorted_wrt (\<lambda>x y. \<not> lt y x) ys \<Longrightarrow> sorted_wrt (\<lambda>x y. \<not> lt y x) (insertBy lt x ys)"
proof (induction ys)
  case (Cons y ys)
  show ?case
  proof (cases "lt y x")
    case True
    have "set (insertBy lt x ys) = insert x (set ys)"
      by (metis mset_insertBy set_mset_add_mset_insert set_mset_mset)
    with True Cons asym show ?thesis by auto
  next
    case False
    then have "\<not> lt z x" if "z \<in> set ys" for z using Cons.prems that neg_trans by (auto dest: neg_trans)
    with False Cons.prems show ?thesis by auto
  qed
qed simp

lemma stableSort_sorted: "sorted_wrt (\<lambda>x y. \<not> lt y x) (stableSort lt xs)"
  by (induction xs) (simp_all add: insertBy_sorted)

lemma filter_insertBy:
  "sorted_wrt (\<lambda>x y. \<not> lt y x) ys \<Longrightarrow>
   filter (\<lambda>y. \<not> lt e y \<and> \<not> lt y e) (insertBy lt x ys) = (if \<not> lt e x \<and> \<not> lt x e then x # filter (\<lambda>y. \<not> lt e y \<and> \<not> lt y e) ys else filter (\<lambda>y. \<not> lt e y \<and> \<not> lt y e) ys)"
proof (induction ys)
  case (Cons y ys)
  have "\<not> (\<not> lt e y \<and> \<not> lt y e)" if "\<not> lt e x \<and> \<not> lt x e" "lt y x"
    using that neg_trans by blast
  with Cons show ?case by auto
qed simp

lemma stableSort_stable: "filter (\<lambda>y. \<not> lt e y \<and> \<not> lt y e) (stableSort lt xs) = filter (\<lambda>y. \<not> lt e y \<and> \<not> lt y e) xs"
  by (induction xs) (simp_all add: filter_insertBy stableSort_sorted)

lemma hd_stableSort:
  assumes "y \<in> set xs"
  shows "\<not> lt y (hd (stableSort lt xs))"
proof (cases "stableSort lt xs")
  case Nil
  with assms show ?thesis by (metis length_0_conv length_stableSort list.set(1) empty_iff)
next
  case (Cons z zs)
  have "y \<in> set (z # zs)" using assms Cons by (metis set_stableSort)
  then show ?thesis using stableSort_sorted [of xs] asym Cons by auto
qed

end

end
