(* ===== verification/Dashboard_Auth.thy ===== *)
theory Dashboard_Auth
  imports Go_Strconv Go_Url Control
begin

text \<open>
  The dashboard's authentication, src/server/internal/auth/: signed sessions (session.go), signed
  cookies and the redirect sanitizer (auth.go), providers (oauth.go), identities (userinfo.go), the
  login handlers (handlers.go), the middleware (middleware.go), and the form tokens of
  src/server/internal/web/csrf.go, which are signed with the same key.

  HMAC-SHA256 under the configured key is a function \<open>mac\<close>; a response is the reply and the cookies
  set on it. The OAuth exchange and the userinfo call are functions the record \<open>auth\<close> holds, and what
  the random source gave is an argument.
\<close>

section \<open>Sessions (session.go)\<close>

record Session =
  ss_OrgID :: string
  ss_MemberID :: string
  ss_Role :: string
  ss_Exp :: instant

text \<open>\<open>time.Unix(sec, 0)\<close>: the seconds since year 1 wrap at 64 bits.\<close>

definition unixTime :: "int \<Rightarrow> instant" where
  "unixTime sec = (wrap64 (sec + 62135596800) - 62135596800) * second"

definition unixSec :: "instant \<Rightarrow> int" where
  "unixSec t = t div second"

definition newSigner :: "string \<Rightarrow> string option" where
  "newSigner key = (if length key < 32 then None else Some key)"

definition signed :: "(string \<Rightarrow> string) \<Rightarrow> string \<Rightarrow> string" where
  "signed mac payload = b64Encode payload @ ''.'' @ b64Encode (mac payload)"

text \<open>The part that the three readers of signed values share: the payload when its MAC verifies.\<close>

definition verified :: "(string \<Rightarrow> string) \<Rightarrow> string \<Rightarrow> string option" where
  "verified mac v =
     (case indexByte v (CHR ''.'') of
        None \<Rightarrow> None
      | Some dot \<Rightarrow>
          (case b64Decode (take dot v) of
             None \<Rightarrow> None
           | Some payload \<Rightarrow>
               (case b64Decode (drop (dot + 1) v) of
                  None \<Rightarrow> None
                | Some gotMAC \<Rightarrow> if gotMAC \<noteq> mac payload then None else Some payload)))"

definition sessionPayload :: "Session \<Rightarrow> string" where
  "sessionPayload sess = joinWith ''|'' [ss_OrgID sess, ss_MemberID sess, ss_Role sess, formatInt (unixSec (ss_Exp sess))]"

definition session_encode :: "(string \<Rightarrow> string) \<Rightarrow> Session \<Rightarrow> string" where
  "session_encode mac sess = signed mac (sessionPayload sess)"

definition session_decode :: "(string \<Rightarrow> string) \<Rightarrow> string \<Rightarrow> instant \<Rightarrow> Session option" where
  "session_decode mac v now =
     (case verified mac v of
        None \<Rightarrow> None
      | Some payload \<Rightarrow>
          let parts = splitByte (CHR ''|'') payload in
          if length parts \<noteq> 4 then None
          else (case parseInt64 (parts ! 3) of
                  None \<Rightarrow> None
                | Some expUnix \<Rightarrow>
                    let exp' = unixTime expUnix in
                    if \<not> exp' > now then None
                    else Some \<lparr>ss_OrgID = parts ! 0, ss_MemberID = parts ! 1, ss_Role = parts ! 2, ss_Exp = exp'\<rparr>))"

lemma verified_signed [simp]: "verified mac (signed mac p) = Some p"
proof -
  have "indexByte (signed mac p) (CHR ''.'') = Some (length (b64Encode p))"
    unfolding signed_def using indexByte_append [OF b64Encode_no_dot, of p "b64Encode (mac p)"] by simp
  then show ?thesis by (simp add: verified_def signed_def b64_roundtrip)
qed

lemma verified_mac:
  "verified mac v = Some p \<Longrightarrow>
   \<exists>a b. v = a @ ''.'' @ b \<and> CHR ''.'' \<notin> set a \<and> b64Decode a = Some p \<and> b64Decode b = Some (mac p)"
  using indexByte_Some [of v "CHR ''.''"]
  by (auto simp: verified_def split: option.splits if_splits)

section \<open>Form tokens (web/csrf.go)\<close>

definition csrf_issue :: "(string \<Rightarrow> string) \<Rightarrow> string \<Rightarrow> string \<Rightarrow> string" where
  "csrf_issue mac tenant nonce = signed mac (tenant @ ''|'' @ b64Encode nonce)"

definition csrf_verify :: "(string \<Rightarrow> string) \<Rightarrow> string \<Rightarrow> string \<Rightarrow> bool" where
  "csrf_verify mac tenant tok =
     (case verified mac tok of
        None \<Rightarrow> False
      | Some payload \<Rightarrow> hasPrefix payload (tenant @ ''|'') \<and> length payload > length (tenant @ ''|''))"

section \<open>Redirect targets (auth.go)\<close>

text \<open>
  \<open>url.Parse\<close> of a string that starts with a slash and not with two: no scheme and no host; an error for
  a control character before the fragment or an invalid escape in the path or the fragment.
\<close>

definition urlParse_rooted :: "string \<Rightarrow> (string \<times> string) option" where
  "urlParse_rooted s =
     (case cutByte s (CHR ''#'') of
        (u, frag, _) \<Rightarrow>
          (case cutByte u (CHR ''?'') of
             (path, _, _) \<Rightarrow>
               if list_ex isCTL u \<or> badEscape path \<or> badEscape frag then None else Some ('''', '''')))"

definition safeNext :: "string \<Rightarrow> string" where
  "safeNext next' =
     (if next' = '''' \<or> \<not> hasPrefix next' ''/'' \<or> hasPrefix next' ''//'' \<or> hasPrefix next' [CHR ''/'', CHR 0x5C] then ''/''
      else (case urlParse_rooted next' of
              None \<Rightarrow> ''/''
            | Some (scheme, host) \<Rightarrow> if scheme \<noteq> '''' \<or> host \<noteq> '''' then ''/'' else next'))"

section \<open>Providers (oauth.go)\<close>

datatype providerName = providerGitHub | providerGoogle

fun providerString :: "providerName \<Rightarrow> string" where
  "providerString providerGitHub = ''github''"
| "providerString providerGoogle = ''google''"

record oauthConfig =
  oc_ClientID :: string
  oc_ClientSecret :: string
  oc_RedirectURL :: string
  oc_Scopes :: "string list"

record ProviderConfig =
  pc_GitHubClientID :: string
  pc_GitHubClientSecret :: string
  pc_GoogleClientID :: string
  pc_GoogleClientSecret :: string
  pc_BaseURL :: string

definition trimRightByte :: "char \<Rightarrow> string \<Rightarrow> string" where
  "trimRightByte c s = rev (dropWhile (\<lambda>x. x = c) (rev s))"

definition buildProvider :: "providerName \<Rightarrow> string \<Rightarrow> string \<Rightarrow> string \<Rightarrow> oauthConfig option" where
  "buildProvider name clientID clientSecret baseURL =
     (if clientID = '''' \<or> clientSecret = '''' then None
      else Some \<lparr>oc_ClientID = clientID, oc_ClientSecret = clientSecret,
        oc_RedirectURL = trimRightByte (CHR ''/'') baseURL @ ''/auth/'' @ providerString name @ ''/callback'',
        oc_Scopes = (case name of providerGitHub \<Rightarrow> [''read:user'', ''user:email''] | providerGoogle \<Rightarrow> [''openid'', ''email''])\<rparr>)"

definition buildProviders :: "ProviderConfig \<Rightarrow> (providerName, oauthConfig) gomap" where
  "buildProviders pc =
     (case buildProvider providerGitHub (pc_GitHubClientID pc) (pc_GitHubClientSecret pc) (pc_BaseURL pc) of
        None \<Rightarrow> [] | Some p \<Rightarrow> [(providerGitHub, p)]) @
     (case buildProvider providerGoogle (pc_GoogleClientID pc) (pc_GoogleClientSecret pc) (pc_BaseURL pc) of
        None \<Rightarrow> [] | Some p \<Rightarrow> [(providerGoogle, p)])"

text \<open>The path segment names a provider after lowering; any other name is in no provider map.\<close>

definition providerFromPath :: "string \<Rightarrow> providerName option" where
  "providerFromPath v =
     (if lower v = ''github'' then Some providerGitHub else if lower v = ''google'' then Some providerGoogle else None)"

section \<open>Identities (userinfo.go)\<close>

record identity =
  id_Subject :: string
  id_Email :: string

datatype userinfoError = RequestFailed | BadStatus int | BodyTooLarge | DecodeFailed | NoId | NoVerifiedEmail

definition maxUserinfoBytes :: nat where
  "maxUserinfoBytes = 2 ^ 20"

text \<open>What the HTTP client gave: an error, or a status, the body and whether it could be read to its end.\<close>

record httpReply =
  hr_StatusCode :: int
  hr_Body :: string
  hr_readError :: bool

definition getJSON :: "(string \<Rightarrow> 'v option) \<Rightarrow> httpReply option \<Rightarrow> userinfoError + 'v" where
  "getJSON unmarshal reply =
     (case reply of
        None \<Rightarrow> Inl RequestFailed
      | Some resp \<Rightarrow>
          if hr_StatusCode resp \<noteq> 200 then Inl (BadStatus (hr_StatusCode resp))
          else if hr_readError resp then Inl RequestFailed
          else if length (hr_Body resp) \<ge> maxUserinfoBytes + 1 then Inl BodyTooLarge
          else (case unmarshal (hr_Body resp) of None \<Rightarrow> Inl DecodeFailed | Some v \<Rightarrow> Inr v))"

record githubEmail =
  ge_Email :: string
  ge_Primary :: bool
  ge_Verified :: bool

definition githubIdentity :: "userinfoError + int \<Rightarrow> userinfoError + githubEmail list \<Rightarrow> userinfoError + identity" where
  "githubIdentity user emails =
     (case user of
        Inl e \<Rightarrow> Inl e
      | Inr uid \<Rightarrow>
          if uid = 0 then Inl NoId
          else (case emails of
                  Inl e \<Rightarrow> Inl e
                | Inr es \<Rightarrow>
                    (case find (\<lambda>e. ge_Primary e \<and> ge_Verified e) es of
                       None \<Rightarrow> Inl NoVerifiedEmail
                     | Some e \<Rightarrow> if ge_Email e = '''' then Inl NoVerifiedEmail
                                 else Inr \<lparr>id_Subject = ''github:'' @ formatInt uid, id_Email = ge_Email e\<rparr>)))"

record googleInfo =
  gi_Sub :: string
  gi_Email :: string
  gi_EmailVerified :: bool

definition googleIdentity :: "userinfoError + googleInfo \<Rightarrow> userinfoError + identity" where
  "googleIdentity info =
     (case info of
        Inl e \<Rightarrow> Inl e
      | Inr i \<Rightarrow>
          if gi_Sub i = '''' then Inl NoId
          else if \<not> gi_EmailVerified i \<or> gi_Email i = '''' then Inl NoVerifiedEmail
          else Inr \<lparr>id_Subject = ''google:'' @ gi_Sub i, id_Email = gi_Email i\<rparr>)"

section \<open>Requests, responses and the auth layer (auth.go)\<close>

record httpRequest =
  rq_path :: string
  rq_provider :: string
  rq_query :: "string \<Rightarrow> string"
  rq_form :: "string \<Rightarrow> string"
  rq_cookies :: "(string \<times> string) list"

record cookie =
  ck_Name :: string
  ck_Value :: string
  ck_MaxAge :: int
  ck_Secure :: bool

datatype reply =
    Redirect string
  | HttpError int string
  | UnauthorizedJSON
  | LoginPage bool bool bool string
  | KeyPage string string

text \<open>
  The response writer: the header being built, and what went out. The first write sends the header as it
  is at that moment; a cookie set later is not sent.
\<close>

record rw =
  rw_header :: "cookie list"
  rw_sent :: "(reply \<times> cookie list) option"

definition newRW :: rw where
  "newRW = \<lparr>rw_header = [], rw_sent = None\<rparr>"

definition setCookie :: "cookie \<Rightarrow> rw \<Rightarrow> rw" where
  "setCookie c w = w\<lparr>rw_header := rw_header w @ [c]\<rparr>"

definition respond :: "reply \<Rightarrow> rw \<Rightarrow> rw" where
  "respond rep w = (case rw_sent w of None \<Rightarrow> w\<lparr>rw_sent := Some (rep, rw_header w)\<rparr> | Some _ \<Rightarrow> w)"

definition sessionMaxAge :: duration where "sessionMaxAge = 7 * 24 * hour"
definition stateMaxAge :: duration where "stateMaxAge = 10 * minute"
definition sessionCookie :: string where "sessionCookie = ''maping_session''"
definition stateCookie :: string where "stateCookie = ''maping_oauth_state''"

record auth =
  au_mac :: "string \<Rightarrow> string"
  au_providers :: "(providerName, oauthConfig) gomap"
  au_devLogin :: bool
  au_devOrgName :: string
  au_baseURL :: string
  au_secure :: bool
  au_authCodeURL :: "oauthConfig \<Rightarrow> string \<Rightarrow> string"
  au_exchange :: "oauthConfig \<Rightarrow> string \<Rightarrow> string option"
  au_userinfo :: "providerName \<Rightarrow> string \<Rightarrow> userinfoError + identity"

text \<open>
  \<open>New\<close>: \<open>hmac\<close> is HMAC-SHA256 as a function of the key. The consent URL, the code exchange and the
  userinfo call (of \<open>httpUserinfo\<close>, from the replies of the network) are given.
\<close>

definition auth_New ::
  "(string \<Rightarrow> string \<Rightarrow> string) \<Rightarrow> string \<Rightarrow> ProviderConfig \<Rightarrow> string \<Rightarrow> bool \<Rightarrow> (oauthConfig \<Rightarrow> string \<Rightarrow> string) \<Rightarrow>
   (oauthConfig \<Rightarrow> string \<Rightarrow> string option) \<Rightarrow> (providerName \<Rightarrow> string \<Rightarrow> userinfoError + identity) \<Rightarrow> auth option" where
  "auth_New hmac key pc devOrgName secure authCodeURL exchange userinfo =
     (case newSigner key of
        None \<Rightarrow> None
      | Some k \<Rightarrow>
          let providers = buildProviders pc
          in Some \<lparr>au_mac = hmac k, au_providers = providers, au_devLogin = (length providers = 0),
               au_devOrgName = devOrgName, au_baseURL = trimRightByte (CHR ''/'') (pc_BaseURL pc), au_secure = secure,
               au_authCodeURL = authCodeURL, au_exchange = exchange, au_userinfo = userinfo\<rparr>)"

definition newSession :: "string \<Rightarrow> string \<Rightarrow> string \<Rightarrow> instant \<Rightarrow> Session" where
  "newSession orgID memberID role now =
     \<lparr>ss_OrgID = orgID, ss_MemberID = memberID, ss_Role = role, ss_Exp = now + sessionMaxAge\<rparr>"

definition setSessionCookie :: "auth \<Rightarrow> Session \<Rightarrow> cookie" where
  "setSessionCookie a sess =
     \<lparr>ck_Name = sessionCookie, ck_Value = session_encode (au_mac a) sess,
      ck_MaxAge = sessionMaxAge div second, ck_Secure = au_secure a\<rparr>"

definition clearCookie :: "auth \<Rightarrow> string \<Rightarrow> cookie" where
  "clearCookie a name = \<lparr>ck_Name = name, ck_Value = '''', ck_MaxAge = -1, ck_Secure = au_secure a\<rparr>"

definition writeSignedCookie :: "auth \<Rightarrow> string \<Rightarrow> string \<Rightarrow> duration \<Rightarrow> cookie" where
  "writeSignedCookie a name payload maxAge =
     \<lparr>ck_Name = name, ck_Value = signed (au_mac a) payload, ck_MaxAge = maxAge div second, ck_Secure = au_secure a\<rparr>"

definition readSignedCookie :: "auth \<Rightarrow> httpRequest \<Rightarrow> string \<Rightarrow> string option" where
  "readSignedCookie a r name =
     (case map_of (rq_cookies r) name of None \<Rightarrow> None | Some v \<Rightarrow> verified (au_mac a) v)"

definition setStateCookie :: "auth \<Rightarrow> string \<Rightarrow> cookie" where
  "setStateCookie a payload = writeSignedCookie a stateCookie payload stateMaxAge"

text \<open>\<open>strings.SplitN(payload, "|", 3)\<close>, of which at least two parts are needed.\<close>

definition readStateCookie :: "auth \<Rightarrow> httpRequest \<Rightarrow> (string \<times> string \<times> string) option" where
  "readStateCookie a r =
     (case readSignedCookie a r stateCookie of
        None \<Rightarrow> None
      | Some payload \<Rightarrow>
          (case cutByte payload (CHR ''|'') of
             (provider, rest, found) \<Rightarrow>
               if \<not> found then None
               else (case cutByte rest (CHR ''|'') of (state, next', _) \<Rightarrow> Some (provider, state, next'))))"

section \<open>Handlers (handlers.go)\<close>

definition handleLoginPage :: "auth \<Rightarrow> httpRequest \<Rightarrow> rw \<Rightarrow> rw" where
  "handleLoginPage a r =
     respond (LoginPage (map_of (au_providers a) providerGitHub \<noteq> None) (map_of (au_providers a) providerGoogle \<noteq> None)
        (au_devLogin a) (safeNext (rq_query r ''next'')))"

definition handleStart :: "auth \<Rightarrow> string \<Rightarrow> httpRequest \<Rightarrow> rw \<Rightarrow> rw" where
  "handleStart a random r w =
     (case providerFromPath (rq_provider r) of
        None \<Rightarrow> respond (HttpError 404 ''unknown provider'') w
      | Some name \<Rightarrow>
          (case map_of (au_providers a) name of
             None \<Rightarrow> respond (HttpError 404 ''unknown provider'') w
           | Some p \<Rightarrow>
               let state = b64Encode random;
                   w = setCookie (setStateCookie a (providerString name @ ''|'' @ state @ ''|'' @ safeNext (rq_query r ''next''))) w
               in respond (Redirect (au_authCodeURL a p state)) w))"

definition resolveIdentity :: "auth \<Rightarrow> httpRequest \<Rightarrow> providerName \<Rightarrow> oauthConfig \<Rightarrow> reply + identity \<times> string" where
  "resolveIdentity a r name p =
     (case readStateCookie a r of
        None \<Rightarrow> Inl (HttpError 400 ''invalid oauth state'')
      | Some (wantProvider, wantState, next') \<Rightarrow>
          if wantProvider \<noteq> providerString name \<or> wantState = '''' \<or> rq_query r ''state'' \<noteq> wantState
          then Inl (HttpError 400 ''invalid oauth state'')
          else if rq_query r ''code'' = '''' then Inl (HttpError 400 ''missing code'')
          else (case au_exchange a p (rq_query r ''code'') of
                  None \<Rightarrow> Inl (HttpError 502 ''authentication failed'')
                | Some tok \<Rightarrow>
                    (case au_userinfo a name tok of
                       Inl _ \<Rightarrow> Inl (HttpError 502 ''authentication failed'')
                     | Inr ident \<Rightarrow> Inr (ident, next'))))"

text \<open>What the random source and the database generate in one callback.\<close>

record fresh =
  fr_orgID :: string
  fr_memberID :: string
  fr_keyID :: string
  fr_keyBytes :: string

definition renderKeyInterstitial ::
  "(string \<Rightarrow> string) \<Rightarrow> auth \<Rightarrow> string \<Rightarrow> string \<Rightarrow> fresh \<Rightarrow> instant \<Rightarrow> rw \<Rightarrow> db \<Rightarrow> rw \<times> db" where
  "renderKeyInterstitial sha a orgID next' fr now w d =
     (case issueKey sha orgID ''default'' (fr_keyBytes fr) (fr_keyID fr) now d of
        (Inl _, d') \<Rightarrow> (respond (Redirect (safeNext next')) w, d')
      | (Inr secret, d') \<Rightarrow> (respond (KeyPage (Encode (au_baseURL a) secret) (safeNext next')) w, d'))"

text \<open>
  The callback without a post-login hook, as the public build composes it. The deferred
  \<open>clearCookie\<close> runs when the handler returns, after the response.
\<close>

definition handleCallback :: "(string \<Rightarrow> string) \<Rightarrow> auth \<Rightarrow> fresh \<Rightarrow> instant \<Rightarrow> httpRequest \<Rightarrow> rw \<Rightarrow> db \<Rightarrow> rw \<times> db" where
  "handleCallback sha a fr now r w d =
     (case providerFromPath (rq_provider r) of
        None \<Rightarrow> (respond (HttpError 404 ''unknown provider'') w, d)
      | Some name \<Rightarrow>
          (case map_of (au_providers a) name of
             None \<Rightarrow> (respond (HttpError 404 ''unknown provider'') w, d)
           | Some p \<Rightarrow>
               let deferred = (\<lambda>(w, d). (setCookie (clearCookie a stateCookie) w, d)) in
               deferred
                 (case resolveIdentity a r name p of
                    Inl e \<Rightarrow> (respond e w, d)
                  | Inr (ident, next') \<Rightarrow>
                      (case upsertMemberFromOIDC (id_Subject ident) (id_Email ident) (fr_orgID fr) (fr_memberID fr) now d of
                         (Inl _, d') \<Rightarrow> (respond (HttpError 500 ''sign-in failed'') w, d')
                       | (Inr (orgID, memberID, role, isNew), d') \<Rightarrow>
                           let w = setCookie (setSessionCookie a (newSession orgID memberID role now)) w in
                           if isNew then renderKeyInterstitial sha a orgID next' fr now w d'
                           else (respond (Redirect (safeNext next')) w, d')))))"

definition handleDevLogin :: "auth \<Rightarrow> fresh \<Rightarrow> instant \<Rightarrow> httpRequest \<Rightarrow> rw \<Rightarrow> db \<Rightarrow> rw \<times> db" where
  "handleDevLogin a fr now r w d =
     (case devOrgAdmin (au_devOrgName a) (fr_memberID fr) d of
        (Inl _, d') \<Rightarrow> (respond (HttpError 500 ''dev login failed'') w, d')
      | (Inr (orgID, memberID), d') \<Rightarrow>
          (respond (Redirect (safeNext (rq_form r ''next'')))
             (setCookie (setSessionCookie a (newSession orgID memberID ''admin'' now)) w), d'))"

definition handleLogout :: "auth \<Rightarrow> rw \<Rightarrow> rw" where
  "handleLogout a w = respond (Redirect ''/login'') (setCookie (clearCookie a sessionCookie) w)"

section \<open>Middleware (middleware.go)\<close>

definition sessionFromRequest :: "auth \<Rightarrow> httpRequest \<Rightarrow> instant \<Rightarrow> Session option" where
  "sessionFromRequest a r now =
     (case map_of (rq_cookies r) sessionCookie of None \<Rightarrow> None | Some v \<Rightarrow> session_decode (au_mac a) v now)"

definition denyUnauthenticated :: "httpRequest \<Rightarrow> rw \<Rightarrow> rw" where
  "denyUnauthenticated r = respond (if hasPrefix (rq_path r) ''/api/'' then UnauthorizedJSON else Redirect ''/login'')"

definition Middleware ::
  "auth \<Rightarrow> (Session \<Rightarrow> httpRequest \<Rightarrow> rw \<Rightarrow> 's \<Rightarrow> rw \<times> 's) \<Rightarrow> instant \<Rightarrow> httpRequest \<Rightarrow> rw \<Rightarrow> 's \<Rightarrow> rw \<times> 's" where
  "Middleware a next' now r w s =
     (case sessionFromRequest a r now of
        None \<Rightarrow> (denyUnauthenticated r w, s)
      | Some sess \<Rightarrow> next' sess r w s)"

definition Authenticated :: "auth \<Rightarrow> httpRequest \<Rightarrow> instant \<Rightarrow> bool" where
  "Authenticated a r now \<longleftrightarrow> sessionFromRequest a r now \<noteq> None"

section \<open>Lemmas\<close>

lemma sessionPayload_parts:
  assumes "CHR ''|'' \<notin> set (ss_OrgID s)" and "CHR ''|'' \<notin> set (ss_MemberID s)" and "CHR ''|'' \<notin> set (ss_Role s)"
  shows "splitByte (CHR ''|'') (sessionPayload s) = [ss_OrgID s, ss_MemberID s, ss_Role s, formatInt (unixSec (ss_Exp s))]"
  unfolding sessionPayload_def using assms formatInt_no_bar by (intro splitByte_join) auto

lemma unixTime_id: "\<bar>s\<bar> < 2 ^ 62 \<Longrightarrow> unixTime s = s * second"
  by (simp add: unixTime_def wrap64_def)

lemma session_decode_parts:
  "session_decode mac v now = Some sess \<longleftrightarrow>
     (\<exists>payload o' m r e n. verified mac v = Some payload \<and> splitByte (CHR ''|'') payload = [o', m, r, e] \<and>
        parseInt64 e = Some n \<and> now < unixTime n \<and>
        sess = \<lparr>ss_OrgID = o', ss_MemberID = m, ss_Role = r, ss_Exp = unixTime n\<rparr>)"
proof -
  have four: "length ps = 4 \<longleftrightarrow> (\<exists>o' m r e. ps = [o', m, r, e])" for ps :: "string list"
    by (auto simp: length_Suc_conv eval_nat_numeral)
  show ?thesis
    by (auto simp: session_decode_def Let_def four split: option.splits if_splits)
qed

lemma hasPrefix_trans: "hasPrefix s (p @ q) \<Longrightarrow> hasPrefix s p"
  by (auto simp: hasPrefix_iff)

lemma safeNext_cases: "safeNext n = ''/'' \<or> safeNext n = n"
  by (simp add: safeNext_def split: option.split)

definition rooted :: "string \<Rightarrow> bool" where
  "rooted u \<longleftrightarrow> hasPrefix u ''/'' \<and> \<not> hasPrefix u ''//'' \<and> \<not> hasPrefix u [CHR ''/'', CHR 0x5C]"

lemma rooted_safeNext: "rooted (safeNext n)"
  by (auto simp: safeNext_def rooted_def hasPrefix_def split: option.split)

lemma safeNext_idem: "safeNext (safeNext n) = safeNext n"
proof -
  have "safeNext ''/'' = ''/''" by (simp add: safeNext_def hasPrefix_def split: option.split)
  then show ?thesis using safeNext_cases [of n] by auto
qed

lemma safeNext_rooted_clean:
  "rooted u \<Longrightarrow> urlParse_rooted u \<noteq> None \<Longrightarrow> safeNext u = u"
  by (auto simp: safeNext_def rooted_def hasPrefix_def urlParse_rooted_def split: option.split prod.splits if_splits)

lemma formatInt_url: "urlParse_rooted (''/x|'' @ formatInt n) \<noteq> None"
proof -
  define s where "s = ''/x|'' @ formatInt n"
  have ok: "digitVal c \<noteq> None \<Longrightarrow> \<not> isCTL c \<and> c \<noteq> CHR ''#'' \<and> c \<noteq> CHR ''?'' \<and> c \<noteq> CHR ''%''" for c
    by (auto simp: digitVal_def isCTL_def Let_def split: if_splits)
  have "\<not> isCTL c \<and> c \<noteq> CHR ''#'' \<and> c \<noteq> CHR ''?'' \<and> c \<noteq> CHR ''%''" if "c \<in> set s" for c
    using that ok [of c] formatInt_chars [of c n] by (auto simp: s_def isCTL_def)
  then have chars: "CHR ''#'' \<notin> set s" "CHR ''?'' \<notin> set s" "CHR ''%'' \<notin> set s" "\<not> list_ex isCTL s"
    by (auto simp: list_ex_iff)
  have "CHR ''%'' \<notin> set t \<Longrightarrow> \<not> badEscape t" for t by (induction t rule: badEscape.induct) auto
  then show ?thesis
    using chars cutByte_notin unfolding s_def [symmetric] by (simp add: urlParse_rooted_def)
qed

lemma renderKey_reply:
  "\<exists>rep d2. renderKeyInterstitial sha a orgID nxt fr now w d = (respond rep w, d2) \<and>
     (rep = Redirect (safeNext nxt) \<or> (\<exists>tk. rep = KeyPage tk (safeNext nxt)))"
  by (auto simp: renderKeyInterstitial_def split: prod.splits sum.splits)

lemma callback_login:
  assumes "providerFromPath (rq_provider r) = Some name" and "map_of (au_providers a) name = Some p"
    and "resolveIdentity a r name p = Inr (ident, nxt)"
    and "upsertMemberFromOIDC (id_Subject ident) (id_Email ident) (fr_orgID fr) (fr_memberID fr) now d =
      (Inr (orgID, memberID, role, isNew), d1)"
  shows "\<exists>rep d2. handleCallback sha a fr now r w d =
      (setCookie (clearCookie a stateCookie) (respond rep (setCookie (setSessionCookie a (newSession orgID memberID role now)) w)), d2) \<and>
    (rep = Redirect (safeNext nxt) \<or> (\<exists>tk. isNew \<and> rep = KeyPage tk (safeNext nxt)))"
proof (cases isNew)
  case True
  obtain rep d2 where "renderKeyInterstitial sha a orgID nxt fr now
      (setCookie (setSessionCookie a (newSession orgID memberID role now)) w) d1 =
      (respond rep (setCookie (setSessionCookie a (newSession orgID memberID role now)) w), d2)"
    and "rep = Redirect (safeNext nxt) \<or> (\<exists>tk. rep = KeyPage tk (safeNext nxt))" using renderKey_reply by blast
  then show ?thesis using assms True by (auto simp: handleCallback_def Let_def)
qed (use assms in \<open>simp add: handleCallback_def Let_def\<close>)

lemma respond_new [simp]:
  "rw_sent (respond e (w\<lparr>rw_sent := None\<rparr>)) = Some (e, rw_header w)"
  "rw_sent w = None \<Longrightarrow> rw_sent (respond e w) = Some (e, rw_header w)"
  "rw_sent (setCookie c w) = rw_sent w" "rw_header (setCookie c w) = rw_header w @ [c]"
  "rw_sent newRW = None" "rw_header newRW = []"
  by (simp_all add: respond_def setCookie_def newRW_def)

section \<open>Properties\<close>


definition demoSession :: Session where
  "demoSession = \<lparr>ss_OrgID = ''org-1'', ss_MemberID = ''m-1'', ss_Role = ''admin'', ss_Exp = 100 * second\<rparr>"


text \<open>
  C40. The condition on what is signed does not hold in the server: the OAuth state cookie is signed
  with the same key and the same format, and part of its payload is the caller's \<open>next\<close> parameter. A
  visitor who is not logged in starts the GitHub flow with \<open>next\<close> set to a path, a bar and a timestamp;
  the state cookie sent back, presented as the session cookie, passes the middleware as a session of
  the organisation ``github'', with the expiry the visitor chose.
\<close>

theorem oauth_state_forges_session:
  assumes "map_of (au_providers a) providerGitHub = Some p" and "rq_provider r = ''github''"
    and "rq_query r ''next'' = ''/x|'' @ formatInt n" and "0 \<le> n" and "n < 2 ^ 62" and "now < n * second"
  shows "\<exists>c. rw_sent (handleStart a random r newRW) = Some (Redirect (au_authCodeURL a p (b64Encode random)), [c]) \<and>
    sessionFromRequest a (r'\<lparr>rq_cookies := [(sessionCookie, ck_Value c)]\<rparr>) now =
      Some \<lparr>ss_OrgID = ''github'', ss_MemberID = b64Encode random, ss_Role = ''/x'', ss_Exp = n * second\<rparr>"
proof -
  define state where "state = b64Encode random"
  define nxt where "nxt = ''/x|'' @ formatInt n"
  define payload where "payload = joinWith ''|'' [''github'', state, ''/x'', formatInt n]"
  have safe: "safeNext nxt = nxt"
    unfolding nxt_def using formatInt_url [of n] by (intro safeNext_rooted_clean) (simp_all add: rooted_def hasPrefix_def)
  have "CHR ''|'' \<notin> set state"
    using set_b64Encode [of random] by (auto simp: state_def b64Alphabet_def)
  then have parts: "splitByte (CHR ''|'') payload = [''github'', state, ''/x'', formatInt n]"
    unfolding payload_def using formatInt_no_bar by (intro splitByte_join) auto
  have parse: "parseInt64 (formatInt n) = Some n" "unixTime n = n * second"
    using assms(4,5) by (auto intro!: parse_format unixTime_id)
  have "payload = ''github'' @ ''|'' @ state @ ''|'' @ nxt" by (simp add: payload_def nxt_def)
  then have "rw_sent (handleStart a random r newRW) = Some (Redirect (au_authCodeURL a p state), [setStateCookie a payload])"
    using assms(1-3) safe by (simp add: handleStart_def providerFromPath_def lower_def Let_def state_def nxt_def)
  moreover have "session_decode (au_mac a) (signed (au_mac a) payload) now =
      Some \<lparr>ss_OrgID = ''github'', ss_MemberID = state, ss_Role = ''/x'', ss_Exp = n * second\<rparr>"
    unfolding session_decode_parts verified_signed using parts parse assms(6) by auto
  ultimately show ?thesis unfolding state_def [symmetric]
    by (intro exI [of _ "setStateCookie a payload"]) (simp add: sessionFromRequest_def setStateCookie_def writeSignedCookie_def)
qed

definition demoAuth :: auth where
  "demoAuth = \<lparr>au_mac = id,
     au_providers = buildProviders \<lparr>pc_GitHubClientID = ''id'', pc_GitHubClientSecret = ''s'', pc_GoogleClientID = '''',
       pc_GoogleClientSecret = '''', pc_BaseURL = ''https://m''\<rparr>,
     au_devLogin = False, au_devOrgName = ''dev-org'', au_baseURL = ''https://m'', au_secure = True,
     au_authCodeURL = (\<lambda>p state. ''https://github.com/login?state='' @ state),
     au_exchange = (\<lambda>p code. if code = ''good'' then Some ''tok'' else None),
     au_userinfo = (\<lambda>name tok. Inr \<lparr>id_Subject = ''github:7'', id_Email = ''a@b.c''\<rparr>)\<rparr>"

definition demoRequest :: "string \<Rightarrow> httpRequest" where
  "demoRequest nxt = \<lparr>rq_path = ''/auth/github/start'', rq_provider = ''github'',
     rq_query = (\<lambda>k. if k = ''next'' then nxt else ''''), rq_form = (\<lambda>_. ''''), rq_cookies = []\<rparr>"

theorem oauth_state_forges_session_witness:
  "\<exists>c. rw_sent (handleStart demoAuth ''abc'' (demoRequest (''/x|'' @ formatInt 4000000000)) newRW) =
      Some (Redirect (''https://github.com/login?state='' @ b64Encode ''abc''), [c]) \<and>
    Authenticated demoAuth ((demoRequest '''')\<lparr>rq_cookies := [(sessionCookie, ck_Value c)]\<rparr>) (1700000000 * second)"
proof -
  have "map_of (au_providers demoAuth) providerGitHub \<noteq> None"
    by (simp add: demoAuth_def buildProviders_def buildProvider_def)
  then obtain p where p: "map_of (au_providers demoAuth) providerGitHub = Some p" by blast
  from oauth_state_forges_session [OF p, where r = "demoRequest (''/x|'' @ formatInt 4000000000)" and n = 4000000000 and
      now = "1700000000 * second" and random = "''abc''" and r' = "demoRequest ''''"]
  show ?thesis by (auto simp: demoRequest_def Authenticated_def demoAuth_def second_def)
qed

text \<open>
  A callback opens a session only at the end of a complete login. Whatever the request, the cookies
  that are sent are none, or exactly one session cookie; and the session cookie is sent only when the
  signed state cookie names this provider and the non-empty state of the query, the code was exchanged
  and gave an identity, and the member of that identity was upserted. Every failure is one of five error
  replies, and a failure before the upsert leaves the database alone. (In particular no response clears
  the state cookie: the deferred \<open>clearCookie\<close> comes after the header is sent.)
\<close>

theorem callback_session_after_login:
  "case handleCallback sha a fr now r newRW d of (w, d') \<Rightarrow>
     (\<exists>e. rw_sent w = Some (e, []) \<and> e \<in> {HttpError 404 ''unknown provider'', HttpError 400 ''invalid oauth state'',
        HttpError 400 ''missing code'', HttpError 502 ''authentication failed'', HttpError 500 ''sign-in failed''} \<and>
        (e = HttpError 500 ''sign-in failed'' \<or> d' = d)) \<or>
     (\<exists>name p st nxt tok ident orgID memberID role isNew d1 rep.
        map_of (au_providers a) name = Some p \<and> readStateCookie a r = Some (providerString name, st, nxt) \<and>
        st \<noteq> '''' \<and> rq_query r ''state'' = st \<and> au_exchange a p (rq_query r ''code'') = Some tok \<and>
        au_userinfo a name tok = Inr ident \<and>
        upsertMemberFromOIDC (id_Subject ident) (id_Email ident) (fr_orgID fr) (fr_memberID fr) now d =
          (Inr (orgID, memberID, role, isNew), d1) \<and>
        rw_sent w = Some (rep, [setSessionCookie a (newSession orgID memberID role now)]) \<and>
        (rep = Redirect (safeNext nxt) \<or> (\<exists>tk. isNew \<and> rep = KeyPage tk (safeNext nxt))))"
proof (cases "providerFromPath (rq_provider r)")
  case None
  then show ?thesis by (simp add: handleCallback_def)
next
  case (Some name)
  show ?thesis
  proof (cases "map_of (au_providers a) name")
    case None
    with Some show ?thesis by (simp add: handleCallback_def)
  next
    case p: (Some p)
    show ?thesis
    proof (cases "resolveIdentity a r name p")
      case (Inl e)
      then have "e \<in> {HttpError 400 ''invalid oauth state'', HttpError 400 ''missing code'', HttpError 502 ''authentication failed''}"
        by (auto simp: resolveIdentity_def split: option.splits prod.splits if_splits sum.splits)
      with Some p Inl show ?thesis by (auto simp: handleCallback_def Let_def)
    next
      case (Inr x)
      obtain ident nxt where x: "x = (ident, nxt)" by fastforce
      obtain st tok where st: "readStateCookie a r = Some (providerString name, st, nxt)" "st \<noteq> ''''"
        "rq_query r ''state'' = st" "au_exchange a p (rq_query r ''code'') = Some tok" "au_userinfo a name tok = Inr ident"
        using Inr x by (auto simp: resolveIdentity_def split: option.splits prod.splits if_splits sum.splits)
      let ?up = "upsertMemberFromOIDC (id_Subject ident) (id_Email ident) (fr_orgID fr) (fr_memberID fr) now d"
      obtain res d1 where up: "?up = (res, d1)" by fastforce
      show ?thesis
      proof (cases res)
        case (Inl e)
        with Some p Inr x up show ?thesis by (simp add: handleCallback_def Let_def)
      next
        case ok: (Inr y)
        obtain orgID memberID role isNew where y: "y = (orgID, memberID, role, isNew)" by (cases y) auto
        obtain rep d2 where "handleCallback sha a fr now r newRW d =
            (setCookie (clearCookie a stateCookie) (respond rep (setCookie (setSessionCookie a (newSession orgID memberID role now)) newRW)), d2)"
          and "rep = Redirect (safeNext nxt) \<or> (\<exists>tk. isNew \<and> rep = KeyPage tk (safeNext nxt))"
          using callback_login [OF Some p _ up [unfolded ok y]] Inr x by blast
        then show ?thesis using p st up ok y by auto blast+
      qed
    qed
  qed
qed

text \<open>
  A redirect target taken from a request stays on this origin: whatever the parameter, safeNext
  gives a path that starts with one slash, not followed by a slash or a backslash, with no control
  character before its fragment; it is idempotent, and keeps every such path that url.Parse accepts.
\<close>

theorem safe_next:
  "rooted (safeNext n) \<and> \<not> list_ex isCTL (fst (cutByte (safeNext n) (CHR ''#''))) \<and>
   safeNext (safeNext n) = safeNext n \<and> (safeNext n = n \<longleftrightarrow> rooted n \<and> urlParse_rooted n \<noteq> None)"
proof -
  have ctl: "urlParse_rooted m \<noteq> None \<Longrightarrow> \<not> list_ex isCTL (fst (cutByte m (CHR ''#'')))" for m
    by (auto simp: urlParse_rooted_def split: prod.splits if_splits)
  have slash: "urlParse_rooted ''/'' \<noteq> None"
    by (simp add: urlParse_rooted_def cutByte_def isCTL_def)
  have "urlParse_rooted (safeNext n) \<noteq> None"
    using slash by (auto simp: safeNext_def split: option.splits)
  then show ?thesis
    using ctl [of "safeNext n"] rooted_safeNext safeNext_idem safeNext_rooted_clean [of n] by metis
qed

text \<open>
  A form token is bound to its tenant: the token issued for a tenant verifies for it, and no token
  issued for a tenant verifies for another one, as long as no tenant id contains a bar.
\<close>

theorem csrf_bound_to_tenant:
  assumes "CHR ''|'' \<notin> set tenant" and "CHR ''|'' \<notin> set other" and "nonce \<noteq> ''''"
  shows "csrf_verify mac other (csrf_issue mac tenant nonce) \<longleftrightarrow> other = tenant"
proof -
  define b where "b = b64Encode nonce"
  have b: "b \<noteq> []" using assms(3) unfolding b_def by (cases nonce rule: b64Encode.cases) (simp_all add: Let_def)
  have "hasPrefix (tenant @ ''|'' @ b) (other @ ''|'') \<longleftrightarrow> other = tenant"
  proof
    assume "hasPrefix (tenant @ ''|'' @ b) (other @ ''|'')"
    then obtain rest where eq: "tenant @ CHR ''|'' # b = other @ CHR ''|'' # rest" by (auto simp: hasPrefix_iff)
    have "cutByte (tenant @ CHR ''|'' # b) (CHR ''|'') = (tenant, b, True)"
      "cutByte (other @ CHR ''|'' # rest) (CHR ''|'') = (other, rest, True)"
      using assms by (simp_all add: cutByte_append)
    then show "other = tenant" unfolding eq by simp
  qed (simp add: hasPrefix_iff)
  then show ?thesis using b by (auto simp: csrf_verify_def csrf_issue_def simp flip: b_def)
qed

theorem csrf_bound_to_tenant_witness:
  "csrf_verify id ''org-1'' (csrf_issue id ''org-1'' ''n'') \<and> \<not> csrf_verify id ''org-2'' (csrf_issue id ''org-1'' ''n'')"
  using csrf_bound_to_tenant [of "''org-1''" "''org-1''" "''n''" id] csrf_bound_to_tenant [of "''org-1''" "''org-2''" "''n''" id]
  by simp

text \<open>With bars the binding is only to a prefix: a token of the tenant ``a|b'' verifies for ``a''.\<close>

theorem csrf_prefix_confusion: "csrf_verify mac ''a'' (csrf_issue mac ''a|b'' nonce)"
  by (simp add: csrf_verify_def csrf_issue_def hasPrefix_def)

section \<open>The dashboard's settings and tenant (app/config.go, app/deps.go, app/app.go)\<close>

definition secureFromBaseURL :: "string \<Rightarrow> bool" where
  "secureFromBaseURL baseURL = hasPrefix baseURL ''https://''"

datatype keyError = KeyTooShort nat | KeyRequired | RandomFailed

definition sessionKey :: "string \<Rightarrow> bool \<Rightarrow> string option \<Rightarrow> keyError + string" where
  "sessionKey env requireStable random =
     (if env \<noteq> '''' then (if length env < 32 then Inl (KeyTooShort (length env)) else Inr env)
      else if requireStable then Inl KeyRequired
      else (case random of None \<Rightarrow> Inl RandomFailed | Some key \<Rightarrow> Inr key))"

definition defaultMaxBodyCeiling :: int where
  "defaultMaxBodyCeiling = 4 * 2 ^ 20"

definition maxBodyCeiling :: "string \<Rightarrow> int" where
  "maxBodyCeiling v =
     (if v = '''' then defaultMaxBodyCeiling
      else (case parseInt64 v of
              None \<Rightarrow> defaultMaxBodyCeiling
            | Some n \<Rightarrow> if n \<le> 0 then defaultMaxBodyCeiling else n))"

definition tenantResolver :: "bool \<Rightarrow> string \<Rightarrow> Session option \<Rightarrow> tenantID option" where
  "tenantResolver authOn constTenant sess =
     (if authOn then (case sess of None \<Rightarrow> None | Some s \<Rightarrow> tenant_Parse (ss_OrgID s))
      else tenant_Parse constTenant)"

definition sessionRole :: "Session option \<Rightarrow> (string \<times> string) option" where
  "sessionRole sess = map_option (\<lambda>s. (ss_Role s, ss_MemberID s)) sess"

definition rootHandler ::
  "auth \<Rightarrow> (httpRequest \<Rightarrow> 's \<Rightarrow> 'r) \<Rightarrow> (httpRequest \<Rightarrow> 's \<Rightarrow> 'r) \<Rightarrow> instant \<Rightarrow> httpRequest \<Rightarrow> 's \<Rightarrow> 'r" where
  "rootHandler a gated home now r s =
     (if rq_path r = ''/'' \<and> \<not> Authenticated a r now then home r s else gated r s)"

definition securityHeaders :: "bool \<Rightarrow> (string \<times> string) list" where
  "securityHeaders secure =
     (''X-Content-Type-Options'', ''nosniff'') #
     (if secure then [(''Strict-Transport-Security'', ''max-age=31536000; includeSubDomains'')] else [])"

definition healthHandler :: "bool \<Rightarrow> int \<times> string" where
  "healthHandler ready = (if \<not> ready then (503, ''shutting down'') else (200, ''ok''))"

text \<open>
  Configuration errors are caught at start: a session key from the environment shorter than 32 bytes
  and a missing key on an https deployment are refused, whatever sessionKey returns is long enough for
  the signer (given a 32-byte random key), and the body ceiling is always positive.
\<close>

theorem startup_settings_checked:
  assumes "\<forall>k. random = Some k \<longrightarrow> length k = 32"
  shows "(\<forall>k. sessionKey env https random = Inr k \<longrightarrow> newSigner k = Some k) \<and>
    (env \<noteq> '''' \<and> length env < 32 \<longrightarrow> sessionKey env https random = Inl (KeyTooShort (length env))) \<and>
    sessionKey '''' True random = Inl KeyRequired \<and> 0 < maxBodyCeiling v"
proof (intro conjI allI impI)
  show "newSigner k = Some k" if "sessionKey env https random = Inr k" for k
    using that assms unfolding sessionKey_def newSigner_def by (simp split: option.splits if_splits)
  show "sessionKey env https random = Inl (KeyTooShort (length env))" if "env \<noteq> '''' \<and> length env < 32"
    using that unfolding sessionKey_def by simp
  show "sessionKey '''' True random = Inl KeyRequired" unfolding sessionKey_def by simp
  show "0 < maxBodyCeiling v"
    unfolding maxBodyCeiling_def defaultMaxBodyCeiling_def by (simp split: option.splits)
qed

theorem startup_settings_checked_witness:
  "sessionKey ''short'' False None = Inl (KeyTooShort 5) \<and> 0 < maxBodyCeiling ''-3''"
  using startup_settings_checked [of None "''short''" False "''-3''"] by simp

end
