(* ===== verification/Web_View.thy ===== *)
theory Web_View
  imports Storage_Query Web_Format Stable_Sort Dashboard_Auth
begin

text \<open>
  The presentation mappers of the dashboard, src/server/internal/web/: view.go (service and endpoint
  tables and their sort), view_detail.go (the panels of the detail page), web_range.go and the window
  switcher of chrome.go (which time range a page reads), and the key figures of chrome.go.
\<close>

section \<open>Windows and ranges (chrome.go, web_range.go)\<close>

definition windowDur :: "string \<Rightarrow> duration option" where
  "windowDur k = map_of [(''5m'', 5 * minute), (''1h'', hour), (''24h'', 24 * hour)] k"

definition normalizeWindow :: "string \<Rightarrow> string" where
  "normalizeWindow raw = (case windowDur raw of Some _ \<Rightarrow> raw | None \<Rightarrow> ''1h'')"

definition windowRange :: "instant \<Rightarrow> duration \<Rightarrow> instant \<times> instant" where
  "windowRange now d = (now - d, now)"

definition withWin :: "string \<Rightarrow> string \<Rightarrow> string" where
  "withWin href winKey =
     (if winKey = '''' then href
      else href @ (if CHR ''?'' \<in> set href then ''&'' else ''?'') @ ''win='' @ winKey)"

definition isLive :: "(string \<Rightarrow> string) \<Rightarrow> bool" where
  "isLive query \<longleftrightarrow> query ''live'' = ''1''"

definition minDetailSpan :: duration where
  "minDetailSpan = 10 * second"

definition seriesStep :: duration where
  "seriesStep = minute"

definition detailBuckets :: int where
  "detailBuckets = 60"

definition customRange :: "(string \<Rightarrow> string) \<Rightarrow> instant \<Rightarrow> (instant \<times> instant) option" where
  "customRange query now =
     (if query ''from'' = '''' \<or> query ''to'' = '''' then None
      else case (parseInt64 (query ''from''), parseInt64 (query ''to'')) of
             (Some fi, Some ti) \<Rightarrow>
               let f = unixTime fi; t = unixTime ti; t = (if t > now then now else t)
               in if time_sub t f < minDetailSpan then None else Some (f, t)
           | _ \<Rightarrow> None)"

definition resolveDetailRange :: "(string \<Rightarrow> string) \<Rightarrow> instant \<Rightarrow> duration \<Rightarrow> (instant \<times> instant) \<times> bool" where
  "resolveDetailRange query now dur =
     (case customRange query now of
        Some r \<Rightarrow> (r, True)
      | None \<Rightarrow> (windowRange now dur, False))"

definition adaptiveStep :: "duration \<Rightarrow> duration" where
  "adaptiveStep width = (let step = quot width detailBuckets in if step < 10 * second then 10 * second else step)"

section \<open>Service and endpoint tables (view.go)\<close>

record serviceRow =
  sr_Service :: string
  sr_Count :: u64
  sr_RatePerSec :: real
  sr_ErrorRate :: real
  sr_ErrorHigh :: bool
  sr_Client4xxRate :: real
  sr_P50 :: real
  sr_P95 :: real
  sr_P99 :: real
  sr_DrillHref :: string

record endpointRow =
  er_Method :: string
  er_Route :: string
  er_Count :: u64
  er_RatePerSec :: real
  er_ErrorRate :: real
  er_ErrorHigh :: bool
  er_Client4xxRate :: real
  er_P50 :: real
  er_P95 :: real
  er_P99 :: real
  er_ReqBytesAvg :: real
  er_RespBytesAvg :: real

definition errorRateWarn :: real where
  "errorRateWarn = 5 / 100"

definition seconds :: "duration \<Rightarrow> real" where
  "seconds d = of_int d / 10 ^ 9"

definition ratePerSec :: "u64 \<Rightarrow> duration \<Rightarrow> real" where
  "ratePerSec n w = (let secs = seconds w in if secs \<le> 0 then 0 else real (unat n) / secs)"

definition sortTraffic :: string where "sortTraffic = ''traffic''"
definition sortError :: string where "sortError = ''error''"
definition sortP99 :: string where "sortP99 = ''p99''"

definition toServiceRows :: "ServiceStat list \<Rightarrow> duration \<Rightarrow> string \<Rightarrow> serviceRow list" where
  "toServiceRows stats w winKey =
     map (\<lambda>s. let href = ''/services/'' @ sst_Service s;
                  href = (if healthClass (sst_ErrorRate s) \<noteq> ''dot-ok'' then href @ ''?sort='' @ sortError else href)
              in \<lparr>sr_Service = sst_Service s, sr_Count = sst_Count s, sr_RatePerSec = ratePerSec (sst_Count s) w,
                  sr_ErrorRate = sst_ErrorRate s, sr_ErrorHigh = (sst_ErrorRate s \<ge> errorRateWarn),
                  sr_Client4xxRate = sst_Client4xxRate s, sr_P50 = sst_P50 s, sr_P95 = sst_P95 s, sr_P99 = sst_P99 s,
                  sr_DrillHref = withWin href winKey\<rparr>) stats"

definition toEndpointRows :: "EndpointStat list \<Rightarrow> duration \<Rightarrow> endpointRow list" where
  "toEndpointRows stats w =
     map (\<lambda>e. \<lparr>er_Method = es_Method e, er_Route = es_Route e, er_Count = es_Count e,
                er_RatePerSec = ratePerSec (es_Count e) w, er_ErrorRate = es_ErrorRate e,
                er_ErrorHigh = (es_ErrorRate e \<ge> errorRateWarn), er_Client4xxRate = es_Client4xxRate e,
                er_P50 = es_P50 e, er_P95 = es_P95 e, er_P99 = es_P99 e,
                er_ReqBytesAvg = es_ReqBytesAvg e, er_RespBytesAvg = es_RespBytesAvg e\<rparr>) stats"

definition normalizeSort :: "string \<Rightarrow> string" where
  "normalizeSort raw = (if raw = sortError then sortError else if raw = sortP99 then sortP99 else sortTraffic)"

definition endpointLess :: "string \<Rightarrow> endpointRow \<Rightarrow> endpointRow \<Rightarrow> bool" where
  "endpointLess key a b =
     (if key = sortError then
        (if er_ErrorRate a \<noteq> er_ErrorRate b then er_ErrorRate a > er_ErrorRate b else er_Route a < er_Route b)
      else if key = sortP99 then
        (if er_P99 a \<noteq> er_P99 b then er_P99 a > er_P99 b else er_Route a < er_Route b)
      else
        (if er_Count a \<noteq> er_Count b then er_Count a > er_Count b else er_Route a < er_Route b))"

definition sortEndpointRows :: "endpointRow list \<Rightarrow> string \<Rightarrow> endpointRow list" where
  "sortEndpointRows rows key = stableSort (endpointLess key) rows"

section \<open>Panels of the detail page (view_detail.go)\<close>

record statusClassView =
  scv_Class :: string
  scv_Count :: u64
  scv_IsError :: bool

record statusCodeView =
  sco_Code :: u32
  sco_Count :: u64

record detailView =
  dv_Count :: u64
  dv_ErrorRate :: real
  dv_ErrorHigh :: bool
  dv_P50 :: real
  dv_P95 :: real
  dv_P99 :: real
  dv_Classes :: "statusClassView list"
  dv_Codes :: "statusCodeView list"

definition errorClasses :: "string \<Rightarrow> bool" where
  "errorClasses c \<longleftrightarrow> c \<in> {''4xx'', ''5xx'', ''no_status''}"

definition toDetailView :: "EndpointDetail \<Rightarrow> detailView" where
  "toDetailView d =
     \<lparr>dv_Count = ed_Count d, dv_ErrorRate = ed_ErrorRate d, dv_ErrorHigh = (ed_ErrorRate d \<ge> errorRateWarn),
      dv_P50 = ed_P50 d, dv_P95 = ed_P95 d, dv_P99 = ed_P99 d,
      dv_Classes = map (\<lambda>(c, n). \<lparr>scv_Class = c, scv_Count = n, scv_IsError = errorClasses c\<rparr>) (ed_StatusClasses d),
      dv_Codes = sort_key sco_Code (map (\<lambda>(code, n). \<lparr>sco_Code = code, sco_Count = n\<rparr>) (ed_StatusCodes d))\<rparr>"

definition median :: "real list \<Rightarrow> real" where
  "median xs =
     (let n = length xs in
      if n mod 2 = 1 then xs ! (n div 2) else (xs ! (n div 2 - 1) + xs ! (n div 2)) / 2)"

record instanceStatRow =
  ir_Instance :: string
  ir_Count :: u64
  ir_ErrorRate :: real
  ir_ErrorHigh :: bool
  ir_P50 :: real
  ir_P95 :: real
  ir_P99 :: real
  ir_ReqBytesAvg :: real
  ir_RespBytesAvg :: real
  ir_IsOutlier :: bool

definition p95OutlierFloor :: real where
  "p95OutlierFloor = 1 / 10"

definition toInstanceRows :: "InstanceStat list \<Rightarrow> instanceStatRow list" where
  "toInstanceRows stats =
     (let p95s = map is_P95 (filter (\<lambda>s. is_Count s > 0) stats);
          med = (if length p95s > 0 then median (sort p95s) else 0)
      in map (\<lambda>s. \<lparr>ir_Instance = is_Instance s, ir_Count = is_Count s, ir_ErrorRate = is_ErrorRate s,
              ir_ErrorHigh = (is_ErrorRate s \<ge> errorRateWarn), ir_P50 = is_P50 s, ir_P95 = is_P95 s, ir_P99 = is_P99 s,
              ir_ReqBytesAvg = is_ReqBytesAvg s, ir_RespBytesAvg = is_RespBytesAvg s,
              ir_IsOutlier = (length p95s \<ge> 2 \<and> is_P95 s \<ge> 2 * med \<and> is_P95 s \<ge> p95OutlierFloor)\<rparr>) stats)"

record versionRow =
  vr_Version :: string
  vr_Count :: u64
  vr_ErrorRate :: real
  vr_ErrorHigh :: bool
  vr_P50 :: real
  vr_P95 :: real
  vr_P99 :: real

definition toVersionRows :: "VersionStat list \<Rightarrow> versionRow list" where
  "toVersionRows stats =
     map (\<lambda>s. \<lparr>vr_Version = vs_Version s, vr_Count = vs_Count s, vr_ErrorRate = vs_ErrorRate s,
               vr_ErrorHigh = (vs_ErrorRate s \<ge> errorRateWarn), vr_P50 = vs_P50 s, vr_P95 = vs_P95 s, vr_P99 = vs_P99 s\<rparr>)
       (filter (\<lambda>s. vs_Version s \<noteq> '''') stats)"

definition dominantVersion :: "VersionStat list \<Rightarrow> string" where
  "dominantVersion stats =
     fst (fold (\<lambda>s (best, bestCount).
            if vs_Version s = '''' then (best, bestCount)
            else if vs_Count s > bestCount then (vs_Version s, vs_Count s) else (best, bestCount))
          stats ('''', 0))"

record exemplarRow =
  xr_Time :: instant
  xr_StatusCode :: u32
  xr_Latency :: real
  xr_FullTrace :: string
  xr_ShortTrace :: string
  xr_FullReq :: string
  xr_ShortReq :: string

definition idTruncLen :: nat where
  "idTruncLen = 12"

definition truncID :: "string \<Rightarrow> string" where
  "truncID i = (if i = '''' then '''' else if length i \<le> idTruncLen then i else take idTruncLen i @ ellipsisChar)"

text \<open>The time of an exemplar row is kept as an instant; the page prints its time of day.\<close>

definition toExemplarRows :: "RowExemplar list \<Rightarrow> exemplarRow list" where
  "toExemplarRows exemplars =
     map (\<lambda>e. \<lparr>xr_Time = re_At e, xr_StatusCode = re_StatusCode e, xr_Latency = real (unat (re_DurationNs e)) / 10 ^ 9,
               xr_FullTrace = re_TraceID e, xr_ShortTrace = truncID (re_TraceID e),
               xr_FullReq = re_RequestID e, xr_ShortReq = truncID (re_RequestID e)\<rparr>) exemplars"

record classLatencyRow =
  clr_Class :: string
  clr_Count :: u64
  clr_P50 :: real
  clr_P95 :: real
  clr_P99 :: real

definition statusClassLabels :: "(string \<times> string) list" where
  "statusClassLabels = [(''STATUS_CLASS_2XX'', ''2xx''), (''STATUS_CLASS_3XX'', ''3xx''), (''STATUS_CLASS_4XX'', ''4xx''),
     (''STATUS_CLASS_5XX'', ''5xx''), (''STATUS_CLASS_NO_STATUS'', ''no_status'')]"

definition toClassLatencyRows :: "(string, ClassLatency) gomap \<Rightarrow> classLatencyRow list" where
  "toClassLatencyRows byClass =
     map (\<lambda>(key, label). let cl = glookup zeroClassLatency byClass key in
           \<lparr>clr_Class = label, clr_Count = cl_Count cl, clr_P50 = cl_P50 cl, clr_P95 = cl_P95 cl, clr_P99 = cl_P99 cl\<rparr>)
       (filter (\<lambda>(key, label). cl_Count (glookup zeroClassLatency byClass key) \<noteq> 0) statusClassLabels)"

definition noStatusReasonLabels :: "(u8, string) gomap" where
  "noStatusReasonLabels = [(0, ''unspecified''), (1, ''context canceled''), (2, ''context deadline''), (3, ''write error''),
     (4, ''panic''), (5, ''other'')]"

definition toNoStatusReasonRows :: "NoStatusReasonStat list \<Rightarrow> (string \<times> u64) list" where
  "toNoStatusReasonRows stats = map (\<lambda>s. (glookup ''other'' noStatusReasonLabels (nr_Reason s), nr_Count s)) stats"

definition toErrorClassRows :: "ErrorClassStat list \<Rightarrow> (string \<times> u64) list" where
  "toErrorClassRows stats = map (\<lambda>s. (ec_Class s, ec_Count s)) stats"

record downstreamView =
  dsv_HasData :: bool
  dsv_SelfSeconds :: real
  dsv_DownSeconds :: real
  dsv_SelfWidth :: string
  dsv_DownWidth :: string
  dsv_DownFraction :: real

definition toDownstreamView :: "DownstreamStat \<Rightarrow> downstreamView" where
  "toDownstreamView s =
     (if dw_Count s = 0 \<or> dw_SumDownstreamNs s = 0
      then \<lparr>dsv_HasData = False, dsv_SelfSeconds = 0, dsv_DownSeconds = 0, dsv_SelfWidth = '''', dsv_DownWidth = '''',
            dsv_DownFraction = 0\<rparr>
      else
        let tot = dw_SumDurationNs s;
            down = (if dw_SumDownstreamNs s > tot then tot else dw_SumDownstreamNs s);
            self = tot - down;
            frac = (if tot > 0 then real (unat down) / real (unat tot) else 0);
            downPct = frac * 100
        in \<lparr>dsv_HasData = True, dsv_SelfSeconds = real (unat self) / real (unat (dw_Count s)) / 10 ^ 9,
            dsv_DownSeconds = real (unat down) / real (unat (dw_Count s)) / 10 ^ 9,
            dsv_SelfWidth = formatFixed 1 (100 - downPct) @ ''%'', dsv_DownWidth = formatFixed 1 downPct @ ''%'',
            dsv_DownFraction = frac\<rparr>)"

record InstanceResourceStat =
  irs_Instance :: string
  irs_CPUNs :: u64
  irs_RSSBytes :: u64
  irs_HeapAllocBytes :: u64
  irs_GCPauseNs :: u64
  irs_Goroutines :: u64
  irs_NumGC :: u64
  irs_TotalAllocBytes :: u64
  irs_Mallocs :: u64
  irs_GCCPUFraction :: real
  irs_HeapInuseBytes :: u64
  irs_GOMAXPROCS :: u32
  irs_PostGCHeapBytes :: u64
  irs_RSSTrueBytes :: u64
  irs_OpenFDs :: u64
  irs_FDLimit :: u64
  irs_InFlight :: u64

record resourceRow =
  rr_Instance :: string
  rr_CoresUsed :: real
  rr_GCShare :: real
  rr_RSSBytes :: real
  rr_HeapBytes :: real
  rr_Goroutines :: u64
  rr_GCFreq :: real
  rr_GCCPUFraction :: real
  rr_AllocRate :: real
  rr_AvgAllocSize :: real
  rr_PostGCHeap :: real
  rr_TrueRSSBytes :: real
  rr_HasTrueRSS :: bool
  rr_OpenFDs :: u64
  rr_FDLimit :: u64
  rr_HasFDLimit :: bool
  rr_InFlight :: u64

definition toResourceRows :: "InstanceResourceStat list \<Rightarrow> real \<Rightarrow> resourceRow list" where
  "toResourceRows stats winSeconds =
     map (\<lambda>s. let live = winSeconds > 0; winNs = winSeconds * 10 ^ 9;
                  gcShare = real (unat (irs_GCPauseNs s)) / winNs
              in \<lparr>rr_Instance = irs_Instance s,
                  rr_CoresUsed = (if live then real (unat (irs_CPUNs s)) / winNs else 0),
                  rr_GCShare = (if live then (if gcShare > 1 then 1 else gcShare) else 0),
                  rr_RSSBytes = real (unat (irs_RSSBytes s)), rr_HeapBytes = real (unat (irs_HeapAllocBytes s)),
                  rr_Goroutines = irs_Goroutines s,
                  rr_GCFreq = (if live then real (unat (irs_NumGC s)) / winSeconds else 0),
                  rr_GCCPUFraction = irs_GCCPUFraction s,
                  rr_AllocRate = (if live then real (unat (irs_TotalAllocBytes s)) / winSeconds else 0),
                  rr_AvgAllocSize = (if irs_Mallocs s > 0
                    then real (unat (irs_TotalAllocBytes s)) / real (unat (irs_Mallocs s)) else 0),
                  rr_PostGCHeap = real (unat (irs_PostGCHeapBytes s)), rr_TrueRSSBytes = real (unat (irs_RSSTrueBytes s)),
                  rr_HasTrueRSS = (irs_RSSTrueBytes s > 0), rr_OpenFDs = irs_OpenFDs s, rr_FDLimit = irs_FDLimit s,
                  rr_HasFDLimit = (irs_FDLimit s > 0), rr_InFlight = irs_InFlight s\<rparr>) stats"

section \<open>Key figures (chrome.go)\<close>

record kpi =
  kp_Label :: string
  kp_Value :: string
  kp_Unit :: string
  kp_Sub :: string
  kp_ColorClass :: string

definition weightedErr :: "(real \<times> real) list \<Rightarrow> real" where
  "weightedErr rs =
     (let totalRate = sum_list (map snd rs); errNum = sum_list (map (\<lambda>(e, r). e * r) rs)
      in if totalRate > 0 then errNum / totalRate else 0)"

definition overviewKPIs :: "serviceRow list \<Rightarrow> string \<Rightarrow> kpi list" where
  "overviewKPIs rows winLabel =
     (let totalRate = sum_list (map sr_RatePerSec rows); totalCount = sum_list (map sr_Count rows);
          worstP99 = fold (\<lambda>s m. if sr_P99 s > m then sr_P99 s else m) rows 0;
          wErr = weightedErr (map (\<lambda>s. (sr_ErrorRate s, sr_RatePerSec s)) rows)
      in [\<lparr>kp_Label = ''TOTAL TRAFFIC'', kp_Value = fmtRate totalRate, kp_Unit = ''req/s'',
           kp_Sub = ''across '' @ natDigits (length rows) @ '' services'', kp_ColorClass = ''c-txt''\<rparr>,
          \<lparr>kp_Label = ''REQUESTS ('' @ winLabel @ '')'', kp_Value = fmtCount totalCount, kp_Unit = '''', kp_Sub = '''',
           kp_ColorClass = ''c-txt''\<rparr>,
          \<lparr>kp_Label = ''ERROR RATE'', kp_Value = fmtPctD wErr, kp_Unit = '''', kp_Sub = '''', kp_ColorClass = errClass wErr\<rparr>,
          \<lparr>kp_Label = ''WORST p99'', kp_Value = fmtMsVal worstP99, kp_Unit = fmtMsUnit worstP99, kp_Sub = '''',
           kp_ColorClass = p99Class worstP99\<rparr>])"

definition endpointKPIs :: "endpointRow list \<Rightarrow> kpi list" where
  "endpointKPIs rows =
     (let totalRate = sum_list (map er_RatePerSec rows);
          wErr = weightedErr (map (\<lambda>e. (er_ErrorRate e, er_RatePerSec e)) rows)
      in [\<lparr>kp_Label = ''ENDPOINTS'', kp_Value = natDigits (length rows), kp_Unit = '''', kp_Sub = '''', kp_ColorClass = ''c-txt''\<rparr>,
          \<lparr>kp_Label = ''TRAFFIC'', kp_Value = fmtRate totalRate, kp_Unit = ''req/s'', kp_Sub = '''', kp_ColorClass = ''c-txt''\<rparr>,
          \<lparr>kp_Label = ''ERROR RATE'', kp_Value = fmtPctD wErr, kp_Unit = '''', kp_Sub = '''', kp_ColorClass = errClass wErr\<rparr>])"

definition detailStats :: "detailView \<Rightarrow> real \<Rightarrow> kpi list" where
  "detailStats d winSeconds =
     (let rate = (if winSeconds > 0 then real (unat (dv_Count d)) / winSeconds else 0)
      in [\<lparr>kp_Label = ''RATE'', kp_Value = fmtRate rate, kp_Unit = ''req/s'', kp_Sub = '''', kp_ColorClass = ''c-txt''\<rparr>,
          \<lparr>kp_Label = ''ERROR RATE'', kp_Value = fmtPctD (dv_ErrorRate d), kp_Unit = '''', kp_Sub = '''',
           kp_ColorClass = errClass (dv_ErrorRate d)\<rparr>,
          \<lparr>kp_Label = ''p50'', kp_Value = fmtMsVal (dv_P50 d), kp_Unit = fmtMsUnit (dv_P50 d), kp_Sub = '''', kp_ColorClass = ''c-txt''\<rparr>,
          \<lparr>kp_Label = ''p95'', kp_Value = fmtMsVal (dv_P95 d), kp_Unit = fmtMsUnit (dv_P95 d), kp_Sub = '''', kp_ColorClass = ''c-txt''\<rparr>,
          \<lparr>kp_Label = ''SPREAD'', kp_Value = fmtSpread (dv_P50 d) (dv_P95 d), kp_Unit = '''', kp_Sub = '''',
           kp_ColorClass = spreadClass (dv_P50 d) (dv_P95 d)\<rparr>])"

record statusBar =
  sb_Label :: string
  sb_Count :: u64
  sb_Pct :: string
  sb_LabelClass :: string
  sb_BarClass :: string

definition statusBarsFor :: "detailView \<Rightarrow> statusBar list" where
  "statusBarsFor d =
     map (\<lambda>c. let p = (if dv_Count d > 0 then real (unat (scv_Count c)) / real (unat (dv_Count d)) * 100 else 0)
              in \<lparr>sb_Label = scv_Class c, sb_Count = scv_Count c, sb_Pct = formatFixed 1 p @ ''%'',
                  sb_LabelClass = (if scv_IsError c then ''c-txt'' else ''c-txt2''), sb_BarClass = classBarClass (scv_Class c)\<rparr>)
       (dv_Classes d)"

section \<open>The sort of the endpoint table\<close>

interpretation endpoints: weak_order "endpointLess key" for key
proof
  show "endpointLess key x y \<Longrightarrow> \<not> endpointLess key y x" for x y
    by (auto simp: endpointLess_def split: if_splits)
  show "\<not> endpointLess key x y \<Longrightarrow> \<not> endpointLess key y z \<Longrightarrow> \<not> endpointLess key x z" for x y z
    unfolding endpointLess_def by (cases "key = sortError"; cases "key = sortP99") (auto split: if_splits)
qed

lemma not_desc_less:
  fixes v w :: "'a::linorder" and r s :: "'b::linorder"
  shows "\<not> (if w \<noteq> v then w > v else s < r) \<longleftrightarrow> v > w \<or> v = w \<and> r \<le> s"
  by (cases v w rule: linorder_cases) auto

lemma normalizeSort_iff:
  "normalizeSort raw = sortError \<longleftrightarrow> raw = sortError" "normalizeSort raw = sortP99 \<longleftrightarrow> raw = sortP99"
  by (simp_all add: normalizeSort_def sortError_def sortP99_def sortTraffic_def)

text \<open>
  The endpoint table is sorted by an allowlisted column: whatever the query parameter, the key is one
  of the three, and the rows are a rearrangement of the given ones in which an earlier row never has a
  smaller value in the chosen column, rows with equal values are in the order of their routes, and rows
  that also agree in the route keep their order.
\<close>

theorem endpoint_table_sorted:
  "normalizeSort raw \<in> {sortTraffic, sortError, sortP99} \<and>
   mset (sortEndpointRows rows (normalizeSort raw)) = mset rows \<and>
   sorted_wrt (\<lambda>a b. if raw = sortError then er_ErrorRate a > er_ErrorRate b \<or> er_ErrorRate a = er_ErrorRate b \<and> er_Route a \<le> er_Route b
      else if raw = sortP99 then er_P99 a > er_P99 b \<or> er_P99 a = er_P99 b \<and> er_Route a \<le> er_Route b
      else er_Count a > er_Count b \<or> er_Count a = er_Count b \<and> er_Route a \<le> er_Route b)
    (sortEndpointRows rows (normalizeSort raw)) \<and>
   filter (\<lambda>b. \<not> endpointLess (normalizeSort raw) e b \<and> \<not> endpointLess (normalizeSort raw) b e) (sortEndpointRows rows (normalizeSort raw)) =
   filter (\<lambda>b. \<not> endpointLess (normalizeSort raw) e b \<and> \<not> endpointLess (normalizeSort raw) b e) rows"
proof (intro conjI)
  show "normalizeSort raw \<in> {sortTraffic, sortError, sortP99}" by (simp add: normalizeSort_def)
  show "mset (sortEndpointRows rows (normalizeSort raw)) = mset rows" by (simp add: sortEndpointRows_def)
  have "\<not> endpointLess (normalizeSort raw) b a \<longleftrightarrow>
     (if raw = sortError then er_ErrorRate a > er_ErrorRate b \<or> er_ErrorRate a = er_ErrorRate b \<and> er_Route a \<le> er_Route b
      else if raw = sortP99 then er_P99 a > er_P99 b \<or> er_P99 a = er_P99 b \<and> er_Route a \<le> er_Route b
      else er_Count a > er_Count b \<or> er_Count a = er_Count b \<and> er_Route a \<le> er_Route b)" for a b
    unfolding endpointLess_def normalizeSort_iff
    by (cases "raw = sortError"; cases "raw = sortP99") (simp_all only: if_True if_False not_desc_less refl)
  with endpoints.stableSort_sorted [of "normalizeSort raw" rows]
  show "sorted_wrt (\<lambda>a b. if raw = sortError then er_ErrorRate a > er_ErrorRate b \<or> er_ErrorRate a = er_ErrorRate b \<and> er_Route a \<le> er_Route b
      else if raw = sortP99 then er_P99 a > er_P99 b \<or> er_P99 a = er_P99 b \<and> er_Route a \<le> er_Route b
      else er_Count a > er_Count b \<or> er_Count a = er_Count b \<and> er_Route a \<le> er_Route b)
    (sortEndpointRows rows (normalizeSort raw))" by (simp add: sortEndpointRows_def)
  show "filter (\<lambda>b. \<not> endpointLess (normalizeSort raw) e b \<and> \<not> endpointLess (normalizeSort raw) b e) (sortEndpointRows rows (normalizeSort raw)) =
   filter (\<lambda>b. \<not> endpointLess (normalizeSort raw) e b \<and> \<not> endpointLess (normalizeSort raw) b e) rows"
    using endpoints.stableSort_stable [of "normalizeSort raw" e rows]
    by (simp add: sortEndpointRows_def)
qed

section \<open>The range of the detail page\<close>

lemma time_sub_min_span: "\<not> time_sub t f < minDetailSpan \<Longrightarrow> f + minDetailSpan \<le> t"
  using time_sub_less_iff [of minDetailSpan t f] by (simp add: minDetailSpan_def go_defs)

text \<open>
  The detail page reads a sane range whatever the query parameters: the range ends at the latest now,
  is a preset one unless it is marked custom, and a custom range is at least ten seconds long; the step
  of its chart is at least ten seconds, and for a span that Go can represent the chart has at most 60
  steps and the remainder of a division.
\<close>

theorem detail_range_sane:
  assumes "0 \<le> dur"
  shows "case resolveDetailRange query now dur of ((f, t), custom) \<Rightarrow>
     f \<le> t \<and> t \<le> now \<and> (\<not> custom \<longrightarrow> t = now \<and> t - f = dur) \<and>
     (custom \<longrightarrow> 10 * second \<le> t - f \<and> 10 * second \<le> adaptiveStep (time_sub t f) \<and>
        (t - f \<le> int64_max \<longrightarrow> t - f < 60 * adaptiveStep (time_sub t f) + 60))"
proof (cases "customRange query now")
  case None
  then show ?thesis using assms by (simp add: resolveDetailRange_def windowRange_def)
next
  case (Some ft)
  obtain f t where ft: "ft = (f, t)" by fastforce
  have sane: "t \<le> now" "\<not> time_sub t f < minDetailSpan"
    using Some ft by (auto simp: customRange_def Let_def split: if_splits option.splits)
  have span: "10 * second \<le> t - f" using time_sub_min_span [OF sane(2)] by (simp add: minDetailSpan_def)
  have step: "10 * second \<le> adaptiveStep s" for s by (simp add: adaptiveStep_def Let_def)
  have "s < 60 * adaptiveStep s + 60" if "0 \<le> s" for s
  proof -
    have "quot s detailBuckets = s div 60" using that by (simp add: quot_def detailBuckets_def sgn_if)
    then show ?thesis by (auto simp: adaptiveStep_def Let_def)
  qed
  moreover have "time_sub t f = t - f" if "t - f \<le> int64_max"
    using that span by (intro time_sub_exact) (auto simp: go_defs)
  ultimately have "t - f \<le> int64_max \<Longrightarrow> t - f < 60 * adaptiveStep (time_sub t f) + 60"
    using span by (simp add: go_defs)
  then show ?thesis using Some ft sane(1) span step by (auto simp: resolveDetailRange_def go_defs)
qed

theorem detail_range_sane_witness:
  "fst (resolveDetailRange (\<lambda>k. if k = ''from'' then ''0'' else ''9999'') (100 * second) hour) = (0, 100 * second)"
proof -
  have r: "resolveDetailRange (\<lambda>k. if k = ''from'' then ''0'' else ''9999'') (100 * second) hour = ((0, 100 * second), True)"
    by (simp add: resolveDetailRange_def customRange_def parseInt64_def hasPrefix_def parseUint_def digitVal_def
        unixTime_def time_sub_def minDetailSpan_def go_defs)
  have "(0::int) \<le> hour" by (simp add: go_defs)
  from detail_range_sane [OF this, of "100 * second" "\<lambda>k. if k = ''from'' then ''0'' else ''9999''"] r
  show ?thesis by simp
qed

section \<open>Outliers and the downstream split\<close>

lemma median_two: "median (sort [x, y]) = (x + y) / 2"
  by (simp add: median_def insort_key.simps)

text \<open>
  In a fleet of exactly two instances with traffic no instance with traffic is ever flagged an
  outlier, however slow it is, as long as the other one has a positive p95: twice the median of two
  values is their sum.
\<close>

theorem two_instances_no_outlier:
  assumes "filter (\<lambda>s. is_Count s > 0) stats = [a, b]" and "0 < is_P95 a" and "0 < is_P95 b"
    and "r \<in> set (toInstanceRows stats)" and "ir_Count r > 0"
  shows "\<not> ir_IsOutlier r"
proof -
  obtain s where s: "s \<in> set stats" "is_Count s > 0"
    and r: "ir_IsOutlier r \<longleftrightarrow> is_P95 s \<ge> 2 * median (sort [is_P95 a, is_P95 b]) \<and> is_P95 s \<ge> p95OutlierFloor"
    using assms(1,4,5) by (auto simp: toInstanceRows_def Let_def)
  have "s \<in> set (filter (\<lambda>s. is_Count s > 0) stats)" using s by simp
  then have "s = a \<or> s = b" using assms(1) by auto
  then show ?thesis using r assms(2,3) unfolding median_two by auto
qed

definition demoInstance :: "string \<Rightarrow> real \<Rightarrow> InstanceStat" where
  "demoInstance name p95 = \<lparr>is_Instance = name, is_Count = 100, is_ErrorRate = 0, is_P50 = p95 / 2, is_P95 = p95,
     is_P99 = p95, is_ReqBytesAvg = 0, is_RespBytesAvg = 0\<rparr>"

theorem two_instances_no_outlier_witness:
  "\<not> ir_IsOutlier (hd (toInstanceRows [demoInstance ''bad'' 60, demoInstance ''good'' (1 / 100)]))"
proof -
  have "hd (toInstanceRows [demoInstance ''bad'' 60, demoInstance ''good'' (1 / 100)]) \<in>
      set (toInstanceRows [demoInstance ''bad'' 60, demoInstance ''good'' (1 / 100)])"
    by (simp add: toInstanceRows_def Let_def)
  moreover have "ir_Count (hd (toInstanceRows [demoInstance ''bad'' 60, demoInstance ''good'' (1 / 100)])) > 0"
    by (simp add: toInstanceRows_def Let_def demoInstance_def)
  ultimately show ?thesis
    by (intro two_instances_no_outlier [of "[demoInstance ''bad'' 60, demoInstance ''good'' (1 / 100)]"
          "demoInstance ''bad'' 60" "demoInstance ''good'' (1 / 100)"]) (simp_all add: demoInstance_def)
qed

text \<open>With three instances the same slow one is flagged.\<close>

lemma three_instances_outlier:
  "ir_IsOutlier (hd (toInstanceRows [demoInstance ''bad'' 60, demoInstance ''good'' (1 / 100), demoInstance ''ok'' (1 / 100)]))"
  by (simp add: toInstanceRows_def Let_def demoInstance_def median_def p95OutlierFloor_def)

text \<open>The downstream share is a fraction, and the two average times add up to the whole.\<close>

theorem downstream_split:
  "0 \<le> dsv_DownFraction (toDownstreamView s) \<and> dsv_DownFraction (toDownstreamView s) \<le> 1 \<and>
   (dsv_HasData (toDownstreamView s) \<longrightarrow>
      dsv_SelfSeconds (toDownstreamView s) + dsv_DownSeconds (toDownstreamView s) =
      real (unat (dw_SumDurationNs s)) / real (unat (dw_Count s)) / 10 ^ 9)"
proof (cases "dw_Count s = 0 \<or> dw_SumDownstreamNs s = 0")
  case True
  then show ?thesis by (auto simp: toDownstreamView_def)
next
  case False
  define tot where "tot = dw_SumDurationNs s"
  define down where "down = (if dw_SumDownstreamNs s > tot then tot else dw_SumDownstreamNs s)"
  have le: "down \<le> tot" by (simp add: down_def not_less)
  then have u: "unat down \<le> unat tot" "unat (tot - down) = unat tot - unat down"
    by (simp_all add: word_le_nat_alt unat_sub)
  have sum: "real (unat (tot - down)) + real (unat down) = real (unat tot)" using u by simp
  have "dsv_SelfSeconds (toDownstreamView s) = real (unat (tot - down)) / real (unat (dw_Count s)) / 10 ^ 9"
    "dsv_DownSeconds (toDownstreamView s) = real (unat down) / real (unat (dw_Count s)) / 10 ^ 9"
    "dsv_DownFraction (toDownstreamView s) = (if tot > 0 then real (unat down) / real (unat tot) else 0)"
    using False unfolding toDownstreamView_def Let_def tot_def down_def by auto
  moreover have "real (unat (tot - down)) / c / 10 ^ 9 + real (unat down) / c / 10 ^ 9 = real (unat tot) / c / 10 ^ 9" for c
    by (simp only: add_divide_distrib [symmetric] sum)
  moreover have "0 \<le> real (unat down) / real (unat tot)" "real (unat down) / real (unat tot) \<le> 1"
    using u(1) by (auto simp: divide_le_eq_1 simp del: of_nat_unat)
  ultimately show ?thesis by (auto simp: tot_def)
qed

end
