(* ===== verification/Web_Verdict.thy ===== *)
theory Web_Verdict
  imports Web_View
begin

text \<open>
  The health verdict of an endpoint, src/server/internal/web/verdict.go: the grading of errors, tail
  spread and latency against a trailing baseline, and the sentence that reports them. The proportional
  thresholds are compared on reals. The less function that orders the reasons of a sentence interprets
  \<open>weak_order\<close>.
\<close>

section \<open>Severities\<close>

datatype severity = sevNone | sevDegraded | sevCritical

fun sevRank :: "severity \<Rightarrow> nat" where
  "sevRank sevNone = 0"
| "sevRank sevDegraded = 1"
| "sevRank sevCritical = 2"

instantiation severity :: linorder
begin

definition less_eq_severity :: "severity \<Rightarrow> severity \<Rightarrow> bool" where
  "less_eq_severity a b \<longleftrightarrow> sevRank a \<le> sevRank b"

definition less_severity :: "severity \<Rightarrow> severity \<Rightarrow> bool" where
  "less_severity a b \<longleftrightarrow> sevRank a < sevRank b"

instance
proof
  fix a b :: severity
  show "a \<le> b \<Longrightarrow> b \<le> a \<Longrightarrow> a = b" by (cases a; cases b) (simp_all add: less_eq_severity_def)
qed (auto simp: less_eq_severity_def less_severity_def)

end

definition maxSeverity :: "severity list \<Rightarrow> severity" where
  "maxSeverity sevs = fold (\<lambda>s m. if s > m then s else m) sevs sevNone"

definition floor100ms :: real where "floor100ms = 1 / 10"
definition floor200ms :: real where "floor200ms = 2 / 10"
definition floor800ms :: real where "floor800ms = 8 / 10"

definition minBaselineBuckets :: nat where "minBaselineBuckets = 30"
definition minVerdictSamples :: u64 where "minVerdictSamples = 20"
definition lowTrafficRate :: real where "lowTrafficRate = 5 / 100"

definition errorSeverity :: "int \<Rightarrow> real \<Rightarrow> severity" where
  "errorSeverity errors rate =
     (if errors \<ge> 10 \<and> rate \<ge> 5 / 100 then sevCritical
      else if errors \<ge> 5 \<and> rate \<ge> 1 / 100 then sevDegraded else sevNone)"

definition spreadSeverity :: "real \<Rightarrow> real \<Rightarrow> u64 \<Rightarrow> severity" where
  "spreadSeverity spread p95 n =
     (if spread \<ge> 6 \<and> p95 \<ge> floor200ms \<and> n \<ge> 50 then sevCritical
      else if spread \<ge> 25 / 10 \<and> p95 \<ge> floor100ms \<and> n \<ge> 50 then sevDegraded else sevNone)"

definition latencySeverity :: "real \<Rightarrow> real \<Rightarrow> severity" where
  "latencySeverity p95 rat =
     (if p95 \<ge> floor800ms \<and> rat \<ge> 4 then sevCritical
      else if p95 \<ge> floor200ms \<and> rat \<ge> 2 then sevDegraded else sevNone)"

definition baselineMedianP95 :: "TimePoint list \<Rightarrow> real option" where
  "baselineMedianP95 baseline =
     (let p95s = map tp_P95 (filter (\<lambda>b. tp_Count b > 0) baseline)
      in if length p95s < minBaselineBuckets then None else Some (median (sort p95s)))"

section \<open>Sentences\<close>

definition healthySentence :: "detailView \<Rightarrow> real \<Rightarrow> string" where
  "healthySentence d spread =
     (let word = (if spread < 13 / 10 then ''stable'' else if spread < 25 / 10 then ''steady'' else ''wide tail'')
      in fmtPctD (dv_ErrorRate d) @ '' errors, p95 '' @ fmtMsFull (dv_P95 d) @ '', '' @ word @ '' latency.'')"

record reason =
  rs_sev :: severity
  rs_rank :: nat
  rs_text :: string

definition reasonLess :: "reason \<Rightarrow> reason \<Rightarrow> bool" where
  "reasonLess a b = (if rs_sev a \<noteq> rs_sev b then rs_sev a > rs_sev b else rs_rank a < rs_rank b)"

definition problemReasons :: "detailView \<Rightarrow> real \<Rightarrow> real \<Rightarrow> severity \<Rightarrow> severity \<Rightarrow> severity \<Rightarrow> reason list" where
  "problemReasons d spread latRatio errSev spreadSev latSev =
     (if latSev \<noteq> sevNone
      then [\<lparr>rs_sev = latSev, rs_rank = 0, rs_text = ''p95 '' @ fmtMsFull (dv_P95 d) @ '' ('' @ fmtRatio latRatio @ '' baseline)''\<rparr>]
      else []) @
     (if errSev \<noteq> sevNone
      then [\<lparr>rs_sev = errSev, rs_rank = 1, rs_text = fmtPctD (dv_ErrorRate d) @ '' errors''\<rparr>] else []) @
     (if spreadSev \<noteq> sevNone
      then [\<lparr>rs_sev = spreadSev, rs_rank = 2,
             rs_text = ''spread '' @ fmtRatio spread @ '' (p95 '' @ fmtMsFull (dv_P95 d) @ '')''\<rparr>] else [])"

definition problemSentence :: "detailView \<Rightarrow> real \<Rightarrow> real \<Rightarrow> severity \<Rightarrow> severity \<Rightarrow> severity \<Rightarrow> string" where
  "problemSentence d spread latRatio errSev spreadSev latSev =
     joinWith ''; '' (map rs_text (stableSort reasonLess (problemReasons d spread latRatio errSev spreadSev latSev))) @ ''.''"

section \<open>The verdict\<close>

record verdictView =
  ve_Level :: string
  ve_DotClass :: string
  ve_Headline :: string
  ve_Qualifier :: string
  ve_Sentence :: string
  ve_Open :: bool

definition verdictErrors :: "detailView \<Rightarrow> int" where
  "verdictErrors d = mathRound (dv_ErrorRate d * real (unat (dv_Count d)))"

definition computeVerdict :: "detailView \<Rightarrow> TimePoint list \<Rightarrow> real \<Rightarrow> verdictView" where
  "computeVerdict d baseline winSeconds =
     (let errSev = errorSeverity (verdictErrors d) (dv_ErrorRate d);
          enoughSamples = dv_Count d \<ge> minVerdictSamples;
          spread = (if enoughSamples \<and> dv_P50 d > 0 then dv_P95 d / dv_P50 d else 0);
          spreadSev = (if enoughSamples then spreadSeverity spread (dv_P95 d) (dv_Count d) else sevNone);
          (latRatio, latSev) =
            (if enoughSamples
             then (case baselineMedianP95 baseline of
                     Some b \<Rightarrow> if b > 0 then (dv_P95 d / b, latencySeverity (dv_P95 d) (dv_P95 d / b)) else (0, sevNone)
                   | None \<Rightarrow> (0, sevNone))
             else (0, sevNone));
          level = maxSeverity [errSev, spreadSev, latSev];
          qualifier = (if winSeconds > 0 \<and> real (unat (dv_Count d)) / winSeconds < lowTrafficRate then ''low traffic'' else '''')
      in if level = sevNone then
           (if \<not> enoughSamples
            then \<lparr>ve_Level = ''Unknown'', ve_DotClass = ''dot-muted'', ve_Headline = ''Unknown'', ve_Qualifier = '''',
                  ve_Sentence = ''Insufficient traffic (n='' @ natDigits (unat (dv_Count d)) @ '') '' @ emDash @ '' no verdict this window.'',
                  ve_Open = False\<rparr>
            else \<lparr>ve_Level = ''Healthy'', ve_DotClass = ''dot-ok'', ve_Headline = ''Healthy'', ve_Qualifier = '''',
                  ve_Sentence = healthySentence d spread, ve_Open = False\<rparr>)
         else
           let (name, dot) = (if level = sevCritical then (''Critical'', ''dot-err'') else (''Degraded'', ''dot-warn''))
           in \<lparr>ve_Level = name, ve_DotClass = dot, ve_Headline = name, ve_Qualifier = qualifier,
               ve_Sentence = problemSentence d spread latRatio errSev spreadSev latSev, ve_Open = True\<rparr>)"

section \<open>What the verdict says\<close>

lemma maxSeverity3: "maxSeverity [a, b, c] = max a (max b c)"
  by (cases a; cases b; cases c) (simp_all add: maxSeverity_def max_def less_eq_severity_def less_severity_def)

lemma sev_max_none: "max a (max b c) = sevNone \<longleftrightarrow> a = sevNone \<and> b = sevNone \<and> c = sevNone"
  by (cases a; cases b; cases c) (simp_all add: max_def less_eq_severity_def)

lemma sev_max_critical: "max a (max b c) = sevCritical \<longleftrightarrow> a = sevCritical \<or> b = sevCritical \<or> c = sevCritical"
  by (cases a; cases b; cases c) (simp_all add: max_def less_eq_severity_def)

text \<open>The three components of a verdict, as a specification over the inputs.\<close>

definition errorGrade :: "detailView \<Rightarrow> severity" where
  "errorGrade d = errorSeverity (verdictErrors d) (dv_ErrorRate d)"

definition spreadGrade :: "detailView \<Rightarrow> severity" where
  "spreadGrade d =
     (if dv_Count d \<ge> minVerdictSamples then spreadSeverity (if dv_P50 d > 0 then dv_P95 d / dv_P50 d else 0) (dv_P95 d) (dv_Count d)
      else sevNone)"

definition latencyGrade :: "detailView \<Rightarrow> TimePoint list \<Rightarrow> severity" where
  "latencyGrade d baseline =
     (case baselineMedianP95 baseline of
        None \<Rightarrow> sevNone
      | Some b \<Rightarrow> if dv_Count d \<ge> minVerdictSamples \<and> b > 0 then latencySeverity (dv_P95 d) (dv_P95 d / b) else sevNone)"

definition verdictLevel :: "severity \<Rightarrow> bool \<Rightarrow> string" where
  "verdictLevel sev enough =
     (case sev of sevCritical \<Rightarrow> ''Critical'' | sevDegraded \<Rightarrow> ''Degraded''
      | sevNone \<Rightarrow> if enough then ''Healthy'' else ''Unknown'')"

lemma computeVerdict_level:
  "ve_Level (computeVerdict d baseline w) =
     verdictLevel (max (errorGrade d) (max (spreadGrade d) (latencyGrade d baseline))) (dv_Count d \<ge> minVerdictSamples)"
proof -
  obtain latRatio latSev where lat:
    "(if dv_Count d \<ge> minVerdictSamples
      then (case baselineMedianP95 baseline of
              Some b \<Rightarrow> if b > 0 then (dv_P95 d / b, latencySeverity (dv_P95 d) (dv_P95 d / b)) else (0, sevNone)
            | None \<Rightarrow> (0, sevNone))
      else (0, sevNone)) = (latRatio, latSev)" by fastforce
  then have latSev: "latSev = latencyGrade d baseline"
    by (auto simp: latencyGrade_def split: option.splits if_splits)
  define m where "m = max (errorGrade d) (max (spreadGrade d) latSev)"
  have sp: "(if dv_Count d \<ge> minVerdictSamples
      then spreadSeverity (if dv_Count d \<ge> minVerdictSamples \<and> dv_P50 d > 0 then dv_P95 d / dv_P50 d else 0) (dv_P95 d) (dv_Count d)
      else sevNone) = spreadGrade d" by (simp add: spreadGrade_def)
  show ?thesis
    unfolding computeVerdict_def Let_def lat sp errorGrade_def [symmetric] maxSeverity3 prod.case latSev [symmetric] m_def [symmetric]
    by (cases m) (simp_all add: verdictLevel_def)
qed

lemma computeVerdict_open:
  "ve_Open (computeVerdict d baseline w) \<longleftrightarrow> ve_Level (computeVerdict d baseline w) \<in> {''Critical'', ''Degraded''}"
  unfolding computeVerdict_def Let_def by (auto split: prod.splits)

lemma outage_grade:
  assumes "dv_ErrorRate d = 1" and "10 \<le> dv_Count d"
  shows "errorGrade d = sevCritical"
proof -
  have "10 \<le> int (unat (dv_Count d))" using assms(2) by (simp add: word_le_def)
  moreover have "verdictErrors d = int (unat (dv_Count d))"
    using mathRound_int [of "int (unat (dv_Count d))"] assms(1) by (simp add: verdictErrors_def)
  ultimately show ?thesis using assms(1) by (simp add: errorGrade_def errorSeverity_def)
qed


definition demoDetail :: "u64 \<Rightarrow> real \<Rightarrow> detailView" where
  "demoDetail n rate = \<lparr>dv_Count = n, dv_ErrorRate = rate, dv_ErrorHigh = (rate \<ge> errorRateWarn), dv_P50 = 1 / 10, dv_P95 = 1 / 5,
     dv_P99 = 1 / 4, dv_Classes = [], dv_Codes = []\<rparr>"


interpretation reasons: weak_order reasonLess
proof
  show "reasonLess x y \<Longrightarrow> \<not> reasonLess y x" for x y by (auto simp: reasonLess_def split: if_splits)
  show "\<not> reasonLess x y \<Longrightarrow> \<not> reasonLess y z \<Longrightarrow> \<not> reasonLess x z" for x y z
    by (auto simp: reasonLess_def split: if_splits)
qed

text \<open>A problem sentence names its strongest reason first.\<close>

theorem problem_sentence_strongest_first:
  assumes "r \<in> set (problemReasons d spread latRatio errSev spreadSev latSev)"
  shows "rs_sev r \<le> rs_sev (hd (stableSort reasonLess (problemReasons d spread latRatio errSev spreadSev latSev)))"
  using reasons.hd_stableSort [OF assms] by (auto simp: reasonLess_def not_less split: if_splits)

end
