(* ===== verification/Web_Memory.thy ===== *)
theory Web_Memory
  imports Web_Verdict
begin

text \<open>
  The leak-or-burst verdict over the memory trend of a fleet, src/server/internal/web/memory.go. Heap
  sizes are uint64; the absolute rise is computed in int64 as the code does, so sizes of 2^63 bytes or
  more wrap.
\<close>

record memoryVerdict =
  mv_Level :: string
  mv_DotClass :: string
  mv_Sentence :: string
  mv_Confidence :: string
  mv_Evidence :: "string list"
  mv_Falsifier :: string
  mv_Show :: bool

definition minMemorySamples :: nat where "minMemorySamples = 4"
definition leakRiseRatio :: real where "leakRiseRatio = 15 / 10"
definition leakRiseFloorBytes :: int where "leakRiseFloorBytes = 32 * 2 ^ 20"
definition burstPeakRatio :: real where "burstPeakRatio = 15 / 10"
definition burstReturnRatio :: real where "burstReturnRatio = 12 / 10"
definition leakStrongRatio :: real where "leakStrongRatio = 2"
definition confidentSamples :: nat where "confidentSamples = 8"

definition u64real :: "u64 \<Rightarrow> real" where
  "u64real v = real (unat v)"

definition memBytes :: "u64 \<Rightarrow> string" where
  "memBytes v = fmtBytes (u64real v)"

definition maxU64 :: "u64 list \<Rightarrow> u64" where
  "maxU64 xs = fold (\<lambda>x m. if x > m then x else m) (tl xs) (hd xs)"

definition minU64 :: "u64 list \<Rightarrow> u64" where
  "minU64 xs = fold (\<lambda>x m. if x < m then x else m) (tl xs) (hd xs)"

definition isBurst :: "u64 \<Rightarrow> u64 \<Rightarrow> u64 \<Rightarrow> u64 \<Rightarrow> u64 \<Rightarrow> bool" where
  "isBurst first' last' firstInuse peakPostGC peakInuse \<longleftrightarrow>
     (u64real peakPostGC \<ge> burstPeakRatio * u64real first' \<or>
      firstInuse > 0 \<and> u64real peakInuse \<ge> burstPeakRatio * u64real firstInuse) \<and>
     u64real last' \<le> burstReturnRatio * u64real first'"

definition leakVerdict :: "u64 \<Rightarrow> u64 \<Rightarrow> u64 \<Rightarrow> u64 \<Rightarrow> nat \<Rightarrow> memoryVerdict" where
  "leakVerdict first' last' secondLow firstHigh n =
     (let rat = u64real last' / u64real first'
      in \<lparr>mv_Level = ''Leak'', mv_DotClass = ''dot-err'',
          mv_Sentence = ''Post-GC heap rose '' @ memBytes first' @ '' '' @ arrowChar @ '' '' @ memBytes last' @ '' and held '' @ emDash @ '' likely a leak.'',
          mv_Confidence = (if rat \<ge> leakStrongRatio \<and> n \<ge> confidentSamples then ''High'' else ''Medium''),
          mv_Evidence =
            [''Post-GC live heap: '' @ memBytes first' @ '' at window start '' @ arrowChar @ '' '' @ memBytes last' @ '' at end ('' @ fmtRatio rat @
               '' over '' @ natDigits n @ '' buckets).'',
             ''Rise of '' @ memBytes (last' - first') @ '' clears the '' @ memBytes (word_of_int leakRiseFloorBytes) @ '' noise floor.'',
             ''Sustained: the second half's low ('' @ memBytes secondLow @ '') sits at or above the first half's high ('' @ memBytes firstHigh @ '').''],
          mv_Falsifier = ''Not a leak if the heap returns to ~'' @ memBytes first' @ '' after the next GC '' @ emDash @ '' re-check over a longer window.'',
          mv_Show = True\<rparr>)"

definition burstVerdict :: "u64 \<Rightarrow> u64 \<Rightarrow> u64 \<Rightarrow> u64 \<Rightarrow> u64 \<Rightarrow> nat \<Rightarrow> memoryVerdict" where
  "burstVerdict first' last' peakPostGC peakInuse firstInuse n =
     (let (peak, base) = (if firstInuse > 0 \<and> peakInuse > peakPostGC then (peakInuse, firstInuse) else (peakPostGC, first'));
          rat = (if base > 0 then u64real peak / u64real base else 0)
      in \<lparr>mv_Level = ''Burst'', mv_DotClass = ''dot-warn'',
          mv_Sentence = ''Post-GC heap peaked at '' @ memBytes peakPostGC @ '' then returned to '' @ memBytes last' @ '' '' @ emDash @
            '' an allocation burst, not a leak.'',
          mv_Confidence = (if n \<ge> confidentSamples then ''High'' else ''Medium''),
          mv_Evidence =
            [''Peak heap '' @ memBytes peak @ '' reached '' @ fmtRatio rat @ '' the '' @ memBytes base @ '' baseline mid-window.'',
             ''Last bucket back to '' @ memBytes last' @ '', within '' @ fmtRatio burstReturnRatio @ '' of the '' @ memBytes first' @ '' start.''],
          mv_Falsifier = ''A true leak if the baseline keeps climbing next window instead of holding near '' @ memBytes first' @ ''.'',
          mv_Show = True\<rparr>)"

definition stableVerdict :: "u64 \<Rightarrow> u64 \<Rightarrow> nat \<Rightarrow> memoryVerdict" where
  "stableVerdict low high n =
     (let rat = (if low > 0 then u64real high / u64real low else 1)
      in \<lparr>mv_Level = ''Stable'', mv_DotClass = ''dot-ok'',
          mv_Sentence = ''Post-GC heap held near '' @ memBytes low @ '' across the window '' @ emDash @ '' no leak signal.'',
          mv_Confidence = (if n \<ge> confidentSamples then ''High'' else ''Medium''),
          mv_Evidence =
            [''Post-GC live heap ranged '' @ memBytes low @ enDash @ memBytes high @ '' over '' @ natDigits n @ '' buckets ('' @ fmtRatio rat @ '' spread).'',
             ''No sustained rise above the '' @ memBytes (word_of_int leakRiseFloorBytes) @ '' noise floor.''],
          mv_Falsifier = '''', mv_Show = True\<rparr>)"

definition int64of :: "u64 \<Rightarrow> int" where
  "int64of v = wrap64 (int (unat v))"

definition computeMemoryVerdict :: "MemoryTrendPoint list \<Rightarrow> memoryVerdict" where
  "computeMemoryVerdict points =
     (let samples = filter (\<lambda>p. mt_PostGCHeapBytes p \<noteq> 0) points;
          postGC = map mt_PostGCHeapBytes samples;
          inuse = map mt_HeapInuseBytes samples;
          n = length postGC
      in if n < minMemorySamples
         then \<lparr>mv_Level = ''Unknown'', mv_DotClass = ''dot-muted'',
               mv_Sentence = ''Insufficient memory samples (n='' @ natDigits n @ '') '' @ emDash @ '' no leak/burst verdict this window.'',
               mv_Confidence = '''', mv_Evidence = [], mv_Falsifier = '''', mv_Show = False\<rparr>
         else
           let first' = postGC ! 0; last' = postGC ! (n - 1);
               peakPostGC = maxU64 postGC; peakInuse = maxU64 inuse; firstInuse = inuse ! 0;
               firstHalfHigh = maxU64 (take (n div 2) postGC);
               secondHalfLow = minU64 (drop (n div 2) postGC);
               sustained = secondHalfLow \<ge> firstHalfHigh;
               rise = wrap64 (int64of last' - int64of first');
               leakRatioMet = u64real last' \<ge> leakRiseRatio * u64real first';
               leakFloorMet = rise \<ge> leakRiseFloorBytes
           in if leakRatioMet \<and> leakFloorMet \<and> sustained then leakVerdict first' last' secondHalfLow firstHalfHigh n
              else if isBurst first' last' firstInuse peakPostGC peakInuse
              then burstVerdict first' last' peakPostGC peakInuse firstInuse n
              else stableVerdict (minU64 postGC) peakPostGC n)"

section \<open>What a memory verdict means\<close>

lemma maxU64_ge: "x \<in> set xs \<Longrightarrow> x \<le> maxU64 xs"
proof -
  have "m \<le> fold (\<lambda>x m. if x > m then x else m) ys m \<and> (\<forall>y \<in> set ys. y \<le> fold (\<lambda>x m. if x > m then x else m) ys m)" for ys and m :: u64
    by (induction ys arbitrary: m) (auto simp: not_less intro: order_trans less_imp_le)
  then show "x \<in> set xs \<Longrightarrow> x \<le> maxU64 xs" by (cases xs) (auto simp: maxU64_def)
qed

lemma minU64_le: "x \<in> set xs \<Longrightarrow> minU64 xs \<le> x"
proof -
  have "fold (\<lambda>x m. if x < m then x else m) ys m \<le> m \<and> (\<forall>y \<in> set ys. fold (\<lambda>x m. if x < m then x else m) ys m \<le> y)" for ys and m :: u64
    by (induction ys arbitrary: m) (auto simp: not_less intro: order_trans order.strict_implies_order le_less_trans)
  then show "x \<in> set xs \<Longrightarrow> minU64 xs \<le> x" by (cases xs) (auto simp: minU64_def)
qed

lemma verdict_levels:
  "mv_Level (leakVerdict a b c d n) = ''Leak''" "mv_Level (burstVerdict a b c d e n) = ''Burst''"
  "mv_Level (stableVerdict a b n) = ''Stable''"
  by (simp_all add: leakVerdict_def burstVerdict_def stableVerdict_def Let_def split: prod.split)

lemma maxU64_in: "xs \<noteq> [] \<Longrightarrow> maxU64 xs \<in> set xs"
proof -
  have "fold (\<lambda>x m. if x > m then x else m) ys m \<in> insert m (set ys)" for ys and m :: u64
    by (induction ys arbitrary: m) (fastforce split: if_splits)+
  then show "xs \<noteq> [] \<Longrightarrow> maxU64 xs \<in> set xs" by (cases xs) (auto simp: maxU64_def)
qed

lemma minU64_in: "xs \<noteq> [] \<Longrightarrow> minU64 xs \<in> set xs"
proof -
  have "fold (\<lambda>x m. if x < m then x else m) ys m \<in> insert m (set ys)" for ys and m :: u64
    by (induction ys arbitrary: m) (fastforce split: if_splits)+
  then show "xs \<noteq> [] \<Longrightarrow> minU64 xs \<in> set xs" by (cases xs) (auto simp: minU64_def)
qed

lemma halves_sustained:
  assumes "2 \<le> length xs"
  shows "maxU64 (take (length xs div 2) xs) \<le> minU64 (drop (length xs div 2) xs) \<longleftrightarrow>
    (\<forall>a \<in> set (take (length xs div 2) xs). \<forall>b \<in> set (drop (length xs div 2) xs). a \<le> b)"
proof -
  let ?t = "take (length xs div 2) xs" and ?d = "drop (length xs div 2) xs"
  have "?t \<noteq> []" "?d \<noteq> []" using assms by auto
  then show ?thesis using maxU64_in [of ?t] minU64_in [of ?d] maxU64_ge minU64_le by (meson order_trans)
qed

lemma rise_exact:
  assumes "unat a < 2 ^ 63" and "unat b < 2 ^ 63"
  shows "wrap64 (int64of b - int64of a) = int (unat b) - int (unat a)"
proof -
  have wrap: "wrap64 (int m) = int m" "wrap64 (int n - int m) = int n - int m" if "m < 2 ^ 63" "n < 2 ^ 63" for m n :: nat
    using that by (auto intro!: wrap64_id simp: go_defs)
  show ?thesis unfolding int64of_def wrap(1) [OF assms(1,1)] wrap(1) [OF assms(2,2)] by (rule wrap(2) [OF assms])
qed

text \<open>The samples of a trend: the buckets with a post-GC heap.\<close>

definition heapSamples :: "MemoryTrendPoint list \<Rightarrow> u64 list" where
  "heapSamples points = map mt_PostGCHeapBytes (filter (\<lambda>p. mt_PostGCHeapBytes p \<noteq> 0) points)"

definition leakShape :: "u64 list \<Rightarrow> bool" where
  "leakShape xs \<longleftrightarrow>
     u64real (last xs) \<ge> 15 / 10 * u64real (hd xs) \<and> int (unat (last xs)) - int (unat (hd xs)) \<ge> 32 * 2 ^ 20 \<and>
     (\<forall>a \<in> set (take (length xs div 2) xs). \<forall>b \<in> set (drop (length xs div 2) xs). a \<le> b)"

lemma memory_level:
  assumes "\<forall>x \<in> set (heapSamples points). unat x < 2 ^ 63"
  shows "mv_Level (computeMemoryVerdict points) =
    (if length (heapSamples points) < 4 then ''Unknown''
     else if leakShape (heapSamples points) then ''Leak''
     else if isBurst (hd (heapSamples points)) (last (heapSamples points))
         (mt_HeapInuseBytes (hd (filter (\<lambda>p. mt_PostGCHeapBytes p \<noteq> 0) points))) (maxU64 (heapSamples points))
         (maxU64 (map mt_HeapInuseBytes (filter (\<lambda>p. mt_PostGCHeapBytes p \<noteq> 0) points))) then ''Burst''
     else ''Stable'')"
proof -
  define sm where "sm = filter (\<lambda>p. mt_PostGCHeapBytes p \<noteq> 0) points"
  define xs where "xs = map mt_PostGCHeapBytes sm"
  define us where "us = map mt_HeapInuseBytes sm"
  have hs: "heapSamples points = xs" by (simp add: heapSamples_def xs_def sm_def)
  show ?thesis
  proof (cases "length xs < 4")
    case True
    then show ?thesis
      unfolding computeMemoryVerdict_def Let_def hs sm_def [symmetric] xs_def [symmetric] by (simp add: minMemorySamples_def)
  next
    case False
    then have ne: "xs \<noteq> []" "us \<noteq> []" "length us = length xs" "2 \<le> length xs" by (auto simp: xs_def us_def)
    have ends: "xs ! 0 = hd xs" "xs ! (length xs - 1) = last xs" "us ! 0 = hd us"
      using ne by (simp_all add: hd_conv_nth last_conv_nth)
    have "us ! 0 = mt_HeapInuseBytes (hd sm)" using ne by (simp add: us_def hd_map ends hd_conv_nth)
    moreover have "wrap64 (int64of (last xs) - int64of (hd xs)) = int (unat (last xs)) - int (unat (hd xs))"
      using assms ne unfolding hs by (intro rise_exact) (auto simp: hd_in_set last_in_set)
    ultimately show ?thesis
      using False unfolding computeMemoryVerdict_def Let_def hs sm_def [symmetric] xs_def [symmetric] us_def [symmetric] ends
        minMemorySamples_def halves_sustained [OF ne(4)] leakRiseRatio_def leakRiseFloorBytes_def leakShape_def
      by (simp add: verdict_levels ends)
  qed
qed

lemma hd_sorted_le: "sorted xs \<Longrightarrow> x \<in> set xs \<Longrightarrow> hd xs \<le> x"
  by (cases xs) auto

lemma sorted_halves:
  "sorted xs \<Longrightarrow> a \<in> set (take n xs) \<Longrightarrow> b \<in> set (drop n xs) \<Longrightarrow> a \<le> b"
  by (metis append_take_drop_id sorted_append)

lemma leak_not_burst:
  assumes "leakShape xs" and "0 < hd xs"
  shows "\<not> isBurst (hd xs) (last xs) u p q"
proof -
  have "0 < unat (hd xs)" using assms(2) by (simp add: word_less_nat_alt)
  then have "0 < u64real (hd xs)" unfolding u64real_def by (simp only: of_nat_0_less_iff)
  then show ?thesis using assms(1) by (auto simp: leakShape_def isBurst_def burstReturnRatio_def)
qed

text \<open>
  C32. The memory verdict tells a leak from a burst: for heap sizes below 2^63 bytes it is Unknown exactly
  below four samples, and Leak exactly when from four samples on the last one is at least 1.5 times and
  32 MiB above the first and no sample of the second half is below one of the first half. Hence a heap
  that never shrinks and grows that much is reported as a leak, a trend that ends within 1.2 times its
  start is not, and the verdict is Burst only if the last sample is within 1.2 times the first.
\<close>

theorem memory_leak_verdict:
  assumes "\<forall>x \<in> set (heapSamples points). unat x < 2 ^ 63"
  shows "(mv_Level (computeMemoryVerdict points) = ''Unknown'' \<longleftrightarrow> length (heapSamples points) < 4) \<and>
    (mv_Level (computeMemoryVerdict points) = ''Leak'' \<longleftrightarrow> 4 \<le> length (heapSamples points) \<and> leakShape (heapSamples points)) \<and>
    (4 \<le> length (heapSamples points) \<and> sorted (heapSamples points) \<and>
      u64real (last (heapSamples points)) \<ge> 15 / 10 * u64real (hd (heapSamples points)) \<and>
      int (unat (last (heapSamples points))) - int (unat (hd (heapSamples points))) \<ge> 32 * 2 ^ 20 \<longrightarrow>
      mv_Level (computeMemoryVerdict points) = ''Leak'') \<and>
    (mv_Level (computeMemoryVerdict points) = ''Burst'' \<longrightarrow>
      u64real (last (heapSamples points)) \<le> 12 / 10 * u64real (hd (heapSamples points)))"
proof -
  define xs where "xs = heapSamples points"
  have level: "mv_Level (computeMemoryVerdict points) =
      (if length xs < 4 then ''Unknown'' else if leakShape xs then ''Leak''
       else if isBurst (hd xs) (last xs) (mt_HeapInuseBytes (hd (filter (\<lambda>p. mt_PostGCHeapBytes p \<noteq> 0) points))) (maxU64 xs)
         (maxU64 (map mt_HeapInuseBytes (filter (\<lambda>p. mt_PostGCHeapBytes p \<noteq> 0) points))) then ''Burst'' else ''Stable'')"
    using memory_level [OF assms] by (simp only: xs_def)
  have mono: "leakShape xs" if "sorted xs" "u64real (last xs) \<ge> 15 / 10 * u64real (hd xs)"
    "int (unat (last xs)) - int (unat (hd xs)) \<ge> 32 * 2 ^ 20"
    using that sorted_halves unfolding leakShape_def by blast
  show ?thesis
    unfolding xs_def [symmetric] level using mono by (auto simp: isBurst_def burstReturnRatio_def)
qed

definition demoTrend :: "u64 list \<Rightarrow> MemoryTrendPoint list" where
  "demoTrend xs = map (\<lambda>x. \<lparr>mt_TS = 0, mt_PostGCHeapBytes = x, mt_HeapInuseBytes = x\<rparr>) xs"

theorem memory_leak_verdict_witness:
  "mv_Level (computeMemoryVerdict (demoTrend [100000000, 120000000, 150000000, 200000000])) = ''Leak''"
proof -
  have hs: "heapSamples (demoTrend [100000000, 120000000, 150000000, 200000000]) = [100000000, 120000000, 150000000, 200000000]"
    by (simp add: heapSamples_def demoTrend_def)
  have "\<forall>x \<in> set (heapSamples (demoTrend [100000000, 120000000, 150000000, 200000000])). unat x < 2 ^ 63"
    unfolding hs by simp
  from memory_leak_verdict [OF this] show ?thesis unfolding hs by (simp add: u64real_def)
qed

text \<open>Two of the rules never compete: a trend with the shape of a leak does not have that of a burst.\<close>

theorem leak_and_burst_exclusive:
  "heapSamples points \<noteq> [] \<Longrightarrow> leakShape (heapSamples points) \<Longrightarrow> \<not> isBurst (hd (heapSamples points)) (last (heapSamples points)) u p q"
proof (rule leak_not_burst)
  assume "heapSamples points \<noteq> []"
  then have "hd (heapSamples points) \<in> set (heapSamples points)" by simp
  then show "0 < hd (heapSamples points)" by (auto simp: heapSamples_def word_gt_0)
qed

end
