(* ===== verification/Web_Diagnosis.thy ===== *)
theory Web_Diagnosis
  imports Web_Memory
begin

text \<open>
  The diagnosis card, src/server/internal/web/diagnosis.go and diagnosis_causes.go: the aggregation of
  the per-instance resources of a fleet, the eight candidate causes, their ranking and the card. The
  charts of the page are strings. The score order interprets \<open>weak_order\<close>.
\<close>

section \<open>Fleet aggregates\<close>

record fleetResources =
  fr_cores :: real
  fr_gomaxprocs :: real
  fr_gcCPU :: real
  fr_allocRate :: real
  fr_gcFreq :: real
  fr_goroutines :: u64
  fr_inFlight :: u64
  fr_openFDs :: u64
  fr_fdLimit :: u64

definition peakOf :: "(InstanceResourceStat \<Rightarrow> u64) \<Rightarrow> InstanceResourceStat list \<Rightarrow> u64" where
  "peakOf f stats = fold (\<lambda>s m. if f s > m then f s else m) stats 0"

definition aggregateFleet :: "InstanceResourceStat list \<Rightarrow> real \<Rightarrow> fleetResources" where
  "aggregateFleet stats winSeconds =
     (let sumCPU = sum_list (map irs_CPUNs stats); sumAlloc = sum_list (map irs_TotalAllocBytes stats);
          sumNumGC = sum_list (map irs_NumGC stats);
          sumGomax = sum_list (map (\<lambda>s. ucast (irs_GOMAXPROCS s) :: u64) stats)
      in \<lparr>fr_cores = (if winSeconds > 0 then u64real sumCPU / (winSeconds * 10 ^ 9) else 0),
          fr_gomaxprocs = u64real sumGomax,
          fr_gcCPU = fold (\<lambda>s m. if irs_GCCPUFraction s > m then irs_GCCPUFraction s else m) stats 0,
          fr_allocRate = (if winSeconds > 0 then u64real sumAlloc / winSeconds else 0),
          fr_gcFreq = (if winSeconds > 0 then u64real sumNumGC / winSeconds else 0),
          fr_goroutines = peakOf irs_Goroutines stats, fr_inFlight = peakOf irs_InFlight stats,
          fr_openFDs = peakOf irs_OpenFDs stats, fr_fdLimit = peakOf irs_FDLimit stats\<rparr>)"

definition cpuSatRatio :: real where "cpuSatRatio = 85 / 100"
definition gcCPUElevated :: real where "gcCPUElevated = 10 / 100"
definition resourceRiseRatio :: real where "resourceRiseRatio = 15 / 10"
definition downstreamHighShare :: real where "downstreamHighShare = 5 / 10"
definition selfDominantShare :: real where "selfDominantShare = 6 / 10"
definition fdNearLimit :: real where "fdNearLimit = 7 / 10"
definition deadlineCancelShare :: real where "deadlineCancelShare = 5 / 100"
definition goroutineHighFloor :: u64 where "goroutineHighFloor = 500"
definition releaseWorseRatio :: real where "releaseWorseRatio = 15 / 10"
definition minVersionSamples :: u64 where "minVersionSamples = 20"

definition isUp :: "real \<Rightarrow> real \<Rightarrow> bool" where
  "isUp cur base \<longleftrightarrow> base > 0 \<and> cur \<ge> resourceRiseRatio * base"

section \<open>Causes\<close>

record cause =
  ca_name :: string
  ca_dotClass :: string
  ca_fired :: bool
  ca_signals :: nat
  ca_maxSignals :: nat
  ca_mag :: real
  ca_summary :: string
  ca_evidence :: "string list"
  ca_falsifier :: string
  ca_chart :: string

definition newCause :: "string \<Rightarrow> nat \<Rightarrow> cause" where
  "newCause name maxSignals =
     \<lparr>ca_name = name, ca_dotClass = ''dot-warn'', ca_fired = False, ca_signals = 0, ca_maxSignals = maxSignals, ca_mag = 0,
      ca_summary = '''', ca_evidence = [], ca_falsifier = '''', ca_chart = ''''\<rparr>"

definition score :: "cause \<Rightarrow> real" where
  "score c = real (ca_signals c) * 10 + (if ca_mag c > 9 then 9 else ca_mag c)"

record diagnosisParams =
  dp_Detail :: detailView
  dp_Verdict :: verdictView
  dp_Resources :: "InstanceResourceStat list"
  dp_ResourceBaseline :: "InstanceResourceStat list"
  dp_Memory :: memoryVerdict
  dp_MemoryChart :: string
  dp_Instances :: "instanceStatRow list"
  dp_Versions :: "VersionStat list"
  dp_Downstream :: DownstreamStat
  dp_NoStatus :: "NoStatusReasonStat list"
  dp_P95Baseline :: "real option"
  dp_WinSeconds :: real
  dp_BaselineSeconds :: real

definition memoryEvidence ::
  "diagnosisParams \<Rightarrow> fleetResources \<Rightarrow> fleetResources \<Rightarrow> bool \<Rightarrow> bool \<Rightarrow> bool \<Rightarrow> bool \<Rightarrow> string list \<times> nat" where
  "memoryEvidence p win base leak burst gcUp allocUp =
     (let e1 = (if leak \<or> burst then (mv_Evidence (dp_Memory p), 1) else ([], 0));
          e2 = (if gcUp then (fst e1 @ [''GC CPU '' @ fmtPctD (fr_gcCPU win) @ '' vs '' @ fmtPctD (fr_gcCPU base) @ '' baseline.''], snd e1 + 1) else e1);
          e3 = (if allocUp then (fst e2 @ [''Alloc rate '' @ fmtBytes (fr_allocRate win) @ ''/s vs '' @ fmtBytes (fr_allocRate base) @ ''/s baseline.''],
                 snd e2 + 1) else e2)
      in if isUp (fr_gcFreq win) (fr_gcFreq base)
         then (fst e3 @ [''GC frequency '' @ fmtRate (fr_gcFreq win) @ ''/s vs '' @ fmtRate (fr_gcFreq base) @ ''/s baseline.''], snd e3 + 1)
         else e3)"

definition causeMemory :: "diagnosisParams \<Rightarrow> fleetResources \<Rightarrow> fleetResources \<Rightarrow> cause" where
  "causeMemory p win base =
     (let c = newCause ''Memory / GC pressure'' 4;
          leak = mv_Level (dp_Memory p) = ''Leak''; burst = mv_Level (dp_Memory p) = ''Burst'';
          gcUp = fr_gcCPU win \<ge> gcCPUElevated \<and> isUp (fr_gcCPU win) (fr_gcCPU base);
          allocUp = isUp (fr_allocRate win) (fr_allocRate base)
      in if \<not> leak \<and> \<not> burst \<and> \<not> (gcUp \<and> allocUp) then c
         else
           let (ev, sigs) = memoryEvidence p win base leak burst gcUp allocUp
           in c\<lparr>ca_fired := True,
               ca_summary := ''Memory pressure is elevated: the service is allocating and garbage-collecting more than usual, which slows request handling.'',
               ca_dotClass := (if leak then ''dot-err'' else ca_dotClass c),
               ca_evidence := ev, ca_signals := sigs, ca_chart := dp_MemoryChart p,
               ca_falsifier := (if mv_Falsifier (dp_Memory p) = ''''
                  then ''Not memory-driven if heap and GC CPU stay flat over a longer window while latency persists.''
                  else mv_Falsifier (dp_Memory p)),
               ca_mag := fr_gcCPU win * 10 + (if leak then 3 else 0)\<rparr>)"

definition causeCPU :: "fleetResources \<Rightarrow> cause" where
  "causeCPU win =
     (let c = newCause ''CPU saturation'' 1
      in if fr_gomaxprocs win \<le> 0 then c
         else
           let rat = fr_cores win / fr_gomaxprocs win
           in if rat < cpuSatRatio then c
              else c\<lparr>ca_fired := True,
                ca_summary := ''CPU is near its configured capacity: there isn't much headroom left before the service becomes compute-bound.'',
                ca_signals := 1, ca_mag := rat,
                ca_evidence := [fmtCores (fr_cores win) @ '' used of '' @ formatFixed 0 (fr_gomaxprocs win) @ '' available ('' @ fmtPctD rat @ '' of GOMAXPROCS).''],
                ca_falsifier := ''Not CPU-bound if cores-used drops well below GOMAXPROCS while latency stays high '' @ emDash @ '' look to congestion or downstream.''\<rparr>)"

definition inFlightLine :: "fleetResources \<Rightarrow> fleetResources \<Rightarrow> string" where
  "inFlightLine win base =
     ''In-flight concurrency peaked '' @ natDigits (unat (fr_inFlight win)) @ '' vs '' @ natDigits (unat (fr_inFlight base)) @ '' baseline.''"

definition fdEvidence :: "fleetResources \<Rightarrow> string" where
  "fdEvidence win =
     (if fr_fdLimit win > 0
      then ''Open FDs peaked '' @ natDigits (unat (fr_openFDs win)) @ '' of '' @ natDigits (unat (fr_fdLimit win)) @ '' limit.''
      else ''Open FDs peaked '' @ natDigits (unat (fr_openFDs win)) @ '' (up vs baseline).'')"

definition addCongestionSignals ::
  "cause \<Rightarrow> fleetResources \<Rightarrow> fleetResources \<Rightarrow> bool \<Rightarrow> bool \<Rightarrow> bool \<Rightarrow> cause" where
  "addCongestionSignals c win base inflightUp fdNear fdUp =
     (let c1 = (if inflightUp
                then c\<lparr>ca_signals := ca_signals c + 1, ca_mag := u64real (fr_inFlight win) / u64real (fr_inFlight base),
                       ca_evidence := ca_evidence c @ [inFlightLine win base]\<rparr>
                else c);
          r = u64real (fr_openFDs win) / u64real (fr_fdLimit win)
      in if fdNear \<or> fdUp
         then c1\<lparr>ca_signals := ca_signals c1 + 1, ca_evidence := ca_evidence c1 @ [fdEvidence win],
                 ca_mag := (if fr_fdLimit win > 0 \<and> r > ca_mag c1 then r else ca_mag c1)\<rparr>
         else c1)"

definition causeCongestion :: "fleetResources \<Rightarrow> fleetResources \<Rightarrow> downstreamView \<Rightarrow> cause" where
  "causeCongestion win base ds =
     (let c = newCause ''Connection / pool congestion'' 4;
          selfDominant = (\<not> dsv_HasData ds \<or> dsv_DownFraction ds \<le> 1 - selfDominantShare);
          cpuFlat = (\<not> isUp (fr_cores win) (fr_cores base));
          gcFlat = (\<not> isUp (fr_gcCPU win) (fr_gcCPU base))
      in if \<not> selfDominant \<or> \<not> cpuFlat \<or> \<not> gcFlat then c
         else
           let inflightUp = isUp (u64real (fr_inFlight win)) (u64real (fr_inFlight base));
               fdNear = (fr_fdLimit win > 0 \<and> u64real (fr_openFDs win) / u64real (fr_fdLimit win) \<ge> fdNearLimit);
               fdUp = isUp (u64real (fr_openFDs win)) (u64real (fr_openFDs base))
           in if \<not> inflightUp \<and> \<not> fdNear \<and> \<not> fdUp then c
              else (addCongestionSignals
                (c\<lparr>ca_fired := True,
                   ca_summary := ''Requests are waiting on internal contention (connections, worker pool, or similar), not because the CPU or memory is busy: blocked, not busy.'',
                   ca_signals := 2,
                   ca_evidence := [''Self-time dominates (downstream '' @ fmtPctD (dsv_DownFraction ds) @ '') while CPU and GC held flat vs baseline '' @ emDash @ '' blocked, not busy.'']\<rparr>)
                win base inflightUp fdNear fdUp)
                \<lparr>ca_falsifier := ''Not congestion if cores-used or GC CPU climbs with the latency '' @ emDash @ '' that points back to compute or memory.''\<rparr>)"

definition causeOverload :: "diagnosisParams \<Rightarrow> fleetResources \<Rightarrow> fleetResources \<Rightarrow> cause" where
  "causeOverload p win base =
     (let c = newCause ''Overload / timeouts'' 2; cnt = dv_Count (dp_Detail p)
      in if cnt = 0 then c
         else
           let aborts = sum_list (map nr_Count (filter (\<lambda>r. nr_Reason r = 1 \<or> nr_Reason r = 2) (dp_NoStatus p)));
               share = u64real aborts / u64real cnt
           in if share < deadlineCancelShare then c
              else
                let up = isUp (u64real (fr_inFlight win)) (u64real (fr_inFlight base))
                in c\<lparr>ca_fired := True,
                   ca_summary := ''A significant share of requests are timing out or being canceled, typically from a load spike or an aggressive timeout setting.'',
                   ca_signals := (if up then 2 else 1), ca_mag := share,
                   ca_evidence := [''Deadline/cancel aborts '' @ natDigits (unat aborts) @ '' of '' @ natDigits (unat cnt) @ '' requests ('' @ fmtPctD share @ '').''] @
                     (if up then [inFlightLine win base] else []),
                   ca_falsifier := ''Not overload if the aborts persist at steady, low traffic '' @ emDash @ '' that is a downstream or timeout-config fault, not load.''\<rparr>)"

definition causeGoroutineLeak :: "fleetResources \<Rightarrow> fleetResources \<Rightarrow> cause" where
  "causeGoroutineLeak win base =
     (let c = newCause ''Goroutine leak'' 2
      in if fr_goroutines win < goroutineHighFloor \<or> \<not> isUp (u64real (fr_goroutines win)) (u64real (fr_goroutines base)) then c
         else c\<lparr>ca_fired := True,
           ca_summary := ''The goroutine count keeps climbing and isn't coming back down, usually a sign that something isn't being cleaned up.'',
           ca_signals := 2, ca_mag := u64real (fr_goroutines win) / u64real (fr_goroutines base),
           ca_evidence := [''Goroutines peaked '' @ natDigits (unat (fr_goroutines win)) @ '' vs '' @ natDigits (unat (fr_goroutines base)) @
             '' baseline, above the '' @ natDigits (unat goroutineHighFloor) @ '' floor.''],
           ca_falsifier := ''Not a leak if the goroutine count returns to baseline after load subsides '' @ emDash @ '' re-check over a longer window.''\<rparr>)"

definition causeDownstream :: "downstreamView \<Rightarrow> cause" where
  "causeDownstream ds =
     (let c = newCause ''Downstream / IO'' 1
      in if \<not> dsv_HasData ds \<or> dsv_DownFraction ds < downstreamHighShare then c
         else c\<lparr>ca_fired := True,
           ca_summary := ''Most of the request time is spent waiting on a downstream dependency (a database, cache, or external API), not on this endpoint's own work.'',
           ca_signals := 1, ca_mag := dsv_DownFraction ds * 6,
           ca_evidence := [''Downstream calls are '' @ fmtPctD (dsv_DownFraction ds) @ '' of request time (self is only '' @ fmtPctD (1 - dsv_DownFraction ds) @ '').''],
           ca_falsifier := ''Not downstream if self-time rises while downstream share falls '' @ emDash @ '' the endpoint's own work is the bottleneck.''\<rparr>)"

definition worstOutlier :: "instanceStatRow list \<Rightarrow> instanceStatRow option" where
  "worstOutlier instances =
     fold (\<lambda>r worst. if ir_IsOutlier r \<and> (case worst of None \<Rightarrow> True | Some w \<Rightarrow> ir_P95 r > ir_P95 w) then Some r else worst)
       instances None"

definition causeInstanceLocalized :: "instanceStatRow list \<Rightarrow> cause" where
  "causeInstanceLocalized instances =
     (let c = newCause ''Instance-localized'' 1;
          p95s = map ir_P95 (filter (\<lambda>r. ir_Count r > 0) instances)
      in if p95s = [] then c
         else
           let fleetMed = median (sort p95s)
           in case worstOutlier instances of
                None \<Rightarrow> c
              | Some worst \<Rightarrow>
                  c\<lparr>ca_fired := True,
                    ca_summary := ''The slowdown is concentrated on one instance rather than the whole fleet, likely a bad host, a hot shard, or uneven load balancing.'',
                    ca_signals := 1, ca_mag := (if fleetMed > 0 then ir_P95 worst / fleetMed else 0),
                    ca_evidence := [''Localized to '' @ ir_Instance worst @ '': p95 '' @ fmtMsFull (ir_P95 worst) @ '' vs '' @ fmtMsFull fleetMed @ '' fleet median.''],
                    ca_falsifier := ''Not localized if the p95 gap closes when the instance drains '' @ emDash @ '' the outlier was a transient, not a bad host.''\<rparr>)"

definition bestWorstStep :: "VersionStat \<Rightarrow> VersionStat option \<times> VersionStat option \<Rightarrow> VersionStat option \<times> VersionStat option" where
  "bestWorstStep v bw =
     (case bw of (best, worst) \<Rightarrow>
        if vs_Version v = '''' \<or> vs_Count v < minVersionSamples \<or> vs_P95 v \<le> 0 then (best, worst)
        else ((case best of None \<Rightarrow> Some v | Some b \<Rightarrow> if vs_P95 v < vs_P95 b then Some v else Some b),
              (case worst of None \<Rightarrow> Some v | Some w \<Rightarrow> if vs_P95 v > vs_P95 w then Some v else Some w)))"

definition bestWorstVersion :: "VersionStat list \<Rightarrow> (VersionStat \<times> VersionStat) option" where
  "bestWorstVersion versions =
     (case fold bestWorstStep versions (None, None) of
        (Some best, Some worst) \<Rightarrow> if vs_Version best \<noteq> vs_Version worst then Some (best, worst) else None
      | _ \<Rightarrow> None)"

definition causeRelease :: "VersionStat list \<Rightarrow> cause" where
  "causeRelease versions =
     (let c = newCause ''Release regression'' 2
      in case bestWorstVersion versions of
           None \<Rightarrow> c
         | Some (best, worst) \<Rightarrow>
             let rat = vs_P95 worst / vs_P95 best; errUp = (vs_ErrorRate worst \<ge> vs_ErrorRate best + 1 / 100)
             in if rat < releaseWorseRatio then c
                else c\<lparr>ca_fired := True,
                  ca_summary := ''One deployed version is measurably slower than another, consistent with a release regression rather than a resource or dependency issue.'',
                  ca_signals := (if errUp then 2 else 1), ca_mag := rat,
                  ca_evidence := [''Version '' @ vs_Version worst @ '' p95 '' @ fmtMsFull (vs_P95 worst) @ '' vs '' @ vs_Version best @ '' p95 '' @
                      fmtMsFull (vs_P95 best) @ '' ('' @ fmtRatio rat @ '').''] @
                    (if errUp then [''Version '' @ vs_Version worst @ '' error rate '' @ fmtPctD (vs_ErrorRate worst) @ '' vs '' @ vs_Version best @ '' '' @
                      fmtPctD (vs_ErrorRate best) @ ''.''] else []),
                  ca_falsifier := ''Not a regression if both versions converge once traffic rebalances '' @ emDash @ '' the gap was a warm-up or a skewed sample.''\<rparr>)"

section \<open>The card\<close>

record topCauseView =
  tc_Name :: string
  tc_DotClass :: string
  tc_Confidence :: string
  tc_Summary :: string
  tc_Evidence :: "string list"
  tc_Falsifier :: string
  tc_Chart :: string

record causeSummary =
  cs_Name :: string
  cs_DotClass :: string
  cs_Confidence :: string

record diagnosisView =
  di_TopCause :: topCauseView
  di_Why :: string
  di_Scope :: string
  di_Others :: "causeSummary list"

definition confidenceLabel :: "nat \<Rightarrow> nat \<Rightarrow> string" where
  "confidenceLabel sigs maxSignals =
     (if sigs \<ge> 3 then ''High'' else if sigs = 2 then ''Medium'' else ''Low'') @ '' ('' @ natDigits sigs @ ''/'' @ natDigits maxSignals @ '' signals)''"

definition diagnosisWhy :: "detailView \<Rightarrow> real option \<Rightarrow> string" where
  "diagnosisWhy d p95Base =
     (let byErr = (if dv_ErrorRate d > 0 then ''Error rate '' @ fmtPctD (dv_ErrorRate d) @ ''.''
                   else if dv_P50 d > 0 then ''Tail spread p95/p50 '' @ fmtRatio (dv_P95 d / dv_P50 d) @ ''.''
                   else ''p95 '' @ fmtMsFull (dv_P95 d) @ ''.'')
      in case p95Base of
           None \<Rightarrow> byErr
         | Some b \<Rightarrow> if b > 0 \<and> dv_P95 d / b \<ge> 2 then ''Latency p95 '' @ fmtRatio (dv_P95 d / b) @ '' the trailing baseline.'' else byErr)"

definition diagnosisScope :: "detailView \<Rightarrow> instanceStatRow list \<Rightarrow> VersionStat list \<Rightarrow> string" where
  "diagnosisScope d instances versions =
     (let tot = length (filter (\<lambda>r. ir_Count r > 0) instances); outliers = length (filter ir_IsOutlier instances);
          v = dominantVersion versions
      in joinWith ('' '' @ middleDot @ '' '')
           ((if tot = 0 then []
             else if outliers > 0 then [natDigits outliers @ '' of '' @ natDigits tot @ '' instances'']
             else [natDigits tot @ '' instances'']) @
            (if v \<noteq> '''' then [v] else []) @
            [if dv_ErrorRate d > 0 then ''success and error'' else ''success only'']))"

definition candidates :: "diagnosisParams \<Rightarrow> cause list" where
  "candidates p =
     (let win = aggregateFleet (dp_Resources p) (dp_WinSeconds p); base = aggregateFleet (dp_ResourceBaseline p) (dp_BaselineSeconds p);
          ds = toDownstreamView (dp_Downstream p)
      in [causeMemory p win base, causeCPU win, causeCongestion win base ds, causeOverload p win base, causeGoroutineLeak win base,
          causeDownstream ds, causeInstanceLocalized (dp_Instances p), causeRelease (dp_Versions p)])"

definition scoreGreater :: "cause \<Rightarrow> cause \<Rightarrow> bool" where
  "scoreGreater a b \<longleftrightarrow> score a > score b"

definition rankedCauses :: "diagnosisParams \<Rightarrow> cause list" where
  "rankedCauses p = stableSort scoreGreater (filter ca_fired (candidates p))"

definition anomalous :: "diagnosisParams \<Rightarrow> bool" where
  "anomalous p \<longleftrightarrow> ve_Level (dp_Verdict p) = ''Degraded'' \<or> ve_Level (dp_Verdict p) = ''Critical'' \<or>
     mv_Level (dp_Memory p) = ''Leak'' \<or> mv_Level (dp_Memory p) = ''Burst''"

text \<open>A card that is not shown is \<open>None\<close>.\<close>

definition computeDiagnosis :: "diagnosisParams \<Rightarrow> diagnosisView option" where
  "computeDiagnosis p =
     (if \<not> anomalous p then None
      else
        let why = diagnosisWhy (dp_Detail p) (dp_P95Baseline p);
            scope = diagnosisScope (dp_Detail p) (dp_Instances p) (dp_Versions p)
        in case rankedCauses p of
             [] \<Rightarrow> Some \<lparr>di_TopCause =
                 \<lparr>tc_Name = ''Unattributed'', tc_DotClass = ''dot-muted'', tc_Confidence = ''Low (0 signals)'',
                  tc_Summary = ''None of the tracked signals stand out enough to point at a specific cause yet.'',
                  tc_Evidence = [''No resource signal explains this degradation '' @ emDash @ '' check the timeline and exemplars.''],
                  tc_Falsifier = ''A cause would attach if a resource, downstream, version, or instance signal crossed its threshold next window.'',
                  tc_Chart = ''''\<rparr>,
                 di_Why = why, di_Scope = scope, di_Others = []\<rparr>
           | c1 # others \<Rightarrow> Some \<lparr>di_TopCause =
                 \<lparr>tc_Name = ca_name c1, tc_DotClass = ca_dotClass c1, tc_Confidence = confidenceLabel (ca_signals c1) (ca_maxSignals c1),
                  tc_Summary = ca_summary c1, tc_Evidence = ca_evidence c1, tc_Falsifier = ca_falsifier c1, tc_Chart = ca_chart c1\<rparr>,
                 di_Why = why, di_Scope = scope,
                 di_Others = map (\<lambda>c. \<lparr>cs_Name = ca_name c, cs_DotClass = ca_dotClass c,
                   cs_Confidence = confidenceLabel (ca_signals c) (ca_maxSignals c)\<rparr>) others\<rparr>)"

section \<open>Every cause is well formed\<close>

text \<open>
  A fired cause has at least one and at most its maximal number of signals, a magnitude that is not
  negative, a summary and a falsifier.
\<close>

definition causeOk :: "cause \<Rightarrow> bool" where
  "causeOk c \<longleftrightarrow> (ca_fired c \<longrightarrow> 0 < ca_signals c \<and> ca_signals c \<le> ca_maxSignals c \<and> 0 \<le> ca_mag c \<and>
     ca_summary c \<noteq> '''' \<and> ca_falsifier c \<noteq> '''')"

lemma causeOk_newCause [simp]: "causeOk (newCause name n)"
  by (simp add: causeOk_def newCause_def)

lemma u64real_nonneg [simp]: "0 \<le> u64real v"
  unfolding u64real_def by (rule of_nat_0_le_iff)

lemma gcCPU_nonneg: "0 \<le> fr_gcCPU (aggregateFleet stats w)"
proof -
  have "m \<le> fold (\<lambda>s m. if irs_GCCPUFraction s > m then irs_GCCPUFraction s else m) stats m" for m
    by (induction stats arbitrary: m) (auto intro: order_trans order.strict_implies_order)
  then show ?thesis by (simp add: aggregateFleet_def Let_def)
qed

lemma memoryEvidence_signals:
  "snd (memoryEvidence p win base leak burst gcUp allocUp) =
     (if leak \<or> burst then 1 else 0) + (if gcUp then 1 else 0) + (if allocUp then 1 else 0) +
     (if isUp (fr_gcFreq win) (fr_gcFreq base) then 1 else 0)"
  by (simp add: memoryEvidence_def Let_def)

lemma causeMemory_ok:
  assumes "0 \<le> fr_gcCPU win"
  shows "causeOk (causeMemory p win base)"
proof -
  obtain ev sigs where ev: "memoryEvidence p win base (mv_Level (dp_Memory p) = ''Leak'') (mv_Level (dp_Memory p) = ''Burst'')
      (fr_gcCPU win \<ge> gcCPUElevated \<and> isUp (fr_gcCPU win) (fr_gcCPU base)) (isUp (fr_allocRate win) (fr_allocRate base)) = (ev, sigs)"
    by fastforce
  have "sigs \<le> 4" and pos: "mv_Level (dp_Memory p) = ''Leak'' \<or> mv_Level (dp_Memory p) = ''Burst'' \<or>
      isUp (fr_allocRate win) (fr_allocRate base) \<Longrightarrow> 0 < sigs"
    using memoryEvidence_signals [of p win base "mv_Level (dp_Memory p) = ''Leak''" "mv_Level (dp_Memory p) = ''Burst''"
        "fr_gcCPU win \<ge> gcCPUElevated \<and> isUp (fr_gcCPU win) (fr_gcCPU base)" "isUp (fr_allocRate win) (fr_allocRate base)"]
    unfolding ev by auto
  then show ?thesis
    using assms unfolding causeMemory_def Let_def ev by (auto simp: causeOk_def newCause_def)
qed

lemma causeCPU_ok: "causeOk (causeCPU win)"
proof -
  have "0 \<le> r" if "\<not> r < cpuSatRatio" for r using that by (simp add: cpuSatRatio_def)
  then show ?thesis unfolding causeCPU_def Let_def by (auto simp: causeOk_def newCause_def)
qed

lemma causeOverload_ok: "causeOk (causeOverload p win base)"
  unfolding causeOverload_def Let_def by (auto simp: causeOk_def newCause_def deadlineCancelShare_def)

lemma causeGoroutineLeak_ok: "causeOk (causeGoroutineLeak win base)"
  unfolding causeGoroutineLeak_def Let_def by (auto simp: causeOk_def newCause_def)

lemma causeDownstream_ok: "causeOk (causeDownstream ds)"
  unfolding causeDownstream_def Let_def by (auto simp: causeOk_def newCause_def downstreamHighShare_def)

lemma addCongestionSignals_fields:
  "ca_signals (addCongestionSignals c win base i n u) = ca_signals c + (if i then 1 else 0) + (if n \<or> u then 1 else 0)"
  "ca_maxSignals (addCongestionSignals c win base i n u) = ca_maxSignals c"
  "ca_summary (addCongestionSignals c win base i n u) = ca_summary c"
  "0 \<le> ca_mag c \<Longrightarrow> 0 \<le> ca_mag (addCongestionSignals c win base i n u)"
  by (auto simp: addCongestionSignals_def Let_def)

lemma causeCongestion_ok: "causeOk (causeCongestion win base ds)"
  unfolding causeCongestion_def Let_def
  by (auto simp: causeOk_def newCause_def addCongestionSignals_fields)

lemma worstOutlier_flagged: "worstOutlier instances = Some w \<Longrightarrow> w \<in> set instances \<and> ir_IsOutlier w"
proof -
  have "fold (\<lambda>r worst. if ir_IsOutlier r \<and> (case worst of None \<Rightarrow> True | Some w \<Rightarrow> ir_P95 r > ir_P95 w) then Some r else worst) xs acc = Some w \<Longrightarrow>
     acc = Some w \<or> w \<in> set xs \<and> ir_IsOutlier w" for xs acc
    by (induction xs arbitrary: acc) (auto split: if_splits)
  then show "worstOutlier instances = Some w \<Longrightarrow> w \<in> set instances \<and> ir_IsOutlier w"
    unfolding worstOutlier_def by blast
qed

lemma causeInstanceLocalized_ok:
  assumes "\<forall>r \<in> set instances. ir_IsOutlier r \<longrightarrow> 0 \<le> ir_P95 r"
  shows "causeOk (causeInstanceLocalized instances)"
proof (cases "worstOutlier instances")
  case (Some w)
  then have "0 \<le> ir_P95 w" using assms worstOutlier_flagged by blast
  then show ?thesis using Some unfolding causeInstanceLocalized_def Let_def by (auto simp: causeOk_def newCause_def)
qed (simp add: causeInstanceLocalized_def Let_def)

lemma bestWorst_qualified:
  "fold bestWorstStep vs (b, w) = (Some best, Some worst) \<Longrightarrow>
   (b = Some best \<or> vs_P95 best > 0) \<and> (w = Some worst \<or> vs_P95 worst > 0)"
proof (induction vs arbitrary: b w)
  case (Cons v vs)
  show ?case
    using Cons.IH [of "fst (bestWorstStep v (b, w))" "snd (bestWorstStep v (b, w))"] Cons.prems
    by (auto simp: bestWorstStep_def split: if_splits option.splits)
qed simp

lemma bestWorstVersion_pos: "bestWorstVersion vs = Some (best, worst) \<Longrightarrow> vs_P95 best > 0 \<and> vs_P95 worst > 0"
  using bestWorst_qualified [of vs None None best worst]
  by (auto simp: bestWorstVersion_def split: option.splits if_splits prod.splits)

lemma causeRelease_ok: "causeOk (causeRelease versions)"
proof (cases "bestWorstVersion versions")
  case (Some bw)
  then show ?thesis
    using bestWorstVersion_pos [of versions "fst bw" "snd bw"] unfolding causeRelease_def Let_def
    by (auto simp: causeOk_def newCause_def split: prod.split)
qed (simp add: causeRelease_def Let_def)

lemma candidates_ok:
  assumes "\<forall>r \<in> set (dp_Instances p). ir_IsOutlier r \<longrightarrow> 0 \<le> ir_P95 r" and "c \<in> set (candidates p)"
  shows "causeOk c"
  using assms(2) causeMemory_ok [OF gcCPU_nonneg] causeCPU_ok causeCongestion_ok causeOverload_ok causeGoroutineLeak_ok
    causeDownstream_ok causeInstanceLocalized_ok [OF assms(1)] causeRelease_ok
  unfolding candidates_def Let_def by auto

section \<open>The ranking\<close>

interpretation ranking: weak_order scoreGreater
  by unfold_locales (auto simp: scoreGreater_def)

lemma score_signals:
  assumes "causeOk a" and "causeOk b" and "ca_fired a" and "ca_fired b" and "\<not> score b > score a"
  shows "ca_signals b \<le> ca_signals a"
proof (rule ccontr)
  assume "\<not> ca_signals b \<le> ca_signals a"
  then have "real (ca_signals a) + 1 \<le> real (ca_signals b)" by linarith
  moreover have "(if ca_mag a > 9 then 9 else ca_mag a) \<le> 9" "0 \<le> (if ca_mag b > 9 then 9 else ca_mag b)"
    using assms(2,4) by (auto simp: causeOk_def)
  ultimately have "score b > score a" unfolding score_def by linarith
  with assms(5) show False by blast
qed

lemma rankedCauses_signals:
  assumes "\<forall>r \<in> set (dp_Instances p). ir_IsOutlier r \<longrightarrow> 0 \<le> ir_P95 r"
  shows "sorted_wrt (\<lambda>a b. ca_signals b \<le> ca_signals a) (rankedCauses p)"
proof -
  have ok: "causeOk c \<and> ca_fired c" if "c \<in> set (rankedCauses p)" for c
    using that candidates_ok [OF assms] by (simp add: rankedCauses_def)
  have "sorted_wrt (\<lambda>a b. \<not> score b > score a) (rankedCauses p)"
    using ranking.stableSort_sorted by (simp add: rankedCauses_def scoreGreater_def)
  then show ?thesis
    by (rule sorted_wrt_mono_rel [rotated]) (use ok score_signals in blast)
qed

text \<open>
  C33. The diagnosis card never claims more than its evidence: it is shown exactly for a degraded or
  critical verdict or a memory leak or burst; its top cause always carries a falsifier; the causes it
  lists are the fired ones, the top one first, in descending number of corroborating signals whatever
  the magnitudes, and no cause counts more signals than it can have; without a fired cause the card is
  unattributed.
\<close>

theorem diagnosis_card:
  assumes "dp_Instances p = toInstanceRows stats"
  shows "(computeDiagnosis p \<noteq> None \<longleftrightarrow> anomalous p) \<and>
    mset (rankedCauses p) = mset (filter ca_fired (candidates p)) \<and>
    sorted_wrt (\<lambda>a b. ca_signals b \<le> ca_signals a) (rankedCauses p) \<and>
    (\<forall>c \<in> set (rankedCauses p). 0 < ca_signals c \<and> ca_signals c \<le> ca_maxSignals c) \<and>
    (\<forall>v. computeDiagnosis p = Some v \<longrightarrow> tc_Falsifier (di_TopCause v) \<noteq> '''' \<and>
       (if rankedCauses p = [] then tc_Name (di_TopCause v) = ''Unattributed'' \<and> di_Others v = []
        else tc_Name (di_TopCause v) # map cs_Name (di_Others v) = map ca_name (rankedCauses p)))"
proof (intro conjI allI impI ballI)
  have inst: "\<forall>r \<in> set (dp_Instances p). ir_IsOutlier r \<longrightarrow> 0 \<le> ir_P95 r"
    unfolding assms by (auto simp: toInstanceRows_def Let_def p95OutlierFloor_def)
  have ok: "causeOk c \<and> ca_fired c" if "c \<in> set (rankedCauses p)" for c
    using that candidates_ok [OF inst] by (simp add: rankedCauses_def)
  show "(computeDiagnosis p \<noteq> None) = anomalous p"
    by (simp add: computeDiagnosis_def Let_def split: list.split)
  show "mset (rankedCauses p) = mset (filter ca_fired (candidates p))" by (simp add: rankedCauses_def)
  show "sorted_wrt (\<lambda>a b. ca_signals b \<le> ca_signals a) (rankedCauses p)" by (rule rankedCauses_signals [OF inst])
  show "0 < ca_signals c" "ca_signals c \<le> ca_maxSignals c" if "c \<in> set (rankedCauses p)" for c
    using ok [OF that] by (auto simp: causeOk_def)
  fix v assume v: "computeDiagnosis p = Some v"
  show "tc_Falsifier (di_TopCause v) \<noteq> ''''"
  proof (cases "rankedCauses p")
    case Nil
    with v show ?thesis by (auto simp: computeDiagnosis_def Let_def split: if_splits)
  next
    case (Cons c cs)
    with ok [of c] have "ca_falsifier c \<noteq> ''''" by (simp add: causeOk_def)
    with Cons v show ?thesis by (auto simp: computeDiagnosis_def Let_def split: if_splits)
  qed
  show "if rankedCauses p = [] then tc_Name (di_TopCause v) = ''Unattributed'' \<and> di_Others v = []
        else tc_Name (di_TopCause v) # map cs_Name (di_Others v) = map ca_name (rankedCauses p)"
    using v by (cases "rankedCauses p") (auto simp: computeDiagnosis_def Let_def split: if_splits)
qed

definition demoParams :: diagnosisParams where
  "demoParams = \<lparr>dp_Detail = demoDetail 100 1, dp_Verdict = computeVerdict (demoDetail 100 1) [] 3600, dp_Resources = [],
     dp_ResourceBaseline = [], dp_Memory = computeMemoryVerdict [], dp_MemoryChart = '''', dp_Instances = toInstanceRows [],
     dp_Versions = [], dp_Downstream = \<lparr>dw_Count = 100, dw_SumDurationNs = 1000, dw_SumDownstreamNs = 900\<rparr>,
     dp_NoStatus = [\<lparr>nr_Reason = 2, nr_Count = 40\<rparr>], dp_P95Baseline = None, dp_WinSeconds = 3600, dp_BaselineSeconds = 21600\<rparr>"

lemma demoParams_anomalous: "anomalous demoParams"
proof -
  have "errorGrade (demoDetail 100 1) = sevCritical" by (rule outage_grade) (simp_all add: demoDetail_def)
  then have "max (errorGrade (demoDetail 100 1)) (max (spreadGrade (demoDetail 100 1)) (latencyGrade (demoDetail 100 1) [])) = sevCritical"
    using sev_max_critical by blast
  then have "ve_Level (computeVerdict (demoDetail 100 1) [] 3600) = ''Critical''"
    by (simp only: computeVerdict_level verdictLevel_def severity.case)
  then show ?thesis by (simp add: anomalous_def demoParams_def)
qed

theorem diagnosis_card_witness:
  "mset (rankedCauses demoParams) = mset (filter ca_fired (candidates demoParams)) \<and>
   (\<exists>v. computeDiagnosis demoParams = Some v \<and> tc_Falsifier (di_TopCause v) \<noteq> '''')"
proof -
  have h: "dp_Instances demoParams = toInstanceRows []" by (simp add: demoParams_def)
  show ?thesis using diagnosis_card [OF h] demoParams_anomalous by blast
qed

end
