(* ===== verification/Web_Pages.thy ===== *)
theory Web_Pages
  imports Web_Diagnosis
begin

text \<open>
  The handlers of the dashboard, src/server/internal/web/: web.go (overview, endpoint table, tenant
  resolution), web_detail.go (the detail page and its panels), web_setup.go (ingest keys and team), the
  onboarding steps of view_page.go, and the adapters of server/app that bind them to the control plane.

  A page is a value that holds the data its template renders. A request carries the verified session, its
  query, its form and its path value. The team store is composed in from outside the repository
  (\<open>MemberAdmin\<close>): its three writing operations are functions of the handler record. The two resource
  queries of the detail page are given by their results here and by the model of the queries in
  \<open>Detail_Page\<close>.
\<close>

section \<open>Requests, replies and the handler\<close>

record webRequest =
  wr_session :: "Session option"
  wr_path :: string
  wr_query :: "string \<Rightarrow> string"
  wr_form :: "string \<Rightarrow> string"
  wr_pathID :: string
  wr_service :: string

type_synonym 'w teamOp = "string \<Rightarrow> string \<Rightarrow> 'w \<Rightarrow> bool \<times> 'w"

record 'w memberAdmin =
  ma_CreateInvite :: "string \<Rightarrow> string \<Rightarrow> string \<Rightarrow> string \<Rightarrow> 'w \<Rightarrow> string option \<times> 'w"
  ma_RevokeInvite :: "'w teamOp"
  ma_RemoveMember :: "'w teamOp"

record 'w webHandler =
  wb_authOn :: bool
  wb_constTenant :: string
  wb_keys :: bool
  wb_members :: "'w memberAdmin option"
  wb_csrf :: "(string \<Rightarrow> string) option"
  wb_baseURL :: string
  wb_frozen :: "string \<Rightarrow> bool"

datatype webError = ConfigNilCSRF

definition newCSRF :: "string \<Rightarrow> (string \<Rightarrow> string \<Rightarrow> string) \<Rightarrow> (string \<Rightarrow> string) option" where
  "newCSRF key hmac = (if key = '''' then None else Some (hmac key))"

definition web_NewHandler ::
  "bool \<Rightarrow> string \<Rightarrow> bool \<Rightarrow> 'w memberAdmin option \<Rightarrow> string \<Rightarrow> (string \<Rightarrow> string \<Rightarrow> string) \<Rightarrow> string \<Rightarrow> (string \<Rightarrow> bool) \<Rightarrow>
   webError + 'w webHandler" where
  "web_NewHandler authOn constTenant hasKeys members csrfKey hmac baseURL frozen =
     (if (hasKeys \<or> members \<noteq> None) \<and> csrfKey = '''' then Inl ConfigNilCSRF
      else Inr \<lparr>wb_authOn = authOn, wb_constTenant = constTenant, wb_keys = hasKeys, wb_members = members,
                wb_csrf = newCSRF csrfKey hmac, wb_baseURL = baseURL, wb_frozen = frozen\<rparr>)"

definition buildWebConfig ::
  "bool \<Rightarrow> 'w memberAdmin option \<Rightarrow> bool \<Rightarrow> string \<Rightarrow> string \<Rightarrow> (string \<Rightarrow> string \<Rightarrow> string) \<Rightarrow> string \<Rightarrow> (string \<Rightarrow> bool) \<Rightarrow>
   webError + 'w webHandler" where
  "buildWebConfig cp memberAdmin authOn constTenant csrfKey hmac baseURL frozen =
     (if cp then web_NewHandler authOn constTenant True memberAdmin csrfKey hmac baseURL frozen
      else web_NewHandler authOn constTenant False None '''' hmac baseURL frozen)"

record setupExtras =
  se_newToken :: string
  se_inviteURL :: string
  se_teamError :: string

definition noExtras :: setupExtras where
  "noExtras = \<lparr>se_newToken = '''', se_inviteURL = '''', se_teamError = ''''\<rparr>"

datatype setupReply =
    SetupError int string
  | SetupPage tenantID setupExtras
  | SeeOther string

definition resolveTenant :: "'w webHandler \<Rightarrow> webRequest \<Rightarrow> tenantID option" where
  "resolveTenant h r = tenantResolver (wb_authOn h) (wb_constTenant h) (wr_session r)"

definition caller :: "'w webHandler \<Rightarrow> webRequest \<Rightarrow> (string \<times> string) option" where
  "caller h r = (if wb_authOn h then sessionRole (wr_session r) else None)"

definition isAdmin :: "'w webHandler \<Rightarrow> webRequest \<Rightarrow> bool" where
  "isAdmin h r \<longleftrightarrow> (case caller h r of None \<Rightarrow> False | Some (role, _) \<Rightarrow> role = ''admin'')"

definition checkCSRF :: "'w webHandler \<Rightarrow> webRequest \<Rightarrow> tenantID \<Rightarrow> bool" where
  "checkCSRF h r tid \<longleftrightarrow>
     (case wb_csrf h of None \<Rightarrow> False | Some mac \<Rightarrow> csrf_verify mac tid (wr_form r ''csrf_token''))"

section \<open>Ingest keys and team (web_setup.go, deps.go)\<close>

definition keyAdmin_IssueKey ::
  "string \<Rightarrow> (string \<Rightarrow> string) \<Rightarrow> string \<Rightarrow> string \<Rightarrow> string \<Rightarrow> string \<Rightarrow> instant \<Rightarrow> string dbop" where
  "keyAdmin_IssueKey baseURL sha orgID label random newKeyId now d =
     (case issueKey sha orgID label random newKeyId now d of
        (Inl e, d') \<Rightarrow> (Inl e, d')
      | (Inr secret, d') \<Rightarrow> (Inr (Encode baseURL secret), d'))"

definition serveSetup :: "'w webHandler \<Rightarrow> webRequest \<Rightarrow> setupReply" where
  "serveSetup h r =
     (case resolveTenant h r of None \<Rightarrow> SetupError 401 ''unauthorized'' | Some tid \<Rightarrow> SetupPage tid noExtras)"

definition keyLabel :: "webRequest \<Rightarrow> string" where
  "keyLabel r = (let label = trimSpace (wr_form r ''label'') in if label = '''' then ''default'' else label)"

definition serveCreateKey ::
  "'w webHandler \<Rightarrow> (string \<Rightarrow> string) \<Rightarrow> string \<Rightarrow> string \<Rightarrow> instant \<Rightarrow> webRequest \<Rightarrow> db \<Rightarrow> setupReply \<times> db" where
  "serveCreateKey h sha random newKeyId now r d =
     (case resolveTenant h r of
        None \<Rightarrow> (SetupError 401 ''unauthorized'', d)
      | Some tid \<Rightarrow>
          if \<not> wb_keys h then (SetupError 404 ''404 page not found'', d)
          else if \<not> checkCSRF h r tid then (SetupError 403 ''invalid csrf token'', d)
          else (case keyAdmin_IssueKey (wb_baseURL h) sha tid (keyLabel r) random newKeyId now d of
                  (Inl _, d') \<Rightarrow> (SetupError 500 ''query failed'', d')
                | (Inr tok, d') \<Rightarrow> (SetupPage tid (noExtras\<lparr>se_newToken := tok\<rparr>), d')))"

definition serveRevokeKey :: "'w webHandler \<Rightarrow> instant \<Rightarrow> webRequest \<Rightarrow> db \<Rightarrow> setupReply \<times> db" where
  "serveRevokeKey h now r d =
     (case resolveTenant h r of
        None \<Rightarrow> (SetupError 401 ''unauthorized'', d)
      | Some tid \<Rightarrow>
          if \<not> wb_keys h then (SetupError 404 ''404 page not found'', d)
          else if \<not> checkCSRF h r tid then (SetupError 403 ''invalid csrf token'', d)
          else (SeeOther ''/setup'', snd (revokeKey tid (wr_pathID r) now d)))"

definition teamAction :: "'w webHandler \<Rightarrow> webRequest \<Rightarrow> setupReply + tenantID \<times> 'w memberAdmin" where
  "teamAction h r =
     (case resolveTenant h r of
        None \<Rightarrow> Inl (SetupError 401 ''unauthorized'')
      | Some tid \<Rightarrow>
          (case wb_members h of
             None \<Rightarrow> Inl (SetupError 404 ''404 page not found'')
           | Some ma \<Rightarrow>
               if \<not> checkCSRF h r tid then Inl (SetupError 403 ''invalid csrf token'')
               else if \<not> isAdmin h r then Inl (SetupError 403 ''admin only'')
               else Inr (tid, ma)))"

definition seatLimitMessage :: string where
  "seatLimitMessage = ''Could not create the invite '' @ emDash @ '' the team may be at its seat limit for this plan.''"

definition serveCreateInvite :: "'w webHandler \<Rightarrow> webRequest \<Rightarrow> 'w \<Rightarrow> setupReply \<times> 'w" where
  "serveCreateInvite h r w =
     (case teamAction h r of
        Inl reply \<Rightarrow> (reply, w)
      | Inr (tid, ma) \<Rightarrow>
          let email = trimSpace (wr_form r ''email''); role = wr_form r ''role''
          in if email = '''' \<or> role \<noteq> ''admin'' \<and> role \<noteq> ''member''
             then (SetupError 400 ''invalid invite (email and role required)'', w)
             else
               let memberID = (case caller h r of None \<Rightarrow> '''' | Some (_, m) \<Rightarrow> m)
               in case ma_CreateInvite ma tid memberID email role w of
                    (None, w') \<Rightarrow> (SetupPage tid (noExtras\<lparr>se_teamError := seatLimitMessage\<rparr>), w')
                  | (Some link, w') \<Rightarrow> (SetupPage tid (noExtras\<lparr>se_inviteURL := link\<rparr>), w'))"

definition teamMutation :: "('w memberAdmin \<Rightarrow> 'w teamOp) \<Rightarrow> 'w webHandler \<Rightarrow> webRequest \<Rightarrow> 'w \<Rightarrow> setupReply \<times> 'w" where
  "teamMutation op h r w =
     (case teamAction h r of
        Inl reply \<Rightarrow> (reply, w)
      | Inr (tid, ma) \<Rightarrow> (SeeOther ''/setup'', snd (op ma tid (wr_pathID r) w)))"

definition serveRevokeInvite :: "'w webHandler \<Rightarrow> webRequest \<Rightarrow> 'w \<Rightarrow> setupReply \<times> 'w" where
  "serveRevokeInvite = teamMutation ma_RevokeInvite"

definition serveRemoveMember :: "'w webHandler \<Rightarrow> webRequest \<Rightarrow> 'w \<Rightarrow> setupReply \<times> 'w" where
  "serveRemoveMember = teamMutation ma_RemoveMember"

section \<open>Onboarding (view_page.go, chrome.go)\<close>

record onboardingStep =
  ob_Label :: string
  ob_Done :: bool

type_synonym sourceRow = "string \<times> string \<times> instant"

definition buildOnboarding :: "sourceRow list \<Rightarrow> onboardingStep list" where
  "buildOnboarding sources =
     [\<lparr>ob_Label = ''Ingest key valid'', ob_Done = True\<rparr>,
      \<lparr>ob_Label = ''Service connected'', ob_Done = (sources \<noteq> [])\<rparr>,
      \<lparr>ob_Label = ''Waiting for first Summary'', ob_Done = (sources \<noteq> [])\<rparr>,
      \<lparr>ob_Label = ''First data received'', ob_Done = False\<rparr>]"

record onbStepView =
  ov_Icon :: string
  ov_DotClass :: string
  ov_LabelClass :: string
  ov_Label :: string
  ov_Sub :: string
  ov_Connector :: bool

definition firstPending :: "onboardingStep list \<Rightarrow> nat option" where
  "firstPending steps = find (\<lambda>i. \<not> ob_Done (steps ! i)) [0..<length steps]"

definition stepSubs :: "string list" where
  "stepSubs = [''ingest key resolved'', ''handshake received'', ''flush window ~10s (accelerated on cold start)'', ''RED metrics live'']"

definition checkMark :: string where "checkMark = [CHR 0xE2, CHR 0x9C, CHR 0x93]"
definition halfCircle :: string where "halfCircle = [CHR 0xE2, CHR 0x97, CHR 0x90]"

definition onboardingStepViews :: "onboardingStep list \<Rightarrow> onbStepView list" where
  "onboardingStepViews steps =
     map (\<lambda>i. let s = steps ! i;
                  (icon, dot, cls) =
                    (if ob_Done s then (checkMark, ''dot-done'', ''c-txt'')
                     else if firstPending steps = Some i then (halfCircle, ''dot-current'', ''c-txt'')
                     else (natDigits (i + 1), ''dot-todo'', ''c-txt3''))
              in \<lparr>ov_Icon = icon, ov_DotClass = dot, ov_LabelClass = cls, ov_Label = ob_Label s,
                  ov_Sub = (if i < length stepSubs then stepSubs ! i else ''''), ov_Connector = (i < length steps - 1)\<rparr>)
       [0..<length steps]"

record handshakeView =
  hv_Steps :: "onbStepView list"
  hv_Connected :: "sourceRow list"
  hv_Frozen :: bool
  hv_Complete :: bool

text \<open>The connected sources come from the control plane; a failed lookup shows none.\<close>

definition buildHandshakeView :: "'w webHandler \<Rightarrow> conn \<Rightarrow> sourceRow list option \<Rightarrow> tenantID \<Rightarrow> handshakeView" where
  "buildHandshakeView h c onboarding tid =
     (let sources = (case onboarding of None \<Rightarrow> [] | Some ss \<Rightarrow> ss)
      in \<lparr>hv_Steps = onboardingStepViews (buildOnboarding sources), hv_Connected = sources, hv_Frozen = wb_frozen h tid,
          hv_Complete = (case HasAnySummary c tid of Inl _ \<Rightarrow> False | Inr b \<Rightarrow> b)\<rparr>)"

section \<open>Overview and endpoint table (web.go)\<close>

record overviewData =
  od_Frozen :: bool
  od_KPIs :: "kpi list"
  od_Services :: "serviceRow list"
  od_Live :: bool

record endpointsData =
  ep_Service :: string
  ep_Sort :: string
  ep_Frozen :: bool
  ep_KPIs :: "kpi list"
  ep_Endpoints :: "endpointRow list"

datatype page =
    PageError int string
  | OnboardingPage handshakeView
  | OverviewPage overviewData
  | EndpointsPage endpointsData

definition windowText :: "string \<Rightarrow> string" where
  "windowText k = (if k = ''5m'' then ''5 min'' else if k = ''1h'' then ''1 hour'' else if k = ''24h'' then ''24 hours'' else '''')"

definition winDur :: "webRequest \<Rightarrow> string \<times> duration" where
  "winDur r = (let k = normalizeWindow (wr_query r ''win'') in (k, case windowDur k of None \<Rightarrow> 0 | Some d \<Rightarrow> d))"

definition serveOverview :: "'w webHandler \<Rightarrow> conn \<Rightarrow> sourceRow list option \<Rightarrow> instant \<Rightarrow> webRequest \<Rightarrow> page" where
  "serveOverview h c onboarding now r =
     (if wr_path r \<noteq> ''/'' \<and> wr_path r \<noteq> ''/dashboard'' then PageError 404 ''404 page not found''
      else case resolveTenant h r of
        None \<Rightarrow> PageError 401 ''unauthorized''
      | Some tid \<Rightarrow>
          let (winKey, dur) = winDur r; (f, t) = windowRange now dur
          in case HasAnySummary c tid of
               Inl _ \<Rightarrow> PageError 500 ''query failed''
             | Inr False \<Rightarrow> OnboardingPage (buildHandshakeView h c onboarding tid)
             | Inr True \<Rightarrow>
                 (case Services c tid f t of
                    Inl _ \<Rightarrow> PageError 500 ''query failed''
                  | Inr services \<Rightarrow>
                      let rows = toServiceRows services dur winKey
                      in OverviewPage \<lparr>od_Frozen = wb_frozen h tid, od_KPIs = overviewKPIs rows (windowText winKey),
                           od_Services = rows, od_Live = isLive (wr_query r)\<rparr>))"

definition serveEndpoints :: "'w webHandler \<Rightarrow> conn \<Rightarrow> instant \<Rightarrow> webRequest \<Rightarrow> page" where
  "serveEndpoints h c now r =
     (case resolveTenant h r of
        None \<Rightarrow> PageError 401 ''unauthorized''
      | Some tid \<Rightarrow>
          let (winKey, dur) = winDur r; (f, t) = windowRange now dur
          in case Endpoints c tid (wr_service r) f t of
               Inl _ \<Rightarrow> PageError 500 ''query failed''
             | Inr endpoints \<Rightarrow>
                 let sortKey = normalizeSort (wr_query r ''sort''); rows = sortEndpointRows (toEndpointRows endpoints dur) sortKey
                 in EndpointsPage \<lparr>ep_Service = wr_service r, ep_Sort = sortKey, ep_Frozen = wb_frozen h tid,
                      ep_KPIs = endpointKPIs rows, ep_Endpoints = rows\<rparr>)"

section \<open>The detail page (web_detail.go)\<close>

definition softQuery :: "'a \<Rightarrow> queryError + 'a \<Rightarrow> 'a" where
  "softQuery zero res = (case res of Inl _ \<Rightarrow> zero | Inr v \<Rightarrow> v)"

definition detailBaselineLag :: duration where "detailBaselineLag = 5 * minute"
definition detailBaselineWindow :: duration where "detailBaselineWindow = 6 * hour"

record detailPanels =
  pn_points :: "TimePoint list"
  pn_baseline :: "TimePoint list"
  pn_instances :: "InstanceStat list"
  pn_versions :: "VersionStat list"
  pn_exemplars :: "RowExemplar list"
  pn_byClass :: "(string, ClassLatency) gomap"
  pn_errorClasses :: "ErrorClassStat list"
  pn_noStatusReasons :: "NoStatusReasonStat list"
  pn_downstream :: DownstreamStat
  pn_resources :: "InstanceResourceStat list"
  pn_resourceBaseline :: "InstanceResourceStat list"
  pn_memory :: "MemoryTrendPoint list"

definition baselineRange :: "instant \<Rightarrow> instant \<times> instant" where
  "baselineRange to = (to - detailBaselineLag - detailBaselineWindow, to - detailBaselineLag)"

definition loadDetailPanels ::
  "conn \<Rightarrow> tenantID \<Rightarrow> string \<Rightarrow> string \<Rightarrow> string \<Rightarrow> instant \<Rightarrow> instant \<Rightarrow> duration \<Rightarrow>
   queryError + InstanceResourceStat list \<Rightarrow> queryError + InstanceResourceStat list \<Rightarrow> detailPanels" where
  "loadDetailPanels c tid service method route from' to step resources resourceBaseline =
     (let (baseFrom, baseTo) = baselineRange to
      in \<lparr>pn_points = softQuery [] (SeriesOverTime c tid service method route from' to step),
          pn_baseline = softQuery [] (SeriesOverTime c tid service method route baseFrom baseTo minute),
          pn_instances = softQuery [] (InstancesForEndpoint c tid service method route from' to),
          pn_versions = softQuery [] (VersionsForEndpoint c tid service method route from' to),
          pn_exemplars = softQuery [] (ExemplarsForEndpoint c tid service method route from' to),
          pn_byClass = softQuery [] (LatencyByStatusClass c tid service method route from' to),
          pn_errorClasses = softQuery [] (ErrorClassesForEndpoint c tid service method route from' to),
          pn_noStatusReasons = softQuery [] (NoStatusReasonsForEndpoint c tid service method route from' to),
          pn_downstream = softQuery \<lparr>dw_Count = 0, dw_SumDurationNs = 0, dw_SumDownstreamNs = 0\<rparr>
            (DownstreamForEndpoint c tid service method route from' to),
          pn_resources = softQuery [] resources, pn_resourceBaseline = softQuery [] resourceBaseline,
          pn_memory = softQuery [] (MemoryTrendForService c tid service from' to step)\<rparr>)"

record detailData =
  dd_From :: instant
  dd_To :: instant
  dd_Detail :: detailView
  dd_Verdict :: verdictView
  dd_Stats :: "kpi list"
  dd_StatusBars :: "statusBar list"
  dd_Instances :: "instanceStatRow list"
  dd_Versions :: "versionRow list"
  dd_Exemplars :: "exemplarRow list"
  dd_ClassLatency :: "classLatencyRow list"
  dd_ErrorClasses :: "(string \<times> u64) list"
  dd_NoStatusReasons :: "(string \<times> u64) list"
  dd_Downstream :: downstreamView
  dd_Resources :: "resourceRow list"
  dd_Diagnosis :: "diagnosisView option"

definition detailParams :: "detailView \<Rightarrow> verdictView \<Rightarrow> detailPanels \<Rightarrow> (MemoryTrendPoint list \<Rightarrow> string) \<Rightarrow> real \<Rightarrow> diagnosisParams" where
  "detailParams dv verdict p chart winSec =
     \<lparr>dp_Detail = dv, dp_Verdict = verdict, dp_Resources = pn_resources p, dp_ResourceBaseline = pn_resourceBaseline p,
      dp_Memory = computeMemoryVerdict (pn_memory p), dp_MemoryChart = chart (pn_memory p),
      dp_Instances = toInstanceRows (pn_instances p), dp_Versions = pn_versions p, dp_Downstream = pn_downstream p,
      dp_NoStatus = pn_noStatusReasons p, dp_P95Baseline = baselineMedianP95 (pn_baseline p),
      dp_WinSeconds = winSec, dp_BaselineSeconds = seconds detailBaselineWindow\<rparr>"

definition detailOf ::
  "EndpointDetail \<Rightarrow> detailPanels \<Rightarrow> (MemoryTrendPoint list \<Rightarrow> string) \<Rightarrow> instant \<Rightarrow> instant \<Rightarrow> detailData" where
  "detailOf detail p chart from' to =
     (let dv = toDetailView detail; winSec = seconds (time_sub to from');
          verdict = computeVerdict dv (pn_baseline p) winSec;
          diag = computeDiagnosis (detailParams dv verdict p chart winSec)
      in \<lparr>dd_From = from', dd_To = to, dd_Detail = dv,
          dd_Verdict = (if diag \<noteq> None then verdict\<lparr>ve_Open := True\<rparr> else verdict),
          dd_Stats = detailStats dv winSec, dd_StatusBars = statusBarsFor dv,
          dd_Instances = toInstanceRows (pn_instances p), dd_Versions = toVersionRows (pn_versions p),
          dd_Exemplars = toExemplarRows (pn_exemplars p), dd_ClassLatency = toClassLatencyRows (pn_byClass p),
          dd_ErrorClasses = toErrorClassRows (pn_errorClasses p), dd_NoStatusReasons = toNoStatusReasonRows (pn_noStatusReasons p),
          dd_Downstream = toDownstreamView (pn_downstream p), dd_Resources = toResourceRows (pn_resources p) winSec,
          dd_Diagnosis = diag\<rparr>)"

definition serveEndpointDetail ::
  "'w webHandler \<Rightarrow> conn \<Rightarrow> (tenantID \<Rightarrow> string \<Rightarrow> instant \<Rightarrow> instant \<Rightarrow> queryError + InstanceResourceStat list) \<Rightarrow>
   (MemoryTrendPoint list \<Rightarrow> string) \<Rightarrow> instant \<Rightarrow> webRequest \<Rightarrow> (int \<times> string) + detailData" where
  "serveEndpointDetail h c resources chart now r =
     (case resolveTenant h r of
        None \<Rightarrow> Inl (401, ''unauthorized'')
      | Some tid \<Rightarrow>
          let service = wr_service r; method = wr_query r ''method''; route = wr_query r ''route'';
              (winKey, dur) = winDur r;
              ((f, t), custom) = resolveDetailRange (wr_query r) now dur;
              step = (if custom then adaptiveStep (time_sub t f) else seriesStep)
          in case QueryEndpointDetail c tid service method route f t of
               Inl _ \<Rightarrow> Inl (500, ''query failed'')
             | Inr detail \<Rightarrow>
                 let (baseFrom, baseTo) = baselineRange t;
                     p = loadDetailPanels c tid service method route f t step (resources tid service f t)
                           (resources tid service baseFrom baseTo)
                 in Inr (detailOf detail p chart f t))"

section \<open>Guards of the writing handlers\<close>

lemma issueKey_tables:
  "snd (issueKey sha orgID label random newKeyId now d) = d' \<Longrightarrow>
   filter (\<lambda>k. ik_org k \<noteq> orgID) (tb_keys (db_tables d')) = filter (\<lambda>k. ik_org k \<noteq> orgID) (tb_keys (db_tables d)) \<and>
   db_tables d'\<lparr>tb_keys := []\<rparr> = db_tables d\<lparr>tb_keys := []\<rparr>"
  by (auto simp: issueKey_def exec_def insertKey_def Let_def split: option.splits prod.splits sum.splits if_splits nat.splits)

lemma filter_map_other:
  "(\<And>x. P (f x) \<longleftrightarrow> P x) \<Longrightarrow> (\<And>x. P x \<Longrightarrow> f x = x) \<Longrightarrow> filter P (map f xs) = filter P xs"
  by (induction xs) auto

lemma revokeKey_tables:
  "snd (revokeKey orgID keyID now d) = d' \<Longrightarrow>
   filter (\<lambda>k. ik_org k \<noteq> orgID) (tb_keys (db_tables d')) = filter (\<lambda>k. ik_org k \<noteq> orgID) (tb_keys (db_tables d)) \<and>
   db_tables d'\<lparr>tb_keys := []\<rparr> = db_tables d\<lparr>tb_keys := []\<rparr>"
proof -
  have "filter (\<lambda>k. ik_org k \<noteq> orgID) (map (\<lambda>k. if ik_id k = keyID \<and> ik_org k = orgID \<and> ik_revoked k = None
      then k\<lparr>ik_revoked := Some now\<rparr> else k) ks) = filter (\<lambda>k. ik_org k \<noteq> orgID) ks" for ks
    by (rule filter_map_other) auto
  then show "snd (revokeKey orgID keyID now d) = d' \<Longrightarrow> ?thesis"
    by (auto simp: revokeKey_def execExpectOne_def exec_def updateRevoked_def Let_def
        split: option.splits prod.splits sum.splits if_splits nat.splits)
qed

definition keyPostAllowed :: "'w webHandler \<Rightarrow> webRequest \<Rightarrow> tenantID \<Rightarrow> bool" where
  "keyPostAllowed h r tid \<longleftrightarrow> resolveTenant h r = Some tid \<and> wb_keys h \<and>
     (\<exists>mac. wb_csrf h = Some mac \<and> csrf_verify mac tid (wr_form r ''csrf_token''))"

text \<open>
  C22. The key forms write only for the caller's own organisation and only with a form token bound to it:
  creating or revoking a key changes the control plane only if the request resolves to a tenant, a
  control plane is configured and the token verifies for that tenant, and then every key of another
  organisation, every organisation, member, plan and handshake stays as it was.
\<close>

theorem key_forms_guarded:
  assumes "d' = snd (serveCreateKey h sha random newKeyId now r d) \<or> d' = snd (serveRevokeKey h now r d)"
    and "db_tables d' \<noteq> db_tables d"
  shows "\<exists>tid. keyPostAllowed h r tid \<and>
    filter (\<lambda>k. ik_org k \<noteq> tid) (tb_keys (db_tables d')) = filter (\<lambda>k. ik_org k \<noteq> tid) (tb_keys (db_tables d)) \<and>
    db_tables d'\<lparr>tb_keys := []\<rparr> = db_tables d\<lparr>tb_keys := []\<rparr>"
  using assms(1)
proof
  assume d': "d' = snd (serveCreateKey h sha random newKeyId now r d)"
  then obtain tid where tid: "keyPostAllowed h r tid"
    using assms(2) by (auto simp: serveCreateKey_def keyPostAllowed_def checkCSRF_def split: option.splits if_splits)
  moreover have "d' = snd (issueKey sha tid (keyLabel r) random newKeyId now d)"
    using d' tid by (auto simp: serveCreateKey_def keyPostAllowed_def checkCSRF_def keyAdmin_IssueKey_def
        split: option.splits prod.splits sum.splits)
  ultimately show ?thesis using issueKey_tables by metis
next
  assume d': "d' = snd (serveRevokeKey h now r d)"
  then obtain tid where tid: "keyPostAllowed h r tid"
    using assms(2) by (auto simp: serveRevokeKey_def keyPostAllowed_def checkCSRF_def split: option.splits if_splits)
  moreover have "d' = snd (revokeKey tid (wr_pathID r) now d)"
    using d' tid by (auto simp: serveRevokeKey_def keyPostAllowed_def checkCSRF_def split: option.splits)
  ultimately show ?thesis using revokeKey_tables by metis
qed

definition demoWeb :: "unit webHandler" where
  "demoWeb = \<lparr>wb_authOn = True, wb_constTenant = '''', wb_keys = True, wb_members = None, wb_csrf = Some id,
     wb_baseURL = ''https://x'', wb_frozen = (\<lambda>_. False)\<rparr>"

definition demoForm :: webRequest where
  "demoForm = \<lparr>wr_session = Some demoSession, wr_path = ''/setup/keys'', wr_query = (\<lambda>_. ''''),
     wr_form = (\<lambda>k. if k = ''csrf_token'' then csrf_issue id ''org-1'' ''n'' else ''ci''), wr_pathID = ''key-1'', wr_service = ''''\<rparr>"

lemma demoForm_allowed: "resolveTenant demoWeb demoForm = Some ''org-1''" "checkCSRF demoWeb demoForm ''org-1''"
proof -
  show "resolveTenant demoWeb demoForm = Some ''org-1''"
    by (simp add: resolveTenant_def demoWeb_def demoForm_def tenantResolver_def demoSession_def tenant_Parse_def)
  have "b64Encode ''n'' \<noteq> []" by (simp add: Let_def)
  then have "csrf_verify id ''org-1'' (csrf_issue id ''org-1'' ''n'')"
    by (simp add: csrf_verify_def csrf_issue_def hasPrefix_def del: b64Encode.simps)
  then show "checkCSRF demoWeb demoForm ''org-1''" by (simp add: checkCSRF_def demoWeb_def demoForm_def)
qed

lemma demo_issue:
  "issueKey id ''org-1'' label ''abc'' ''key-1'' now demoDb =
     (Inr (NewSecret ''abc''), demoDb\<lparr>db_tables := demoTables\<lparr>tb_keys := [\<lparr>ik_id = ''key-1'', ik_org = ''org-1'', ik_label = label,
       ik_hash = NewSecret ''abc'', ik_last4 = last4 (NewSecret ''abc''), ik_created = now, ik_revoked = None\<rparr>]\<rparr>\<rparr>)"
  by (subst issueKey_ok) (simp_all add: demoDb_def demoTables_def)

theorem key_forms_guarded_witness:
  "\<exists>tid. keyPostAllowed demoWeb demoForm tid \<and>
     db_tables (snd (serveCreateKey demoWeb id ''abc'' ''key-1'' 5 demoForm demoDb))\<lparr>tb_keys := []\<rparr> = demoTables"
proof -
  let ?d = "snd (serveCreateKey demoWeb id ''abc'' ''key-1'' 5 demoForm demoDb)"
  have keys: "wb_keys demoWeb" by (simp add: demoWeb_def)
  have "db_tables ?d = demoTables\<lparr>tb_keys := [\<lparr>ik_id = ''key-1'', ik_org = ''org-1'', ik_label = keyLabel demoForm,
      ik_hash = NewSecret ''abc'', ik_last4 = last4 (NewSecret ''abc''), ik_created = 5, ik_revoked = None\<rparr>]\<rparr>"
    using keys by (simp add: serveCreateKey_def demoForm_allowed keyAdmin_IssueKey_def demo_issue)
  then have "db_tables ?d \<noteq> db_tables demoDb" by (simp add: demoDb_def demoTables_def)
  from key_forms_guarded [OF disjI1 [OF refl] this] show ?thesis by (auto simp: demoDb_def demoTables_def)
qed

text \<open>
  C25. A key made in the dashboard works: when the form is accepted and the database takes the insert, the
  page shows once a token that decodes to the server's base URL and a secret whose digest the ingest
  resolver looks up to the caller's organisation.
\<close>

theorem created_key_resolves:
  assumes "keyPostAllowed h r tid" and "db_fault d = None" and "tid \<in> o_id ` set (tb_orgs (db_tables d))"
    and "sha (NewSecret random) \<notin> ik_hash ` set (tb_keys (db_tables d))"
    and "newKeyId \<notin> ik_id ` set (tb_keys (db_tables d))" and "NewSecret random \<noteq> ''''"
  shows "\<exists>tok secret d'. serveCreateKey h sha random newKeyId now r d = (SetupPage tid (noExtras\<lparr>se_newToken := tok\<rparr>), d') \<and>
    Decode tok = Some (wb_baseURL h, secret) \<and> poolLookup (hashKey sha secret) d' = (Inr (tid, True), d')"
proof -
  let ?s = "NewSecret random"
  define k where "k = \<lparr>ik_id = newKeyId, ik_org = tid, ik_label = keyLabel r, ik_hash = sha ?s, ik_last4 = last4 ?s,
    ik_created = now, ik_revoked = None\<rparr>"
  let ?d = "d\<lparr>db_tables := (db_tables d)\<lparr>tb_keys := tb_keys (db_tables d) @ [k]\<rparr>\<rparr>"
  have issue: "issueKey sha tid (keyLabel r) random newKeyId now d = (Inr ?s, ?d)"
    using issueKey_ok [of d tid sha random newKeyId "keyLabel r" now] assms(2-5) by (simp add: k_def)
  have "serveCreateKey h sha random newKeyId now r d = (SetupPage tid (noExtras\<lparr>se_newToken := Encode (wb_baseURL h) ?s\<rparr>), ?d)"
    using assms(1) issue by (auto simp: serveCreateKey_def keyPostAllowed_def checkCSRF_def keyAdmin_IssueKey_def)
  moreover have "Decode (Encode (wb_baseURL h) ?s) = Some (wb_baseURL h, ?s)"
    using assms(6) by (intro token_roundtrip_lemma) (simp_all add: NewSecret_def b64Encode_no_dot)
  moreover have "poolLookup (hashKey sha ?s) ?d = (Inr (tid, True), ?d)"
    using assms(2) find_fresh [OF assms(4)] by (simp add: poolLookup_eq lookupKey_def find_append k_def hashKey_def)
  ultimately show ?thesis by blast
qed

theorem created_key_resolves_witness:
  "\<exists>tok secret d'. serveCreateKey demoWeb id ''abc'' ''key-1'' 5 demoForm demoDb =
     (SetupPage ''org-1'' (noExtras\<lparr>se_newToken := tok\<rparr>), d') \<and>
     Decode tok = Some (''https://x'', secret) \<and> poolLookup (hashKey id secret) d' = (Inr (''org-1'', True), d')"
proof -
  have "keyPostAllowed demoWeb demoForm ''org-1''"
    using demoForm_allowed by (simp add: keyPostAllowed_def checkCSRF_def demoWeb_def)
  moreover have "NewSecret ''abc'' \<noteq> ''''" by (simp add: NewSecret_def Let_def)
  ultimately show ?thesis
    using created_key_resolves [of demoWeb demoForm "''org-1''" demoDb id "''abc''" "''key-1''" 5]
    by (simp add: demoDb_def demoTables_def demoWeb_def)
qed

lemmas teamForm_defs = serveCreateInvite_def serveRevokeInvite_def serveRemoveMember_def teamMutation_def

text \<open>
  C23. Team changes are for administrators: whatever the composed team store does, an invite, a revocation
  or a removal reaches it only from a verified admin session, for the organisation of that session, with a
  form token that verifies for it; otherwise the state is untouched and the reply is an error.
\<close>

theorem team_forms_admin_only:
  assumes "(reply, w') \<in> {serveCreateInvite h r w, serveRevokeInvite h r w, serveRemoveMember h r w}"
    and "w' \<noteq> w \<or> (\<forall>code msg. reply \<noteq> SetupError code msg)"
  shows "\<exists>s mac. wb_authOn h \<and> wr_session r = Some s \<and> ss_Role s = ''admin'' \<and> ss_OrgID s \<noteq> '''' \<and>
    wb_csrf h = Some mac \<and> csrf_verify mac (ss_OrgID s) (wr_form r ''csrf_token'')"
proof -
  have refused: "\<exists>code msg. reply = SetupError code msg" if "teamAction h r = Inl reply" for reply
    using that by (auto simp: teamAction_def split: option.splits if_splits)
  obtain tid ma where ta: "teamAction h r = Inr (tid, ma)"
  proof (cases "teamAction h r")
    case (Inl e)
    then have "reply = e \<and> w' = w"
      using assms(1) by (auto simp: teamForm_defs)
    then show ?thesis using assms(2) refused [OF Inl] by blast
  qed (auto intro: that)
  then show ?thesis
    by (auto simp: teamAction_def checkCSRF_def isAdmin_def caller_def resolveTenant_def tenantResolver_def sessionRole_def
        tenant_Parse_def split: option.splits if_splits)
qed

definition demoTeam :: "nat webHandler" where
  "demoTeam = \<lparr>wb_authOn = True, wb_constTenant = '''', wb_keys = True,
     wb_members = Some \<lparr>ma_CreateInvite = (\<lambda>_ _ _ _ n. (None, n)), ma_RevokeInvite = (\<lambda>_ _ n. (True, n + 1)),
        ma_RemoveMember = (\<lambda>_ _ n. (False, n))\<rparr>,
     wb_csrf = Some id, wb_baseURL = ''https://x'', wb_frozen = (\<lambda>_. False)\<rparr>"

theorem team_forms_admin_only_witness:
  "serveRevokeInvite demoTeam demoForm 0 = (SeeOther ''/setup'', 1) \<and> (\<exists>s. wr_session demoForm = Some s \<and> ss_Role s = ''admin'')"
proof -
  have "checkCSRF demoTeam demoForm ''org-1''" using demoForm_allowed(2) by (simp add: checkCSRF_def demoTeam_def demoWeb_def)
  moreover have "resolveTenant demoTeam demoForm = Some ''org-1''"
    by (simp add: resolveTenant_def demoTeam_def demoForm_def tenantResolver_def demoSession_def tenant_Parse_def)
  moreover have "isAdmin demoTeam demoForm"
    by (simp add: isAdmin_def caller_def demoTeam_def demoForm_def sessionRole_def demoSession_def)
  ultimately have "serveRevokeInvite demoTeam demoForm 0 = (SeeOther ''/setup'', 1)"
    by (simp add: teamForm_defs teamAction_def) (simp add: demoTeam_def)
  then show ?thesis
    using team_forms_admin_only [of "SeeOther ''/setup''" 1 demoTeam demoForm 0] by auto
qed

section \<open>Pages read one tenant\<close>

lemma sameTenant_HasAny: "sameTenant tid c c' \<Longrightarrow> HasAnySummary c tid = HasAnySummary c' tid"
  using queries_scoped_to_tenant by blast

lemma sameTenant_panels:
  assumes "sameTenant tid c c'"
  shows "loadDetailPanels c tid service method route f t step res base = loadDetailPanels c' tid service method route f t step res base"
proof -
  note scoped = queries_scoped_to_tenant [OF assms]
  show ?thesis
    unfolding loadDetailPanels_def
    using scoped [of service "method" "route" f t step]
      scoped [of service "method" "route" "fst (baselineRange t)" "snd (baselineRange t)" minute]
    by (simp add: split_def)
qed



text \<open>
  The detail page degrades panel by panel: once the headline query answers, the page is rendered, whatever
  the other queries do. The disclosure is open whenever a diagnosis is shown.
\<close>

theorem detail_page_fail_soft:
  assumes "resolveTenant h r = Some tid" and "cn_ok c"
  shows "\<exists>p. serveEndpointDetail h c res chart now r = Inr p \<and> (dd_Diagnosis p \<noteq> None \<longrightarrow> ve_Open (dd_Verdict p))"
  using assms
  by (auto simp: serveEndpointDetail_def QueryEndpointDetail_def endpointDetailQueryTemplate_def tierQuery_cases detailOf_def Let_def split: prod.splits)

text \<open>
  The trailing baseline is not disjoint from a window longer than five minutes: it ends five minutes
  before the window does.
\<close>

theorem baseline_overlaps_window:
  assumes "detailBaselineLag < dur"
  shows "fst (windowRange now dur) < snd (baselineRange (snd (windowRange now dur)))"
  using assms by (simp add: windowRange_def baselineRange_def)

end
