(* ===== verification/Web_Range.thy ===== *)
theory Web_Range
  imports Web_View
begin

text \<open>
  The range controls of the detail page (buildDetailRange and detailURL of
  src/server/internal/web/view_debug.go), the dominant error class of its debug block, and the figures of
  the performance page (buildPerformance and rollupTiers of view_page.go). A control is a link with the
  parameters of the next page; \<open>url.Values.Encode\<close> is modelled as the escaped parameters in key order.
\<close>

section \<open>Links\<close>

definition unreserved :: "char \<Rightarrow> bool" where
  "unreserved c \<longleftrightarrow> c \<in> set ''abcdefghijklmnopqrstuvwxyzABCDEFGHIJKLMNOPQRSTUVWXYZ0123456789-_.~''"

definition hexDigit :: "nat \<Rightarrow> char" where
  "hexDigit n = ''0123456789ABCDEF'' ! n"

definition queryEscape :: "string \<Rightarrow> string" where
  "queryEscape s = concat (map (\<lambda>c. if unreserved c then [c] else if c = CHR '' '' then ''+''
     else let n = (of_char c :: nat) in [CHR ''%'', hexDigit (n div 16), hexDigit (n mod 16)]) s)"

definition encodeValues :: "(string \<times> string) list \<Rightarrow> string" where
  "encodeValues vs = joinWith ''&'' (map (\<lambda>(k, v). queryEscape k @ ''='' @ queryEscape v) (sort_key fst vs))"

definition detailParamsOf :: "string \<Rightarrow> string \<Rightarrow> string \<Rightarrow> (instant \<times> instant) option \<Rightarrow> (string \<times> string) list" where
  "detailParamsOf method route winKey bounds =
     [(''method'', method), (''route'', route)] @ (if winKey \<noteq> '''' then [(''win'', winKey)] else []) @
     (case bounds of None \<Rightarrow> [] | Some (f, t) \<Rightarrow> [(''from'', formatInt (unixSec f)), (''to'', formatInt (unixSec t))])"

definition detailURL :: "string \<Rightarrow> string \<Rightarrow> string \<Rightarrow> string \<Rightarrow> (instant \<times> instant) option \<Rightarrow> string" where
  "detailURL service method route winKey bounds =
     ''/services/'' @ service @ ''/endpoint?'' @ encodeValues (detailParamsOf method route winKey bounds)"

section \<open>Range controls\<close>

record detailRange =
  dr_Custom :: bool
  dr_Reset :: "string option"
  dr_ZoomOut :: "instant \<times> instant"
  dr_PanLeft :: "instant \<times> instant"
  dr_PanRight :: "(instant \<times> instant) option"

text \<open>The hrefs are \<open>detailURL\<close> of the ranges kept here.\<close>

definition buildDetailRange :: "string \<Rightarrow> string \<Rightarrow> string \<Rightarrow> string \<Rightarrow> instant \<Rightarrow> instant \<Rightarrow> instant \<Rightarrow> bool \<Rightarrow> detailRange" where
  "buildDetailRange service method route winKey from' to now custom =
     (let half = quot (time_sub to from') 2;
          zt = (if to + half > now then now else to + half);
          gap = time_sub now to;
          shift = (if gap < half then gap else half)
      in \<lparr>dr_Custom = custom,
          dr_Reset = (if custom then Some (detailURL service method route winKey None) else None),
          dr_ZoomOut = (from' - half, zt), dr_PanLeft = (from' - half, to - half),
          dr_PanRight = (if to < now then Some (from' + shift, to + shift) else None)\<rparr>)"

definition dominantErrorClass :: "statusClassView list \<Rightarrow> string" where
  "dominantErrorClass classes =
     (let best = fst (fold (\<lambda>c (best, bestCount). if scv_IsError c \<and> scv_Count c > bestCount then (scv_Class c, scv_Count c) else (best, bestCount))
          classes ('''', 0))
      in if best = '''' then ''none'' else best)"

section \<open>The performance page\<close>

definition bytesPerRawEvent :: real where
  "bytesPerRawEvent = 300"

record rollupTier =
  rt_Res :: string
  rt_Retention :: string
  rt_BarPct :: string

definition rollupTiers :: "rollupTier list" where
  "rollupTiers =
     (let specs = [(''10s'', ''raw '' @ middleDot @ '' 7 days'', 10, 7), (''1min'', ''30 days'', 60, 30), (''1hr'', ''180 days'', 3600, 180),
            (''1day'', ''730 days'', 86400, 730)];
          windows = map (\<lambda>(res, ret, resSec, retDays). retDays * 86400 / resSec) specs;
          maxWin = fold (\<lambda>w m. if w > m then w else m) windows 0
      in map (\<lambda>((res, ret, _, _), w). \<lparr>rt_Res = res, rt_Retention = ret,
            rt_BarPct = formatFixed 1 (if maxWin > 0 then w / maxWin * 100 else 100) @ ''%''\<rparr>) (zip specs windows))"

record performancePage =
  pp_HasData :: bool
  pp_Requests :: string
  pp_Summaries :: string
  pp_Compression :: string
  pp_IngestRate :: string
  pp_RawDisk :: string
  pp_SummaryDisk :: string
  pp_SummaryBarPct :: string
  pp_Ratio :: string
  pp_QueryMs :: string
  pp_Tiers :: "rollupTier list"

definition buildPerformance :: "PerformanceStat \<Rightarrow> duration \<Rightarrow> duration \<Rightarrow> performancePage" where
  "buildPerformance s window queryDur =
     (let p = \<lparr>pp_HasData = False, pp_Requests = '''', pp_Summaries = '''', pp_Compression = '''', pp_IngestRate = '''', pp_RawDisk = '''',
               pp_SummaryDisk = '''', pp_SummaryBarPct = '''', pp_Ratio = '''',
               pp_QueryMs = formatFixed 0 (of_int (quot queryDur 1000) / 1000), pp_Tiers = rollupTiers\<rparr>;
          requests = real (unat (pf_Requests s)); summaries = real (unat (pf_Summaries s));
          rawBytes = requests * bytesPerRawEvent; summaryBytes = real (unat (pf_SummaryDiskBytes s)); secs = seconds window
      in if pf_Requests s = 0 \<or> pf_Summaries s = 0 then p
         else
           let (bar, rat) =
             (if summaryBytes > 0 \<and> rawBytes > summaryBytes
              then (let pct' = summaryBytes / rawBytes * 100; pct' = (if pct' < 5 / 10 then 5 / 10 else pct')
                    in (formatFixed 1 pct' @ ''%'', fmtCompact (rawBytes / summaryBytes) @ timesChar))
              else (''100%'', emDash))
           in p\<lparr>pp_HasData := True, pp_Requests := fmtCompact requests, pp_Summaries := fmtCompact summaries,
               pp_Compression := fmtCompact (requests / summaries) @ timesChar,
               pp_IngestRate := (if secs > 0 then fmtCompact (requests / secs) @ ''/s'' else ''''),
               pp_RawDisk := fmtBytes rawBytes, pp_SummaryDisk := fmtBytes summaryBytes, pp_SummaryBarPct := bar, pp_Ratio := rat\<rparr>)"

section \<open>Following a control\<close>

lemma half_bounds:
  assumes "0 \<le> t - f" and "t - f \<le> int64_max"
  shows "quot (time_sub t f) 2 = (t - f) div 2"
proof -
  have "time_sub t f = t - f" using assms by (intro time_sub_exact) (auto simp: go_defs)
  then show ?thesis using assms(1) by (simp add: quot_def sgn_if)
qed

text \<open>What the next page parses of a link: the bounds rounded down to seconds.\<close>

lemma customRange_of_link:
  assumes "f \<le> t" and "t \<le> now" and "\<bar>unixSec f\<bar> < 2 ^ 62" and "\<bar>unixSec t\<bar> < 2 ^ 62"
    and "minDetailSpan \<le> unixSec t * second - unixSec f * second"
  shows "customRange (\<lambda>k. glookup '''' (detailParamsOf method route winKey (Some (f, t))) k) now =
    Some (unixSec f * second, unixSec t * second)"
proof -
  let ?q = "\<lambda>k. glookup '''' (detailParamsOf method route winKey (Some (f, t))) k"
  have q: "?q ''from'' = formatInt (unixSec f)" "?q ''to'' = formatInt (unixSec t)"
    by (simp_all add: detailParamsOf_def glookup_def)
  have ne: "formatInt i \<noteq> ''''" for i by (simp add: formatInt_def)
  have p: "parseInt64 (formatInt (unixSec f)) = Some (unixSec f)" "parseInt64 (formatInt (unixSec t)) = Some (unixSec t)"
    using assms(3,4) by (auto intro!: parse_format)
  have u: "unixTime (unixSec f) = unixSec f * second" "unixTime (unixSec t) = unixSec t * second"
    using assms(3,4) by (auto intro: unixTime_id)
  have "unixSec t * second \<le> t" by (simp add: unixSec_def go_defs)
  then have le: "\<not> unixSec t * second > now" using assms(2) by simp
  have "\<not> time_sub (unixSec t * second) (unixSec f * second) < minDetailSpan"
    using assms(5) time_sub_less_iff [of minDetailSpan "unixSec t * second" "unixSec f * second"]
    by (simp add: minDetailSpan_def go_defs)
  then show ?thesis unfolding customRange_def q p using ne le by (simp add: u Let_def)
qed

text \<open>
  The range controls move the window and never leave the past: from a range that ends at the latest
  now, zooming out covers the range, panning left keeps its length, panning right is offered exactly when
  the range ends before now, keeps its length, moves forward and stays in the past; and following the link
  of a range of at least eleven seconds shows that range, its bounds rounded down to seconds.
\<close>

theorem range_controls:
  assumes "f \<le> t" and "t \<le> now" and "t - f \<le> int64_max" and "now - t \<le> int64_max"
  shows "let dr = buildDetailRange service method route winKey f t now custom in
    fst (dr_ZoomOut dr) \<le> f \<and> t \<le> snd (dr_ZoomOut dr) \<and> snd (dr_ZoomOut dr) \<le> now \<and>
    snd (dr_PanLeft dr) - fst (dr_PanLeft dr) = t - f \<and> snd (dr_PanLeft dr) \<le> now \<and>
    (dr_PanRight dr = None \<longleftrightarrow> t = now) \<and>
    (\<forall>f' t'. dr_PanRight dr = Some (f', t') \<longrightarrow> t' - f' = t - f \<and> f \<le> f' \<and> t' \<le> now) \<and>
    (\<forall>f' t'. f' + 11 * second \<le> t' \<and> t' \<le> now \<and> \<bar>unixSec f'\<bar> < 2 ^ 62 \<and> \<bar>unixSec t'\<bar> < 2 ^ 62 \<longrightarrow>
       customRange (\<lambda>k. glookup '''' (detailParamsOf method route winKey (Some (f', t'))) k) now =
         Some (unixSec f' * second, unixSec t' * second))"
proof -
  define half where "half = (t - f) div 2"
  have half: "quot (time_sub t f) 2 = half" using half_bounds [of t f] assms by (simp add: half_def)
  have nonneg: "0 \<le> half" using assms(1) by (simp add: half_def)
  have gap: "time_sub now t = now - t" using assms(2,4) by (intro time_sub_exact) (auto simp: go_defs)
  have link: "customRange (\<lambda>k. glookup '''' (detailParamsOf method route winKey (Some (f', t'))) k) now =
         Some (unixSec f' * second, unixSec t' * second)"
    if "f' + 11 * second \<le> t'" "t' \<le> now" "\<bar>unixSec f'\<bar> < 2 ^ 62" "\<bar>unixSec t'\<bar> < 2 ^ 62" for f' t'
  proof (rule customRange_of_link)
    have "t' - t' mod second = unixSec t' * second" "f' - f' mod second = unixSec f' * second"
      by (simp_all add: unixSec_def minus_mod_eq_div_mult)
    moreover have "0 \<le> f' mod second" "t' mod second < second" by (simp_all add: go_defs)
    ultimately show "minDetailSpan \<le> unixSec t' * second - unixSec f' * second"
      using that(1) by (simp add: minDetailSpan_def)
    show "f' \<le> t'" using that(1) by (simp add: go_defs)
  qed (use that in auto)
  show ?thesis
    using assms(1,2) nonneg link unfolding buildDetailRange_def half gap Let_def by auto
qed

theorem range_controls_witness:
  "dr_PanRight (buildDetailRange ''s'' ''GET'' ''/'' ''1h'' 0 (60 * second) (60 * second) True) = None \<and>
   customRange (\<lambda>k. glookup '''' (detailParamsOf ''GET'' ''/'' ''1h'' (Some (0, 60 * second))) k) (60 * second) = Some (0, 60 * second)"
proof -
  have a: "(0::int) \<le> 60 * second" "60 * second - 0 \<le> int64_max" "60 * second - 60 * second \<le> int64_max"
    by (simp_all add: go_defs)
  have u: "unixSec 0 = 0" "unixSec (60 * second) = 60" by (simp_all add: unixSec_def go_defs)
  show ?thesis
    using range_controls [of 0 "60 * second" "60 * second" "''s''" "''GET''" "''/''" "''1h''" True, OF a(1) _ a(2) a(3)] u
    by (simp add: Let_def go_defs)
qed

end
