(* ===== verification/Go_Time.thy ===== *)
theory Go_Time
  imports Go_Float
begin

text \<open>
  Dates as Go's \<open>time.Time.Format\<close> prints them in UTC: the civil date of an instant by the 400-, 100-, 4- and
  1-year cycles of the standard library, and the layouts the dashboard uses. The inverse \<open>daysOf\<close> is the
  usual day count, and the two agree.
\<close>

section \<open>The civil date\<close>

definition leap :: "int \<Rightarrow> bool" where
  "leap y \<longleftrightarrow> y mod 4 = 0 \<and> (y mod 100 \<noteq> 0 \<or> y mod 400 = 0)"

definition monthDays :: "bool \<Rightarrow> int list" where
  "monthDays lp = [31, if lp then 29 else 28, 31, 30, 31, 30, 31, 31, 30, 31, 30, 31]"

fun splitMonth :: "int list \<Rightarrow> nat \<Rightarrow> int \<Rightarrow> nat \<times> int" where
  "splitMonth [] m d = (m, d)"
| "splitMonth (l # ls) m d = (if d < l then (m, d) else splitMonth ls (Suc m) (d - l))"

text \<open>Year and day of the year of a day, counted from the epoch; 719162 days lead from year 1 to 1970.\<close>

definition yearDay :: "int \<Rightarrow> int \<times> int" where
  "yearDay z =
     (let d = z + 719162; n400 = d div 146097; r = d mod 146097;
          n100 = min 3 (r div 36524); r1 = r - 36524 * n100;
          n4 = r1 div 1461; r2 = r1 mod 1461;
          n1 = min 3 (r2 div 365)
      in (400 * n400 + 100 * n100 + 4 * n4 + n1 + 1, r2 - 365 * n1))"

definition civil :: "int \<Rightarrow> int \<times> nat \<times> int" where
  "civil z = (let (y, yday) = yearDay z; (m, d) = splitMonth (monthDays (leap y)) 1 yday in (y, m, d + 1))"

definition yearStart :: "int \<Rightarrow> int" where
  "yearStart y = 365 * (y - 1) + (y - 1) div 4 - (y - 1) div 100 + (y - 1) div 400 - 719162"

definition daysOf :: "int \<Rightarrow> nat \<Rightarrow> int \<Rightarrow> int" where
  "daysOf y m d = yearStart y + sum_list (take (m - 1) (monthDays (leap y))) + d - 1"

lemma cycles:
  fixes a b c e :: int
  assumes "0 \<le> b" "b \<le> 3" "0 \<le> c" "c \<le> 24" "0 \<le> e" "e \<le> 3"
  defines "y \<equiv> 400 * a + 100 * b + 4 * c + e"
  shows "y div 4 = 100 * a + 25 * b + c" "y div 100 = 4 * a + b" "y div 400 = a"
proof -
  show "y div 4 = 100 * a + 25 * b + c" by (rule int_div_pos_eq [of _ _ _ e]) (use assms in auto)
  show "y div 100 = 4 * a + b" by (rule int_div_pos_eq [of _ _ _ "4 * c + e"]) (use assms in auto)
  show "y div 400 = a" by (rule int_div_pos_eq [of _ _ _ "100 * b + 4 * c + e"]) (use assms in auto)
qed

text \<open>Dividing with the quotient capped at three, as the century and the year of a leap cycle are.\<close>

lemma capped_div:
  fixes r n :: int
  assumes "0 \<le> r" "r \<le> 4 * n" "0 < n"
  shows "0 \<le> min 3 (r div n)" "min 3 (r div n) \<le> 3" "0 \<le> r - n * min 3 (r div n)" "r - n * min 3 (r div n) \<le> n"
    "r - n * min 3 (r div n) = n \<longrightarrow> min 3 (r div n) = 3 \<and> r = 4 * n"
proof -
  define q where "q = r div n"
  define s where "s = r mod n"
  have d: "r = n * q + s" "0 \<le> s" "s < n" "0 \<le> q" using assms by (simp_all add: q_def s_def pos_imp_zdiv_nonneg_iff)
  have "q \<le> 4"
  proof (rule ccontr)
    assume "\<not> q \<le> 4"
    then have "n * 5 \<le> n * q" using assms(3) by (intro mult_left_mono) auto
    then show False using d assms by linarith
  qed
  then have "q \<in> {0, 1, 2, 3} \<or> q = 4 \<and> s = 0" using d assms by (cases "q = 4") auto
  then show "0 \<le> min 3 (r div n)" "min 3 (r div n) \<le> 3" "0 \<le> r - n * min 3 (r div n)" "r - n * min 3 (r div n) \<le> n"
    "r - n * min 3 (r div n) = n \<longrightarrow> min 3 (r div n) = 3 \<and> r = 4 * n"
    unfolding q_def [symmetric] using d by auto
qed

lemma yearDay_range:
  obtains a b c e r2 where "z + 719162 = 146097 * a + 36524 * b + 1461 * c + r2"
    "0 \<le> b" "b \<le> 3" "0 \<le> c" "c \<le> 24" "0 \<le> e" "e \<le> 3" "0 \<le> r2 - 365 * e"
    "r2 - 365 * e \<le> 365" "r2 - 365 * e = 365 \<longrightarrow> e = 3 \<and> (c = 24 \<longrightarrow> b = 3)"
    "yearDay z = (400 * a + 100 * b + 4 * c + e + 1, r2 - 365 * e)"
proof -
  define a where "a = (z + 719162) div 146097"
  define r where "r = (z + 719162) mod 146097"
  define b where "b = min 3 (r div 36524)"
  define c where "c = (r - 36524 * b) div 1461"
  define r2 where "r2 = (r - 36524 * b) mod 1461"
  define e where "e = min 3 (r2 div 365)"
  have r: "0 \<le> r" "r < 146097" "z + 719162 = 146097 * a + r" by (simp_all add: r_def a_def)
  have "r \<le> 4 * 36524" using r(2) by simp
  note cap = capped_div [OF r(1) this zero_less_numeral, folded b_def]
  have b: "0 \<le> b" "b \<le> 3" "0 \<le> r - 36524 * b" "r - 36524 * b \<le> 36524" "r - 36524 * b = 36524 \<longrightarrow> b = 3"
    using cap by blast+
  have c: "0 \<le> c" "c \<le> 24" "r - 36524 * b = 1461 * c + r2" "0 \<le> r2" "r2 \<le> 1460"
    using b(3) zdiv_mono1 [OF b(4), of 1461] unfolding c_def r2_def by (simp_all add: pos_imp_zdiv_nonneg_iff)
  have "r2 \<le> 4 * 365" using c(5) by simp
  note cap = capped_div [OF c(4) this zero_less_numeral, folded e_def]
  have e: "0 \<le> e" "e \<le> 3" "0 \<le> r2 - 365 * e" "r2 - 365 * e \<le> 365" "r2 - 365 * e = 365 \<longrightarrow> e = 3 \<and> r2 = 1460"
    using cap by simp_all
  have lp: "r2 = 1460 \<longrightarrow> c = 24 \<longrightarrow> b = 3" using b(4,5) c(3) by auto
  have y: "yearDay z = (400 * a + 100 * b + 4 * c + e + 1, r2 - 365 * e)"
    unfolding yearDay_def Let_def e_def r2_def c_def b_def r_def a_def by (rule refl)
  have z: "z + 719162 = 146097 * a + 36524 * b + 1461 * c + r2" using r(3) c(3) by linarith
  have "r2 - 365 * e = 365 \<longrightarrow> e = 3 \<and> (c = 24 \<longrightarrow> b = 3)" using e(5) lp by blast
  from that [OF z b(1,2) c(1,2) e(1-4) this y] show thesis .
qed

lemma yearStart_yearDay:
  assumes "yearDay z = (y, yday)"
  shows "yearStart y + yday = z"
proof (rule yearDay_range [of z])
  fix a b c e r2
  assume f: "z + 719162 = 146097 * a + 36524 * b + 1461 * c + r2" "0 \<le> b" "b \<le> (3 :: int)" "0 \<le> c" "c \<le> (24 :: int)"
    "0 \<le> e" "e \<le> (3 :: int)" "yearDay z = (400 * a + 100 * b + 4 * c + e + 1, r2 - 365 * e)"
  have y: "y - 1 = 400 * a + 100 * b + 4 * c + e" "yday = r2 - 365 * e" using assms f(8) by auto
  show ?thesis unfolding yearStart_def y(1) cycles [OF f(2-7)] y(2) using f(1) by (simp add: algebra_simps)
qed

lemma leap_cycle:
  fixes a b c :: int
  assumes "0 \<le> c" "c \<le> 24" "c = 24 \<longrightarrow> b = 3"
  shows "leap (400 * a + 100 * b + 4 * c + 4)"
proof -
  have m4: "(400 * a + 100 * b + 4 * c + 4) mod 4 = 0" by presburger
  have eq: "400 * a + 100 * b + 4 * c + 4 = (4 * c + 4) + 100 * (4 * a + b)" by simp
  have "(400 * a + 100 * b + 4 * c + 4) mod 100 \<noteq> 0" if "c \<noteq> 24"
    unfolding eq mod_mult_self2 using that assms(1,2) by simp
  moreover have "(400 * a + 100 * b + 4 * c + 4) mod 400 = 0" if "c = 24" using that assms(3) by simp
  ultimately show ?thesis using m4 unfolding leap_def by (cases "c = 24") simp_all
qed

lemma yearDay_bound:
  assumes "yearDay z = (y, yday)"
  shows "0 \<le> yday \<and> yday < 365 + (if leap y then 1 else 0)"
proof (rule yearDay_range [of z])
  fix a b c e r2
  assume f: "0 \<le> c" "c \<le> (24 :: int)" "0 \<le> r2 - 365 * e" "r2 - 365 * e \<le> 365"
    "r2 - 365 * e = 365 \<longrightarrow> e = 3 \<and> (c = 24 \<longrightarrow> b = 3)"
    "yearDay z = (400 * a + 100 * b + 4 * c + e + 1, r2 - 365 * e)"
  have y: "y = 400 * a + 100 * b + 4 * c + e + 1" "yday = r2 - 365 * e" using assms f(6) by auto
  have "leap y" if "yday = 365"
    using leap_cycle [OF f(1,2), of b a] that f(5) unfolding y by (simp add: add.commute)
  then show ?thesis using f(3,4) y(2) by (cases "leap y") (auto simp: less_le)
qed

lemma splitMonth_spec:
  assumes "0 \<le> d" and "d < sum_list ls" and "splitMonth ls m d = (m', d')"
  shows "m \<le> m' \<and> m' < m + length ls \<and> 0 \<le> d' \<and> d' < ls ! (m' - m) \<and> sum_list (take (m' - m) ls) + d' = d"
  using assms
proof (induction ls m d rule: splitMonth.induct)
  case (2 l ls m d)
  show ?case
  proof (cases "d < l")
    case False
    then have ih: "Suc m \<le> m' \<and> m' < Suc m + length ls \<and> 0 \<le> d' \<and> d' < ls ! (m' - Suc m) \<and> sum_list (take (m' - Suc m) ls) + d' = d - l"
      using 2 by simp
    then have "m' - m = Suc (m' - Suc m)" by (simp add: Suc_diff_le [symmetric])
    then show ?thesis using ih by simp
  qed (use 2 in simp)
qed simp

text \<open>
  The date of every day is a date of the calendar and stands for that day: the month is one of the twelve,
  the day one of the month's, and counting the days up to the date gives the day back.
\<close>

theorem civil_date:
  assumes "civil z = (y, m, d)"
  shows "1 \<le> m \<and> m \<le> 12 \<and> 1 \<le> d \<and> d \<le> monthDays (leap y) ! (m - 1) \<and> daysOf y m d = z"
proof -
  obtain yday where yd: "yearDay z = (y, yday)" and sp: "splitMonth (monthDays (leap y)) 1 yday = (m, d - 1)"
    using assms by (auto simp: civil_def Let_def split: prod.splits)
  have "sum_list (monthDays (leap y)) = 365 + (if leap y then 1 else 0)" by (simp add: monthDays_def)
  then have "0 \<le> yday" "yday < sum_list (monthDays (leap y))" using yearDay_bound [OF yd] by simp_all
  from splitMonth_spec [OF this sp] have s: "1 \<le> m" "m < 13" "0 \<le> d - 1" "d - 1 < monthDays (leap y) ! (m - 1)"
    "sum_list (take (m - 1) (monthDays (leap y))) + (d - 1) = yday"
    by (auto simp: monthDays_def)
  show ?thesis using s yearStart_yearDay [OF yd] by (simp add: daysOf_def)
qed

section \<open>Layouts\<close>

text \<open>Days and seconds of the day of an instant, in nanoseconds since the epoch.\<close>

definition clock :: "instant \<Rightarrow> int \<times> int \<times> int \<times> int" where
  "clock t = (let s = t div second in (s div 86400, s mod 86400 div 3600, s mod 3600 div 60, s mod 60))"

definition pad :: "nat \<Rightarrow> int \<Rightarrow> string" where
  "pad w n = (if n < 0 then ''-'' else '''') @ padLeft w (natDigits (nat \<bar>n\<bar>))"

definition monthName :: "nat \<Rightarrow> string" where
  "monthName m = [''Jan'', ''Feb'', ''Mar'', ''Apr'', ''May'', ''Jun'', ''Jul'', ''Aug'', ''Sep'', ''Oct'', ''Nov'', ''Dec''] ! (m - 1)"

text \<open>The layouts \<open>2006-01-02\<close>, \<open>2006-01-02 15:04:05 UTC\<close> and \<open>Jan 2 15:04\<close>.\<close>

definition formatDate :: "instant \<Rightarrow> string" where
  "formatDate t = (let (days, _) = clock t; (y, m, d) = civil days in pad 4 y @ ''-'' @ pad 2 (int m) @ ''-'' @ pad 2 d)"

definition formatDateTimeUTC :: "instant \<Rightarrow> string" where
  "formatDateTimeUTC t =
     (let (days, hh, mm, ss) = clock t
      in formatDate t @ '' '' @ pad 2 hh @ '':'' @ pad 2 mm @ '':'' @ pad 2 ss @ '' UTC'')"

definition formatShort :: "instant \<Rightarrow> string" where
  "formatShort t =
     (let (days, hh, mm, ss) = clock t; (y, m, d) = civil days
      in monthName m @ '' '' @ natDigits (nat d) @ '' '' @ pad 2 hh @ '':'' @ pad 2 mm)"

lemma formatDate_examples:
  "formatDateTimeUTC 0 = ''1970-01-01 00:00:00 UTC'' \<and>
   formatDateTimeUTC (1709208000 * second) = ''2024-02-29 12:00:00 UTC'' \<and> formatShort (-1) = ''Dec 31 23:59''"
  by code_simp

end
