(* ===== verification/Web_Shell.thy ===== *)
theory Web_Shell
  imports Web_Pages Web_Range Go_Time
begin

text \<open>
  The chrome around every dashboard page and the remaining read handlers, src/server/internal/web/:
  chrome.go (navigation, window switcher, live toggle), web.go (shell, key mask, performance page,
  framework choice), view_page.go (key rows), web_setup.go (handshake fragment) and web_api.go (the JSON
  endpoints). A JSON answer is the list of records it encodes; the query parameters of a link are a map
  from names to value lists, as \<open>url.Values\<close>.
\<close>

section \<open>Query values\<close>

type_synonym urlValues = "(string, string list) gomap"

definition setValue :: "string \<Rightarrow> string \<Rightarrow> urlValues \<Rightarrow> urlValues" where
  "setValue k v q = AList.update k [v] q"

definition delValue :: "string \<Rightarrow> urlValues \<Rightarrow> urlValues" where
  "delValue k q = AList.delete k q"

definition encodeQuery :: "urlValues \<Rightarrow> string" where
  "encodeQuery q = encodeValues (concat (map (\<lambda>(k, vs). map (Pair k) vs) q))"

section \<open>Window switcher and live toggle (chrome.go)\<close>

record windowOption =
  wo_Key :: string
  wo_Href :: string
  wo_Active :: bool

definition windowKeys :: "string list" where
  "windowKeys = [''5m'', ''1h'', ''24h'']"

definition windowValues :: "string \<Rightarrow> urlValues \<Rightarrow> urlValues" where
  "windowValues k q = delValue ''to'' (delValue ''from'' (setValue ''win'' k q))"

definition buildWindows :: "string \<Rightarrow> urlValues \<Rightarrow> string \<Rightarrow> windowOption list" where
  "buildWindows path q active =
     map (\<lambda>k. \<lparr>wo_Key = k, wo_Href = path @ ''?'' @ encodeQuery (windowValues k q), wo_Active = (k = active)\<rparr>) windowKeys"

definition liveValues :: "urlValues \<Rightarrow> bool \<Rightarrow> urlValues" where
  "liveValues q on = (if on then delValue ''live'' q else setValue ''live'' ''1'' q)"

definition liveToggleHref :: "string \<Rightarrow> urlValues \<Rightarrow> bool \<Rightarrow> string" where
  "liveToggleHref path q on =
     (let enc = encodeQuery (liveValues q on) in if enc \<noteq> '''' then path @ ''?'' @ enc else path)"

section \<open>Navigation (chrome.go)\<close>

record navItem =
  ni_Label :: string
  ni_Icon :: string
  ni_Href :: string
  ni_Badge :: string
  ni_Active :: bool

record crumb =
  cr_Label :: string
  cr_Href :: string

definition navKey :: "string \<Rightarrow> string" where
  "navKey label = (case map_of [(''Services'', ''overview''), (''Performance'', ''performance''), (''Setup'', ''setup''),
     (''Documentation'', ''docs'')] label of Some k \<Rightarrow> k | None \<Rightarrow> '''')"

definition navItems :: "string \<Rightarrow> (string \<times> string \<times> string) list" where
  "navItems winKey =
     [(''Services'', [CHR 0xE2, CHR 0x96, CHR 0xA6], withWin ''/'' winKey),
      (''Performance'', [CHR 0xE2, CHR 0x97, CHR 0x88], withWin ''/performance'' winKey),
      (''Setup'', [CHR 0xE2, CHR 0x9C, CHR 0xA6], withWin ''/setup'' winKey),
      (''Documentation'', [CHR 0xE2, CHR 0x9D, CHR 0x96], ''/doc'')]"

definition buildNav :: "string \<Rightarrow> string \<Rightarrow> navItem list" where
  "buildNav active winKey =
     map (\<lambda>(label, icon, href). \<lparr>ni_Label = label, ni_Icon = icon, ni_Href = href, ni_Badge = '''', ni_Active = (navKey label = active)\<rparr>)
       (navItems winKey)"

section \<open>The shell (web.go)\<close>

definition keyMask :: "string \<Rightarrow> string" where
  "keyMask tail4 = concat (replicate 4 middleDot) @ tail4"

definition activeKeyMask :: "'w webHandler \<Rightarrow> webRequest \<Rightarrow> db \<Rightarrow> string" where
  "activeKeyMask h r d =
     (if \<not> wb_keys h then ''''
      else case resolveTenant h r of
        None \<Rightarrow> ''''
      | Some tid \<Rightarrow>
          (case fst (ListKeys tid d) of
             Inl _ \<Rightarrow> ''''
           | Inr infos \<Rightarrow>
               (case find (\<lambda>(_, _, _, _, revoked). revoked = None) infos of
                  Some (_, _, tail4, _, _) \<Rightarrow> keyMask tail4
                | None \<Rightarrow> '''')))"

record Shell =
  sh_Org :: string
  sh_User :: string
  sh_Role :: string
  sh_AccountHref :: string
  sh_Nav :: "navItem list"
  sh_Crumbs :: "crumb list"
  sh_PageTitle :: string
  sh_ShowControls :: bool
  sh_Windows :: "windowOption list"
  sh_WindowKey :: string
  sh_FlushLabel :: string
  sh_KeyMask :: string

definition orDefault :: "string \<Rightarrow> string \<Rightarrow> string" where
  "orDefault v def = (if v = '''' then def else v)"

record identityChrome =
  ic_OrgName :: string
  ic_UserName :: string
  ic_UserRole :: string
  ic_AccountHref :: string

definition buildShell ::
  "identityChrome \<Rightarrow> 'w webHandler \<Rightarrow> webRequest \<Rightarrow> urlValues \<Rightarrow> db \<Rightarrow> string \<Rightarrow> crumb list \<Rightarrow> string \<Rightarrow> bool \<Rightarrow> string \<Rightarrow> Shell" where
  "buildShell ic h r q d activeNav crumbs title showControls winKey =
     \<lparr>sh_Org = orDefault (ic_OrgName ic) ''mAPI-ng'', sh_User = orDefault (ic_UserName ic) ''dev'',
      sh_Role = orDefault (ic_UserRole ic) ''admin'', sh_AccountHref = ic_AccountHref ic, sh_Nav = buildNav activeNav winKey,
      sh_Crumbs = crumbs, sh_PageTitle = title, sh_ShowControls = showControls, sh_Windows = buildWindows (wr_path r) q winKey,
      sh_WindowKey = winKey, sh_FlushLabel = ''flush 10s'', sh_KeyMask = activeKeyMask h r d\<rparr>"

definition RenderShellPage :: "identityChrome \<Rightarrow> 'w webHandler \<Rightarrow> webRequest \<Rightarrow> urlValues \<Rightarrow> db \<Rightarrow> string \<Rightarrow> string \<Rightarrow> Shell \<times> string \<times> string" where
  "RenderShellPage ic h r q d title content =
     (buildShell ic h r q d '''' [\<lparr>cr_Label = title, cr_Href = ''''\<rparr>] title False (normalizeWindow (wr_query r ''win'')), title, content)"

definition RenderDocPage :: "identityChrome \<Rightarrow> 'w webHandler \<Rightarrow> webRequest \<Rightarrow> urlValues \<Rightarrow> db \<Rightarrow> string \<Rightarrow> string \<Rightarrow> Shell \<times> string \<times> string" where
  "RenderDocPage ic h r q d title content =
     (buildShell ic h r q d ''docs'' [\<lparr>cr_Label = ''docs'', cr_Href = ''/doc''\<rparr>, \<lparr>cr_Label = title, cr_Href = ''''\<rparr>] title False
        (normalizeWindow (wr_query r ''win'')), title, content)"

definition selectedFramework :: "webRequest \<Rightarrow> string" where
  "selectedFramework r =
     (let fw = wr_query r ''fw'' in if fw \<in> {''nethttp'', ''echo'', ''chi'', ''beego''} then fw else ''gin'')"

section \<open>Key rows (view_page.go)\<close>

record keyRow =
  kr_ID :: string
  kr_Label :: string
  kr_Masked :: string
  kr_Created :: string
  kr_Revoked :: bool

definition toKeyRows :: "(string \<times> string \<times> string \<times> instant \<times> instant option) list \<Rightarrow> keyRow list" where
  "toKeyRows infos =
     map (\<lambda>(i, label, tail4, created, revoked). \<lparr>kr_ID = i, kr_Label = label, kr_Masked = keyMask tail4, kr_Created = formatDate created,
        kr_Revoked = (revoked \<noteq> None)\<rparr>) infos"

section \<open>Performance page and handshake fragment\<close>

definition servePerformance :: "'w webHandler \<Rightarrow> conn \<Rightarrow> instant \<Rightarrow> duration \<Rightarrow> webRequest \<Rightarrow> (int \<times> string) + performancePage" where
  "servePerformance h c now queryDur r =
     (case resolveTenant h r of
        None \<Rightarrow> Inl (401, ''unauthorized'')
      | Some tid \<Rightarrow>
          let (winKey, dur) = winDur r; (f, t) = windowRange now dur;
              stat = (case PerformanceStats c tid f t of
                        Inl _ \<Rightarrow> \<lparr>pf_Requests = 0, pf_Summaries = 0, pf_SummaryDiskBytes = 0\<rparr>
                      | Inr s \<Rightarrow> s)
          in Inr (buildPerformance stat dur queryDur))"

definition serveHandshakeFragment ::
  "'w webHandler \<Rightarrow> conn \<Rightarrow> sourceRow list option \<Rightarrow> webRequest \<Rightarrow> (int \<times> string) + handshakeView \<times> string" where
  "serveHandshakeFragment h c onboarding r =
     (case resolveTenant h r of
        None \<Rightarrow> Inl (401, ''unauthorized'')
      | Some tid \<Rightarrow>
          let hv = buildHandshakeView h c onboarding tid
          in Inr (hv, if hv_Complete hv then ''true'' else ''false''))"

section \<open>JSON endpoints (web_api.go)\<close>

definition window :: duration where
  "window = hour"

record seriesPoint =
  sp_TS :: int
  sp_Count :: u64
  sp_ErrorRate :: real
  sp_P50 :: real
  sp_P95 :: real
  sp_P99 :: real

definition serveSeries :: "'w webHandler \<Rightarrow> conn \<Rightarrow> instant \<Rightarrow> webRequest \<Rightarrow> (int \<times> string) + seriesPoint list" where
  "serveSeries h c now r =
     (case resolveTenant h r of
        None \<Rightarrow> Inl (401, ''unauthorized'')
      | Some tid \<Rightarrow>
          let (f, t) = windowRange now window
          in case SeriesOverTime c tid (wr_query r ''service'') (wr_query r ''method'') (wr_query r ''route'') f t seriesStep of
               Inl _ \<Rightarrow> Inl (500, ''query failed'')
             | Inr points \<Rightarrow>
                 Inr (map (\<lambda>p. \<lparr>sp_TS = unixSec (tp_TS p), sp_Count = tp_Count p, sp_ErrorRate = tp_ErrorRate p,
                        sp_P50 = tp_P50 p, sp_P95 = tp_P95 p, sp_P99 = tp_P99 p\<rparr>) points))"

definition serveHistogram :: "'w webHandler \<Rightarrow> conn \<Rightarrow> instant \<Rightarrow> webRequest \<Rightarrow> (int \<times> string) + (real \<times> u64) list" where
  "serveHistogram h c now r =
     (case resolveTenant h r of
        None \<Rightarrow> Inl (401, ''unauthorized'')
      | Some tid \<Rightarrow>
          let (f, t) = windowRange now window
          in case QueryEndpointDetail c tid (wr_query r ''service'') (wr_query r ''method'') (wr_query r ''route'') f t of
               Inl _ \<Rightarrow> Inl (500, ''query failed'')
             | Inr detail \<Rightarrow> Inr (map (\<lambda>b. (hb_LatencySeconds b, hb_Count b)) (ed_Histogram detail)))"

definition serveInstances :: "'w webHandler \<Rightarrow> conn \<Rightarrow> instant \<Rightarrow> webRequest \<Rightarrow> (int \<times> string) + InstanceStat list" where
  "serveInstances h c now r =
     (case resolveTenant h r of
        None \<Rightarrow> Inl (401, ''unauthorized'')
      | Some tid \<Rightarrow>
          let (f, t) = windowRange now window
          in case InstancesForEndpoint c tid (wr_query r ''service'') (wr_query r ''method'') (wr_query r ''route'') f t of
               Inl _ \<Rightarrow> Inl (500, ''query failed'')
             | Inr stats \<Rightarrow> Inr stats)"

section \<open>Properties\<close>

lemma map_of_delete: "map_of (AList.delete k m) k' = (if k' = k then None else map_of m k')"
  by (simp add: delete_conv')

text \<open>
  Switching the window keeps every other parameter, replaces the window and drops a custom range; exactly
  the option of the active window is marked, and a window that is not on the list is never active. The
  live toggle changes nothing but the live parameter, and toggling twice restores the link's values.
\<close>

theorem window_switch_keeps_params:
  "map_of (windowValues k q) ''win'' = Some [k] \<and> map_of (windowValues k q) ''from'' = None \<and>
   map_of (windowValues k q) ''to'' = None \<and>
   (\<forall>p. p \<notin> {''win'', ''from'', ''to''} \<longrightarrow> map_of (windowValues k q) p = map_of q p) \<and>
   map wo_Key (filter wo_Active (buildWindows path q (normalizeWindow raw))) = [normalizeWindow raw] \<and>
   (\<forall>p. p \<noteq> ''live'' \<longrightarrow> map_of (liveValues q on) p = map_of q p) \<and>
   (map_of (liveValues q True) ''live'' = None \<and> map_of (liveValues q False) ''live'' = Some [''1''])"
proof -
  have "normalizeWindow raw = ''5m'' \<or> normalizeWindow raw = ''1h'' \<or> normalizeWindow raw = ''24h''"
    by (auto simp: normalizeWindow_def windowDur_def split: option.splits if_splits)
  then have "map wo_Key (filter wo_Active (buildWindows path q (normalizeWindow raw))) = [normalizeWindow raw]"
    by (elim disjE) (simp_all add: buildWindows_def windowKeys_def)
  then show ?thesis
    by (auto simp: windowValues_def liveValues_def setValue_def delValue_def map_of_delete update_conv')
qed

text \<open>
  The JSON endpoints, the performance page and the handshake fragment answer 401 without a tenant and read
  the rows of the caller's tenant only.
\<close>

theorem api_scoped_to_tenant:
  assumes "\<forall>tid. resolveTenant h r = Some tid \<longrightarrow> sameTenant tid c c'"
  shows "serveSeries h c now r = serveSeries h c' now r \<and> serveHistogram h c now r = serveHistogram h c' now r \<and>
    serveInstances h c now r = serveInstances h c' now r \<and>
    serveHandshakeFragment h c onboarding r = serveHandshakeFragment h c' onboarding r \<and>
    (resolveTenant h r = None \<longrightarrow> serveSeries h c now r = Inl (401, ''unauthorized'') \<and>
       serveHistogram h c now r = Inl (401, ''unauthorized'') \<and> serveInstances h c now r = Inl (401, ''unauthorized''))"
proof (cases "resolveTenant h r")
  case None
  then show ?thesis
    by (simp add: serveSeries_def serveHistogram_def serveInstances_def serveHandshakeFragment_def)
next
  case (Some tid)
  then have s: "sameTenant tid c c'" using assms by blast
  note q = queries_scoped_to_tenant [OF s]
  show ?thesis
    unfolding serveSeries_def serveHistogram_def serveInstances_def serveHandshakeFragment_def buildHandshakeView_def
    using q Some by (simp add: windowRange_def)
qed

lemma find_member: "find P xs = Some x \<Longrightarrow> x \<in> set xs \<and> P x"
  by (metis find_Some_iff nth_mem)

lemma ListKeys_own:
  assumes "fst (ListKeys orgID d) = Inr infos" and "(i, label, tail4, created, revoked) \<in> set infos"
  shows "\<exists>k \<in> set (tb_keys (db_tables d)). ik_org k = orgID \<and> ik_last4 k = tail4 \<and> ik_revoked k = revoked"
proof -
  have "infos = map (\<lambda>k. (ik_id k, ik_label k, ik_last4 k, ik_created k, ik_revoked k))
      (sort_key (\<lambda>k. - ik_created k) (filter (\<lambda>k. ik_org k = orgID) (tb_keys (db_tables d))))"
    using assms(1) unfolding ListKeys_def exec_def by (auto simp: Let_def split: option.splits nat.splits sum.splits prod.splits)
  then show ?thesis using assms(2) by auto
qed

text \<open>
  The sidebar never shows more of a key than its last four characters, and only of a live key of the
  caller's organisation: the mask is empty or the masked tail of an unrevoked key of that tenant.
\<close>

theorem key_mask_of_own_live_key:
  assumes "activeKeyMask h r d \<noteq> ''''"
  shows "\<exists>tid k. resolveTenant h r = Some tid \<and> k \<in> set (tb_keys (db_tables d)) \<and> ik_org k = tid \<and> ik_revoked k = None \<and>
    activeKeyMask h r d = keyMask (ik_last4 k)"
proof -
  obtain tid infos where t: "resolveTenant h r = Some tid" "fst (ListKeys tid d) = Inr infos" "wb_keys h"
    using assms by (auto simp: activeKeyMask_def split: if_splits option.splits sum.splits)
  then have m: "activeKeyMask h r d = (case find (\<lambda>(_, _, _, _, revoked). revoked = None) infos of
      Some (_, _, tail4, _, _) \<Rightarrow> keyMask tail4 | None \<Rightarrow> '''')"
    by (simp add: activeKeyMask_def)
  then obtain i label tail4 created revoked
    where f: "find (\<lambda>(_, _, _, _, revoked). revoked = None) infos = Some (i, label, tail4, created, revoked)"
    using assms by (auto split: option.splits)
  from find_member [OF this] have "(i, label, tail4, created, None) \<in> set infos" by auto
  from ListKeys_own [OF t(2) this] obtain k where "k \<in> set (tb_keys (db_tables d))" "ik_org k = tid" "ik_last4 k = tail4"
    "ik_revoked k = None" by blast
  moreover have "activeKeyMask h r d = keyMask tail4" unfolding m f by simp
  ultimately show ?thesis using t(1) by blast
qed

end
