(* ===== verification/Routing.thy ===== *)
theory Routing
  imports Serve_Mux Web_Shell
begin

text \<open>
  The routed server: the dashboard routes (\<open>Handler.Register\<close> of src/server/internal/web/web.go), the open
  login routes (\<open>Auth.Register\<close> of src/server/internal/auth/handlers.go), the documentation routes
  (\<open>Register\<close> of src/server/docs/docs.go) and the composition of src/server/app: \<open>mountDashboard\<close>,
  \<open>mountIngest\<close> and \<open>assembleMux\<close>. Handlers are named by a datatype; what they do is modelled in
  the theories of their components. Routes of a composing build are a parameter.
\<close>

section \<open>The route tables\<close>

datatype webRoute = WOverview | WPerformance | WSetup | WHandshake | WCreateKey | WRevokeKey | WCreateInvite
  | WRevokeInvite | WRemoveMember | WEndpoints | WEndpointDetail | WSeries | WHistogram | WInstances | WAsset string

definition web_Register :: "webRoute muxEntry list" where
  "web_Register =
     [handle ''GET /'' WOverview,
      handle ''GET /dashboard'' WOverview,
      handle ''GET /performance'' WPerformance,
      handle ''GET /setup'' WSetup,
      handle ''GET /setup/handshake'' WHandshake,
      handle ''POST /setup/keys'' WCreateKey,
      handle ''POST /setup/keys/{id}/revoke'' WRevokeKey,
      handle ''POST /setup/invites'' WCreateInvite,
      handle ''POST /setup/invites/{id}/revoke'' WRevokeInvite,
      handle ''POST /setup/members/{id}/remove'' WRemoveMember,
      handle ''GET /services/{service}'' WEndpoints,
      handle ''GET /services/{service}/endpoint'' WEndpointDetail,
      handle ''GET /api/series'' WSeries,
      handle ''GET /api/histogram'' WHistogram,
      handle ''GET /api/instances'' WInstances,
      handle ''GET /assets/copy.js'' (WAsset ''copy.js''),
      handle ''GET /assets/handshake.js'' (WAsset ''handshake.js'')]"

datatype outerRoute = OHealth | ODashboard | OLoginPage | OStart | OCallback | OLogout | ODevLogin | OIngest
  | ODocIndex | ODocTopic | OExtension nat

definition auth_Register :: "bool \<Rightarrow> outerRoute muxEntry list" where
  "auth_Register devLogin =
     [handle ''GET /login'' OLoginPage,
      handle ''GET /auth/{provider}/start'' OStart,
      handle ''GET /auth/{provider}/callback'' OCallback,
      handle ''GET /logout'' OLogout,
      handle ''POST /logout'' OLogout] @
     (if devLogin then [handle ''POST /auth/dev/login'' ODevLogin] else [])"

definition docs_Register :: "outerRoute muxEntry list" where
  "docs_Register = [handle ''GET /doc'' ODocIndex, handle ''GET /doc/{topic}'' ODocTopic]"

definition mountDashboard :: "auth option \<Rightarrow> outerRoute muxEntry list" where
  "mountDashboard authLayer =
     handle ''/'' ODashboard # (case authLayer of None \<Rightarrow> [] | Some a \<Rightarrow> auth_Register (au_devLogin a))"

definition mountIngest :: "outerRoute muxEntry list" where
  "mountIngest = [handle ''/maping.v1.IngestService/'' OIngest]"

definition mountExtensions :: "(string \<times> nat) list \<Rightarrow> outerRoute muxEntry list" where
  "mountExtensions routes = map (\<lambda>(pattern, n). handle pattern (OExtension n)) routes"

definition assembleMux :: "auth option \<Rightarrow> (string \<times> nat) list \<Rightarrow> outerRoute muxEntry list" where
  "assembleMux authLayer routes =
     [handle ''GET /healthz'' OHealth] @ mountDashboard authLayer @ mountIngest @ docs_Register @ mountExtensions routes"

section \<open>Serving a request\<close>

record siteRequest =
  sr_method :: string
  sr_path :: string
  sr_req :: httpRequest

datatype outcome =
    Health int string
  | AuthRoute outerRoute "string list"
  | IngestCall int
  | Doc "string list" bool
  | PublicHome
  | Page webRoute "string list" "Session option"
  | Denied "(reply \<times> cookie list) option"
  | Moved string
  | NotAllowed
  | Missing
  | Extension nat "string list"

definition serveWeb :: "Session option \<Rightarrow> siteRequest \<Rightarrow> outcome" where
  "serveWeb sess s =
     (case findHandler web_Register (sr_method s) (sr_path s) of
        Found w ms \<Rightarrow> Page w ms sess
      | MovedPermanently u \<Rightarrow> Moved u
      | MethodNotAllowed \<Rightarrow> NotAllowed
      | NotFound \<Rightarrow> Missing)"

definition gated :: "auth \<Rightarrow> instant \<Rightarrow> siteRequest \<Rightarrow> outcome" where
  "gated a now s =
     (case Middleware a (\<lambda>sess r w _. (w, Some sess)) now (sr_req s) newRW None of
        (w, Some sess) \<Rightarrow> serveWeb (Some sess) s
      | (w, None) \<Rightarrow> Denied (rw_sent w))"

definition serveDashboard :: "auth option \<Rightarrow> bool \<Rightarrow> instant \<Rightarrow> siteRequest \<Rightarrow> outcome" where
  "serveDashboard authLayer home now s =
     (case authLayer of
        None \<Rightarrow> serveWeb None s
      | Some a \<Rightarrow>
          if home then rootHandler a (\<lambda>r _. gated a now s) (\<lambda>r _. PublicHome) now (sr_req s) ()
          else gated a now s)"

definition dispatch :: "auth option \<Rightarrow> bool \<Rightarrow> bool \<Rightarrow> int \<Rightarrow> (string \<times> nat) list \<Rightarrow> instant \<Rightarrow> siteRequest \<Rightarrow> outcome" where
  "dispatch authLayer home ready bodyCap routes now s =
     (case findHandler (assembleMux authLayer routes) (sr_method s) (sr_path s) of
        MovedPermanently u \<Rightarrow> Moved u
      | MethodNotAllowed \<Rightarrow> NotAllowed
      | NotFound \<Rightarrow> Missing
      | Found h ms \<Rightarrow>
          (case h of
             OHealth \<Rightarrow> (case healthHandler ready of (code, body) \<Rightarrow> Health code body)
           | ODashboard \<Rightarrow> serveDashboard authLayer home now s
           | OIngest \<Rightarrow> IngestCall bodyCap
           | ODocIndex \<Rightarrow> Doc ms (case authLayer of None \<Rightarrow> False | Some a \<Rightarrow> Authenticated a (sr_req s) now)
           | ODocTopic \<Rightarrow> Doc ms (case authLayer of None \<Rightarrow> False | Some a \<Rightarrow> Authenticated a (sr_req s) now)
           | OExtension n \<Rightarrow> Extension n ms
           | OLoginPage \<Rightarrow> AuthRoute OLoginPage ms
           | OStart \<Rightarrow> AuthRoute OStart ms
           | OCallback \<Rightarrow> AuthRoute OCallback ms
           | OLogout \<Rightarrow> AuthRoute OLogout ms
           | ODevLogin \<Rightarrow> AuthRoute ODevLogin ms))"

text \<open>The hardening headers wrap the whole mux.\<close>

definition serveSite ::
  "bool \<Rightarrow> auth option \<Rightarrow> bool \<Rightarrow> bool \<Rightarrow> int \<Rightarrow> (string \<times> nat) list \<Rightarrow> instant \<Rightarrow> siteRequest \<Rightarrow> (string \<times> string) list \<times> outcome" where
  "serveSite secure authLayer home ready bodyCap routes now s =
     (securityHeaders secure, dispatch authLayer home ready bodyCap routes now s)"

section \<open>The open routes\<close>

text \<open>Which requests a visitor without a session can reach, by method and decoded path segments.\<close>

definition openRoute :: "bool \<Rightarrow> string \<Rightarrow> string list \<Rightarrow> bool" where
  "openRoute devLogin m segs \<longleftrightarrow>
     (m = ''GET'' \<or> m = ''HEAD'') \<and>
       (segs \<in> {[''healthz''], [''login''], [''logout''], [''doc'']} \<or>
        (\<exists>p. segs = [''auth'', p, ''start''] \<or> segs = [''auth'', p, ''callback''] \<or> segs = [''doc'', p])) \<or>
     m = ''POST'' \<and> (segs = [''logout''] \<or> devLogin \<and> segs = [''auth'', ''dev'', ''login'']) \<or>
     (2 \<le> length segs \<and> hd segs = ''maping.v1.IngestService'')"

fun fits :: "segment \<Rightarrow> string \<Rightarrow> bool" where
  "fits (Lit l) x \<longleftrightarrow> x = l"
| "fits (Wild n) x \<longleftrightarrow> True"
| "fits Subtree x \<longleftrightarrow> False"

lemma match_fits:
  "Subtree \<notin> set ps \<Longrightarrow> matchSegs ps xs \<noteq> None \<Longrightarrow> list_all2 fits ps (map pathUnescape xs)"
  by (induction ps xs rule: matchSegs.induct) (auto split: if_splits)

lemma route_segs:
  "me_segs (handle ''GET /healthz'' h) = [Lit ''healthz'']" "me_segs (handle ''/'' h) = [Subtree]"
  "me_segs (handle ''GET /login'' h) = [Lit ''login'']"
  "me_segs (handle ''GET /auth/{provider}/start'' h) = [Lit ''auth'', Wild ''provider'', Lit ''start'']"
  "me_segs (handle ''GET /auth/{provider}/callback'' h) = [Lit ''auth'', Wild ''provider'', Lit ''callback'']"
  "me_segs (handle ''GET /logout'' h) = [Lit ''logout'']" "me_segs (handle ''POST /logout'' h) = [Lit ''logout'']"
  "me_segs (handle ''POST /auth/dev/login'' h) = [Lit ''auth'', Lit ''dev'', Lit ''login'']"
  "me_segs (handle ''/maping.v1.IngestService/'' h) = [Lit ''maping.v1.IngestService'', Subtree]"
  "me_segs (handle ''GET /doc'' h) = [Lit ''doc'']" "me_segs (handle ''GET /doc/{topic}'' h) = [Lit ''doc'', Wild ''topic'']"
  by (simp_all add: handle_def cutByte_def pathSegs_def parseSegment_def hasPrefix_def hasSuffix_def)

lemma route_method:
  "me_method (handle ''GET /healthz'' h) = ''GET''" "me_method (handle ''/'' h) = ''''"
  "me_method (handle ''GET /login'' h) = ''GET''" "me_method (handle ''GET /auth/{provider}/start'' h) = ''GET''"
  "me_method (handle ''GET /auth/{provider}/callback'' h) = ''GET''"
  "me_method (handle ''GET /logout'' h) = ''GET''" "me_method (handle ''POST /logout'' h) = ''POST''"
  "me_method (handle ''POST /auth/dev/login'' h) = ''POST''" "me_method (handle ''/maping.v1.IngestService/'' h) = ''''"
  "me_method (handle ''GET /doc'' h) = ''GET''" "me_method (handle ''GET /doc/{topic}'' h) = ''GET''"
  by (simp_all add: handle_def cutByte_def)

lemma handle_handler [simp]: "me_handler (handle p h) = h"
  by (simp add: handle_def split: prod.splits)

lemma catch_all: "e \<in> set es \<Longrightarrow> me_method e = '''' \<Longrightarrow> me_segs e = [Subtree] \<Longrightarrow> findHandler es m path \<noteq> MethodNotAllowed \<and> findHandler es m path \<noteq> NotFound"
proof -
  assume e: "e \<in> set es" "me_method e = ''''" "me_segs e = [Subtree]"
  have "matchSegs (me_segs e) (pathSegs p) \<noteq> None" for p
    unfolding e(3) by (cases "pathSegs p") (simp_all add: pathSegs_def)
  then have "treeMatch es m p \<noteq> None" for p using treeMatch_some [OF e(1,2)] by blast
  then have "matchOrRedirect es m p \<noteq> Inl None" for p
    unfolding matchOrRedirect_def Let_def by (auto split: option.splits)
  then show ?thesis unfolding findHandler_def Let_def by (auto split: sum.splits option.splits)
qed

lemma fits_simps:
  "list_all2 fits [Lit l] ys \<longleftrightarrow> ys = [l]"
  "list_all2 fits [Lit l, Wild w] ys \<longleftrightarrow> (\<exists>p. ys = [l, p])"
  "list_all2 fits [Lit l, Wild w, Lit k] ys \<longleftrightarrow> (\<exists>p. ys = [l, p, k])"
  "list_all2 fits [Lit l, Lit j, Lit k] ys \<longleftrightarrow> ys = [l, j, k]"
  by (auto simp: list_all2_Cons1)

lemma open_get:
  assumes "m = ''GET'' \<or> m = ''HEAD''" and "segs \<in> {[''healthz''], [''login''], [''logout''], [''doc'']} \<or>
        (\<exists>p. segs = [''auth'', p, ''start''] \<or> segs = [''auth'', p, ''callback''] \<or> segs = [''doc'', p])"
  shows "openRoute dev m segs"
  unfolding openRoute_def using assms by blast

lemma open_post:
  assumes "m = ''POST''" and "segs = [''logout''] \<or> dev \<and> segs = [''auth'', ''dev'', ''login'']"
  shows "openRoute dev m segs"
  unfolding openRoute_def using assms by blast

lemma core_route_open:
  assumes "e \<in> set ([handle ''GET /healthz'' OHealth] @ auth_Register dev @ mountIngest @ docs_Register)"
    and "matchSegs (me_segs e) xs \<noteq> None" and "me_method e = '''' \<or> me_method e = m \<or> m = ''HEAD'' \<and> me_method e = ''GET''"
  shows "openRoute dev m (map pathUnescape xs)"
proof (cases "e = handle ''/maping.v1.IngestService/'' OIngest")
  case True
  have "matchSegs [Lit ''maping.v1.IngestService'', Subtree] xs \<noteq> None" using assms(2) unfolding True route_segs .
  then have "\<exists>x y ys. xs = x # y # ys \<and> pathUnescape x = ''maping.v1.IngestService''"
    by (cases xs; cases "tl xs") (auto split: if_splits)
  then show ?thesis unfolding openRoute_def by auto
next
  case False
  let ?segs = "map pathUnescape xs"
  have get: "openRoute dev m ?segs" if "me_segs e = ps" "me_method e = ''GET''" "Subtree \<notin> set ps"
      "list_all2 fits ps ?segs \<Longrightarrow> ?segs \<in> {[''healthz''], [''login''], [''logout''], [''doc'']} \<or>
        (\<exists>p. ?segs = [''auth'', p, ''start''] \<or> ?segs = [''auth'', p, ''callback''] \<or> ?segs = [''doc'', p])" for ps
    using that match_fits [of "me_segs e" xs] assms(2,3) by (intro open_get) auto
  have post: "openRoute dev m ?segs" if "me_segs e = ps" "me_method e = ''POST''" "Subtree \<notin> set ps"
      "list_all2 fits ps ?segs \<Longrightarrow> ?segs = [''logout''] \<or> dev \<and> ?segs = [''auth'', ''dev'', ''login'']" for ps
    using that match_fits [of "me_segs e" xs] assms(2,3) by (intro open_post) auto
  consider "e = handle ''GET /healthz'' OHealth" | "e = handle ''GET /login'' OLoginPage" | "e = handle ''GET /auth/{provider}/start'' OStart"
    | "e = handle ''GET /auth/{provider}/callback'' OCallback" | "e = handle ''GET /logout'' OLogout" | "e = handle ''POST /logout'' OLogout"
    | "dev \<and> e = handle ''POST /auth/dev/login'' ODevLogin" | "e = handle ''GET /doc'' ODocIndex" | "e = handle ''GET /doc/{topic}'' ODocTopic"
    using assms(1) False unfolding auth_Register_def docs_Register_def mountIngest_def by (cases dev) (simp_all, blast+)
  then show ?thesis
  proof cases
    case 1
    show ?thesis by (rule get [of "[Lit ''healthz'']"], unfold 1 route_segs route_method fits_simps) auto
  next
    case 2
    show ?thesis by (rule get [of "[Lit ''login'']"], unfold 2 route_segs route_method fits_simps) auto
  next
    case 3
    show ?thesis by (rule get [of "[Lit ''auth'', Wild ''provider'', Lit ''start'']"], unfold 3 route_segs route_method fits_simps) auto
  next
    case 4
    show ?thesis by (rule get [of "[Lit ''auth'', Wild ''provider'', Lit ''callback'']"], unfold 4 route_segs route_method fits_simps) auto
  next
    case 5
    show ?thesis by (rule get [of "[Lit ''logout'']"], unfold 5 route_segs route_method fits_simps) auto
  next
    case 6
    show ?thesis by (rule post [of "[Lit ''logout'']"], unfold 6 route_segs route_method fits_simps) auto
  next
    case 7
    then have e: "dev" "e = handle ''POST /auth/dev/login'' ODevLogin" by simp_all
    show ?thesis
      by (rule post [of "[Lit ''auth'', Lit ''dev'', Lit ''login'']"], unfold e(2) route_segs route_method fits_simps) (use e(1) in auto)
  next
    case 8
    show ?thesis by (rule get [of "[Lit ''doc'']"], unfold 8 route_segs route_method fits_simps) auto
  next
    case 9
    show ?thesis by (rule get [of "[Lit ''doc'', Wild ''topic'']"], unfold 9 route_segs route_method fits_simps) auto
  qed
qed

lemma assembled_routes:
  "set (assembleMux (Some a) routes) =
   insert (handle ''/'' ODashboard) (set ([handle ''GET /healthz'' OHealth] @ auth_Register (au_devLogin a) @ mountIngest @ docs_Register)
     \<union> set (mountExtensions routes))"
  by (auto simp: assembleMux_def mountDashboard_def)

lemma gated_anonymous:
  assumes "sessionFromRequest a (sr_req s) now = None"
  shows "gated a now s = Denied (Some (if hasPrefix (rq_path (sr_req s)) ''/api/'' then UnauthorizedJSON else Redirect ''/login'', []))"
  using assms by (simp add: gated_def Middleware_def denyUnauthenticated_def respond_def newRW_def)

lemma gated_session: "gated a now s = Page w ms so \<Longrightarrow> \<exists>sess. so = Some sess \<and> sessionFromRequest a (sr_req s) now = Some sess"
  by (cases "sessionFromRequest a (sr_req s) now")
    (auto simp: gated_def Middleware_def serveWeb_def split: found.splits)

lemma serveDashboard_session:
  "serveDashboard (Some a) home now s = Page w ms so \<Longrightarrow> \<exists>sess. so = Some sess \<and> sessionFromRequest a (sr_req s) now = Some sess"
  using gated_session [of a now s w ms so] by (auto simp: serveDashboard_def rootHandler_def split: if_splits)

lemma dispatch_page:
  "dispatch authLayer home ready bodyCap routes now s = Page w ms so \<Longrightarrow> serveDashboard authLayer home now s = Page w ms so"
  unfolding dispatch_def by (auto split: found.splits outerRoute.splits prod.splits)

definition anonymousOutcome :: "auth \<Rightarrow> bool \<Rightarrow> (string \<times> nat) list \<Rightarrow> siteRequest \<Rightarrow> outcome \<Rightarrow> bool" where
  "anonymousOutcome a home routes s out \<longleftrightarrow>
     (case out of
        Page _ _ _ \<Rightarrow> False
      | Denied d \<Rightarrow> d = Some (if hasPrefix (rq_path (sr_req s)) ''/api/'' then UnauthorizedJSON else Redirect ''/login'', [])
      | PublicHome \<Rightarrow> home \<and> rq_path (sr_req s) = ''/''
      | Moved _ \<Rightarrow> True
      | Extension n _ \<Rightarrow> n \<in> snd ` set routes
      | NotAllowed \<Rightarrow> False
      | Missing \<Rightarrow> False
      | _ \<Rightarrow> openRoute (au_devLogin a) (sr_method s) (map pathUnescape (pathSegs (sr_path s))))"

text \<open>
  C11. The dashboard is behind the login: with an auth layer every dashboard page is served with the
  verified session of the request's cookie; a request without one never reaches a page, whatever its
  method and path: it is sent to the login page (or answered 401 under /api/), redirected to a clean path,
  served the public home at the root where there is one, handled by a composing build's own route, or it
  is one of the open routes (health, login, documentation, ingest). The hardening headers are on every
  answer.
\<close>

theorem dashboard_behind_login:
  "(\<forall>w ms so. dispatch (Some a) home ready bodyCap routes now s = Page w ms so \<longrightarrow>
      (\<exists>sess. so = Some sess \<and> sessionFromRequest a (sr_req s) now = Some sess)) \<and>
   (sessionFromRequest a (sr_req s) now = None \<longrightarrow>
      anonymousOutcome a home routes s (dispatch (Some a) home ready bodyCap routes now s)) \<and>
   (''X-Content-Type-Options'', ''nosniff'') \<in> set (fst (serveSite secure (Some a) home ready bodyCap routes now s))"
proof (intro conjI allI impI)
  fix w ms so assume "dispatch (Some a) home ready bodyCap routes now s = Page w ms so"
  from serveDashboard_session [OF dispatch_page [OF this]]
  show "\<exists>sess. so = Some sess \<and> sessionFromRequest a (sr_req s) now = Some sess" .
next
  assume anon: "sessionFromRequest a (sr_req s) now = None"
  let ?es = "assembleMux (Some a) routes" and ?segs = "map pathUnescape (pathSegs (sr_path s))"
  have root: "handle ''/'' ODashboard \<in> set ?es" by (simp add: assembled_routes)
  note none = catch_all [OF root route_method(2) route_segs(2), of "sr_method s" "sr_path s"]
  have dash: "anonymousOutcome a home routes s (serveDashboard (Some a) home now s)"
    using gated_anonymous [OF anon] by (auto simp: anonymousOutcome_def serveDashboard_def rootHandler_def)
  have route: "h = ODashboard \<or> (\<exists>n \<in> snd ` set routes. h = OExtension n) \<or> (openRoute (au_devLogin a) (sr_method s) ?segs \<and> (\<forall>n. h \<noteq> OExtension n))"
    if f: "findHandler ?es (sr_method s) (sr_path s) = Found h ms" for h ms
  proof -
    obtain e where e: "e \<in> set ?es" "me_handler e = h" "matchSegs (me_segs e) (pathSegs (sr_path s)) \<noteq> None"
      "me_method e = '''' \<or> me_method e = sr_method s \<or> sr_method s = ''HEAD'' \<and> me_method e = ''GET''"
      using found_matches [OF f] by auto
    then consider "e = handle ''/'' ODashboard" | "e \<in> set (mountExtensions routes)"
      | "e \<in> set ([handle ''GET /healthz'' OHealth] @ auth_Register (au_devLogin a) @ mountIngest @ docs_Register)"
      unfolding assembled_routes by blast
    then show ?thesis
    proof cases
      case 1
      then show ?thesis using e(2) by simp
    next
      case 2
      then show ?thesis using e(2) by (force simp: mountExtensions_def)
    next
      case 3
      then have "\<forall>n. h \<noteq> OExtension n"
        using e(2) by (auto simp: auth_Register_def mountIngest_def docs_Register_def split: if_splits)
      then show ?thesis using core_route_open [OF 3 e(3,4)] by blast
    qed
  qed
  show "anonymousOutcome a home routes s (dispatch (Some a) home ready bodyCap routes now s)"
  proof (cases "findHandler ?es (sr_method s) (sr_path s)")
    case (Found h ms)
    then show ?thesis
      using route [OF Found] dash by (cases h) (auto simp: dispatch_def anonymousOutcome_def healthHandler_def)
  qed (use none in \<open>simp_all add: dispatch_def anonymousOutcome_def\<close>)
next
  show "(''X-Content-Type-Options'', ''nosniff'') \<in> set (fst (serveSite secure (Some a) home ready bodyCap routes now s))"
    by (simp add: serveSite_def securityHeaders_def)
qed

definition demoSite :: "string \<Rightarrow> string \<Rightarrow> siteRequest" where
  "demoSite m path = \<lparr>sr_method = m, sr_path = path, sr_req = (demoRequest '''')\<lparr>rq_path := path\<rparr>\<rparr>"

lemma demo_anonymous: "sessionFromRequest demoAuth (sr_req (demoSite m path)) now = None"
  by (simp add: sessionFromRequest_def demoSite_def demoRequest_def)

lemma demo_found: "findHandler (assembleMux (Some demoAuth) []) ''GET'' ''/services/checkout'' = Found ODashboard []"
  by code_simp

theorem dashboard_behind_login_witness:
  "anonymousOutcome demoAuth False [] (demoSite ''GET'' ''/services/checkout'')
     (dispatch (Some demoAuth) False True 1 [] 5 (demoSite ''GET'' ''/services/checkout'')) \<and>
   dispatch (Some demoAuth) False True 1 [] 5 (demoSite ''GET'' ''/services/checkout'') = Denied (Some (Redirect ''/login'', []))"
proof
  show "anonymousOutcome demoAuth False [] (demoSite ''GET'' ''/services/checkout'')
     (dispatch (Some demoAuth) False True 1 [] 5 (demoSite ''GET'' ''/services/checkout''))"
    by (rule dashboard_behind_login [THEN conjunct2, THEN conjunct1, THEN mp, OF demo_anonymous])
  show "dispatch (Some demoAuth) False True 1 [] 5 (demoSite ''GET'' ''/services/checkout'') = Denied (Some (Redirect ''/login'', []))"
    using demo_found gated_anonymous [OF demo_anonymous] unfolding dispatch_def
    by (simp add: demoSite_def serveDashboard_def hasPrefix_def)
qed

text \<open>
  Every dashboard route is reachable: the table is unambiguous on these requests, wildcards bind the
  decoded segment, HEAD is served by the GET routes, and a path that is not clean is redirected.
\<close>

theorem routes_resolve:
  "map (\<lambda>(m, p). findHandler web_Register m p)
     [(''GET'', ''/''), (''GET'', ''/services/check%20out/endpoint''), (''POST'', ''/setup/keys/k1/revoke''), (''HEAD'', ''/api/series''),
      (''GET'', ''/setup/../dashboard''), (''POST'', ''/dashboard''), (''GET'', ''/nosuch/page'')] =
   [Found WOverview [], Found WEndpointDetail [''check out''], Found WRevokeKey [''k1''], Found WSeries [],
    MovedPermanently ''/dashboard'', MethodNotAllowed, Found WOverview []]"
  by code_simp

end
