(* ===== verification/Docs_Site.thy ===== *)
theory Docs_Site
  imports Routing Stable_Sort
begin

text \<open>
  The documentation site, src/server/docs/: the table of contents and its grouping (docs.go), the page
  handlers, and the choice between the public shell and the dashboard chrome (render_app.go, wired by
  assembleMux in src/server/app/assemble.go). The Markdown renderer is third-party and an argument; the
  embedded files are known by name and their contents are an argument. A page
  is the data handed to its template; the two templates are documents of Page_Templates.
\<close>

section \<open>Sections and the handler (docs.go)\<close>

record Section =
  sc_Group :: string
  sc_Title :: string
  sc_Href :: string
  sc_Order :: int

record navLink =
  nl_Title :: string
  nl_Href :: string
  nl_Active :: bool

record navGroup =
  ng_Group :: string
  ng_Items :: "navLink list"

definition coreSections :: "Section list" where
  "coreSections = map (\<lambda>(title, href, order). \<lparr>sc_Group = ''Product'', sc_Title = title, sc_Href = href, sc_Order = order\<rparr>)
     [(''Quickstart'', ''/doc/quickstart'', 1),
      (''What data is collected'', ''/doc/data-collected'', 2),
      (''Runtime overhead'', ''/doc/runtime-overhead'', 3),
      (''Failure & retry behaviour'', ''/doc/failure-retry'', 4),
      (''Security & data flow'', ''/doc/security-data-flow'', 5),
      (''Self-hosting'', ''/doc/self-hosting'', 6),
      (''Architecture'', ''/doc/architecture'', 7),
      (''Benchmarks'', ''/doc/benchmarks'', 8),
      (''Licensing'', ''/doc/licensing'', 9)]"

text \<open>The names under content/ that the build embeds.\<close>

definition content :: "string list" where
  "content = [''architecture'', ''benchmarks'', ''data-collected'', ''failure-retry'', ''index'', ''licensing'',
     ''quickstart'', ''runtime-overhead'', ''security-data-flow'', ''self-hosting'']"

definition titleOf :: "Section list \<Rightarrow> string \<Rightarrow> string" where
  "titleOf sections href = (case find (\<lambda>s. sc_Href s = href) sections of None \<Rightarrow> '''' | Some s \<Rightarrow> sc_Title s)"

text \<open>The handler; the auth layer is there when \<open>EnableInApp\<close> was called.\<close>

record docs_Handler =
  dh_nav :: "Section list"
  dh_header :: string
  dh_app :: "auth option"

definition docs_NewHandler :: "Section list \<Rightarrow> string \<Rightarrow> docs_Handler" where
  "docs_NewHandler extra header = \<lparr>dh_nav = coreSections @ extra, dh_header = header, dh_app = None\<rparr>"

definition EnableInApp :: "auth \<Rightarrow> docs_Handler \<Rightarrow> docs_Handler" where
  "EnableInApp a h = h\<lparr>dh_app := Some a\<rparr>"

definition orderOf :: "docs_Handler \<Rightarrow> string \<Rightarrow> string \<Rightarrow> int" where
  "orderOf h g href =
     (case find (\<lambda>s. sc_Group s = g \<and> sc_Href s = href) (dh_nav h) of None \<Rightarrow> 0 | Some s \<Rightarrow> sc_Order s)"

definition linkOf :: "string \<Rightarrow> Section \<Rightarrow> navLink" where
  "linkOf activePath s = \<lparr>nl_Title = sc_Title s, nl_Href = sc_Href s, nl_Active = (sc_Href s = activePath)\<rparr>"

definition groupStep ::
  "string \<Rightarrow> Section \<Rightarrow> string list \<times> (string, navLink list) gomap \<Rightarrow> string list \<times> (string, navLink list) gomap" where
  "groupStep activePath s = (\<lambda>(order, byGroup).
     (if map_of byGroup (sc_Group s) = None then order @ [sc_Group s] else order,
      AList.update (sc_Group s) (glookup [] byGroup (sc_Group s) @ [linkOf activePath s]) byGroup))"

definition itemLess :: "docs_Handler \<Rightarrow> string \<Rightarrow> navLink \<Rightarrow> navLink \<Rightarrow> bool" where
  "itemLess h g a b \<longleftrightarrow> orderOf h g (nl_Href a) < orderOf h g (nl_Href b)"

definition groups :: "docs_Handler \<Rightarrow> string \<Rightarrow> navGroup list" where
  "groups h activePath =
     (let (order, byGroup) = fold (groupStep activePath) (dh_nav h) ([], [])
      in map (\<lambda>g. \<lparr>ng_Group = g, ng_Items = stableSort (itemLess h g) (glookup [] byGroup g)\<rparr>) order)"

section \<open>Pages (docs.go, render.go, render_app.go)\<close>

record shellData =
  sd_Title :: string
  sd_Body :: string
  sd_Header :: string
  sd_Groups :: "navGroup list"

record appData =
  ad_Body :: string
  ad_Groups :: "navGroup list"

datatype docPage =
    Standalone shellData
  | InApp Session string appData
  | Turned "(reply \<times> cookie list) option"
  | DocNotFound
  | DocError int string

text \<open>
  The in-app renderer that assembleMux installs: the auth middleware, which reads the clock again, around
  RenderDocPage.
\<close>

definition renderInApp :: "auth \<Rightarrow> docs_Handler \<Rightarrow> instant \<Rightarrow> httpRequest \<Rightarrow> string \<Rightarrow> string \<Rightarrow> docPage" where
  "renderInApp a h now r title body =
     (let frag = \<lparr>ad_Body = body, ad_Groups = groups h (rq_path r)\<rparr>
      in case Middleware a (\<lambda>sess r w _. (w, Some (InApp sess title frag))) now r newRW None of
           (w, Some p) \<Rightarrow> p
         | (w, None) \<Rightarrow> Turned (rw_sent w))"

definition docs_Render :: "docs_Handler \<Rightarrow> instant \<Rightarrow> instant \<Rightarrow> httpRequest \<Rightarrow> string \<Rightarrow> string \<Rightarrow> docPage" where
  "docs_Render h t1 t2 r title body =
     (case dh_app h of
        Some a \<Rightarrow>
          if Authenticated a r t1 then renderInApp a h t2 r title body
          else Standalone \<lparr>sd_Title = title, sd_Body = body, sd_Header = dh_header h, sd_Groups = groups h (rq_path r)\<rparr>
      | None \<Rightarrow> Standalone \<lparr>sd_Title = title, sd_Body = body, sd_Header = dh_header h, sd_Groups = groups h (rq_path r)\<rparr>)"

text \<open>
  \<open>files\<close> gives the contents of the embedded files, \<open>markdown\<close> is the renderer. A name with a slash or
  with dots is no file of the embedded directory.
\<close>

definition readContent :: "(string \<Rightarrow> string) \<Rightarrow> string \<Rightarrow> string option" where
  "readContent files slug = (if slug \<in> set content then Some (files slug) else None)"

definition serveFile ::
  "(string \<Rightarrow> string) \<Rightarrow> (string \<Rightarrow> string option) \<Rightarrow> docs_Handler \<Rightarrow> instant \<Rightarrow> instant \<Rightarrow> httpRequest \<Rightarrow> string \<Rightarrow> string \<Rightarrow> docPage" where
  "serveFile files markdown h t1 t2 r slug activeHref =
     (case readContent files slug of
        None \<Rightarrow> DocNotFound
      | Some src \<Rightarrow>
          (case markdown src of
             None \<Rightarrow> DocError 500 ''documentation unavailable''
           | Some body \<Rightarrow>
               let title = titleOf (dh_nav h) activeHref
               in docs_Render h t1 t2 r (if title = '''' then ''Documentation'' else title) body))"

definition docs_index :: "(string \<Rightarrow> string) \<Rightarrow> (string \<Rightarrow> string option) \<Rightarrow> docs_Handler \<Rightarrow> instant \<Rightarrow> instant \<Rightarrow> httpRequest \<Rightarrow> docPage" where
  "docs_index files markdown h t1 t2 r = serveFile files markdown h t1 t2 r ''index'' ''/doc''"

definition docs_topic :: "(string \<Rightarrow> string) \<Rightarrow> (string \<Rightarrow> string option) \<Rightarrow> docs_Handler \<Rightarrow> instant \<Rightarrow> instant \<Rightarrow> httpRequest \<Rightarrow> string \<Rightarrow> docPage" where
  "docs_topic files markdown h t1 t2 r slug = serveFile files markdown h t1 t2 r slug (''/doc/'' @ slug)"

section \<open>The table of contents\<close>

lemma groupStep_inv:
  assumes "order = map fst byGroup" and "gomap_ok byGroup"
    and "fold (groupStep p) ss (order, byGroup) = (order', byGroup')"
  shows "order' = map fst byGroup' \<and> gomap_ok byGroup' \<and>
    (\<forall>g. glookup [] byGroup' g = glookup [] byGroup g @ map (linkOf p) (filter (\<lambda>s. sc_Group s = g) ss)) \<and>
    fst ` set byGroup' = fst ` set byGroup \<union> sc_Group ` set ss"
  using assms
proof (induction ss arbitrary: order byGroup)
  case (Cons s ss)
  let ?g = "sc_Group s"
  let ?b = "AList.update ?g (glookup [] byGroup ?g @ [linkOf p s]) byGroup"
  let ?o = "if map_of byGroup ?g = None then order @ [?g] else order"
  have keys: "map fst ?b = ?o"
    unfolding update_keys Cons.prems(1) map_of_eq_None_iff by simp
  have step: "fold (groupStep p) ss (?o, ?b) = (order', byGroup')"
    using Cons.prems(3) by (simp only: fold.simps comp_apply groupStep_def [of p s] prod.case)
  note ih = Cons.IH [OF keys [symmetric] gomap_ok_update [OF Cons.prems(2)] step]
  have "glookup [] byGroup' g = glookup [] byGroup g @ map (linkOf p) (filter (\<lambda>s. sc_Group s = g) (s # ss))" for g
    using ih by simp
  moreover have "fst ` set byGroup' = fst ` set byGroup \<union> sc_Group ` set (s # ss)"
    using ih by simp
  ultimately show ?case using ih by blast
qed simp

lemma groups_spec:
  "distinct (map ng_Group (groups h p)) \<and> ng_Group ` set (groups h p) = sc_Group ` set (dh_nav h) \<and>
   (\<forall>g \<in> set (groups h p).
      ng_Items g = stableSort (itemLess h (ng_Group g)) (map (linkOf p) (filter (\<lambda>s. sc_Group s = ng_Group g) (dh_nav h))))"
proof -
  obtain order byGroup where f: "fold (groupStep p) (dh_nav h) ([], []) = (order, byGroup)" by fastforce
  have "order = map fst byGroup \<and> gomap_ok byGroup \<and>
    (\<forall>g. glookup [] byGroup g = map (linkOf p) (filter (\<lambda>s. sc_Group s = g) (dh_nav h))) \<and>
    fst ` set byGroup = sc_Group ` set (dh_nav h)"
    using groupStep_inv [OF _ _ f] by simp
  then have inv: "order = map fst byGroup" "gomap_ok byGroup" "fst ` set byGroup = sc_Group ` set (dh_nav h)"
    "\<And>g. glookup [] byGroup g = map (linkOf p) (filter (\<lambda>s. sc_Group s = g) (dh_nav h))"
    by blast+
  have g: "groups h p = map (\<lambda>g. \<lparr>ng_Group = g, ng_Items = stableSort (itemLess h g) (glookup [] byGroup g)\<rparr>) order"
    by (simp add: groups_def f)
  show ?thesis unfolding g inv(1) using inv(2,3) by (simp add: comp_def inv(4) image_image)
qed

interpretation item: weak_order "itemLess h g" for h g
  by unfold_locales (auto simp: itemLess_def)

section \<open>Properties\<close>

text \<open>
  The rail of every page, core or injected: each group of the merged sections once, its links a stable sort
  by order of exactly the group's sections, and the link of the current path lit and no other.
\<close>

theorem docs_rail:
  "distinct (map ng_Group (groups h p)) \<and> ng_Group ` set (groups h p) = sc_Group ` set (dh_nav h) \<and>
   (\<forall>g \<in> set (groups h p).
      mset (ng_Items g) = image_mset (linkOf p) (mset (filter (\<lambda>s. sc_Group s = ng_Group g) (dh_nav h))) \<and>
      sorted_wrt (\<lambda>a b. orderOf h (ng_Group g) (nl_Href a) \<le> orderOf h (ng_Group g) (nl_Href b)) (ng_Items g) \<and>
      (\<forall>l \<in> set (ng_Items g). nl_Active l \<longleftrightarrow> nl_Href l = p))"
proof -
  have "sorted_wrt (\<lambda>a b. orderOf h g (nl_Href a) \<le> orderOf h g (nl_Href b)) (stableSort (itemLess h g) ls)" for g ls
    using item.stableSort_sorted [of h g ls] unfolding itemLess_def not_less .
  then show ?thesis using groups_spec [of h p] by (auto simp: linkOf_def)
qed

lemma renderInApp_session:
  "renderInApp a h now r title body =
     (case sessionFromRequest a r now of
        None \<Rightarrow> Turned (rw_sent (denyUnauthenticated r newRW))
      | Some sess \<Rightarrow> InApp sess title \<lparr>ad_Body = body, ad_Groups = groups h (rq_path r)\<rparr>)"
  by (simp add: renderInApp_def Middleware_def split: option.split)

text \<open>
  The core table of contents has no dead link: each of its pages is an embedded file that is served, when
  the renderer takes it, under its own title in the public shell; an unknown topic is a 404 and a renderer
  failure a 500, never an empty page.
\<close>

theorem docs_no_dead_links:
  assumes "dh_app h = None" and "dh_nav h = coreSections @ extra"
  shows "(\<forall>s \<in> set coreSections. \<exists>slug. sc_Href s = ''/doc/'' @ slug \<and> slug \<in> set content \<and>
      docs_topic files markdown h t1 t2 r slug =
        (case markdown (files slug) of
           None \<Rightarrow> DocError 500 ''documentation unavailable''
         | Some body \<Rightarrow> Standalone \<lparr>sd_Title = sc_Title s, sd_Body = body, sd_Header = dh_header h, sd_Groups = groups h (rq_path r)\<rparr>)) \<and>
    (slug \<notin> set content \<longrightarrow> docs_topic files markdown h t1 t2 r slug = DocNotFound)"
proof (intro conjI ballI impI)
  fix s assume s: "s \<in> set coreSections"
  let ?slug = "drop 5 (sc_Href s)"
  have all: "\<forall>s \<in> set coreSections. sc_Href s = ''/doc/'' @ drop 5 (sc_Href s) \<and> drop 5 (sc_Href s) \<in> set content \<and>
      titleOf coreSections (sc_Href s) = sc_Title s \<and> sc_Title s \<noteq> []"
    by code_simp
  have app: "titleOf (coreSections @ extra) href = titleOf coreSections href" if "titleOf coreSections href \<noteq> []" for href
    using that by (auto simp: titleOf_def find_append split: option.splits)
  from all s have "sc_Href s = ''/doc/'' @ ?slug" "?slug \<in> set content" "titleOf (dh_nav h) (sc_Href s) = sc_Title s" "sc_Title s \<noteq> []"
    using app [of "sc_Href s"] unfolding assms(2) by metis+
  then show "\<exists>slug. sc_Href s = ''/doc/'' @ slug \<and> slug \<in> set content \<and>
      docs_topic files markdown h t1 t2 r slug =
        (case markdown (files slug) of
           None \<Rightarrow> DocError 500 ''documentation unavailable''
         | Some body \<Rightarrow> Standalone \<lparr>sd_Title = sc_Title s, sd_Body = body, sd_Header = dh_header h, sd_Groups = groups h (rq_path r)\<rparr>)"
    by (intro exI [of _ ?slug]) (simp add: docs_topic_def serveFile_def readContent_def docs_Render_def assms(1) Let_def split: option.split)
qed (simp add: docs_topic_def serveFile_def readContent_def)

text \<open>
  A doc page in the dashboard chrome carries the verified session of the visitor. The check and the
  middleware each read the clock: the page is turned away to the login, which the wiring says cannot
  happen, exactly when the session expires between the two readings.
\<close>

theorem docs_in_app:
  assumes "dh_app h = Some a"
  shows "(docs_Render h t1 t2 r title body = InApp sess tt d \<longrightarrow>
      sessionFromRequest a r t2 = Some sess \<and> ad_Groups d = groups h (rq_path r)) \<and>
    ((\<exists>d. docs_Render h t1 t2 r title body = Turned d) \<longleftrightarrow>
      sessionFromRequest a r t1 \<noteq> None \<and> sessionFromRequest a r t2 = None)"
  using assms by (auto simp: docs_Render_def renderInApp_session Authenticated_def split: option.splits if_splits)

end
