(* ===== verification/App_Extensions.thy ===== *)
theory App_Extensions
  imports Docs_Site Server_App
begin

text \<open>
  The extension seam of the server, src/server/app/: the options of \<open>Run\<close> and the order they are applied in
  (extensions.go), the contexts handed to a composing build, the usage closures (usage.go) and the
  control-plane adapters of the dashboard (deps.go). The functions a composing build supplies are opaque:
  a registrar is a function from its context to the routes it mounts, a factory a function of the pool.
\<close>

section \<open>Usage (usage.go)\<close>

record UsageStats =
  us_FirstIngest :: "instant option"
  us_LastIngest :: "instant option"
  us_Endpoints :: nat
  us_Series :: nat
  us_Services :: nat
  us_Instances :: nat
  us_Requests30d :: u64
  us_DiskBytes :: u64

datatype seamError = BadTenant | SeamQuery queryError

definition buildUsageSeam ::
  "conn \<Rightarrow> (instant \<Rightarrow> string \<Rightarrow> seamError + UsageStats) \<times> (queryError + (tenantID, instant) gomap)" where
  "buildUsageSeam qs =
     ((\<lambda>now tenantID.
        case tenant_Parse tenantID of
          None \<Rightarrow> Inl BadTenant
        | Some tid \<Rightarrow>
            (case Usage qs tid now of
               Inl e \<Rightarrow> Inl (SeamQuery e)
             | Inr u \<Rightarrow> Inr \<lparr>us_FirstIngest = tu_FirstIngest u, us_LastIngest = tu_LastIngest u,
                 us_Endpoints = tu_Endpoints u, us_Series = tu_Series u, us_Services = tu_Services u,
                 us_Instances = tu_Instances u, us_Requests30d = tu_Requests30d u, us_DiskBytes = tu_DiskBytes u\<rparr>)),
      LastIngestByTenant qs)"

section \<open>Contexts and options (extensions.go)\<close>

record 'p RouteContext =
  rc_Pool :: "'p option"
  rc_Gate :: "auth option"
  rc_SessionOrg :: "(Session option \<Rightarrow> string option) option"
  rc_SessionMemberID :: "(Session option \<Rightarrow> string option) option"
  rc_RenderDoc :: docs_Handler
  rc_Usage :: "instant \<Rightarrow> string \<Rightarrow> seamError + UsageStats"
  rc_LastIngestByTenant :: "queryError + (tenantID, instant) gomap"

record 'p JobContext =
  jc_Ctx :: nat
  jc_Pool :: "'p option"

type_synonym 'p RouteRegistrar = "'p RouteContext \<Rightarrow> (string \<times> nat) list"
type_synonym limitSource = "string \<Rightarrow> db \<Rightarrow> (Limits \<times> bool) \<times> db"

record ('p, 'w, 'i, 'j) options =
  op_routes :: "'p RouteRegistrar list"
  op_jobs :: "'j list"
  op_limitProvider :: "(limitSource \<Rightarrow> 'p \<Rightarrow> limitSource) option"
  op_migrations :: "migrationSource list"
  op_loginInterceptor :: "('p \<Rightarrow> 'i) option"
  op_memberAdmin :: "('p \<Rightarrow> 'w memberAdmin) option"
  op_publicHome :: bool
  op_accountHref :: string
  op_docSections :: "Section list"
  op_docHeader :: string

definition noOptions :: "('p, 'w, 'i, 'j) options" where
  "noOptions = \<lparr>op_routes = [], op_jobs = [], op_limitProvider = None, op_migrations = [], op_loginInterceptor = None,
     op_memberAdmin = None, op_publicHome = False, op_accountHref = '''', op_docSections = [], op_docHeader = ''''\<rparr>"

type_synonym ('p, 'w, 'i, 'j) appOption = "('p, 'w, 'i, 'j) options \<Rightarrow> ('p, 'w, 'i, 'j) options"

definition WithRoutes :: "'p RouteRegistrar \<Rightarrow> ('p, 'w, 'i, 'j) appOption" where
  "WithRoutes r o' = o'\<lparr>op_routes := op_routes o' @ [r]\<rparr>"

definition WithBackgroundJob :: "'j \<Rightarrow> ('p, 'w, 'i, 'j) appOption" where
  "WithBackgroundJob j o' = o'\<lparr>op_jobs := op_jobs o' @ [j]\<rparr>"

definition WithExtraMigrations :: "migrationSource \<Rightarrow> ('p, 'w, 'i, 'j) appOption" where
  "WithExtraMigrations src o' = o'\<lparr>op_migrations := op_migrations o' @ [src]\<rparr>"

definition WithLimitProvider :: "(limitSource \<Rightarrow> 'p \<Rightarrow> limitSource) option \<Rightarrow> ('p, 'w, 'i, 'j) appOption" where
  "WithLimitProvider factory o' = o'\<lparr>op_limitProvider := factory\<rparr>"

definition WithLoginInterceptor :: "('p \<Rightarrow> 'i) option \<Rightarrow> ('p, 'w, 'i, 'j) appOption" where
  "WithLoginInterceptor factory o' = o'\<lparr>op_loginInterceptor := factory\<rparr>"

definition WithMemberAdmin :: "('p \<Rightarrow> 'w memberAdmin) option \<Rightarrow> ('p, 'w, 'i, 'j) appOption" where
  "WithMemberAdmin factory o' = o'\<lparr>op_memberAdmin := factory\<rparr>"

definition WithPublicHome :: "bool \<Rightarrow> ('p, 'w, 'i, 'j) appOption" where
  "WithPublicHome home o' = o'\<lparr>op_publicHome := home\<rparr>"

definition WithDocSections :: "Section list \<Rightarrow> ('p, 'w, 'i, 'j) appOption" where
  "WithDocSections sections o' = o'\<lparr>op_docSections := op_docSections o' @ sections\<rparr>"

definition WithDocHeader :: "string \<Rightarrow> ('p, 'w, 'i, 'j) appOption" where
  "WithDocHeader html o' = o'\<lparr>op_docHeader := html\<rparr>"

definition WithAccountLink :: "string \<Rightarrow> ('p, 'w, 'i, 'j) appOption" where
  "WithAccountLink href o' = o'\<lparr>op_accountHref := href\<rparr>"

lemmas option_defs = WithRoutes_def WithBackgroundJob_def WithExtraMigrations_def WithLimitProvider_def
  WithLoginInterceptor_def WithMemberAdmin_def WithPublicHome_def WithDocSections_def WithDocHeader_def WithAccountLink_def

text \<open>What the registrars mount, in registration order, each with the same context.\<close>

definition registered :: "'p RouteRegistrar list \<Rightarrow> 'p RouteContext \<Rightarrow> (string \<times> nat) list" where
  "registered routes ctx = concat (map (\<lambda>r. r ctx) routes)"

definition startBackgroundJobs :: "nat \<Rightarrow> 'j list \<Rightarrow> 'p option \<Rightarrow> ('j \<times> 'p JobContext) list" where
  "startBackgroundJobs ctx jobs pool = map (\<lambda>j. (j, \<lparr>jc_Ctx = ctx, jc_Pool = pool\<rparr>)) jobs"

text \<open>The chain of limit providers that the TTL cache wraps (buildIngestWiring).\<close>

definition limitChain :: "(limitSource \<Rightarrow> 'p \<Rightarrow> limitSource) option \<Rightarrow> 'p \<Rightarrow> limitSource" where
  "limitChain factory pool =
     (case factory of None \<Rightarrow> limitProvider_Limits | Some f \<Rightarrow> f limitProvider_Limits pool)"

section \<open>Control-plane adapters (deps.go, assemble.go)\<close>

definition keyAdmin_ListKeys :: "string \<Rightarrow> (string \<times> string \<times> string \<times> instant \<times> instant option) list dbop" where
  "keyAdmin_ListKeys orgID d =
     (case Control.ListKeys orgID d of
        (Inl e, d) \<Rightarrow> (Inl e, d)
      | (Inr ks, d) \<Rightarrow> (Inr (map (\<lambda>(kid, label, l4, created, revoked). (kid, label, l4, created, revoked)) ks), d))"

definition keyAdmin_RevokeKey :: "string \<Rightarrow> string \<Rightarrow> instant \<Rightarrow> unit dbop" where
  "keyAdmin_RevokeKey orgID keyID now d = revokeKey orgID keyID now d"

definition onboardingSource :: "string \<Rightarrow> (string \<times> string \<times> instant) list dbop" where
  "onboardingSource tenant d =
     (case onboardingState tenant d of
        (Inl e, d) \<Rightarrow> (Inl e, d)
      | (Inr got, d) \<Rightarrow> (Inr (map (\<lambda>(service, inst, at'). (service, inst, at')) got), d))"

record ('p, 'w, 'i) cpDeps =
  cd_sessKey :: string
  cd_store :: bool
  cd_interceptor :: "'i option"
  cd_memberAdmin :: "'w memberAdmin option"
  cd_pool :: "'p option"

definition resolveControlPlane ::
  "'p option \<Rightarrow> ('p, 'w, 'i, 'j) options \<Rightarrow> string \<Rightarrow> string \<Rightarrow> string option \<Rightarrow> keyError + ('p, 'w, 'i) cpDeps" where
  "resolveControlPlane store o' baseURL sessEnv random =
     (case store of
        None \<Rightarrow> Inr \<lparr>cd_sessKey = '''', cd_store = False, cd_interceptor = None, cd_memberAdmin = None, cd_pool = None\<rparr>
      | Some pool \<Rightarrow>
          (case sessionKey sessEnv (secureFromBaseURL baseURL) random of
             Inl e \<Rightarrow> Inl e
           | Inr key \<Rightarrow>
               Inr \<lparr>cd_sessKey = key, cd_store = True, cd_interceptor = map_option (\<lambda>f. f pool) (op_loginInterceptor o'),
                    cd_memberAdmin = map_option (\<lambda>f. f pool) (op_memberAdmin o'), cd_pool = Some pool\<rparr>))"

text \<open>The session readers handed to registrars; nil without an auth layer.\<close>

definition sessionOrg :: "auth option \<Rightarrow> (Session option \<Rightarrow> string option) option" where
  "sessionOrg authLayer = map_option (\<lambda>_. map_option ss_OrgID) authLayer"

definition sessionMemberID :: "auth option \<Rightarrow> (Session option \<Rightarrow> string option) option" where
  "sessionMemberID authLayer = map_option (\<lambda>_. map_option ss_MemberID) authLayer"

section \<open>Properties\<close>

text \<open>
  Options compose: registrars, jobs, migration sources and doc sections accumulate in the order given;
  every other option keeps its last setting; and options of different kinds do not touch each other.
\<close>

lemma fold_append_field:
  assumes "\<And>x o'. get (opt x o') = get o' @ f x"
  shows "get (fold (\<lambda>g. g) (map opt xs) o') = get o' @ concat (map f xs)"
  by (induction xs arbitrary: o') (simp_all add: assms)

theorem options_in_order:
  "op_routes (fold (\<lambda>g. g) (map WithRoutes rs) o') = op_routes o' @ rs \<and>
   op_jobs (fold (\<lambda>g. g) (map WithBackgroundJob js) o') = op_jobs o' @ js \<and>
   op_migrations (fold (\<lambda>g. g) (map WithExtraMigrations ms) o') = op_migrations o' @ ms \<and>
   op_docSections (fold (\<lambda>g. g) (map WithDocSections ss) o') = op_docSections o' @ concat ss \<and>
   WithDocHeader h2 (WithDocHeader h1 o') = WithDocHeader h2 o' \<and>
   WithRoutes r (WithPublicHome p o') = WithPublicHome p (WithRoutes r o')"
proof (intro conjI)
  show "op_routes (fold (\<lambda>g. g) (map WithRoutes rs) o') = op_routes o' @ rs"
    using fold_append_field [of op_routes WithRoutes "\<lambda>r. [r]"] by (simp add: WithRoutes_def)
  show "op_jobs (fold (\<lambda>g. g) (map WithBackgroundJob js) o') = op_jobs o' @ js"
    using fold_append_field [of op_jobs WithBackgroundJob "\<lambda>r. [r]"] by (simp add: WithBackgroundJob_def)
  show "op_migrations (fold (\<lambda>g. g) (map WithExtraMigrations ms) o') = op_migrations o' @ ms"
    using fold_append_field [of op_migrations WithExtraMigrations "\<lambda>r. [r]"] by (simp add: WithExtraMigrations_def)
  show "op_docSections (fold (\<lambda>g. g) (map WithDocSections ss) o') = op_docSections o' @ concat ss"
    using fold_append_field [of op_docSections WithDocSections "\<lambda>r. r"] by (simp add: WithDocSections_def)
qed (simp_all add: option_defs)

text \<open>
  The operator's usage of one tenant counts that tenant's rows only: it is the same on any two databases
  with the same rows of the tenant (and the same storage statistics). A tenant id that does not parse is
  refused before any query.
\<close>

theorem usage_scoped:
  assumes "\<And>tier. filter (\<lambda>r. row_Tenant r = tid) (cn_rows c tier) = filter (\<lambda>r. row_Tenant r = tid) (cn_rows c' tier)"
    and "cn_parts c = cn_parts c'" and "cn_ok c = cn_ok c'" and "tenant_Parse t = Some tid"
  shows "fst (buildUsageSeam c) now t = fst (buildUsageSeam c') now t \<and> fst (buildUsageSeam c) now '''' = Inl BadTenant"
proof -
  have split: "filter (\<lambda>r. row_Tenant r = tid \<and> P r) (cn_rows c tier) = filter (\<lambda>r. row_Tenant r = tid \<and> P r) (cn_rows c' tier)" for P tier
    using assms(1) [of tier] by (metis (no_types, lifting) filter_cong filter_filter)
  have "Usage c tid now = Usage c' tid now"
    unfolding Usage_def PerformanceStats_def summaryRowBytes_def using assms(2,3) split assms(1) by simp
  then show ?thesis using assms(4) by (simp add: buildUsageSeam_def tenant_Parse_def)
qed

end
