(* ===== verification/App_Lifecycle.thy ===== *)
theory App_Lifecycle
  imports App_Extensions
begin

text \<open>
  The life of a server process, src/server/app/app.go: \<open>build\<close>, which opens the writer and the control plane
  and assembles the site, and \<open>Serve\<close>, which runs it until a signal and shuts it down. What the process
  does not decide (whether ClickHouse and Postgres answer, the environment, random bytes) is the record
  \<open>infra\<close>; opening and closing is a trace of events.
\<close>

section \<open>Building the process\<close>

record 'p infra =
  in_env :: "string \<Rightarrow> string"
  in_chParse :: bool
  in_chOpen :: bool
  in_chPing :: bool
  in_schema :: bool
  in_pool :: "'p option"
  in_pgPing :: bool
  in_sql :: "string \<Rightarrow> bool"
  in_core :: migrationSource
  in_db :: db
  in_newOrgId :: string
  in_newKeyId :: string
  in_now :: instant
  in_sha :: "string \<Rightarrow> string"
  in_hmac :: "string \<Rightarrow> string \<Rightarrow> string"
  in_random :: "string option"
  in_authCodeURL :: "oauthConfig \<Rightarrow> string \<Rightarrow> string"
  in_exchange :: "oauthConfig \<Rightarrow> string \<Rightarrow> string option"
  in_userinfo :: "providerName \<Rightarrow> string \<Rightarrow> userinfoError + identity"
  in_conn :: conn
  in_frozen :: "string \<Rightarrow> bool"

datatype resourceEvent = OpenWriter | OpenPool | ClosePool | StartJobs nat

datatype bootError =
    WriterParse | WriterOpen | WriterPing | SchemaFailed
  | StorePool | StorePing | StoreMigrate | SeedFailed
  | SessionKeyError keyError | AuthError | WebError webError

text \<open>storage.NewWriter: the process owns a batcher and a connection once it returns without error.\<close>

definition NewWriter :: "'p infra \<Rightarrow> (bootError + unit) \<times> resourceEvent list" where
  "NewWriter plat =
     (if \<not> in_chParse plat then (Inl WriterParse, [])
      else if \<not> in_chOpen plat then (Inl WriterOpen, [])
      else if \<not> in_chPing plat then (Inl WriterPing, [])
      else (Inr (), [OpenWriter]))"

definition control_New :: "'p infra \<Rightarrow> migrationSource list \<Rightarrow> (bootError + 'p) \<times> resourceEvent list" where
  "control_New plat extra =
     (case in_pool plat of
        None \<Rightarrow> (Inl StorePool, [])
      | Some pool \<Rightarrow>
          if \<not> in_pgPing plat then (Inl StorePing, [OpenPool, ClosePool])
          else if \<not> snd (applyMigrations (in_sql plat) (in_core plat # extra)) then (Inl StoreMigrate, [OpenPool, ClosePool])
          else (Inr pool, [OpenPool]))"

text \<open>The resources of buildIngestWiring: the store, when there is one, and the dashboard's tenant.\<close>

definition openControlPlane :: "'p infra \<Rightarrow> migrationSource list \<Rightarrow> (bootError + 'p option \<times> string) \<times> resourceEvent list" where
  "openControlPlane plat migrations =
     (if in_env plat ''MAPING_POSTGRES_DSN'' = '''' then (Inr (None, devTenant), [])
      else (case control_New plat migrations of
              (Inl e, ev) \<Rightarrow> (Inl e, ev)
            | (Inr pool, ev) \<Rightarrow>
                (case fst (ensureDevKey (in_sha plat) devIngestKey devOrgName (in_newOrgId plat) (in_newKeyId plat) (in_now plat) (in_db plat)) of
                   Inl _ \<Rightarrow> (Inl SeedFailed, ev @ [ClosePool])
                 | Inr tenant \<Rightarrow> (Inr (Some pool, tenant), ev))))"

definition oidcConfigFromEnv :: "(string \<Rightarrow> string) \<Rightarrow> string \<Rightarrow> ProviderConfig" where
  "oidcConfigFromEnv env baseURL =
     \<lparr>pc_GitHubClientID = env ''MAPING_OIDC_GITHUB_CLIENT_ID'', pc_GitHubClientSecret = env ''MAPING_OIDC_GITHUB_CLIENT_SECRET'',
      pc_GoogleClientID = env ''MAPING_OIDC_GOOGLE_CLIENT_ID'', pc_GoogleClientSecret = env ''MAPING_OIDC_GOOGLE_CLIENT_SECRET'',
      pc_BaseURL = baseURL\<rparr>"

definition buildAuth :: "'p infra \<Rightarrow> bool \<Rightarrow> string \<Rightarrow> string \<Rightarrow> bootError + auth option" where
  "buildAuth plat store baseURL key =
     (if \<not> store then Inr None
      else (case auth_New (in_hmac plat) key (oidcConfigFromEnv (in_env plat) baseURL) devOrgName (secureFromBaseURL baseURL)
                   (in_authCodeURL plat) (in_exchange plat) (in_userinfo plat) of
              None \<Rightarrow> Inl AuthError
            | Some a \<Rightarrow> Inr (Some a)))"

record ('p, 'w, 'j) app =
  ap_auth :: "auth option"
  ap_web :: "'w webHandler"
  ap_accountHref :: string
  ap_docs :: docs_Handler
  ap_home :: bool
  ap_routes :: "(string \<times> nat) list"
  ap_mux :: "outerRoute muxEntry list"
  ap_bodyCap :: int
  ap_secure :: bool
  ap_jobs :: "('j \<times> 'p JobContext) list"
  ap_pool :: "'p option"
  ap_listen :: string

text \<open>
  \<open>assembleMux\<close> as a whole: the auth layer, the dashboard, the documentation with its in-app rendering,
  the extension routes over one context, and the jobs; \<open>Routing.assembleMux\<close> is the route table.
\<close>

definition assembleApp ::
  "'p infra \<Rightarrow> ('p, 'w, 'i, 'j) options \<Rightarrow> ('p, 'w, 'i) cpDeps \<Rightarrow> string \<Rightarrow> string \<Rightarrow> bootError + ('p, 'w, 'j) app" where
  "assembleApp plat o' cpd constTenant baseURL =
     (case buildAuth plat (cd_store cpd) baseURL (cd_sessKey cpd) of
        Inl e \<Rightarrow> Inl e
      | Inr authLayer \<Rightarrow>
          (case buildWebConfig (cd_store cpd) (cd_memberAdmin cpd) (authLayer \<noteq> None) constTenant (cd_sessKey cpd)
                  (in_hmac plat) baseURL (in_frozen plat) of
             Inl e \<Rightarrow> Inl (WebError e)
           | Inr webHandler \<Rightarrow>
               let docs = docs_NewHandler (op_docSections o') (op_docHeader o');
                   docs = (case authLayer of None \<Rightarrow> docs | Some a \<Rightarrow> EnableInApp a docs);
                   (usage, lastIngest) = buildUsageSeam (in_conn plat);
                   ctx = \<lparr>rc_Pool = cd_pool cpd, rc_Gate = authLayer, rc_SessionOrg = sessionOrg authLayer,
                          rc_SessionMemberID = sessionMemberID authLayer, rc_RenderDoc = docs, rc_Usage = usage,
                          rc_LastIngestByTenant = lastIngest\<rparr>;
                   routes = registered (op_routes o') ctx
               in Inr \<lparr>ap_auth = authLayer, ap_web = webHandler, ap_accountHref = op_accountHref o', ap_docs = docs,
                       ap_home = op_publicHome o', ap_routes = routes, ap_mux = assembleMux authLayer routes,
                       ap_bodyCap = maxBodyCeiling (in_env plat ''MAPING_MAX_BODY_BYTES''), ap_secure = secureFromBaseURL baseURL,
                       ap_jobs = startBackgroundJobs 0 (op_jobs o') (cd_pool cpd), ap_pool = cd_pool cpd,
                       ap_listen = in_env plat ''MAPING_LISTEN''\<rparr>))"

text \<open>The listener of Serve: both cleartext protocols, bounded headers and idle connections, no deadline on a whole request.\<close>

record httpServer =
  hs_Addr :: string
  hs_ReadHeaderTimeout :: duration
  hs_IdleTimeout :: duration
  hs_HTTP1 :: bool
  hs_UnencryptedHTTP2 :: bool

definition newHTTPServer :: "string \<Rightarrow> httpServer" where
  "newHTTPServer listen = \<lparr>hs_Addr = (if listen = '''' then '':8080'' else listen), hs_ReadHeaderTimeout = 10 * second,
     hs_IdleTimeout = 120 * second, hs_HTTP1 = True, hs_UnencryptedHTTP2 = True\<rparr>"

definition closeStore :: "'p option \<Rightarrow> resourceEvent list" where
  "closeStore store = (case store of None \<Rightarrow> [] | Some _ \<Rightarrow> [ClosePool])"

definition build :: "'p infra \<Rightarrow> ('p, 'w, 'i, 'j) appOption list \<Rightarrow> (bootError + ('p, 'w, 'j) app) \<times> resourceEvent list" where
  "build plat opts =
     (let o' = fold (\<lambda>f. f) opts noOptions in
      case NewWriter plat of
        (Inl e, ev) \<Rightarrow> (Inl e, ev)
      | (Inr _, ev) \<Rightarrow>
          if \<not> in_schema plat then (Inl SchemaFailed, ev)
          else case openControlPlane plat (op_migrations o') of
            (Inl e, ev2) \<Rightarrow> (Inl e, ev @ ev2)
          | (Inr (store, tenant), ev2) \<Rightarrow>
              let baseURL = in_env plat ''MAPING_BASE_URL''
              in case resolveControlPlane store o' baseURL (in_env plat ''MAPING_SESSION_KEY'') (in_random plat) of
                   Inl e \<Rightarrow> (Inl (SessionKeyError e), ev @ ev2 @ closeStore store)
                 | Inr cpd \<Rightarrow>
                     (case assembleApp plat o' cpd tenant baseURL of
                        Inl e \<Rightarrow> (Inl e, ev @ ev2 @ closeStore store)
                      | Inr app \<Rightarrow> (Inr app, ev @ ev2 @ [StartJobs (length (ap_jobs app))])))"

section \<open>What a start leaves behind\<close>

definition bootable :: "'p infra \<Rightarrow> migrationSource list \<Rightarrow> bool" where
  "bootable plat extra \<longleftrightarrow>
     in_chParse plat \<and> in_chOpen plat \<and> in_chPing plat \<and> in_schema plat \<and>
     (in_env plat ''MAPING_POSTGRES_DSN'' \<noteq> '''' \<longrightarrow>
        in_pool plat \<noteq> None \<and> in_pgPing plat \<and> snd (applyMigrations (in_sql plat) (in_core plat # extra)) \<and>
        \<not> isl (fst (ensureDevKey (in_sha plat) devIngestKey devOrgName (in_newOrgId plat) (in_newKeyId plat) (in_now plat) (in_db plat))) \<and>
        \<not> isl (sessionKey (in_env plat ''MAPING_SESSION_KEY'') (secureFromBaseURL (in_env plat ''MAPING_BASE_URL'')) (in_random plat)))"

lemma sessionKey_signer:
  assumes "\<forall>k. random = Some k \<longrightarrow> length k = 32" and "sessionKey env https random = Inr key"
  shows "newSigner key = Some key \<and> 32 \<le> length key \<and> (https \<longrightarrow> key = env)"
  using assms by (auto simp: sessionKey_def newSigner_def split: if_splits option.splits)

text \<open>With a session key that passed, the two constructors that could still fail do not.\<close>

lemma assembleApp_dev:
  "\<exists>app. assembleApp plat o' \<lparr>cd_sessKey = '''', cd_store = False, cd_interceptor = i, cd_memberAdmin = None, cd_pool = None\<rparr> tenant baseURL
     = Inr app \<and> ap_auth app = None \<and> ap_pool app = None \<and> dh_app (ap_docs app) = None \<and> wb_csrf (ap_web app) = None"
  by (simp add: assembleApp_def buildAuth_def buildWebConfig_def web_NewHandler_def newCSRF_def buildUsageSeam_def
      docs_NewHandler_def Let_def)

lemma assembleApp_control:
  assumes "newSigner key = Some key" and "32 \<le> length key" and "cd_store cpd" and "cd_sessKey cpd = key"
  shows "\<exists>app a. assembleApp plat o' cpd tenant baseURL = Inr app \<and> ap_auth app = Some a \<and> ap_pool app = cd_pool cpd \<and>
    dh_app (ap_docs app) = Some a \<and> wb_csrf (ap_web app) = Some (in_hmac plat key) \<and> au_mac a = in_hmac plat key \<and>
    (au_devLogin a \<longleftrightarrow> buildProviders (oidcConfigFromEnv (in_env plat) baseURL) = [])"
proof -
  have "key \<noteq> ''''" using assms(2) by auto
  then show ?thesis using assms
    by (simp add: assembleApp_def buildAuth_def auth_New_def buildWebConfig_def web_NewHandler_def newCSRF_def
        buildUsageSeam_def EnableInApp_def Let_def)
qed

lemma openControlPlane_cases:
  "case openControlPlane plat extra of
     (Inl e, ev) \<Rightarrow> in_env plat ''MAPING_POSTGRES_DSN'' \<noteq> '''' \<and> ev \<in> {[], [OpenPool, ClosePool]} \<and> e \<in> {StorePool, StorePing, StoreMigrate, SeedFailed}
   | (Inr (None, tenant), ev) \<Rightarrow> in_env plat ''MAPING_POSTGRES_DSN'' = '''' \<and> ev = []
   | (Inr (Some pool, tenant), ev) \<Rightarrow> in_env plat ''MAPING_POSTGRES_DSN'' \<noteq> '''' \<and> ev = [OpenPool] \<and> in_pool plat = Some pool"
  by (auto simp: openControlPlane_def control_New_def split: option.split sum.split prod.split)

lemma openControlPlane_ok:
  "\<not> isl (fst (openControlPlane plat extra)) \<longleftrightarrow>
     in_env plat ''MAPING_POSTGRES_DSN'' = '''' \<or>
     (in_pool plat \<noteq> None \<and> in_pgPing plat \<and> snd (applyMigrations (in_sql plat) (in_core plat # extra)) \<and>
      \<not> isl (fst (ensureDevKey (in_sha plat) devIngestKey devOrgName (in_newOrgId plat) (in_newKeyId plat) (in_now plat) (in_db plat))))"
  by (auto simp: openControlPlane_def control_New_def split: option.split sum.split prod.split)

lemma boot_cases:
  obtains (writer) "\<not> (in_chParse plat \<and> in_chOpen plat \<and> in_chPing plat \<and> in_schema plat)"
    | (failed) e ev where "NewWriter plat = (Inr (), [OpenWriter])" "in_schema plat" "openControlPlane plat extra = (Inl e, ev)"
    | (dev) tenant ev where "NewWriter plat = (Inr (), [OpenWriter])" "in_schema plat" "openControlPlane plat extra = (Inr (None, tenant), ev)"
    | (control) pool tenant ev where "NewWriter plat = (Inr (), [OpenWriter])" "in_schema plat" "openControlPlane plat extra = (Inr (Some pool, tenant), ev)"
proof (cases "in_chParse plat \<and> in_chOpen plat \<and> in_chPing plat \<and> in_schema plat")
  case True
  then have nw: "NewWriter plat = (Inr (), [OpenWriter])" "in_schema plat" by (simp_all add: NewWriter_def)
  show thesis
  proof (cases "fst (openControlPlane plat extra)")
    case (Inl e)
    then show thesis using that(2) [OF nw, of e "snd (openControlPlane plat extra)"] by (metis prod.collapse)
  next
    case (Inr st)
    obtain store tenant where st: "st = (store, tenant)" by fastforce
    show thesis
      using that(3) [OF nw, of tenant "snd (openControlPlane plat extra)"] that(4) [OF nw, of "the store" tenant "snd (openControlPlane plat extra)"] Inr st
      by (cases store) (metis option.sel prod.collapse)+
  qed
qed (use that(1) in blast)

text \<open>
  C14. Starting is all or nothing on the control plane: the process starts exactly when ClickHouse answers
  and takes the schema and, with a Postgres DSN, the pool opens, every migration runs, the dev key is there
  and the session key is acceptable. A failed start has closed every pool it opened and has started no job.
  A started process has its dashboard behind the auth layer exactly when there is a control plane; then the
  sessions and the form tokens are signed with one key of at least 32 bytes, on an https deployment the one
  of the environment, the documentation knows the same auth layer, and dev login is on only when no
  provider is configured.
\<close>

theorem startup_all_or_nothing:
  assumes "\<forall>k. in_random plat = Some k \<longrightarrow> length k = 32"
  shows "case build plat opts of
      (Inl e, ev) \<Rightarrow>
        \<not> bootable plat (op_migrations (fold (\<lambda>f. f) opts noOptions)) \<and>
        count_list ev OpenPool = count_list ev ClosePool \<and> (\<forall>n. StartJobs n \<notin> set ev)
    | (Inr app, ev) \<Rightarrow>
        bootable plat (op_migrations (fold (\<lambda>f. f) opts noOptions)) \<and> ClosePool \<notin> set ev \<and>
        (OpenPool \<in> set ev \<longleftrightarrow> in_env plat ''MAPING_POSTGRES_DSN'' \<noteq> '''') \<and>
        (ap_auth app = None \<longleftrightarrow> in_env plat ''MAPING_POSTGRES_DSN'' = '''') \<and> dh_app (ap_docs app) = ap_auth app \<and>
        (\<forall>a. ap_auth app = Some a \<longrightarrow>
           (\<exists>key. 32 \<le> length key \<and> au_mac a = in_hmac plat key \<and> wb_csrf (ap_web app) = Some (in_hmac plat key) \<and>
              (secureFromBaseURL (in_env plat ''MAPING_BASE_URL'') \<longrightarrow> key = in_env plat ''MAPING_SESSION_KEY'')) \<and>
           (au_devLogin a \<longrightarrow> buildProviders (oidcConfigFromEnv (in_env plat) (in_env plat ''MAPING_BASE_URL'')) = []))"
proof -
  define o' where "o' = fold (\<lambda>f. f) opts noOptions"
  let ?url = "in_env plat ''MAPING_BASE_URL''"
  let ?sk = "sessionKey (in_env plat ''MAPING_SESSION_KEY'') (secureFromBaseURL ?url) (in_random plat)"
  show ?thesis
  proof (cases rule: boot_cases [of plat _ "op_migrations o'"])
    case writer
    then show ?thesis by (auto simp: build_def NewWriter_def bootable_def)
  next
    case (failed e ev)
    have "\<not> bootable plat (op_migrations o')"
      using openControlPlane_ok [of plat "op_migrations o'"] failed(3) by (auto simp: bootable_def)
    then show ?thesis
      using openControlPlane_cases [of plat "op_migrations o'"] failed by (auto simp: build_def o'_def [symmetric])
  next
    case (dev tenant ev)
    have dsn: "in_env plat ''MAPING_POSTGRES_DSN'' = ''''" "ev = []"
      using openControlPlane_cases [of plat "op_migrations o'"] dev(3) by auto
    obtain app where app: "assembleApp plat o' \<lparr>cd_sessKey = '''', cd_store = False, cd_interceptor = None, cd_memberAdmin = None, cd_pool = None\<rparr> tenant ?url = Inr app"
      "ap_auth app = None" "dh_app (ap_docs app) = None"
      using assembleApp_dev by metis
    have "bootable plat (op_migrations o')" using dev(1,2) dsn by (auto simp: bootable_def NewWriter_def split: if_splits)
    then show ?thesis using dev dsn app by (simp add: build_def o'_def [symmetric] resolveControlPlane_def)
  next
    case (control pool tenant ev)
    have dsn: "in_env plat ''MAPING_POSTGRES_DSN'' \<noteq> ''''" "ev = [OpenPool]"
      using openControlPlane_cases [of plat "op_migrations o'"] control(3) by auto
    have boot: "bootable plat (op_migrations o') \<longleftrightarrow> \<not> isl ?sk"
      using control dsn(1) openControlPlane_ok [of plat "op_migrations o'"] by (auto simp: bootable_def NewWriter_def split: if_splits)
    show ?thesis
    proof (cases ?sk)
      case (Inl e)
      then show ?thesis using control dsn boot by (simp add: build_def o'_def [symmetric] resolveControlPlane_def closeStore_def)
    next
      case (Inr key)
      let ?cpd = "\<lparr>cd_sessKey = key, cd_store = True, cd_interceptor = map_option (\<lambda>f. f pool) (op_loginInterceptor o'),
        cd_memberAdmin = map_option (\<lambda>f. f pool) (op_memberAdmin o'), cd_pool = Some pool\<rparr>"
      note key = sessionKey_signer [OF assms Inr]
      obtain app a where "assembleApp plat o' ?cpd tenant ?url = Inr app" "ap_auth app = Some a" "dh_app (ap_docs app) = Some a"
        "wb_csrf (ap_web app) = Some (in_hmac plat key)" "au_mac a = in_hmac plat key"
        "au_devLogin a \<longleftrightarrow> buildProviders (oidcConfigFromEnv (in_env plat) ?url) = []"
        using assembleApp_control [of key ?cpd plat o' tenant ?url] key by auto
      then show ?thesis using control dsn boot Inr key
        by (auto simp: build_def o'_def [symmetric] resolveControlPlane_def)
    qed
  qed
qed

text \<open>An https deployment with a control plane, and the same one without a session key.\<close>

definition demoEnv :: "string \<Rightarrow> string \<Rightarrow> string" where
  "demoEnv key name =
     (if name = ''MAPING_POSTGRES_DSN'' then ''postgres://db''
      else if name = ''MAPING_BASE_URL'' then ''https://m.example''
      else if name = ''MAPING_SESSION_KEY'' then key else '''')"

definition demoPlat :: "string \<Rightarrow> unit infra" where
  "demoPlat key =
     \<lparr>in_env = demoEnv key, in_chParse = True, in_chOpen = True, in_chPing = True, in_schema = True, in_pool = Some (),
      in_pgPing = True, in_sql = (\<lambda>_. True), in_core = [(''0001_init.sql'', False, ''CREATE TABLE orgs'')],
      in_db = \<lparr>db_tables = demoKeyTables, db_fault = None\<rparr>, in_newOrgId = ''o9'', in_newKeyId = ''k9'', in_now = 5, in_sha = id,
      in_hmac = (\<lambda>k m. m), in_random = None, in_authCodeURL = (\<lambda>_ _. ''''), in_exchange = (\<lambda>_ _. None),
      in_userinfo = (\<lambda>_ _. Inl NoId), in_conn = \<lparr>cn_rows = (\<lambda>_. []), cn_windows = [], cn_parts = None, cn_ok = True, cn_groups = id\<rparr>,
      in_frozen = (\<lambda>_. False)\<rparr>"

lemma demo_seeded:
  "\<not> isl (fst (ensureDevKey id devIngestKey devOrgName ''o9'' ''k9'' 5 \<lparr>db_tables = demoKeyTables, db_fault = None\<rparr>))"
  by code_simp

lemma demo_bootable: "bootable (demoPlat (replicate 32 CHR ''k'')) [] \<and> \<not> bootable (demoPlat '''') []"
  using demo_seeded by (simp add: bootable_def demoPlat_def demoEnv_def migrationFiles_def hasSuffix_def sessionKey_def)

theorem startup_all_or_nothing_witness:
  "(\<exists>(app :: (unit, unit, unit) app) ev a. build (demoPlat (replicate 32 CHR ''k'')) ([] :: (unit, unit, unit, unit) appOption list) = (Inr app, ev) \<and>
      ClosePool \<notin> set ev \<and> ap_auth app = Some a \<and> dh_app (ap_docs app) = Some a) \<and>
   (\<exists>e ev. build (demoPlat '''') ([] :: (unit, unit, unit, unit) appOption list) = (Inl e, ev) \<and> count_list ev OpenPool = count_list ev ClosePool)"
proof
  let ?p = "demoPlat (replicate 32 CHR ''k'')"
  have r: "\<forall>k'. in_random (demoPlat k) = Some k' \<longrightarrow> length k' = 32" for k by (simp add: demoPlat_def)
  have dsn: "in_env ?p ''MAPING_POSTGRES_DSN'' \<noteq> ''''" by (simp add: demoPlat_def demoEnv_def)
  show "\<exists>(app :: (unit, unit, unit) app) ev a. build ?p ([] :: (unit, unit, unit, unit) appOption list) = (Inr app, ev) \<and>
      ClosePool \<notin> set ev \<and> ap_auth app = Some a \<and> dh_app (ap_docs app) = Some a"
    using startup_all_or_nothing [OF r, of "replicate 32 CHR ''k''" "[] :: (unit, unit, unit, unit) appOption list"] demo_bootable dsn
    by (auto simp: noOptions_def split: prod.splits sum.splits)
  show "\<exists>e ev. build (demoPlat '''') ([] :: (unit, unit, unit, unit) appOption list) = (Inl e, ev) \<and> count_list ev OpenPool = count_list ev ClosePool"
    using startup_all_or_nothing [OF r, of "''''" "[] :: (unit, unit, unit, unit) appOption list"] demo_bootable
    by (auto simp: noOptions_def split: prod.splits sum.splits)
qed

section \<open>Serving and shutting down (App.Serve)\<close>

text \<open>
  The process while it serves. A handler is a request in flight and is inside at most one Enqueue at a
  time, so the callers that wait in the writer are at most the handlers. \<open>lv_graceful\<close> is whether
  \<open>srv.Shutdown\<close> returned nil, \<open>lv_drained\<close> whether \<open>writer.Close\<close> did.
\<close>

datatype servePhase = Serving | Stopping | HttpDown | WriterClosing | WriterDown | StoreDown | Returned bool

record 'c live =
  lv_phase :: servePhase
  lv_ready :: bool
  lv_accepting :: bool
  lv_handlers :: nat
  lv_writer :: "'c writer"
  lv_pool :: bool
  lv_jobs :: bool
  lv_graceful :: bool
  lv_drained :: bool

definition waiters :: "'c writer \<Rightarrow> nat" where
  "waiters w = length (st_waiting (wr_rows w)) + length (st_waiting (wr_iw w))"

definition started :: "'c \<Rightarrow> writerConfig \<Rightarrow> 'c live" where
  "started conn cfg = \<lparr>lv_phase = Serving, lv_ready = True, lv_accepting = True, lv_handlers = 0,
     lv_writer = newWriterWithConn conn cfg, lv_pool = True, lv_jobs = True, lv_graceful = False, lv_drained = False\<rparr>"

text \<open>
  The main goroutine takes the steps of Serve in order; the listener, the handlers and the batcher go on
  beside it. \<open>srv.Shutdown\<close> first closes the listener, then returns nil once no request is in flight, or an
  error when the 15 seconds are over; the error is logged and the shutdown goes on. The deferred
  \<open>cancelBg\<close> runs when Serve returns.
\<close>

inductive serve_step :: "'c driver \<Rightarrow> 'c live \<Rightarrow> 'c live \<Rightarrow> bool" for drv where
  accept: "lv_accepting l \<Longrightarrow> serve_step drv l (l\<lparr>lv_handlers := Suc (lv_handlers l)\<rparr>)"
| enqueue: "wstep drv (lv_writer l) w \<Longrightarrow> wr_closed w = wr_closed (lv_writer l) \<Longrightarrow> waiters w \<le> lv_handlers l \<Longrightarrow>
    serve_step drv l (l\<lparr>lv_writer := w\<rparr>)"
| answer: "waiters (lv_writer l) < lv_handlers l \<Longrightarrow> serve_step drv l (l\<lparr>lv_handlers := lv_handlers l - 1\<rparr>)"
| listen_failed: "lv_phase l = Serving \<Longrightarrow>
    serve_step drv l (l\<lparr>lv_phase := Returned False, lv_accepting := False, lv_jobs := False\<rparr>)"
| signal: "lv_phase l = Serving \<Longrightarrow> serve_step drv l (l\<lparr>lv_phase := Stopping, lv_ready := False\<rparr>)"
| stop_listening: "lv_phase l = Stopping \<Longrightarrow> serve_step drv l (l\<lparr>lv_accepting := False\<rparr>)"
| shutdown_done: "lv_phase l = Stopping \<Longrightarrow> \<not> lv_accepting l \<Longrightarrow> lv_handlers l = 0 \<Longrightarrow>
    serve_step drv l (l\<lparr>lv_phase := HttpDown, lv_graceful := True\<rparr>)"
| shutdown_timeout: "lv_phase l = Stopping \<Longrightarrow> \<not> lv_accepting l \<Longrightarrow> serve_step drv l (l\<lparr>lv_phase := HttpDown\<rparr>)"
| close_writer: "lv_phase l = HttpDown \<Longrightarrow>
    serve_step drv l (l\<lparr>lv_phase := WriterClosing, lv_writer := (lv_writer l)\<lparr>wr_closed := True\<rparr>\<rparr>)"
| writer_done: "lv_phase l = WriterClosing \<Longrightarrow> wr_phase (lv_writer l) = Done \<Longrightarrow>
    serve_step drv l (l\<lparr>lv_phase := WriterDown, lv_drained := True\<rparr>)"
| writer_timeout: "lv_phase l = WriterClosing \<Longrightarrow> serve_step drv l (l\<lparr>lv_phase := WriterDown\<rparr>)"
| close_store: "lv_phase l = WriterDown \<Longrightarrow> serve_step drv l (l\<lparr>lv_phase := StoreDown, lv_pool := False\<rparr>)"
| return: "lv_phase l = StoreDown \<Longrightarrow> serve_step drv l (l\<lparr>lv_phase := Returned True, lv_jobs := False\<rparr>)"

inductive serve_reach :: "'c driver \<Rightarrow> 'c live \<Rightarrow> 'c live \<Rightarrow> bool" for drv l where
  serve_refl: "serve_reach drv l l"
| serve_next: "serve_reach drv l l' \<Longrightarrow> serve_step drv l' l'' \<Longrightarrow> serve_reach drv l l''"

inductive_cases serve_stepE: "serve_step drv l l'"

text \<open>The writer of a process only takes steps of the writer, so its invariants carry over.\<close>

lemma serve_writer:
  "serve_step drv l l' \<Longrightarrow> wreach drv (lv_writer l) (lv_writer l')"
  by (induction rule: serve_step.induct) (auto intro: wreach.intros wstep.close)

lemma serve_reach_writer: "serve_reach drv l l' \<Longrightarrow> wreach drv (lv_writer l) (lv_writer l')"
  by (induction rule: serve_reach.induct) (auto intro: wreach_refl wreach_trans dest: serve_writer)

text \<open>What holds between the phase and the rest of the process.\<close>

definition live_ok :: "'c live \<Rightarrow> bool" where
  "live_ok l \<longleftrightarrow>
     (lv_phase l \<notin> {Serving, Returned False} \<longrightarrow> \<not> lv_ready l) \<and>
     (lv_phase l \<notin> {Serving, Stopping} \<longrightarrow> \<not> lv_accepting l) \<and>
     (lv_graceful l \<longrightarrow> lv_handlers l = 0 \<and> \<not> lv_accepting l) \<and>
     (lv_graceful l \<longrightarrow> lv_phase l \<notin> {Serving, Stopping, Returned False}) \<and>
     (lv_phase l \<in> {WriterClosing, WriterDown, StoreDown, Returned True} \<longleftrightarrow> wr_closed (lv_writer l)) \<and>
     (lv_drained l \<longrightarrow> wr_phase (lv_writer l) = Done \<and> lv_phase l \<in> {WriterDown, StoreDown, Returned True}) \<and>
     (lv_phase l \<in> {StoreDown, Returned True} \<longleftrightarrow> \<not> lv_pool l) \<and>
     (lv_jobs l \<longleftrightarrow> lv_phase l \<notin> {Returned True, Returned False}) \<and>
     waiters (lv_writer l) \<le> lv_handlers l"

lemma live_ok_step: "serve_step drv l l' \<Longrightarrow> live_ok l \<Longrightarrow> live_ok l'"
proof (induction rule: serve_step.induct)
  case (enqueue l w)
  have "lv_drained l \<longrightarrow> wr_phase w = Done" using done_step [OF enqueue(1)] enqueue(4) by (simp add: live_ok_def)
  then show ?case using enqueue(2-) unfolding live_ok_def by (simp, blast)
next
  case (accept l)
  then show ?case by (simp add: live_ok_def) linarith
next
  case (answer l)
  then have "\<not> lv_graceful l" by (simp add: live_ok_def)
  moreover have "waiters (lv_writer l) \<le> lv_handlers l - 1" using answer(1) by simp
  ultimately show ?case using answer(2) unfolding live_ok_def by (simp, blast)
qed (simp_all add: live_ok_def waiters_def)

lemma live_ok_reach: "serve_reach drv l l' \<Longrightarrow> live_ok l \<Longrightarrow> live_ok l'"
  by (induction rule: serve_reach.induct) (auto dest: live_ok_step)

lemma live_ok_started: "live_ok (started conn cfg)"
  by (simp add: live_ok_def started_def waiters_def newWriterWithConn_def emptyStream_def)

lemma started_writer [simp]: "lv_writer (started conn cfg) = newWriterWithConn conn cfg"
  by (simp add: started_def)

text \<open>After a graceful stop no caller is left in the writer, and none comes back.\<close>

definition settled :: "'c live \<Rightarrow> bool" where
  "settled l \<longleftrightarrow> live_ok l \<and> writer_ok (lv_writer l) \<and> lv_graceful l \<and> (wr_closed (lv_writer l) \<longrightarrow> quiescent (lv_writer l))"

lemma settled_step:
  assumes "serve_step drv l l'" and "settled l"
  shows "settled l'"
  using assms
proof (induction rule: serve_step.induct)
  case (enqueue l w)
  show ?case
    using enqueue live_ok_step [OF serve_step.enqueue [OF enqueue(1-3)]] quiescent_step [OF enqueue(1)] writer_ok_step [OF enqueue(1)]
    by (simp add: settled_def)
next
  case (close_writer l)
  then show ?case by (auto simp: settled_def live_ok_def waiters_def quiescent_def writer_ok_def)
qed (auto simp: settled_def live_ok_def waiters_def)

lemma live_ok_http: "live_ok l \<Longrightarrow> lv_phase l = HttpDown \<Longrightarrow> \<not> wr_closed (lv_writer l)"
  by (simp add: live_ok_def)

lemma graceful_settled:
  assumes "serve_reach drv (started conn cfg) l"
  shows "lv_graceful l \<longrightarrow> settled l"
  using assms
proof (induction rule: serve_reach.induct)
  case serve_refl
  then show ?case by (simp add: started_def)
next
  case (serve_next l' l'')
  have r: "serve_reach drv (started conn cfg) l''" by (rule serve_reach.serve_next [OF serve_next(1,2)])
  have ok: "live_ok l''" "writer_ok (lv_writer l'')"
    using live_ok_reach [OF r live_ok_started] writer_ok_reach [OF serve_reach_writer [OF r, unfolded started_writer] writer_ok_new] .
  show ?case
  proof (cases "lv_graceful l'")
    case True
    then show ?thesis using settled_step [OF serve_next(2)] serve_next(3) by blast
  next
    case False
    then have "lv_graceful l'' \<longrightarrow> lv_phase l'' = HttpDown"
      using serve_next(2) by - (erule serve_stepE; simp)
    moreover have "lv_phase l'' = HttpDown \<longrightarrow> \<not> wr_closed (lv_writer l'')" using live_ok_http [OF ok(1)] by blast
    ultimately show ?thesis using ok unfolding settled_def by blast
  qed
qed

lemma serve_reach_trans: "serve_reach drv l' l'' \<Longrightarrow> serve_reach drv l l' \<Longrightarrow> serve_reach drv l l''"
  by (induction rule: serve_reach.induct) (auto intro: serve_reach.intros)

lemma settled_reach: "serve_reach drv l l' \<Longrightarrow> settled l \<Longrightarrow> settled l'"
  by (induction rule: serve_reach.induct) (auto intro: settled_step)

lemma idle_step:
  "wstep drv w w' \<Longrightarrow> waiters w = 0 \<Longrightarrow> waiters w' = 0 \<Longrightarrow>
   st_acked (wr_rows w') = st_acked (wr_rows w) \<and> st_acked (wr_iw w') = st_acked (wr_iw w)"
  by (induction rule: wstep.induct) (auto simp: waiters_def enter_def batcher_tick_def batcher_final_def)

lemma settled_idle:
  assumes "settled l"
  shows "lv_handlers l = 0 \<and> waiters (lv_writer l) = 0"
proof -
  have "lv_handlers l = 0" "waiters (lv_writer l) \<le> lv_handlers l" using assms unfolding settled_def live_ok_def by blast+
  then show ?thesis by simp
qed

lemma settled_acked:
  assumes "serve_step drv l l'" and "settled l"
  shows "st_acked (wr_rows (lv_writer l')) = st_acked (wr_rows (lv_writer l)) \<and>
    st_acked (wr_iw (lv_writer l')) = st_acked (wr_iw (lv_writer l))"
  using assms
proof (induction rule: serve_step.induct)
  case (enqueue l w)
  then show ?case using idle_step [OF enqueue(1)] settled_idle [OF enqueue(4)] by simp
qed auto

lemma settled_acked_reach:
  assumes "serve_reach drv l l'" and "settled l"
  shows "st_acked (wr_rows (lv_writer l')) = st_acked (wr_rows (lv_writer l)) \<and>
    st_acked (wr_iw (lv_writer l')) = st_acked (wr_iw (lv_writer l))"
  using assms
proof (induction rule: serve_reach.induct)
  case (serve_next l' l'')
  then show ?case using settled_acked [OF serve_next(2) settled_reach [OF serve_next(1)]] by simp
qed simp

text \<open>The batcher runs on beside Serve, which is where the final drain happens.\<close>

lemma serve_batcher:
  assumes "wreach drv (lv_writer l) w" and "settled l" and "wr_closed (lv_writer l)"
  shows "serve_reach drv l (l\<lparr>lv_writer := w\<rparr>)"
  using assms(1)
proof (induction rule: wreach.induct)
  case wreach_refl
  then show ?case by (simp add: serve_refl)
next
  case (wreach_step w' w'')
  have q: "quiescent w''" "quiescent w'"
    using quiescent_reach [OF wreach.wreach_step [OF wreach_step(1,2)]] quiescent_reach [OF wreach_step(1)] assms(2,3)
    by (auto simp: settled_def)
  have "serve_step drv (l\<lparr>lv_writer := w'\<rparr>) ((l\<lparr>lv_writer := w'\<rparr>)\<lparr>lv_writer := w''\<rparr>)"
    using wreach_step(2) q by (intro serve_step.enqueue) (auto simp: quiescent_def waiters_def)
  then show ?case using serve_next [OF wreach_step(3)] by simp
qed

lemma graceful_return:
  assumes "settled l" and "lv_phase l = HttpDown"
  shows "\<exists>l'. serve_reach drv l l' \<and> lv_phase l' = Returned True \<and> lv_drained l'"
proof -
  define l1 where "l1 = l\<lparr>lv_phase := WriterClosing, lv_writer := (lv_writer l)\<lparr>wr_closed := True\<rparr>\<rparr>"
  have s1: "serve_step drv l l1" unfolding l1_def by (rule serve_step.close_writer [OF assms(2)])
  have set1: "settled l1" by (rule settled_step [OF s1 assms(1)])
  let ?w = "(lv_writer l1)\<lparr>wr_phase := Draining\<rparr>"
  have "wr_phase (lv_writer l1) = Running"
    using assms by (auto simp: l1_def settled_def writer_ok_def live_ok_def)
  then have "wreach drv (lv_writer l1) ?w"
    by (intro wreach_step [OF wreach_refl] wstep.run_closed) (simp_all add: l1_def)
  then have reach: "wreach drv (lv_writer l1) (drain drv ?w)" and d: "wr_phase (drain drv ?w) = Done"
    using drain_reaches [of ?w drv] wreach_trans by auto
  define l2 where "l2 = l1\<lparr>lv_writer := drain drv ?w\<rparr>"
  define l3 where "l3 = l2\<lparr>lv_phase := WriterDown, lv_drained := True\<rparr>"
  define l4 where "l4 = l3\<lparr>lv_phase := StoreDown, lv_pool := False\<rparr>"
  define l5 where "l5 = l4\<lparr>lv_phase := Returned True, lv_jobs := False\<rparr>"
  have "serve_reach drv l1 l2" unfolding l2_def
    by (rule serve_batcher [OF reach set1]) (simp add: l1_def)
  moreover have "serve_step drv l2 l3" unfolding l3_def using d by (intro serve_step.writer_done) (simp_all add: l2_def l1_def)
  moreover have "serve_step drv l3 l4" unfolding l4_def by (rule serve_step.close_store) (simp add: l3_def)
  moreover have "serve_step drv l4 l5" unfolding l5_def by (rule serve_step.return) (simp add: l4_def)
  moreover have "serve_reach drv l l1" by (rule serve_next [OF serve_refl s1])
  ultimately have "serve_reach drv l l5" by (meson serve_next serve_reach_trans)
  then show ?thesis by (auto simp: l5_def l4_def l3_def)
qed


text \<open>One request, its row acknowledged, then a signal: the row is in the table when Serve returns.\<close>

definition demoLive :: "memConn live" where
  "demoLive = (started (memConn0 0) \<lparr>wc_DSN = '''', wc_FlushInterval = 0, wc_FlushRows = 2, wc_InsertTimeout = 0\<rparr>)
     \<lparr>lv_writer := demoSent 0, lv_phase := HttpDown, lv_ready := False, lv_accepting := False, lv_graceful := True\<rparr>"

lemma demoLive_reach:
  "serve_reach memDriver (started (memConn0 0) \<lparr>wc_DSN = '''', wc_FlushInterval = 0, wc_FlushRows = 2, wc_InsertTimeout = 0\<rparr>) demoLive"
proof -
  let ?r = "demoRow [] []"
  define l0 where "l0 = started (memConn0 0) \<lparr>wc_DSN = '''', wc_FlushInterval = 0, wc_FlushRows = 2, wc_InsertTimeout = 0\<rparr>"
  define l1 where "l1 = l0\<lparr>lv_handlers := 1\<rparr>"
  define l2 where "l2 = l1\<lparr>lv_writer := (demoWriter 0)\<lparr>wr_rows := enter ?r emptyStream\<rparr>\<rparr>"
  define l3 where "l3 = l2\<lparr>lv_writer := demoSent 0\<rparr>"
  define l4 where "l4 = l3\<lparr>lv_handlers := 0\<rparr>"
  define l5 where "l5 = l4\<lparr>lv_phase := Stopping, lv_ready := False\<rparr>"
  define l6 where "l6 = l5\<lparr>lv_accepting := False\<rparr>"
  note fields = l0_def l1_def l2_def l3_def l4_def l5_def l6_def demoWriter_def [symmetric] demoSent_def started_def
  have w0: "lv_writer l0 = demoWriter 0" by (simp add: l0_def demoWriter_def)
  have "serve_step memDriver l0 (l0\<lparr>lv_handlers := Suc (lv_handlers l0)\<rparr>)" by (rule serve_step.accept) (simp add: fields)
  then have "serve_step memDriver l0 l1" by (simp add: l1_def l0_def started_def)
  moreover have "wstep memDriver (demoWriter 0) ((demoWriter 0)\<lparr>wr_rows := enter ?r (wr_rows (demoWriter 0))\<rparr>)"
    by (rule wstep.enter_row) (simp add: enqueueCheck_def tenant_IsZero_def demoRow_def NewRow_def)
  then have "serve_step memDriver l1 l2" unfolding l2_def
    by (intro serve_step.enqueue) (simp_all add: w0 waiters_def enter_def emptyStream_def l1_def)
  moreover have "wstep memDriver (lv_writer l2) ((lv_writer l2)\<lparr>wr_rows := send ?r (wr_rows (lv_writer l2))\<rparr>)"
    by (rule wstep.send_row) (simp_all add: l2_def enter_def emptyStream_def)
  then have "serve_step memDriver l2 l3" unfolding l3_def
    by (intro serve_step.enqueue) (simp_all add: l2_def l1_def demoSent_def waiters_def enter_def send_def emptyStream_def)
  moreover have "serve_step memDriver l3 (l3\<lparr>lv_handlers := lv_handlers l3 - 1\<rparr>)"
    by (rule serve_step.answer) (simp add: l3_def l2_def l1_def demoSent_def waiters_def enter_def send_def emptyStream_def)
  then have "serve_step memDriver l3 l4" by (simp add: l4_def l3_def l2_def l1_def)
  moreover have "serve_step memDriver l4 l5" unfolding l5_def by (rule serve_step.signal) (simp add: fields)
  moreover have "serve_step memDriver l5 l6" unfolding l6_def by (rule serve_step.stop_listening) (simp add: l5_def)
  moreover have "serve_step memDriver l6 (l6\<lparr>lv_phase := HttpDown, lv_graceful := True\<rparr>)"
    by (rule serve_step.shutdown_done) (simp_all add: l6_def l5_def l4_def)
  moreover have "l6\<lparr>lv_phase := HttpDown, lv_graceful := True\<rparr> = demoLive"
    by (simp add: demoLive_def l6_def l5_def l4_def l3_def l2_def l1_def l0_def started_def)
  ultimately show ?thesis unfolding l0_def [symmetric] by (metis serve_refl serve_next)
qed


text \<open>
  Background jobs outlive the pool: in every run that ends by a signal the pool is closed while the jobs'
  context is still live, since the deferred cancel runs last; the comments of startBackgroundJobs and
  assembleMux say the jobs exit before. A listener that fails returns at once, with the pool open and the
  writer not drained.
\<close>

theorem jobs_outlive_pool:
  assumes "serve_reach drv (started conn cfg) l"
  shows "(lv_phase l = StoreDown \<longrightarrow> \<not> lv_pool l \<and> lv_jobs l) \<and>
    (\<not> lv_jobs l \<longrightarrow> lv_phase l = Returned True \<and> \<not> lv_pool l \<or> lv_phase l = Returned False \<and> lv_pool l \<and> \<not> wr_closed (lv_writer l))"
proof -
  have "lv_phase l \<in> {StoreDown, Returned True} \<longleftrightarrow> \<not> lv_pool l" "lv_jobs l \<longleftrightarrow> lv_phase l \<notin> {Returned True, Returned False}"
    "lv_phase l \<in> {WriterClosing, WriterDown, StoreDown, Returned True} \<longleftrightarrow> wr_closed (lv_writer l)"
    using live_ok_reach [OF assms live_ok_started] unfolding live_ok_def by blast+
  then show ?thesis by auto
qed

section \<open>The command (cmd/maping-server/main.go, version.go)\<close>

text \<open>\<open>ver\<close> and \<open>commit\<close> are the values the linker may stamp, ``dev'' and ``none'' without a stamp.\<close>

definition version_String :: "string \<Rightarrow> string \<Rightarrow> string" where
  "version_String ver commit = ''maping-server '' @ ver @ '' ('' @ commit @ '')''"

definition wantsVersion :: "string list \<Rightarrow> bool" where
  "wantsVersion args \<longleftrightarrow> length args > 1 \<and> (args ! 1 = ''--version'' \<or> args ! 1 = ''-version'')"

text \<open>\<open>Run\<close> returns: nil is \<open>True\<close>.\<close>

inductive Run :: "'c driver \<Rightarrow> 'p infra \<Rightarrow> ('p, 'w, 'i, 'j) appOption list \<Rightarrow> 'c \<Rightarrow> writerConfig \<Rightarrow> bool \<Rightarrow> bool" for drv plat opts conn cfg where
  run_failed: "fst (build plat opts) = Inl e \<Longrightarrow> Run drv plat opts conn cfg False"
| run_served: "fst (build plat opts) = Inr app \<Longrightarrow> serve_reach drv (started conn cfg) l \<Longrightarrow> lv_phase l = Returned ok \<Longrightarrow>
    Run drv plat opts conn cfg ok"

datatype processEnd = Printed string | ExitStatus nat

inductive main_ends ::
  "string list \<Rightarrow> string \<Rightarrow> string \<Rightarrow> 'c driver \<Rightarrow> 'p infra \<Rightarrow> ('p, 'w, 'i, 'j) appOption list \<Rightarrow> 'c \<Rightarrow> writerConfig \<Rightarrow> processEnd \<Rightarrow> bool"
  for args ver commit drv plat opts conn cfg where
  asked_version: "wantsVersion args \<Longrightarrow> main_ends args ver commit drv plat opts conn cfg (Printed (version_String ver commit))"
| served_site: "\<not> wantsVersion args \<Longrightarrow> Run drv plat opts conn cfg ok \<Longrightarrow>
    main_ends args ver commit drv plat opts conn cfg (ExitStatus (if ok then 0 else 1))"

inductive_cases RunE: "Run drv plat opts conn cfg ok"
inductive_cases main_endsE: "main_ends args ver commit drv plat opts conn cfg (ExitStatus n)"

text \<open>
  The exit status tells an orderly end: with status 0 the server had been built, the writer is closed and the
  control-plane pool too, and the probe answers that it is shutting down; with any other status the start had
  failed or the listener did, and then the pool of the running server was still open.
\<close>

theorem exit_status_meaning:
  assumes "main_ends args ver commit drv plat opts conn cfg (ExitStatus n)"
  shows "(\<exists>app l. fst (build plat opts) = Inr app \<and> serve_reach drv (started conn cfg) l \<and>
      (if n = 0 then wr_closed (lv_writer l) \<and> \<not> lv_pool l \<and> \<not> lv_ready l else lv_pool l \<and> \<not> wr_closed (lv_writer l))) \<or>
    n = 1 \<and> isl (fst (build plat opts))"
proof -
  obtain ok where ok: "Run drv plat opts conn cfg ok" "n = (if ok then 0 else 1)" using assms by (rule main_endsE) auto
  from ok(1) show ?thesis
  proof (rule RunE)
    fix e assume "\<not> ok" "fst (build plat opts) = Inl e"
    then show ?thesis using ok(2) by simp
  next
    fix app l assume l: "fst (build plat opts) = Inr app" "serve_reach drv (started conn cfg) l" "lv_phase l = Returned ok"
    have "lv_phase l \<in> {StoreDown, Returned True} \<longleftrightarrow> \<not> lv_pool l" "lv_phase l \<notin> {Serving, Returned False} \<longrightarrow> \<not> lv_ready l"
      "lv_phase l \<in> {WriterClosing, WriterDown, StoreDown, Returned True} \<longleftrightarrow> wr_closed (lv_writer l)"
      using live_ok_reach [OF l(2) live_ok_started] unfolding live_ok_def by blast+
    then show ?thesis using l ok(2) by (cases ok) auto
  qed
qed

end
