(* ===== verification/Client_Config.thy ===== *)
theory Client_Config
  imports Recorder Token Go_Strconv Go_Url
begin

text \<open>
  The configuration of the client, src/client/config.go: code options, environment variables and defaults
  with their precedence, the endpoint that an ingest key may carry, and the derived identity. The
  environment is a function \<open>env\<close>, with the empty string for an unset variable; an option is a function
  on \<open>Config\<close>. What the runtime knows (the name of the binary, the host name, the build settings) is the
  record \<open>host\<close>.
\<close>

record host =
  ho_argv0Base :: string
  ho_hostname :: "string option"
  ho_buildSettings :: "(string \<times> string) list option"

definition defaultEndpoint :: string where
  "defaultEndpoint = ''https://www.mapi-ng.com''"

definition defaultFlushWindow :: duration where
  "defaultFlushWindow = 10 * second"

section \<open>Options\<close>

type_synonym Option = "Config \<Rightarrow> Config"

definition WithKey :: "string \<Rightarrow> Option" where "WithKey key c = c\<lparr>c_Key := key\<rparr>"
definition WithEndpoint :: "string \<Rightarrow> Option" where "WithEndpoint endpoint c = c\<lparr>c_Endpoint := endpoint\<rparr>"
definition WithService :: "string \<Rightarrow> Option" where "WithService service c = c\<lparr>c_Service := service\<rparr>"
definition WithInstance :: "string \<Rightarrow> Option" where "WithInstance inst c = c\<lparr>c_Instance := inst\<rparr>"
definition WithFlushWindow :: "duration \<Rightarrow> Option" where "WithFlushWindow d c = c\<lparr>c_FlushWindow := d\<rparr>"
definition WithDeployVersion :: "string \<Rightarrow> Option" where "WithDeployVersion v c = c\<lparr>c_DeployVersion := v\<rparr>"
definition WithDeployID :: "string \<Rightarrow> Option" where "WithDeployID i c = c\<lparr>c_DeployID := i\<rparr>"
definition WithEnvironment :: "string \<Rightarrow> Option" where "WithEnvironment e c = c\<lparr>c_Environment := e\<rparr>"
definition WithRegion :: "string \<Rightarrow> Option" where "WithRegion r c = c\<lparr>c_Region := r\<rparr>"

section \<open>Derived values\<close>

fun firstNonEmpty :: "string list \<Rightarrow> string" where
  "firstNonEmpty [] = ''''"
| "firstNonEmpty (v # vs) = (if v \<noteq> '''' then v else firstNonEmpty vs)"

definition deriveService :: "(string \<Rightarrow> string) \<Rightarrow> host \<Rightarrow> string" where
  "deriveService env ho = firstNonEmpty [env ''MAPING_SERVICE'', env ''OTEL_SERVICE_NAME'', ho_argv0Base ho]"

definition deriveInstance :: "(string \<Rightarrow> string) \<Rightarrow> host \<Rightarrow> string" where
  "deriveInstance env ho =
     (let v = firstNonEmpty [env ''MAPING_INSTANCE'', env ''HOSTNAME'']
      in if v \<noteq> '''' then v else case ho_hostname ho of Some h \<Rightarrow> h | None \<Rightarrow> ''unknown'')"

definition vcsRevision :: "host \<Rightarrow> string" where
  "vcsRevision ho =
     (case ho_buildSettings ho of
        None \<Rightarrow> ''''
      | Some settings \<Rightarrow> (case find (\<lambda>(k, v). k = ''vcs.revision'') settings of None \<Rightarrow> '''' | Some (_, v) \<Rightarrow> v))"

definition deriveDeployID :: "(string \<Rightarrow> string) \<Rightarrow> host \<Rightarrow> string" where
  "deriveDeployID env ho = (if env ''MAPING_DEPLOY_ID'' \<noteq> '''' then env ''MAPING_DEPLOY_ID'' else vcsRevision ho)"

text \<open>The product of the parsed seconds and a second is an int64 product, which wraps.\<close>

definition deriveFlushWindow :: "(string \<Rightarrow> string) \<Rightarrow> duration" where
  "deriveFlushWindow env =
     (let raw = env ''MAPING_FLUSH_SECONDS''
      in if raw = '''' then defaultFlushWindow
         else (case parseInt64 raw of
                 None \<Rightarrow> defaultFlushWindow
               | Some secs \<Rightarrow> if secs \<le> 0 then defaultFlushWindow else wrap64 (secs * second)))"

section \<open>The endpoint\<close>

definition registrableDomain :: "(string \<Rightarrow> string option) \<Rightarrow> string \<Rightarrow> string" where
  "registrableDomain ipHost endpoint =
     (case urlParse ipHost endpoint of
        None \<Rightarrow> ''''
      | Some (_, h) \<Rightarrow>
          let labels = splitByte (CHR ''.'') (hostname h)
          in if length labels < 2 then hostname h else joinWith ''.'' (drop (length labels - 2) labels))"

definition trustedKeyOriginDomain :: "(string \<Rightarrow> string option) \<Rightarrow> string" where
  "trustedKeyOriginDomain ipHost = registrableDomain ipHost defaultEndpoint"

definition validOrigin :: "(string \<Rightarrow> string option) \<Rightarrow> string \<Rightarrow> bool" where
  "validOrigin ipHost origin \<longleftrightarrow>
     origin \<noteq> '''' \<and>
     (case urlParse ipHost origin of None \<Rightarrow> False | Some (scheme, h) \<Rightarrow> (scheme = ''http'' \<or> scheme = ''https'') \<and> h \<noteq> '''')"

definition trustAnyOrigin :: "(string \<Rightarrow> string) \<Rightarrow> bool" where
  "trustAnyOrigin env \<longleftrightarrow> lower (trimSpace (env ''MAPING_TRUST_KEY_ORIGIN'')) \<in> {''1'', ''true'', ''yes''}"

definition originIsTrusted :: "(string \<Rightarrow> string option) \<Rightarrow> (string \<Rightarrow> string) \<Rightarrow> string \<Rightarrow> bool" where
  "originIsTrusted ipHost env origin \<longleftrightarrow>
     trustAnyOrigin env \<or>
     (case urlParse ipHost origin of
        None \<Rightarrow> False
      | Some (_, h) \<Rightarrow> hostname h = trustedKeyOriginDomain ipHost \<or> hasSuffix (hostname h) (''.'' @ trustedKeyOriginDomain ipHost))"

definition resolveEndpoint :: "(string \<Rightarrow> string option) \<Rightarrow> (string \<Rightarrow> string) \<Rightarrow> string \<Rightarrow> string \<Rightarrow> string \<Rightarrow> string" where
  "resolveEndpoint ipHost env optEndpoint envEndpoint key =
     (if optEndpoint \<noteq> '''' then optEndpoint
      else if envEndpoint \<noteq> '''' then envEndpoint
      else (case Decode key of
              Some (origin, _) \<Rightarrow> if validOrigin ipHost origin \<and> originIsTrusted ipHost env origin then origin else defaultEndpoint
            | None \<Rightarrow> defaultEndpoint))"

section \<open>Resolution\<close>

definition zeroConfig :: Config where
  "zeroConfig = \<lparr>c_Key = '''', c_Endpoint = '''', c_Service = '''', c_Instance = '''', c_FlushWindow = 0, c_DeployVersion = '''',
     c_DeployID = '''', c_Environment = '''', c_Region = ''''\<rparr>"

definition orElse :: "string \<Rightarrow> string \<Rightarrow> string" where
  "orElse v d = (if v \<noteq> '''' then v else d)"

definition resolveConfig :: "(string \<Rightarrow> string option) \<Rightarrow> (string \<Rightarrow> string) \<Rightarrow> host \<Rightarrow> Option list \<Rightarrow> Config" where
  "resolveConfig ipHost env ho opts =
     (let ov = fold (\<lambda>opt c. opt c) opts zeroConfig;
          key = orElse (c_Key ov) (env ''MAPING_KEY'')
      in \<lparr>c_Key = key,
          c_Endpoint = resolveEndpoint ipHost env (c_Endpoint ov) (env ''MAPING_ENDPOINT'') key,
          c_Service = orElse (c_Service ov) (deriveService env ho),
          c_Instance = orElse (c_Instance ov) (deriveInstance env ho),
          c_FlushWindow = (if c_FlushWindow ov > 0 then c_FlushWindow ov else deriveFlushWindow env),
          c_DeployVersion = orElse (c_DeployVersion ov) (env ''MAPING_DEPLOY_VERSION''),
          c_DeployID = orElse (c_DeployID ov) (deriveDeployID env ho),
          c_Environment = orElse (c_Environment ov) (env ''MAPING_ENVIRONMENT''),
          c_Region = orElse (c_Region ov) (env ''MAPING_REGION'')\<rparr>)"

section \<open>The trusted domain\<close>

lemma hexVal_hex: "isHex c \<Longrightarrow> hexVal c < 16"
  by (auto simp: isHex_def hexVal_def)

lemma default_endpoint_parses: "urlParse ipHost defaultEndpoint = Some (''https'', ''www.mapi-ng.com'')"
  unfolding urlParse_def defaultEndpoint_def parseAuthority_def parseHost_def
  by (simp add: cutByte_def isCTL_def isLetter_def hasPrefix_def lastIndexByte_def hostByteOk_def lower_def isDigitChar_def)

lemma trustedDomain_value: "trustedKeyOriginDomain ipHost = ''mapi-ng.com''"
  by (simp add: default_endpoint_parses trustedKeyOriginDomain_def registrableDomain_def hostname_def lastIndexByte_def hasPrefix_def joinWith.simps)

text \<open>
  C27. A key cannot redirect telemetry: unless the operator set an endpoint or opted in, the endpoint is
  the default one or an http or https origin carried by the key whose host is mapi-ng.com or one of its
  subdomains; an endpoint set by the operator is used as it is, the option before the variable.
\<close>

theorem key_origin_trusted:
  "let c = resolveConfig ipHost env ho opts; ov = fold (\<lambda>opt c. opt c) opts zeroConfig in
   (c_Endpoint ov \<noteq> '''' \<longrightarrow> c_Endpoint c = c_Endpoint ov) \<and>
   (c_Endpoint ov = '''' \<and> env ''MAPING_ENDPOINT'' \<noteq> '''' \<longrightarrow> c_Endpoint c = env ''MAPING_ENDPOINT'') \<and>
   (c_Endpoint ov = '''' \<and> env ''MAPING_ENDPOINT'' = '''' \<and> \<not> trustAnyOrigin env \<longrightarrow>
      c_Endpoint c = ''https://www.mapi-ng.com'' \<or>
      (\<exists>secret scheme h. Decode (c_Key c) = Some (c_Endpoint c, secret) \<and> urlParse ipHost (c_Endpoint c) = Some (scheme, h) \<and>
         scheme \<in> {''http'', ''https''} \<and> (hostname h = ''mapi-ng.com'' \<or> hasSuffix (hostname h) ''.mapi-ng.com'')))"
proof -
  define ov where "ov = fold (\<lambda>opt c. opt c) opts zeroConfig"
  define c where "c = resolveConfig ipHost env ho opts"
  have c: "c_Key c = orElse (c_Key ov) (env ''MAPING_KEY'')"
    "c_Endpoint c = resolveEndpoint ipHost env (c_Endpoint ov) (env ''MAPING_ENDPOINT'') (c_Key c)"
    by (simp_all add: c_def ov_def resolveConfig_def Let_def)
  have "c_Endpoint c = ''https://www.mapi-ng.com'' \<or>
      (\<exists>secret scheme h. Decode (c_Key c) = Some (c_Endpoint c, secret) \<and> urlParse ipHost (c_Endpoint c) = Some (scheme, h) \<and>
         scheme \<in> {''http'', ''https''} \<and> (hostname h = ''mapi-ng.com'' \<or> hasSuffix (hostname h) ''.mapi-ng.com''))"
    if "c_Endpoint ov = ''''" "env ''MAPING_ENDPOINT'' = ''''" "\<not> trustAnyOrigin env"
  proof (cases "Decode (c_Key c)")
    case None
    then show ?thesis using that c(2) by (simp add: resolveEndpoint_def defaultEndpoint_def)
  next
    case (Some os)
    obtain origin secret where os: "os = (origin, secret)" by fastforce
    show ?thesis
    proof (cases "validOrigin ipHost origin \<and> originIsTrusted ipHost env origin")
      case True
      then obtain scheme h where p: "urlParse ipHost origin = Some (scheme, h)" "scheme \<in> {''http'', ''https''}"
        by (auto simp: validOrigin_def split: option.splits)
      have "hostname h = ''mapi-ng.com'' \<or> hasSuffix (hostname h) ''.mapi-ng.com''"
        using True p(1) that(3) by (simp add: originIsTrusted_def trustedDomain_value)
      moreover have "c_Endpoint c = origin" using True Some os that c(2) by (simp add: resolveEndpoint_def)
      ultimately show ?thesis using Some os p by auto
    next
      case False
      then show ?thesis using that c(2) Some os by (auto simp: resolveEndpoint_def defaultEndpoint_def)
    qed
  qed
  then show ?thesis using c(2) unfolding Let_def c_def [symmetric] ov_def [symmetric] by (simp add: resolveEndpoint_def)
qed

theorem key_origin_trusted_witness:
  "c_Endpoint (resolveConfig (\<lambda>_. None) (\<lambda>_. '''') \<lparr>ho_argv0Base = ''api'', ho_hostname = None, ho_buildSettings = None\<rparr>
     [WithKey (Encode ''https://evil.example'' ''s'')]) = ''https://www.mapi-ng.com''"
proof -
  have d: "Decode (Encode ''https://evil.example'' ''s'') = Some (''https://evil.example'', ''s'')"
    by (rule token_roundtrip_lemma) simp_all
  have u: "urlParse (\<lambda>_. None) ''https://evil.example'' = Some (''https'', ''evil.example'')" by code_simp
  have h: "hostname ''evil.example'' = ''evil.example''" by code_simp
  have t: "\<not> trustAnyOrigin (\<lambda>_. '''')" by code_simp
  show ?thesis
    using key_origin_trusted [of "\<lambda>_. None" "\<lambda>_. ''''" "\<lparr>ho_argv0Base = ''api'', ho_hostname = None, ho_buildSettings = None\<rparr>"
        "[WithKey (Encode ''https://evil.example'' ''s'')]"] d u h t
    by (auto simp: Let_def WithKey_def zeroConfig_def resolveConfig_def orElse_def hasSuffix_def)
qed

text \<open>
  Precedence and totality: every field that a code option sets is kept, a positive flush window set in
  code is kept, and the service and instance are never empty when the binary has a name.
\<close>

theorem option_precedence:
  assumes "ov = fold (\<lambda>opt c. opt c) opts zeroConfig" and "ho_argv0Base ho \<noteq> ''''" and "ho_hostname ho \<noteq> Some ''''"
  shows "let c = resolveConfig ipHost env ho opts in
    (c_Key ov \<noteq> '''' \<longrightarrow> c_Key c = c_Key ov) \<and> (c_Service ov \<noteq> '''' \<longrightarrow> c_Service c = c_Service ov) \<and>
    (c_Instance ov \<noteq> '''' \<longrightarrow> c_Instance c = c_Instance ov) \<and> (c_FlushWindow ov > 0 \<longrightarrow> c_FlushWindow c = c_FlushWindow ov) \<and>
    (c_DeployID ov \<noteq> '''' \<longrightarrow> c_DeployID c = c_DeployID ov) \<and> c_Service c \<noteq> '''' \<and> c_Instance c \<noteq> ''''"
  using assms(2,3) unfolding resolveConfig_def Let_def assms(1) [symmetric]
  by (auto simp: orElse_def deriveService_def deriveInstance_def Let_def split: option.splits)

lemma parse_overflowing: "parseInt64 ''9223372037'' = Some 9223372037"
  by (simp add: parseInt64_def hasPrefix_def parseUint_def digitVal_def)

lemma overflowing_negative: "wrap64 (9223372037 * second) < 0"
  by (simp add: wrap64_def go_defs)

lemma fitting_window: "0 < n \<Longrightarrow> n \<le> 9223372036 \<Longrightarrow> wrap64 (n * second) = n * second"
  by (intro wrap64_id) (simp_all add: go_defs)

lemma parse_empty: "parseInt64 '''' = None"
  by (simp add: parseInt64_def parseUint_def hasPrefix_def)

text \<open>
  The flush window is what the variable says, or ten seconds: an unset, malformed or non-positive
  value gives the default and one up to 9223372036 seconds is taken exactly; but one second more is
  accepted too and wraps to a negative duration.
\<close>

theorem flush_window_overflow:
  "let raw = env ''MAPING_FLUSH_SECONDS'' in
   (raw = '''' \<or> parseInt64 raw = None \<longrightarrow> deriveFlushWindow env = 10 * second) \<and>
   (\<forall>n. parseInt64 raw = Some n \<and> n \<le> 0 \<longrightarrow> deriveFlushWindow env = 10 * second) \<and>
   (\<forall>n. parseInt64 raw = Some n \<and> 0 < n \<and> n \<le> 9223372036 \<longrightarrow> deriveFlushWindow env = n * second) \<and>
   (raw = ''9223372037'' \<longrightarrow> deriveFlushWindow env < 0)"
proof -
  define raw where "raw = env ''MAPING_FLUSH_SECONDS''"
  have d: "deriveFlushWindow env = (case parseInt64 raw of None \<Rightarrow> 10 * second
      | Some n \<Rightarrow> if n \<le> 0 then 10 * second else wrap64 (n * second))"
    by (cases "raw = ''''") (simp_all only: deriveFlushWindow_def Let_def defaultFlushWindow_def parse_empty option.case if_True if_False simp_thms flip: raw_def)
  have "deriveFlushWindow env < 0" if "raw = ''9223372037''"
    using overflowing_negative unfolding d that parse_overflowing option.case by simp
  moreover have "raw = '''' \<longrightarrow> parseInt64 raw = None" using parse_empty by blast
  ultimately show ?thesis
    unfolding Let_def raw_def [symmetric] using fitting_window by (simp add: d)
qed

theorem flush_window_overflow_witness:
  "deriveFlushWindow (\<lambda>_. ''9223372037'') < 0 \<and> deriveFlushWindow (\<lambda>_. '''') = 10 * second"
  using flush_window_overflow [of "\<lambda>_. ''9223372037''"] flush_window_overflow [of "\<lambda>_. ''''"] unfolding Let_def by blast

end
