(* ===== verification/Transport.thy ===== *)
theory Transport
  imports Client_Config Ingest
begin

text \<open>
  The wire client, src/client/internal/transport/transport.go, and the construction of a recorder,
  \<open>NewRecorder\<close> of src/client/maping.go. The generated Connect client is a parameter: the function that
  takes the request header and the message and gives whether the call failed. The HTTP/2 transports the
  two schemes select and the zstd codec are not modelled.
\<close>

section \<open>The transport client\<close>

datatype transportError = ParseEndpoint | UnsupportedScheme string

record transport_client =
  tc_key :: string

definition transport_New :: "(string \<Rightarrow> string option) \<Rightarrow> string \<Rightarrow> string \<Rightarrow> transportError + transport_client" where
  "transport_New ipHost endpoint key =
     (case urlParse ipHost endpoint of
        None \<Rightarrow> Inl ParseEndpoint
      | Some (scheme, _) \<Rightarrow>
          if scheme = ''https'' \<or> scheme = ''http'' then Inr \<lparr>tc_key = key\<rparr> else Inl (UnsupportedScheme scheme))"

definition authHeader :: "transport_client \<Rightarrow> header \<Rightarrow> header" where
  "authHeader c h = (if tc_key c \<noteq> '''' then h(''Authorization'' := ''Bearer '' @ tc_key c) else h)"

definition noHeader :: header where
  "noHeader = (\<lambda>_. '''')"

definition transport_Upload :: "(header \<Rightarrow> 'req \<Rightarrow> bool) \<Rightarrow> transport_client \<Rightarrow> 'req \<Rightarrow> bool" where
  "transport_Upload svc c req = svc (authHeader c noHeader) req"

definition transport_Register :: "(header \<Rightarrow> 'hs \<Rightarrow> bool) \<Rightarrow> transport_client \<Rightarrow> 'hs \<Rightarrow> bool" where
  "transport_Register svc c hs = svc (authHeader c noHeader) hs"

section \<open>Constructing a recorder\<close>

text \<open>The zero \<open>Recorder\<close>: no transport, no shards; the nil ring is an empty one, which nothing touches.\<close>

definition noopRecorder :: recorder where
  "noopRecorder =
     \<lparr>rc_cfg = zeroConfig, rc_active = False, rc_startTime = 0, rc_shards = [], rc_sampler = sampler_zero,
      rc_ring = ring_new 0, rc_dropped = 0, rc_closed = False, rc_inFlight = 0, rc_inFlightPeak = 0\<rparr>"

definition NewRecorder :: "(string \<Rightarrow> string option) \<Rightarrow> (string \<Rightarrow> string) \<Rightarrow> host \<Rightarrow> instant \<Rightarrow> Option list \<Rightarrow> recorder" where
  "NewRecorder ipHost env ho now opts =
     (let cfg = resolveConfig ipHost env ho opts
      in if c_Key cfg = '''' then noopRecorder
         else (case transport_New ipHost (c_Endpoint cfg) (c_Key cfg) of
                 Inl _ \<Rightarrow> noopRecorder
               | Inr tx \<Rightarrow> newRecorderWithTransport cfg now))"

section \<open>Properties\<close>

lemma default_endpoint_ok: "\<exists>tx. transport_New ipHost defaultEndpoint key = Inr tx"
  by (simp add: transport_New_def default_endpoint_parses)

lemma resolved_endpoint_ok:
  assumes "optEndpoint = ''''" and "envEndpoint = ''''"
  shows "\<exists>tx. transport_New ipHost (resolveEndpoint ipHost env optEndpoint envEndpoint key) key' = Inr tx"
proof -
  have "\<exists>tx. transport_New ipHost origin key' = Inr tx" if "validOrigin ipHost origin" for origin
    using that by (auto simp: validOrigin_def transport_New_def split: option.splits)
  then show ?thesis using assms default_endpoint_ok by (auto simp: resolveEndpoint_def split: option.splits)
qed

lemma noop_inert: "Observe noopRecorder rec now = noopRecorder"
  by (simp add: Observe_def noopRecorder_def)

text \<open>
  C36. Fail-open construction: without a key the recorder is the no-op one, whose \<open>Observe\<close> changes
  nothing; with a key and an endpoint nobody overrode it always runs, whatever origin the key carries; and
  an endpoint the operator set can only disable it, by a URL that does not parse or a scheme that is not
  http or https.
\<close>

theorem recorder_fail_open:
  "let cfg = resolveConfig ipHost env ho opts; ov = fold (\<lambda>opt c. opt c) opts zeroConfig;
       r = NewRecorder ipHost env ho now opts in
    (c_Key cfg = '''' \<longrightarrow> \<not> rc_active r) \<and>
    (c_Key cfg \<noteq> '''' \<and> c_Endpoint ov = '''' \<and> env ''MAPING_ENDPOINT'' = '''' \<longrightarrow> rc_active r \<and> rc_cfg r = cfg) \<and>
    (\<not> rc_active r \<longrightarrow> (\<forall>rec t. Observe r rec t = r) \<and>
       (c_Key cfg = '''' \<or> urlParse ipHost (c_Endpoint cfg) = None \<or>
        (\<exists>scheme h. urlParse ipHost (c_Endpoint cfg) = Some (scheme, h) \<and> scheme \<notin> {''http'', ''https''})))"
proof -
  define cfg where "cfg = resolveConfig ipHost env ho opts"
  define ov where "ov = fold (\<lambda>opt c. opt c) opts zeroConfig"
  have ep: "c_Endpoint cfg = resolveEndpoint ipHost env (c_Endpoint ov) (env ''MAPING_ENDPOINT'') (c_Key cfg)"
    by (simp add: cfg_def ov_def resolveConfig_def Let_def)
  have r: "NewRecorder ipHost env ho now opts =
      (if c_Key cfg = '''' then noopRecorder
       else case transport_New ipHost (c_Endpoint cfg) (c_Key cfg) of Inl _ \<Rightarrow> noopRecorder | Inr tx \<Rightarrow> newRecorderWithTransport cfg now)"
    by (simp only: NewRecorder_def Let_def cfg_def)
  have run: "rc_active (newRecorderWithTransport cfg now)" "rc_cfg (newRecorderWithTransport cfg now) = cfg"
    "\<not> rc_active noopRecorder"
    by (simp_all add: newRecorderWithTransport_def noopRecorder_def)
  have "\<exists>tx. transport_New ipHost (c_Endpoint cfg) (c_Key cfg) = Inr tx"
    if "c_Endpoint ov = ''''" "env ''MAPING_ENDPOINT'' = ''''"
    unfolding ep using resolved_endpoint_ok [OF that] .
  moreover have "urlParse ipHost (c_Endpoint cfg) = None \<or>
      (\<exists>scheme h. urlParse ipHost (c_Endpoint cfg) = Some (scheme, h) \<and> scheme \<notin> {''http'', ''https''})"
    if "transport_New ipHost (c_Endpoint cfg) (c_Key cfg) = Inl e" for e
    using that by (auto simp: transport_New_def split: option.splits if_splits)
  ultimately show ?thesis
    unfolding Let_def cfg_def [symmetric] ov_def [symmetric] r using run noop_inert by (auto split: sum.splits)
qed

theorem recorder_fail_open_witness:
  "\<not> rc_active (NewRecorder (\<lambda>_. None) (\<lambda>_. '''') \<lparr>ho_argv0Base = ''api'', ho_hostname = None, ho_buildSettings = None\<rparr> 0 []) \<and>
   rc_active (NewRecorder (\<lambda>_. None) (\<lambda>_. '''') \<lparr>ho_argv0Base = ''api'', ho_hostname = None, ho_buildSettings = None\<rparr> 0 [WithKey ''k''])"
  using recorder_fail_open [of "\<lambda>_. None" "\<lambda>_. ''''" "\<lparr>ho_argv0Base = ''api'', ho_hostname = None, ho_buildSettings = None\<rparr>" "[]" 0]
    recorder_fail_open [of "\<lambda>_. None" "\<lambda>_. ''''" "\<lparr>ho_argv0Base = ''api'', ho_hostname = None, ho_buildSettings = None\<rparr>" "[WithKey ''k'']" 0]
  by (simp add: Let_def resolveConfig_def zeroConfig_def WithKey_def orElse_def)

text \<open>
  The key travels: what the collector reads from the header the transport writes is the key without
  surrounding white space; a key that has none is the key the collector resolves, on every call.
\<close>

theorem transport_key_roundtrip:
  assumes "tc_key c \<noteq> ''''"
  shows "extractKey (authHeader c noHeader) = trimSpace (tc_key c) \<and>
    ((\<forall>ch \<in> set (tc_key c). visible ch) \<longrightarrow>
       (fst (authenticate h (authHeader c noHeader) s) = Inr tid \<longleftrightarrow>
        (\<exists>resolved s'. hd_resolver h (tc_key c) s = ((resolved, True), s') \<and> tenant_Parse resolved = Some tid)))"
proof -
  have "(authHeader c noHeader) ''Authorization'' = ''Bearer '' @ tc_key c"
    using assms by (simp add: authHeader_def)
  then have e: "extractKey (authHeader c noHeader) = trimSpace (tc_key c)"
    unfolding extractKey_def Let_def by (simp only: hasPrefix_append trimPrefix_append if_True)
  then show ?thesis
    using assms by (auto simp: trimSpace_visible authenticate_def Let_def split: prod.splits option.splits if_splits)
qed

theorem transport_key_roundtrip_witness:
  "extractKey (authHeader \<lparr>tc_key = ''secret''\<rparr> noHeader) = ''secret'' \<and>
   (\<forall>(h :: unit Handler) tid. fst (authenticate h (authHeader \<lparr>tc_key = ''secret''\<rparr> noHeader) ()) = Inr tid \<longleftrightarrow>
      (\<exists>resolved s'. hd_resolver h ''secret'' () = ((resolved, True), s') \<and> tenant_Parse resolved = Some tid))"
proof -
  have v: "trimSpace ''secret'' = ''secret''" "\<forall>ch \<in> set ''secret''. visible ch"
    using trimSpace_visible [of "''secret''"] by (simp_all add: visible_def)
  show ?thesis
    using transport_key_roundtrip [of "\<lparr>tc_key = ''secret''\<rparr>" _ "()"] v
    unfolding transport_client.simps by auto
qed

end
