(* ===== verification/Adapters.thy ===== *)
theory Adapters
  imports Transport
begin

text \<open>
  The web adapters of the client: src/client/adapterutil/ (traceparent parsing, status reclassification and
  the capturing response writer) and the middlewares of src/client/nethttp, chi, gin, echo and beego. Each
  middleware brackets a request with the in-flight gauge, lets the host's handler run, and observes at most
  one record, with the route template and never the raw path.

  The response writer of \<open>net/http\<close> is modelled as its documentation and source describe it (an
  informational header does not commit the response, a write or a flush commits it with 200). What the
  other frameworks report after the handler (the matched template, the status, the size, the attached
  errors) are fields of the exchange.
\<close>

section \<open>Errors of the standard library and of echo\<close>

datatype goErr = DeadlineExceeded | Canceled | PlainError string | WrappedError string goErr
  | HTTPError int "string option" "goErr option"

fun errors_Is :: "goErr \<Rightarrow> goErr \<Rightarrow> bool" where
  "errors_Is (WrappedError m e) t \<longleftrightarrow> WrappedError m e = t \<or> errors_Is e t"
| "errors_Is (HTTPError c m (Some e)) t \<longleftrightarrow> HTTPError c m (Some e) = t \<or> errors_Is e t"
| "errors_Is e t \<longleftrightarrow> e = t"

fun errors_As :: "goErr \<Rightarrow> (int \<times> string option \<times> goErr option) option" where
  "errors_As (HTTPError c m i) = Some (c, m, i)"
| "errors_As (WrappedError m e) = errors_As e"
| "errors_As _ = None"

section \<open>Helpers (adapterutil.go)\<close>

definition isHex_n :: "string \<Rightarrow> nat \<Rightarrow> bool" where
  "isHex_n s n \<longleftrightarrow> length s = n \<and> list_all isHex s"

definition allZero :: "string \<Rightarrow> bool" where
  "allZero s \<longleftrightarrow> list_all (\<lambda>c. c = CHR ''0'') s"

definition ParseTraceparent :: "string \<Rightarrow> string \<times> string" where
  "ParseTraceparent hdr =
     (if hdr = '''' then ('''', '''')
      else (case splitByte (CHR ''-'') hdr of
              [version, tid, sid, flags] \<Rightarrow>
                if \<not> isHex_n tid 32 \<or> allZero tid then ('''', '''')
                else if \<not> isHex_n sid 16 \<or> allZero sid then ('''', '''')
                else (tid, sid)
            | _ \<Rightarrow> ('''', '''')))"

definition ClampNonNegative :: "int \<Rightarrow> int" where
  "ClampNonNegative n = (if n < 0 then 0 else n)"

definition ReclassifyNoStatus :: "goErr option \<Rightarrow> int \<Rightarrow> int \<times> NoStatusReason" where
  "ReclassifyNoStatus cause status =
     (case cause of
        None \<Rightarrow> (status, NoStatusUnspecified)
      | Some e \<Rightarrow>
          if errors_Is e DeadlineExceeded then (0, NoStatusContextDeadline)
          else if errors_Is e Canceled then (0, NoStatusContextCanceled)
          else (0, NoStatusOther))"

section \<open>The capturing response writer (response_writer.go)\<close>

record ResponseWriter =
  rw_status :: int
  rw_bytesWritten :: int
  rw_wroteHeader :: bool

definition WrapResponseWriter :: ResponseWriter where
  "WrapResponseWriter = \<lparr>rw_status = 200, rw_bytesWritten = 0, rw_wroteHeader = False\<rparr>"

text \<open>
  What the wrapper calls on the writer it wraps: \<open>WriteHeader\<close> (which panics on an invalid code, \<open>None\<close>),
  \<open>Write\<close> and \<open>ReadFrom\<close> with the number of bytes offered, giving the number accepted, and \<open>Flush\<close>.
\<close>

record 'w writerOps =
  wo_WriteHeader :: "int \<Rightarrow> 'w \<Rightarrow> 'w option"
  wo_Write :: "int \<Rightarrow> 'w \<Rightarrow> int \<times> 'w"
  wo_ReadFrom :: "int \<Rightarrow> 'w \<Rightarrow> int \<times> 'w"
  wo_Flush :: "'w \<Rightarrow> 'w"

definition rw_WriteHeader :: "'w writerOps \<Rightarrow> int \<Rightarrow> ResponseWriter \<times> 'w \<Rightarrow> (ResponseWriter \<times> 'w) option" where
  "rw_WriteHeader ops code = (\<lambda>(cw, w).
     let cw' = (if \<not> rw_wroteHeader cw then cw\<lparr>rw_status := code, rw_wroteHeader := True\<rparr> else cw)
     in map_option (Pair cw') (wo_WriteHeader ops code w))"

definition rw_Write :: "'w writerOps \<Rightarrow> int \<Rightarrow> ResponseWriter \<times> 'w \<Rightarrow> ResponseWriter \<times> 'w" where
  "rw_Write ops len = (\<lambda>(cw, w).
     case wo_Write ops len w of (n, w') \<Rightarrow>
       (cw\<lparr>rw_wroteHeader := True, rw_bytesWritten := wrap64 (rw_bytesWritten cw + n)\<rparr>, w'))"

definition rw_ReadFrom :: "'w writerOps \<Rightarrow> int \<Rightarrow> ResponseWriter \<times> 'w \<Rightarrow> ResponseWriter \<times> 'w" where
  "rw_ReadFrom ops len = (\<lambda>(cw, w).
     case wo_ReadFrom ops len w of (n, w') \<Rightarrow>
       (cw\<lparr>rw_wroteHeader := True, rw_bytesWritten := wrap64 (rw_bytesWritten cw + n)\<rparr>, w'))"

definition rw_Flush :: "'w writerOps \<Rightarrow> ResponseWriter \<times> 'w \<Rightarrow> ResponseWriter \<times> 'w" where
  "rw_Flush ops = (\<lambda>(cw, w). (cw, wo_Flush ops w))"

text \<open>The calls a handler makes on its writer, in order, and running them; \<open>None\<close> is a panic.\<close>

datatype rwCall = CallWriteHeader int | CallWrite nat | CallReadFrom nat | CallFlush

fun rwStep :: "'w writerOps \<Rightarrow> rwCall \<Rightarrow> ResponseWriter \<times> 'w \<Rightarrow> (ResponseWriter \<times> 'w) option" where
  "rwStep ops (CallWriteHeader code) s = rw_WriteHeader ops code s"
| "rwStep ops (CallWrite len) s = Some (rw_Write ops (int len) s)"
| "rwStep ops (CallReadFrom len) s = Some (rw_ReadFrom ops (int len) s)"
| "rwStep ops CallFlush s = Some (rw_Flush ops s)"

fun serve :: "'w writerOps \<Rightarrow> rwCall list \<Rightarrow> ResponseWriter \<times> 'w \<Rightarrow> (ResponseWriter \<times> 'w) option" where
  "serve ops [] s = Some s"
| "serve ops (c # cs) s = (case rwStep ops c s of None \<Rightarrow> None | Some s' \<Rightarrow> serve ops cs s')"

section \<open>The writer of net/http\<close>

record response =
  rp_wroteHeader :: bool
  rp_status :: int
  rp_informational :: "int list"
  rp_written :: int
  rp_body :: int
  rp_contentLength :: int

definition informational :: "int \<Rightarrow> bool" where
  "informational code \<longleftrightarrow> 100 \<le> code \<and> code \<le> 199 \<and> code \<noteq> 101"

definition net_WriteHeader :: "int \<Rightarrow> response \<Rightarrow> response option" where
  "net_WriteHeader code w =
     (if rp_wroteHeader w then Some w
      else if code < 100 \<or> code > 999 then None
      else if informational code then Some (w\<lparr>rp_informational := rp_informational w @ [code]\<rparr>)
      else Some (w\<lparr>rp_wroteHeader := True, rp_status := code\<rparr>))"

definition commit200 :: "response \<Rightarrow> response" where
  "commit200 w = (if rp_wroteHeader w then w else w\<lparr>rp_wroteHeader := True, rp_status := 200\<rparr>)"

definition bodyAllowed :: "int \<Rightarrow> bool" where
  "bodyAllowed status \<longleftrightarrow> \<not> (100 \<le> status \<and> status \<le> 199) \<and> status \<noteq> 204 \<and> status \<noteq> 304"

definition net_Write :: "int \<Rightarrow> response \<Rightarrow> int \<times> response" where
  "net_Write len w =
     (let w1 = commit200 w
      in if len = 0 \<or> \<not> bodyAllowed (rp_status w1) then (0, w1)
         else
           let w2 = w1\<lparr>rp_written := rp_written w1 + len\<rparr>
           in if rp_contentLength w2 \<noteq> -1 \<and> rp_written w2 > rp_contentLength w2 then (0, w2)
              else (len, w2\<lparr>rp_body := rp_body w2 + len\<rparr>))"

definition net_ReadFrom :: "int \<Rightarrow> response \<Rightarrow> int \<times> response" where
  "net_ReadFrom len w = (if len = 0 then (0, w) else net_Write len w)"

definition net_ops :: "response writerOps" where
  "net_ops = \<lparr>wo_WriteHeader = net_WriteHeader, wo_Write = net_Write, wo_ReadFrom = net_ReadFrom, wo_Flush = commit200\<rparr>"

definition freshResponse :: "int \<Rightarrow> response" where
  "freshResponse contentLength =
     \<lparr>rp_wroteHeader = False, rp_status = 0, rp_informational = [], rp_written = 0, rp_body = 0, rp_contentLength = contentLength\<rparr>"

text \<open>The status the client receives: finishing the request commits an uncommitted response with 200.\<close>

definition sentStatus :: "response \<Rightarrow> int" where
  "sentStatus w = rp_status (commit200 w)"

section \<open>The middlewares\<close>

record exchange =
  hx_Method :: string
  hx_header :: "string \<Rightarrow> string"
  hx_ContentLength :: int
  hx_cause :: "goErr option"
  hx_downstream :: "duration list"
  hx_start :: instant
  hx_end :: instant
  hx_panics :: bool

definition tracked :: "exchange \<Rightarrow> downstream" where
  "tracked x = fold (\<lambda>d acc. addDownstream acc d) (hx_downstream x) WithDownstreamTracking"

definition recordOf :: "exchange \<Rightarrow> string \<Rightarrow> int \<Rightarrow> int \<Rightarrow> string \<Rightarrow> Record" where
  "recordOf x route status respBytes errorClass =
     (let (status', reason) = ReclassifyNoStatus (hx_cause x) status;
          (traceID, spanID) = ParseTraceparent (hx_header x ''traceparent'')
      in \<lparr>rec_Method = hx_Method x, rec_RouteTemplate = route, rec_Status = status',
          rec_Duration = time_sub (hx_end x) (hx_start x), rec_ReqBytes = ClampNonNegative (hx_ContentLength x),
          rec_RespBytes = respBytes, rec_TraceID = traceID, rec_SpanID = spanID,
          rec_RequestID = hx_header x ''X-Request-Id'', rec_ErrorClass = errorClass, rec_NoStatusReason = reason,
          rec_DownstreamDuration = DownstreamElapsed (tracked x)\<rparr>)"

definition routeTemplate :: "string \<Rightarrow> string" where
  "routeTemplate pattern = (case indexByte pattern (CHR ''/'') of None \<Rightarrow> '''' | Some i \<Rightarrow> drop i pattern)"

definition nethttp_MiddlewareWithRecorder ::
  "recorder \<Rightarrow> exchange \<Rightarrow> rwCall list \<Rightarrow> response \<Rightarrow> string \<Rightarrow> instant \<Rightarrow> recorder" where
  "nethttp_MiddlewareWithRecorder r x calls w pattern now =
     (let r1 = BeginRequest r
      in case serve net_ops calls (WrapResponseWriter, w) of
           None \<Rightarrow> endRequest r1
         | Some (cw, _) \<Rightarrow>
             let route = routeTemplate pattern
             in if hx_panics x \<or> route = '''' then endRequest r1
                else endRequest (Observe r1 (recordOf x route (rw_status cw) (ClampNonNegative (rw_bytesWritten cw)) '''') now))"

definition chi_MiddlewareWithRecorder ::
  "recorder \<Rightarrow> exchange \<Rightarrow> rwCall list \<Rightarrow> response \<Rightarrow> string option \<Rightarrow> instant \<Rightarrow> recorder" where
  "chi_MiddlewareWithRecorder r x calls w routePattern now =
     (let r1 = BeginRequest r
      in case serve net_ops calls (WrapResponseWriter, w) of
           None \<Rightarrow> endRequest r1
         | Some (cw, _) \<Rightarrow>
             let route = (case routePattern of Some p \<Rightarrow> p | None \<Rightarrow> '''')
             in if hx_panics x \<or> route = '''' then endRequest r1
                else endRequest (Observe r1 (recordOf x route (rw_status cw) (ClampNonNegative (rw_bytesWritten cw)) '''') now))"

definition lastErrorLabel :: "(goErr \<Rightarrow> string) \<Rightarrow> goErr list \<Rightarrow> string" where
  "lastErrorLabel errText errs = (if errs = [] then '''' else errText (last errs))"

definition gin_MiddlewareWithRecorder ::
  "(goErr \<Rightarrow> string) \<Rightarrow> recorder \<Rightarrow> exchange \<Rightarrow> string \<Rightarrow> int \<Rightarrow> int \<Rightarrow> goErr list \<Rightarrow> instant \<Rightarrow> recorder" where
  "gin_MiddlewareWithRecorder errText r x fullPath status respSize errs now =
     (let r1 = BeginRequest r
      in if hx_panics x \<or> fullPath = '''' then endRequest r1
         else endRequest (Observe r1 (recordOf x fullPath status (ClampNonNegative respSize) (lastErrorLabel errText errs)) now))"

definition statusFromError :: "goErr \<Rightarrow> int" where
  "statusFromError err = (case errors_As err of Some (code, _, _) \<Rightarrow> code | None \<Rightarrow> 500)"

definition errorLabel :: "(goErr \<Rightarrow> string) \<Rightarrow> goErr \<Rightarrow> string" where
  "errorLabel errText err =
     (case errors_As err of
        Some (_, _, Some internal) \<Rightarrow> errText internal
      | Some (_, Some msg, None) \<Rightarrow> msg
      | _ \<Rightarrow> errText err)"

definition echo_MiddlewareWithRecorder ::
  "(goErr \<Rightarrow> string) \<Rightarrow> recorder \<Rightarrow> exchange \<Rightarrow> string \<Rightarrow> int \<Rightarrow> bool \<Rightarrow> int \<Rightarrow> goErr option \<Rightarrow> instant \<Rightarrow> recorder \<times> goErr option" where
  "echo_MiddlewareWithRecorder errText r x path resStatus committed respSize err now =
     (let r1 = BeginRequest r
      in if hx_panics x \<or> path = '''' then (endRequest r1, err)
         else
           let (status, errorClass) =
                 (case err of
                    None \<Rightarrow> (resStatus, '''')
                  | Some e \<Rightarrow> (if committed then resStatus else statusFromError e, errorLabel errText e))
           in (endRequest (Observe r1 (recordOf x path status (ClampNonNegative respSize) errorClass) now), err))"

definition beego_FilterWithRecorder :: "recorder \<Rightarrow> exchange \<Rightarrow> string option \<Rightarrow> int \<Rightarrow> instant \<Rightarrow> recorder" where
  "beego_FilterWithRecorder r x routerPattern resStatus now =
     (let r1 = BeginRequest r;
          route = (case routerPattern of Some p \<Rightarrow> p | None \<Rightarrow> '''')
      in if hx_panics x \<or> route = '''' then endRequest r1
         else
           let status = (if resStatus = 0 then 200 else resStatus)
           in endRequest (Observe r1 (recordOf x route status 0 '''') now))"

text \<open>A call that commits an untouched response with the status the wrapper records.\<close>

fun commits :: "rwCall \<Rightarrow> bool" where
  "commits (CallWriteHeader code) \<longleftrightarrow> \<not> informational code"
| "commits (CallWrite len) \<longleftrightarrow> True"
| "commits (CallReadFrom len) \<longleftrightarrow> 0 < len"
| "commits CallFlush \<longleftrightarrow> False"

lemma wrap64_add: "wrap64 (wrap64 a + b) = wrap64 (a + b)"
proof -
  have "(wrap64 a + b + 2 ^ 63) mod 2 ^ 64 = ((a + 2 ^ 63) mod 2 ^ 64 + b) mod 2 ^ 64"
    by (simp add: wrap64_def)
  also have "\<dots> = (a + 2 ^ 63 + b) mod 2 ^ 64" by (rule mod_add_left_eq)
  finally show ?thesis by (simp add: wrap64_def ac_simps)
qed

section \<open>The contract of a wrapped writer\<close>

text \<open>
  What the capturing writer relies on in the writer it wraps: a final header on an uncommitted response
  commits it with that code, nothing changes the status of a committed one, a write commits with 200, and
  the accepted byte counts are the growth of the body.
\<close>

locale http_writer =
  fixes ops :: "'w writerOps" and committed :: "'w \<Rightarrow> bool" and wstatus :: "'w \<Rightarrow> int" and bodyLen :: "'w \<Rightarrow> int"
  assumes header_final: "\<not> committed w \<Longrightarrow> \<not> informational code \<Longrightarrow> wo_WriteHeader ops code w = Some w' \<Longrightarrow>
      committed w' \<and> wstatus w' = code \<and> bodyLen w' = bodyLen w"
    and header_late: "committed w \<Longrightarrow> wo_WriteHeader ops code w = Some w' \<Longrightarrow>
      committed w' \<and> wstatus w' = wstatus w \<and> bodyLen w' = bodyLen w"
    and write_commits: "wo_Write ops len w = (n, w') \<Longrightarrow>
      committed w' \<and> wstatus w' = (if committed w then wstatus w else 200) \<and> bodyLen w' = bodyLen w + n"
    and read_commits: "wo_ReadFrom ops len w = (n, w') \<Longrightarrow> committed w \<or> 0 < len \<Longrightarrow>
      committed w' \<and> wstatus w' = (if committed w then wstatus w else 200) \<and> bodyLen w' = bodyLen w + n"
    and flush_late: "committed w \<Longrightarrow> committed (wo_Flush ops w) \<and> wstatus (wo_Flush ops w) = wstatus w \<and>
      bodyLen (wo_Flush ops w) = bodyLen w"
begin

definition captured :: "ResponseWriter \<times> 'w \<Rightarrow> bool" where
  "captured s \<longleftrightarrow> (case s of (cw, w) \<Rightarrow> committed w \<and> rw_wroteHeader cw \<and> rw_status cw = wstatus w \<and>
     rw_bytesWritten cw = wrap64 (bodyLen w))"

lemma captured_iff:
  "captured (cw, w) \<longleftrightarrow> committed w \<and> rw_wroteHeader cw \<and> rw_status cw = wstatus w \<and> rw_bytesWritten cw = wrap64 (bodyLen w)"
  by (simp add: captured_def)

lemma header_captured: "captured (cw, w) \<Longrightarrow> rw_WriteHeader ops code (cw, w) = Some s' \<Longrightarrow> captured s'"
  using header_late [of w code] by (auto simp: captured_iff rw_WriteHeader_def)

lemma write_captured: "captured (cw, w) \<Longrightarrow> captured (rw_Write ops len (cw, w))"
  using write_commits [of len w] by (cases "wo_Write ops len w") (simp add: captured_iff rw_Write_def wrap64_add)

lemma read_captured: "captured (cw, w) \<Longrightarrow> captured (rw_ReadFrom ops len (cw, w))"
  using read_commits [of len w] by (cases "wo_ReadFrom ops len w") (simp add: captured_iff rw_ReadFrom_def wrap64_add)

lemma flush_captured: "captured (cw, w) \<Longrightarrow> captured (rw_Flush ops (cw, w))"
  using flush_late [of w] by (simp add: captured_iff rw_Flush_def)

lemma step_captured: "captured s \<Longrightarrow> rwStep ops c s = Some s' \<Longrightarrow> captured s'"
  by (cases s; cases c) (auto intro: header_captured write_captured read_captured flush_captured)

lemma serve_captured: "captured s \<Longrightarrow> serve ops cs s = Some s' \<Longrightarrow> captured s'"
  by (induction cs arbitrary: s) (auto dest: step_captured split: option.splits)

lemma first_captured:
  assumes "commits c" and "\<not> committed w" and "bodyLen w = 0" and "rwStep ops c (WrapResponseWriter, w) = Some s'"
  shows "captured s'"
proof (cases c)
  case (CallWriteHeader code)
  then show ?thesis using assms header_final [of w code]
    by (auto simp: captured_def rw_WriteHeader_def WrapResponseWriter_def wrap64_id int64_min_def int64_max_def)
next
  case (CallWrite len)
  then show ?thesis using assms write_commits [of "int len" w]
    by (cases "wo_Write ops (int len) w") (auto simp: captured_def rw_Write_def WrapResponseWriter_def)
next
  case (CallReadFrom len)
  then show ?thesis using assms read_commits [of "int len" w]
    by (cases "wo_ReadFrom ops (int len) w") (auto simp: captured_def rw_ReadFrom_def WrapResponseWriter_def)
next
  case CallFlush
  then show ?thesis using assms(1) by simp
qed

end

interpretation net: http_writer net_ops rp_wroteHeader rp_status rp_body
  by unfold_locales
    (auto simp: net_ops_def net_WriteHeader_def net_Write_def net_ReadFrom_def commit200_def Let_def split: if_splits)

section \<open>Properties\<close>

lemma capture_sent:
  assumes "calls = [] \<or> commits (hd calls)" and "serve net_ops calls (WrapResponseWriter, freshResponse cl) = Some (cw, w)"
  shows "rw_status cw = sentStatus w \<and> rw_bytesWritten cw = wrap64 (rp_body w)"
proof (cases calls)
  case Nil
  then show ?thesis using assms(2)
    by (auto simp: WrapResponseWriter_def freshResponse_def sentStatus_def commit200_def wrap64_def)
next
  case (Cons c cs)
  then obtain s where s: "rwStep net_ops c (WrapResponseWriter, freshResponse cl) = Some s" "serve net_ops cs s = Some (cw, w)"
    using assms(2) by (auto split: option.splits)
  have "net.captured s" using net.first_captured [of c "freshResponse cl" s] s(1) assms(1) Cons by (simp add: freshResponse_def)
  then have "net.captured (cw, w)" using s(2) by (rule net.serve_captured)
  then show ?thesis by (simp add: net.captured_iff sentStatus_def commit200_def)
qed

lemma routeTemplate_path: "routeTemplate p = dropWhile (\<lambda>c. c \<noteq> CHR ''/'') p"
  by (induction p) (auto simp: routeTemplate_def split: option.splits)

lemma reclassified: "fst (ReclassifyNoStatus cause status) = (if cause = None then status else 0)"
  by (auto simp: ReclassifyNoStatus_def split: option.splits)

lemma recordOf_fields:
  "rec_Status (recordOf x route status n e) = (if hx_cause x = None then status else 0)"
  "rec_RouteTemplate (recordOf x route status n e) = route" "rec_RespBytes (recordOf x route status n e) = n"
  "rec_ReqBytes (recordOf x route status n e) = max 0 (hx_ContentLength x)" "rec_Method (recordOf x route status n e) = hx_Method x"
  by (simp_all add: recordOf_def split_def Let_def reclassified ClampNonNegative_def)

lemma Observe_in_flight: "rc_inFlight (Observe r rec now) = rc_inFlight r"
  by (simp add: Observe_def Let_def split_def)

lemma bracket_in_flight: "rc_inFlight (endRequest (Observe (BeginRequest r) rec now)) = rc_inFlight r"
  by (simp add: endRequest_def Observe_in_flight BeginRequest_def Let_def)

lemma idle_in_flight: "rc_inFlight (endRequest (BeginRequest r)) = rc_inFlight r"
  by (simp add: endRequest_def BeginRequest_def Let_def)



text \<open>
  Three handlers whose recorded status is not the one sent: an early hint before the response, a flush
  before the header, and an empty \<open>ReadFrom\<close> before the header.
\<close>

theorem early_response_misrecorded:
  "map (\<lambda>calls. map_option (\<lambda>(cw, w). (rw_status cw, sentStatus w)) (serve net_ops calls (WrapResponseWriter, freshResponse (-1))))
     [[CallWriteHeader 103, CallWriteHeader 200], [CallFlush, CallWriteHeader 500], [CallReadFrom 0, CallWriteHeader 404]] =
   [Some (103, 200), Some (500, 200), Some (200, 404)]"
  by (simp add: rw_WriteHeader_def rw_ReadFrom_def rw_Flush_def net_ops_def net_WriteHeader_def net_ReadFrom_def
      WrapResponseWriter_def freshResponse_def informational_def commit200_def sentStatus_def wrap64_def)

text \<open>
  C35. Every adapter observes a request at most once, never under an empty route, and leaves the in-flight
  count as it found it: also when the handler panics, the route is unmatched, or the context was aborted.
\<close>

theorem adapters_observe_once:
  assumes "r' \<in> {nethttp_MiddlewareWithRecorder r x calls w pattern now, chi_MiddlewareWithRecorder r x calls w chiRoute now,
      gin_MiddlewareWithRecorder errText r x fullPath status respSize errs now,
      fst (echo_MiddlewareWithRecorder errText r x path status committed respSize err now),
      beego_FilterWithRecorder r x beegoRoute status now}"
  shows "rc_inFlight r' = rc_inFlight r \<and>
    (r' = endRequest (BeginRequest r) \<or>
     \<not> hx_panics x \<and> (\<exists>rec. r' = endRequest (Observe (BeginRequest r) rec now) \<and> rec_RouteTemplate rec \<noteq> '''' \<and>
        0 \<le> rec_ReqBytes rec \<and> 0 \<le> rec_RespBytes rec \<and> (hx_cause x \<noteq> None \<longrightarrow> rec_Status rec = 0)))"
proof -
  have cl: "0 \<le> ClampNonNegative n" for n by (simp add: ClampNonNegative_def)
  have "r' = endRequest (BeginRequest r) \<or> \<not> hx_panics x \<and> (\<exists>route s n e. r' = endRequest (Observe (BeginRequest r) (recordOf x route s n e) now) \<and>
      route \<noteq> '''' \<and> 0 \<le> n)"
    using assms cl unfolding insert_iff empty_iff nethttp_MiddlewareWithRecorder_def chi_MiddlewareWithRecorder_def
      gin_MiddlewareWithRecorder_def echo_MiddlewareWithRecorder_def beego_FilterWithRecorder_def Let_def
    by (elim disjE FalseE) (simp_all split: option.splits prod.splits if_splits, blast+)
  then show ?thesis
    by (elim disjE conjE exE) (auto simp: bracket_in_flight idle_in_flight recordOf_fields intro!: exI)
qed

theorem adapters_observe_once_witness:
  "rc_inFlight (beego_FilterWithRecorder noopRecorder
      \<lparr>hx_Method = ''GET'', hx_header = (\<lambda>_. ''''), hx_ContentLength = -1, hx_cause = Some Canceled, hx_downstream = [],
       hx_start = 0, hx_end = 5, hx_panics = False\<rparr> (Some ''/users/:id'') 0 5) = 0"
  using adapters_observe_once [OF insertI2 [OF insertI2 [OF insertI2 [OF insertI2 [OF singletonI]]]], THEN conjunct1]
  by (simp add: noopRecorder_def)

definition validIds :: "string \<Rightarrow> string \<Rightarrow> bool" where
  "validIds tid sid \<longleftrightarrow> isHex_n tid 32 \<and> \<not> allZero tid \<and> isHex_n sid 16 \<and> \<not> allZero sid"

text \<open>The header format: version, trace id, span id and flags joined by dashes, which only separate.\<close>

definition traceHeader :: "string \<Rightarrow> string \<Rightarrow> string \<Rightarrow> bool" where
  "traceHeader hdr tid sid \<longleftrightarrow>
     (\<exists>version flags. hdr = joinWith ''-'' [version, tid, sid, flags] \<and> CHR ''-'' \<notin> set version \<and> CHR ''-'' \<notin> set flags \<and> validIds tid sid)"

lemma dash_no_hex: "\<not> isHex CHR ''-''"
  by code_simp

lemma isHex_n_no_dash: "isHex_n s n \<Longrightarrow> CHR ''-'' \<notin> set s"
  using dash_no_hex by (auto simp: isHex_n_def list_all_iff)

lemma split_trace: "traceHeader hdr tid sid \<longleftrightarrow> (\<exists>version flags. splitByte (CHR ''-'') hdr = [version, tid, sid, flags]) \<and> validIds tid sid"
proof
  assume "traceHeader hdr tid sid"
  then obtain version flags where h: "hdr = joinWith ''-'' [version, tid, sid, flags]" "CHR ''-'' \<notin> set version"
    "CHR ''-'' \<notin> set flags" "validIds tid sid" unfolding traceHeader_def by blast
  have "CHR ''-'' \<notin> set tid" "CHR ''-'' \<notin> set sid" using h(4) isHex_n_no_dash unfolding validIds_def by blast+
  then have "splitByte (CHR ''-'') hdr = [version, tid, sid, flags]"
    unfolding h(1) using h(2,3) by (intro splitByte_join) auto
  then show "(\<exists>version flags. splitByte (CHR ''-'') hdr = [version, tid, sid, flags]) \<and> validIds tid sid" using h(4) by blast
next
  assume "(\<exists>version flags. splitByte (CHR ''-'') hdr = [version, tid, sid, flags]) \<and> validIds tid sid"
  then obtain version flags where sp: "splitByte (CHR ''-'') hdr = [version, tid, sid, flags]" and v: "validIds tid sid" by blast
  have "hdr = joinWith ''-'' [version, tid, sid, flags]" using join_split [of "CHR ''-''" hdr] sp by simp
  moreover have "CHR ''-'' \<notin> set version" "CHR ''-'' \<notin> set flags"
    using splitByte_parts [of version "CHR ''-''" hdr] splitByte_parts [of flags "CHR ''-''" hdr] sp by simp_all
  ultimately show "traceHeader hdr tid sid" unfolding traceHeader_def using v by blast
qed

lemma parse_trace: "traceHeader hdr tid sid \<Longrightarrow> ParseTraceparent hdr = (tid, sid)"
  unfolding split_trace by (auto simp: ParseTraceparent_def validIds_def)

lemma parse_no_trace: "(\<And>tid sid. \<not> traceHeader hdr tid sid) \<Longrightarrow> ParseTraceparent hdr = ('''', '''')"
  unfolding split_trace by (auto simp: ParseTraceparent_def validIds_def split: list.split)

text \<open>
  Trace ids: the parser gives the ids of a header of four dash-separated parts whose second part is
  32 hex digits and whose third is 16, neither all zero; for any other header both are empty.
\<close>

theorem traceparent_exact:
  "ParseTraceparent hdr = (tid, sid) \<longleftrightarrow>
   traceHeader hdr tid sid \<or> (tid = '''' \<and> sid = '''' \<and> (\<nexists>t s. traceHeader hdr t s))"
  using parse_trace [of hdr] parse_no_trace [of hdr] by (cases "\<exists>t s. traceHeader hdr t s") (metis prod.inject)+

end
