(* ===== verification/Web_Chart.thy ===== *)
theory Web_Chart
  imports Web_View Stable_Sort
begin

text \<open>
  The charts of the endpoint page, src/server/internal/web/chart.go: the SVG text, built from reals with
  Go's fixed-point printing. \<open>%g\<close> is only applied to whole constants, which it prints without a
  fraction. \<open>sort.Slice\<close> is modelled by the stable sort; the bars of one sketch have distinct latencies.
\<close>

section \<open>Scales and paths\<close>

definition f1 :: "real \<Rightarrow> string" where "f1 = formatFixed 1"
definition f0 :: "real \<Rightarrow> string" where "f0 = formatFixed 0"

definition runMax :: "real list \<Rightarrow> real" where
  "runMax vs = fold (\<lambda>v m. if v > m then v else m) vs 0"

definition axisMax :: "real \<Rightarrow> real list \<Rightarrow> real" where
  "axisMax factor vs = (let m = runMax vs * factor in if m \<le> 0 then 1 else m)"

definition linX :: "real \<Rightarrow> real \<Rightarrow> real \<Rightarrow> nat \<Rightarrow> nat \<Rightarrow> real" where
  "linX w pL pR n i = pL + real i * (w - pL - pR) / real (n - 1)"

definition linY :: "real \<Rightarrow> real \<Rightarrow> real \<Rightarrow> real \<Rightarrow> real \<Rightarrow> real" where
  "linY hgt pT pB vMax v = hgt - pB - (v / vMax) * (hgt - pT - pB)"

definition svgPath :: "(nat \<Rightarrow> real) \<Rightarrow> (real \<Rightarrow> real) \<Rightarrow> real list \<Rightarrow> string" where
  "svgPath x y vals =
     trimSpace (concat (map (\<lambda>(i, v). (if i = 0 then ''M'' else ''L'') @ f1 (x i) @ '','' @ f1 (y v) @ '' '') (enumerate 0 vals)))"

definition latencyLabel :: "real \<Rightarrow> string" where
  "latencyLabel sec =
     (let ms = sec * 1000 in
      if ms \<ge> 1000 then trimSuffix (formatFixed 1 (ms / 1000)) ''.0'' @ ''s'' else formatFixed 0 ms @ ''ms'')"

definition bytesLabel :: "real \<Rightarrow> string" where
  "bytesLabel v = fmtBytes (if v < 0 then 0 else v)"

section \<open>SVG text\<close>

definition svgOpen :: "real \<Rightarrow> real \<Rightarrow> string" where
  \<open>svgOpen w hgt = ''<svg viewBox="0 0 '' @ f0 w @ '' '' @ f0 hgt @ ''" width="100%" style="display:block;height:auto">''\<close>

definition escChar :: "char \<Rightarrow> string" where
  \<open>escChar c =
     (if c = CHR ''&'' then ''&amp;'' else if c = CHR ''<'' then ''&lt;'' else if c = CHR ''>'' then ''&gt;''
      else if c = CHR 34 then ''&#34;'' else if c = CHR 39 then ''&#39;'' else [c])\<close>

definition emptyChart :: "real \<Rightarrow> real \<Rightarrow> string \<Rightarrow> string" where
  \<open>emptyChart w hgt msg =
     svgOpen w hgt @ ''<text x="'' @ f0 (w / 2) @ ''" y="'' @ f0 (hgt / 2) @
     ''" text-anchor="middle" fill="#69727F" style="font:500 12px var(--mono)">'' @ concat (map escChar msg) @ ''</text></svg>''\<close>

definition gridLine :: "real \<Rightarrow> real \<Rightarrow> real \<Rightarrow> string" where
  \<open>gridLine pL y right =
     ''<line x1="'' @ f0 pL @ ''" y1="'' @ f1 y @ ''" x2="'' @ f1 right @ ''" y2="'' @ f1 y @
     ''" stroke="rgba(255,255,255,.055)" stroke-width="1"></line>''\<close>

definition axisText :: "real \<Rightarrow> real \<Rightarrow> string \<Rightarrow> string \<Rightarrow> string \<Rightarrow> string" where
  \<open>axisText x y anchor fill label =
     ''<text x="'' @ f1 x @ ''" y="'' @ f1 y @ ''" text-anchor="'' @ anchor @ ''" fill="'' @ fill @
     ''" style="font:500 9px var(--mono)">'' @ label @ ''</text>''\<close>

definition gradient :: "string \<Rightarrow> string \<Rightarrow> string \<Rightarrow> string" where
  \<open>gradient ident color opacity =
     ''<linearGradient id="'' @ ident @ ''" x1="0" y1="0" x2="0" y2="1"><stop offset="0%" stop-color="'' @ color @ ''" stop-opacity="'' @ opacity @
     ''"></stop><stop offset="100%" stop-color="'' @ color @ ''" stop-opacity="0"></stop></linearGradient>''\<close>

definition area :: "string \<Rightarrow> real \<Rightarrow> real \<Rightarrow> real \<Rightarrow> string \<Rightarrow> string" where
  \<open>area line right base left fill =
     ''<path d="'' @ line @ '' L'' @ f1 right @ '','' @ f1 base @ '' L'' @ f1 left @ '','' @ f1 base @ '' Z" fill="url(#'' @ fill @ '')"></path>''\<close>

definition stroke :: "string \<Rightarrow> string \<Rightarrow> string \<Rightarrow> string \<Rightarrow> string" where
  \<open>stroke line color width dash =
     ''<path d="'' @ line @ ''" fill="none" stroke="'' @ color @ ''" stroke-width="'' @ width @ ''"'' @ dash @ '' stroke-linejoin="round"></path>''\<close>

section \<open>The timeline\<close>

text \<open>The three series: requests and errors per second, and the 95th percentile.\<close>

definition stepSec :: "duration \<Rightarrow> real" where
  "stepSec step = (if seconds step \<le> 0 then 1 else seconds step)"

definition tsRate :: "duration \<Rightarrow> TimePoint \<Rightarrow> real" where
  "tsRate step p = real (unat (tp_Count p)) / stepSec step"

definition tsErr :: "duration \<Rightarrow> TimePoint \<Rightarrow> real" where
  "tsErr step p = real (unat (tp_Count p)) * tp_ErrorRate p / stepSec step"

definition timeSeriesSVG :: "TimePoint list \<Rightarrow> duration \<Rightarrow> string" where
  "timeSeriesSVG points step =
     (let w = 560; hgt = 250; pL = 44; pR = 46; pT = 14; pB = 26 in
      if length points < 2 then emptyChart w hgt ''no time-series data yet''
      else
        let n = length points; rate = map (tsRate step) points; errPS = map (tsErr step) points; p95 = map tp_P95 points;
            rMax = axisMax (115 / 100) rate; pMax = axisMax (12 / 10) p95;
            x = linX w pL pR n; yr = linY hgt pT pB rMax; yp = linY hgt pT pB pMax;
            rLine = svgPath x yr rate; eLine = svgPath x yr errPS
        in svgOpen w hgt @ ''<defs>'' @ gradient ''ts'' ''#B4F14A'' ''0.22'' @ gradient ''tse'' ''#FF6B6B'' ''0.30'' @ ''</defs>'' @
           concat (map (\<lambda>g. let y = pT + real g * (hgt - pT - pB) / 3 in
                gridLine pL y (w - pR) @
                axisText (pL - 8) (y + 3) ''end'' ''#69727F'' (f0 (rMax * (1 - real g / 3))) @
                axisText (w - pR + 8) (y + 3) ''start'' ''#A78BFA'' (f0 (pMax * (1 - real g / 3) * 1000))) [0..<4]) @
           area rLine (x (n - 1)) (hgt - pB) pL ''ts'' @ area eLine (x (n - 1)) (hgt - pB) pL ''tse'' @
           stroke rLine ''#B4F14A'' ''2'' '''' @ stroke eLine ''#FF6B6B'' ''2'' '''' @ stroke (svgPath x yp p95) ''#A78BFA'' ''2'' '''' @ ''</svg>'')"

section \<open>The histogram\<close>

definition barLess :: "HistogramBar \<Rightarrow> HistogramBar \<Rightarrow> bool" where
  "barLess a b \<longleftrightarrow> hb_LatencySeconds a < hb_LatencySeconds b"

definition countMax :: "HistogramBar list \<Rightarrow> u64" where
  "countMax bars = (let m = fold (\<lambda>b m. if hb_Count b > m then hb_Count b else m) bars 0 in if m = 0 then 1 else m)"

definition barWidth :: "nat \<Rightarrow> real" where
  "barWidth n = (760 - 8 - 8) / real n"

definition barHeight :: "u64 \<Rightarrow> HistogramBar \<Rightarrow> real" where
  "barHeight cMax b = real (unat (hb_Count b)) / real (unat cMax) * (220 - 12 - 34)"

definition barRect :: "real \<Rightarrow> u64 \<Rightarrow> nat \<times> HistogramBar \<Rightarrow> real \<times> real \<times> real \<times> real" where
  "barRect bw cMax = (\<lambda>(i, b). (8 + real i * bw + 3, 220 - 34 - barHeight cMax b, bw - 6, barHeight cMax b))"

definition barSVG :: "real \<Rightarrow> u64 \<Rightarrow> nat \<times> HistogramBar \<Rightarrow> string" where
  \<open>barSVG bw cMax = (\<lambda>(i, b).
     (case barRect bw cMax (i, b) of (x, y, width, height) \<Rightarrow>
        ''<rect x="'' @ f1 x @ ''" y="'' @ f1 y @ ''" width="'' @ f1 width @ ''" height="'' @ f1 height @
        ''" rx="3" fill="#A78BFA" opacity="0.78"></rect>'') @
     (if i mod 2 = 0 then axisText (8 + real i * bw + bw / 2) (220 - 34 + 16) ''middle'' ''#69727F'' (latencyLabel (hb_LatencySeconds b)) else ''''))\<close>

definition markerIndex :: "HistogramBar list \<Rightarrow> real \<Rightarrow> nat" where
  "markerIndex sorted' val = fold (\<lambda>(i, b) idx. if hb_LatencySeconds b \<le> val then i else idx) (enumerate 0 sorted') 0"

definition marker :: "HistogramBar list \<Rightarrow> real \<Rightarrow> real \<times> string \<times> string \<Rightarrow> string" where
  \<open>marker sorted' bw = (\<lambda>(val, label, color).
     let x = 8 + real (markerIndex sorted' val) * bw + bw / 2
     in ''<line x1="'' @ f1 x @ ''" y1="'' @ f0 12 @ ''" x2="'' @ f1 x @ ''" y2="'' @ f0 (220 - 34) @ ''" stroke="'' @ color @
        ''" stroke-width="1.4" stroke-dasharray="3 3" opacity="0.9"></line>'' @
        ''<text x="'' @ f1 x @ ''" y="'' @ f0 (12 + 2) @ ''" text-anchor="middle" fill="'' @ color @ ''" style="font:700 9px var(--mono)">'' @ label @ ''</text>'')\<close>

definition histogramSVG :: "HistogramBar list \<Rightarrow> real \<Rightarrow> real \<Rightarrow> real \<Rightarrow> string" where
  "histogramSVG bars p50 p95 p99 =
     (if bars = [] then emptyChart 760 220 ''no latency data yet''
      else
        let sorted' = stableSort barLess bars; cMax = countMax sorted'; bw = barWidth (length sorted')
        in svgOpen 760 220 @ concat (map (barSVG bw cMax) (enumerate 0 sorted')) @
           concat (map (marker sorted' bw) [(p50, ''p50'', ''#5FE3A1''), (p95, ''p95'', ''#B4F14A''), (p99, ''p99'', ''#FF6B6B'')]) @ ''</svg>'')"

section \<open>The memory trend\<close>

definition memoryTrendSVG :: "MemoryTrendPoint list \<Rightarrow> string" where
  \<open>memoryTrendSVG points =
     (let w = 560; hgt = 210; pL = 62; pR = 12; pT = 14; pB = 20 in
      if length points < 2 then emptyChart w hgt ''no memory data yet''
      else
        let n = length points; postGC = map (\<lambda>p. real (unat (mt_PostGCHeapBytes p))) points;
            inuse = map (\<lambda>p. real (unat (mt_HeapInuseBytes p))) points;
            vMax = axisMax (115 / 100) (concat (map (\<lambda>(a, b). [a, b]) (zip postGC inuse)));
            x = linX w pL pR n; y = linY hgt pT pB vMax; pgLine = svgPath x y postGC
        in svgOpen w hgt @ ''<defs>'' @ gradient ''mt'' ''#B4F14A'' ''0.20'' @ ''</defs>'' @
           concat (map (\<lambda>g. let gy = pT + real g * (hgt - pT - pB) / 3 in
                gridLine pL gy (w - pR) @
                axisText (pL - 8) (gy + 3) ''end'' ''#69727F'' (bytesLabel (vMax * (1 - real g / 3)))) [0..<4]) @
           area pgLine (x (n - 1)) (hgt - pB) pL ''mt'' @
           stroke (svgPath x y inuse) ''#69727F'' ''1.6'' '' stroke-dasharray="4 3"'' @ stroke pgLine ''#B4F14A'' ''2'' '''' @ ''</svg>'')\<close>

section \<open>The data stays in its frame\<close>

lemma runMax_ge: "m \<le> fold (\<lambda>v m. if v > m then v else m) vs (m :: real) \<and> (\<forall>v \<in> set vs. v \<le> fold (\<lambda>v m. if v > m then v else m) vs m)"
proof (induction vs arbitrary: m)
  case (Cons v vs)
  show ?case using Cons [of "if v > m then v else m"] by fastforce
qed simp

lemma runMax_bound: "v \<in> set vs \<Longrightarrow> v \<le> runMax vs" "0 \<le> runMax vs"
  using runMax_ge [of 0 vs] by (auto simp: runMax_def)

lemma axisMax_bound:
  assumes "v \<in> set vs" and "1 \<le> factor"
  shows "0 < axisMax factor vs \<and> v \<le> axisMax factor vs"
proof -
  have "v \<le> runMax vs * factor"
    using runMax_bound(1) [OF assms(1)] runMax_bound(2) [of vs] assms(2) by (metis mult_le_cancel_left1 not_less order_trans)
  then show ?thesis by (auto simp: axisMax_def Let_def)
qed

lemma linX_frame:
  assumes "i < n" and "2 \<le> n" and "pL \<le> w - pR"
  shows "pL \<le> linX w pL pR n i \<and> linX w pL pR n i \<le> w - pR"
proof -
  have i: "0 \<le> real i / real (n - 1)" "real i / real (n - 1) \<le> 1" using assms(1,2) by (auto simp: divide_le_eq)
  have eq: "linX w pL pR n i = pL + (real i / real (n - 1)) * (w - pL - pR)" by (simp add: linX_def)
  show ?thesis unfolding eq
    using i assms(3) mult_left_le_one_le [of "w - pL - pR" "real i / real (n - 1)"] by auto
qed

lemma linY_frame:
  assumes "0 \<le> v" and "v \<le> vMax" and "0 < vMax" and "pT \<le> hgt - pB"
  shows "pT \<le> linY hgt pT pB vMax v \<and> linY hgt pT pB vMax v \<le> hgt - pB"
proof -
  have i: "0 \<le> v / vMax" "v / vMax \<le> 1" using assms by (auto simp: divide_le_eq)
  then show ?thesis unfolding linY_def
    using assms(4) mult_left_le_one_le [of "hgt - pT - pB" "v / vMax"] mult_nonneg_nonneg [of "v / vMax" "hgt - pT - pB"] by simp
qed

text \<open>
  The timeline stays inside its frame: for two points or more, with error rates in [0, 1] and latencies of
  at least zero, every vertex of the three lines lies in the plot area, the vertices go from left to
  right, and the error line is never above the request line it is a part of.
\<close>

theorem timeline_in_frame:
  assumes "2 \<le> length points" and "i < length points"
    and "\<forall>p \<in> set points. 0 \<le> tp_ErrorRate p \<and> tp_ErrorRate p \<le> 1 \<and> 0 \<le> tp_P95 p"
  shows "let n = length points; p = points ! i; x = linX 560 44 46 n;
      yr = linY 250 14 26 (axisMax (115 / 100) (map (tsRate step) points)); yp = linY 250 14 26 (axisMax (12 / 10) (map tp_P95 points))
    in 44 \<le> x i \<and> x i \<le> 514 \<and> (\<forall>j < i. x j < x i) \<and>
       14 \<le> yr (tsRate step p) \<and> yr (tsRate step p) \<le> yr (tsErr step p) \<and> yr (tsErr step p) \<le> 224 \<and>
       14 \<le> yp (tp_P95 p) \<and> yp (tp_P95 p) \<le> 224"
proof -
  let ?n = "length points" and ?p = "points ! i"
  let ?rMax = "axisMax (115 / 100) (map (tsRate step) points)" and ?pMax = "axisMax (12 / 10) (map tp_P95 points)"
  have p: "?p \<in> set points" using assms(2) by simp
  have s: "0 < stepSec step" by (simp add: stepSec_def)
  have e: "0 \<le> tp_ErrorRate ?p" "tp_ErrorRate ?p \<le> 1" using assms(3) p by auto
  have c: "0 \<le> real (unat (tp_Count ?p))" by (rule of_nat_0_le_iff)
  have rate: "0 \<le> tsErr step ?p" "tsErr step ?p \<le> tsRate step ?p"
    unfolding tsErr_def tsRate_def
    by (intro divide_nonneg_pos mult_nonneg_nonneg c e s, intro divide_right_mono mult_left_le c e less_imp_le [OF s])
  have r: "0 < ?rMax" "tsRate step ?p \<le> ?rMax" using axisMax_bound [of "tsRate step ?p" "map (tsRate step) points"] p by auto
  have l: "0 < ?pMax" "tp_P95 ?p \<le> ?pMax" using axisMax_bound [of "tp_P95 ?p" "map tp_P95 points"] p by auto
  have x: "44 \<le> linX 560 44 46 ?n i \<and> linX 560 44 46 ?n i \<le> 514" using linX_frame [OF assms(2,1), of 44 560 46] by simp
  have inc: "linX 560 44 46 ?n j < linX 560 44 46 ?n i" if "j < i" for j
    using that assms(1) by (auto simp: linX_def divide_strict_right_mono)
  have mono: "linY 250 14 26 ?rMax (tsRate step ?p) \<le> linY 250 14 26 ?rMax (tsErr step ?p)"
    using rate r(1) by (simp add: linY_def divide_right_mono)
  show ?thesis
    using x inc mono linY_frame [of "tsRate step ?p" ?rMax 14 250 26] linY_frame [of "tsErr step ?p" ?rMax 14 250 26]
      linY_frame [of "tp_P95 ?p" ?pMax 14 250 26] rate r l assms(3) p by (simp add: Let_def)
qed

section \<open>The histogram's bars and markers\<close>

interpretation bar: weak_order barLess
  by unfold_locales (auto simp: barLess_def)

lemma countMax_bound:
  fixes m :: u64
  shows "m \<le> fold (\<lambda>b m. if hb_Count b > m then hb_Count b else m) bars m \<and>
     (\<forall>b \<in> set bars. hb_Count b \<le> fold (\<lambda>b m. if hb_Count b > m then hb_Count b else m) bars m)"
proof (induction bars arbitrary: m)
  case (Cons b bars)
  show ?case using Cons [of "if hb_Count b > m then hb_Count b else m"] by fastforce
qed simp

lemma countMax_ge: "b \<in> set bars \<Longrightarrow> hb_Count b \<le> countMax bars" "0 < countMax bars"
  using countMax_bound [of 0 bars] by (auto simp: countMax_def Let_def word_gt_0)

lemma markerIndex_spec:
  "fold (\<lambda>(i, b) idx. if hb_LatencySeconds b \<le> val then i else idx) (enumerate k bs) idx0 =
     (if \<exists>b \<in> set bs. hb_LatencySeconds b \<le> val
      then k + Max {i. i < length bs \<and> hb_LatencySeconds (bs ! i) \<le> val} else idx0)"
proof (induction bs rule: rev_induct)
  case (snoc b bs)
  let ?S = "\<lambda>xs. {i. i < length xs \<and> hb_LatencySeconds (xs ! i) \<le> val}"
  show ?case
  proof (cases "hb_LatencySeconds b \<le> val")
    case True
    have "Max (?S (bs @ [b])) = length bs"
      using True by (intro Max_eqI) (auto simp: nth_append)
    then show ?thesis using True by (simp add: enumerate_append_eq)
  next
    case False
    have "?S (bs @ [b]) = ?S bs" using False by (auto simp: nth_append less_Suc_eq)
    then show ?thesis using False snoc by (simp add: enumerate_append_eq)
  qed
qed simp

lemma markerIndex_less:
  assumes "bs \<noteq> []"
  shows "markerIndex bs val < length bs"
proof -
  have "idx0 < k + length bs \<Longrightarrow>
    fold (\<lambda>(i, b) idx. if hb_LatencySeconds b \<le> val then i else idx) (enumerate k bs) idx0 < k + length bs" for k idx0
  proof (induction bs arbitrary: k idx0)
    case (Cons b bs)
    then show ?case using Cons.IH [of k "Suc k"] Cons.IH [of idx0 "Suc k"] by (simp add: split: if_splits)
  qed simp
  from this [of 0 0] assms show ?thesis by (simp add: markerIndex_def)
qed

lemma stableSort_Nil: "stableSort lt xs = [] \<longleftrightarrow> xs = []"
  by (metis length_0_conv length_stableSort)

lemma barHeight_bound:
  assumes "b \<in> set bs"
  shows "0 \<le> barHeight (countMax bs) b \<and> barHeight (countMax bs) b \<le> 174"
proof -
  have "unat (hb_Count b) \<le> unat (countMax bs)" using countMax_ge(1) [OF assms] unfolding word_le_nat_alt .
  moreover have "0 < unat (countMax bs)" using countMax_ge(2) [of bs] unfolding word_less_nat_alt by simp
  moreover have "m \<le> n \<Longrightarrow> 0 < n \<Longrightarrow> real m / real n \<le> 1" for m n by (simp add: divide_le_eq)
  ultimately have r: "real (unat (hb_Count b)) / real (unat (countMax bs)) \<le> 1" by blast
  have "0 \<le> real (unat (hb_Count b)) / real (unat (countMax bs))" by (intro divide_nonneg_nonneg of_nat_0_le_iff)
  then show ?thesis using mult_right_mono [OF r, of 174] unfolding barHeight_def by (simp del: of_nat_unat)
qed

lemma barRect_width:
  assumes "bars \<noteq> []"
  shows "fst (snd (snd (barRect (barWidth (length bars)) cMax ib))) < 0 \<longleftrightarrow> 124 < length bars"
proof -
  have "fst (snd (snd (barRect (barWidth (length bars)) cMax ib))) = 744 / real (length bars) - 6"
    by (simp add: barRect_def barWidth_def split_def)
  moreover have "0 < real (length bars)" using assms by simp
  ultimately show ?thesis by (simp add: divide_less_eq)
qed

text \<open>
  The histogram draws each bucket once, by increasing latency, no bar higher than the plot, and puts a
  percentile's marker on the last bar whose latency does not exceed it. But a bar is six units narrower
  than its slot: from 125 buckets on, which a sketch of relative error one percent reaches when latencies
  spread over a factor of 3.5, every width is negative, and an SVG viewer draws no bar at all.
\<close>

theorem histogram_bars:
  assumes "bars \<noteq> []"
  shows "mset (stableSort barLess bars) = mset bars \<and>
    sorted_wrt (\<lambda>a b. hb_LatencySeconds a \<le> hb_LatencySeconds b) (stableSort barLess bars) \<and>
    (\<forall>b \<in> set bars. 0 \<le> barHeight (countMax (stableSort barLess bars)) b \<and> barHeight (countMax (stableSort barLess bars)) b \<le> 174) \<and>
    markerIndex (stableSort barLess bars) val < length bars \<and>
    (\<forall>ib. fst (snd (snd (barRect (barWidth (length bars)) cMax ib))) < 0 \<longleftrightarrow> 124 < length bars)"
proof -
  let ?s = "stableSort barLess bars"
  have "sorted_wrt (\<lambda>a b. hb_LatencySeconds a \<le> hb_LatencySeconds b) ?s"
    using bar.stableSort_sorted [of bars] unfolding barLess_def not_less .
  moreover have "markerIndex ?s val < length bars"
    using markerIndex_less [of ?s val] assms stableSort_Nil by (metis length_stableSort)
  ultimately show ?thesis using barHeight_bound [of _ ?s] barRect_width [OF assms] by simp
qed

end
