(* ===== verification/Tenant_Query.thy ===== *)
theory Tenant_Query
  imports Web_View
begin

text \<open>
  The read side the web layer sees: the tenant-bound handle of src/server/internal/storage/query.go
  (\<open>QueryService.Tenant\<close> and the methods of \<open>TenantQuery\<close>), the row scanner, and the instance gauges of
  instancewindows.go. The interface \<open>ScopedQuery\<close> of src/server/internal/web/web_types.go promises that every
  method is bound to the tenant of its handle; that promise is the locale \<open>scoped_read\<close>, interpreted for
  each method.
\<close>

section \<open>Scanning (scanRows)\<close>

text \<open>A cursor: for each row the scanned value, or nothing when \<open>Scan\<close> fails, and whether it ended without error.\<close>

fun scanRows :: "'a option list \<Rightarrow> bool \<Rightarrow> 'a list option" where
  "scanRows [] fine = (if fine then Some [] else None)"
| "scanRows (r # rs) fine =
     (case r of None \<Rightarrow> None | Some v \<Rightarrow> (case scanRows rs fine of None \<Rightarrow> None | Some vs \<Rightarrow> Some (v # vs)))"

lemma scanRows_all: "scanRows rs fine = (if fine \<and> None \<notin> set rs then Some (map the rs) else None)"
  by (induction rs) (auto split: option.split)

section \<open>Instance gauges (instancewindows.go)\<close>

text \<open>
  The GC share is a Float64 column. Its average is the exact mean of the finite values; a group with a NaN
  or an infinity, which no Go runtime reports but a client could send, is outside the model (\<open>None\<close>).
\<close>

fun finiteValue :: "float64 \<Rightarrow> real option" where
  "finiteValue (Fin r) = Some r"
| "finiteValue _ = None"

definition meanOf :: "float64 list \<Rightarrow> real option" where
  "meanOf xs = (if None \<in> set (map finiteValue xs) then None
     else Some (sum_list (map (\<lambda>x. the (finiteValue x)) xs) / real (length xs)))"

definition resourceGroup :: "string \<Rightarrow> InstanceWindowRow list \<Rightarrow> InstanceResourceStat option" where
  "resourceGroup inst g =
     map_option (\<lambda>mean.
       \<lparr>irs_Instance = inst, irs_CPUNs = sum_list (map iw_CPUNs g), irs_RSSBytes = maxOf (map iw_RSSBytes g),
        irs_HeapAllocBytes = maxOf (map iw_HeapAllocBytes g), irs_GCPauseNs = sum_list (map iw_GCPauseNs g),
        irs_Goroutines = maxOf (map iw_Goroutines g), irs_NumGC = sum_list (map iw_NumGC g),
        irs_TotalAllocBytes = sum_list (map iw_TotalAllocBytes g), irs_Mallocs = sum_list (map iw_Mallocs g),
        irs_GCCPUFraction = mean, irs_HeapInuseBytes = maxOf (map iw_HeapInuseBytes g),
        irs_GOMAXPROCS = fold max (map iw_GOMAXPROCS g) 0, irs_PostGCHeapBytes = maxOf (map iw_PostGCHeapBytes g),
        irs_RSSTrueBytes = maxOf (map iw_RSSTrueBytes g), irs_OpenFDs = maxOf (map iw_OpenFDs g),
        irs_FDLimit = maxOf (map iw_FDLimit g), irs_InFlight = maxOf (map iw_InFlight g)\<rparr>)
     (meanOf (map iw_GCCPUFraction g))"

definition instanceResourcesQueryTemplate ::
  "tenantID \<Rightarrow> string \<Rightarrow> instant \<Rightarrow> instant \<Rightarrow> InstanceWindowRow list \<Rightarrow> InstanceResourceStat list option" where
  "instanceResourcesQueryTemplate tid service from' to windows =
     (let ws = filter (\<lambda>w. iw_Tenant w = tid \<and> iw_Service w = service \<and> inWindow from' to (iw_WindowStart w)) windows
      in scanRows (map (\<lambda>k. resourceGroup k (groupBy iw_Instance ws k)) (sort (remdups (map iw_Instance ws)))) True)"

definition InstanceResourcesForService ::
  "conn \<Rightarrow> tenantID \<Rightarrow> string \<Rightarrow> instant \<Rightarrow> instant \<Rightarrow> (queryError + InstanceResourceStat list) option" where
  "InstanceResourcesForService c tid service from' to =
     (if \<not> cn_ok c then Some (Inl QueryFailed)
      else map_option Inr (instanceResourcesQueryTemplate tid service from' to (cn_windows c)))"

section \<open>The tenant's handle (TenantQuery)\<close>

record TenantQuery =
  tq_conn :: conn
  tq_tenant :: tenantID

definition QueryService_Tenant :: "conn \<Rightarrow> tenantID \<Rightarrow> TenantQuery" where
  "QueryService_Tenant s tid = \<lparr>tq_conn = s, tq_tenant = tid\<rparr>"

definition tq_SeriesOverTime :: "TenantQuery \<Rightarrow> string \<Rightarrow> string \<Rightarrow> string \<Rightarrow> instant \<Rightarrow> instant \<Rightarrow> duration \<Rightarrow> queryError + TimePoint list" where
  "tq_SeriesOverTime q service method route from' to step = SeriesOverTime (tq_conn q) (tq_tenant q) service method route from' to step"

definition tq_Services :: "TenantQuery \<Rightarrow> instant \<Rightarrow> instant \<Rightarrow> queryError + ServiceStat list" where
  "tq_Services q from' to = Services (tq_conn q) (tq_tenant q) from' to"

definition tq_HasAnySummary :: "TenantQuery \<Rightarrow> queryError + bool" where
  "tq_HasAnySummary q = HasAnySummary (tq_conn q) (tq_tenant q)"

definition tq_Endpoints :: "TenantQuery \<Rightarrow> string \<Rightarrow> instant \<Rightarrow> instant \<Rightarrow> queryError + EndpointStat list" where
  "tq_Endpoints q service from' to = Endpoints (tq_conn q) (tq_tenant q) service from' to"

definition tq_EndpointDetail :: "TenantQuery \<Rightarrow> string \<Rightarrow> string \<Rightarrow> string \<Rightarrow> instant \<Rightarrow> instant \<Rightarrow> queryError + EndpointDetail" where
  "tq_EndpointDetail q service method route from' to = QueryEndpointDetail (tq_conn q) (tq_tenant q) service method route from' to"

definition tq_InstancesForEndpoint :: "TenantQuery \<Rightarrow> string \<Rightarrow> string \<Rightarrow> string \<Rightarrow> instant \<Rightarrow> instant \<Rightarrow> queryError + InstanceStat list" where
  "tq_InstancesForEndpoint q service method route from' to = InstancesForEndpoint (tq_conn q) (tq_tenant q) service method route from' to"

definition tq_VersionsForEndpoint :: "TenantQuery \<Rightarrow> string \<Rightarrow> string \<Rightarrow> string \<Rightarrow> instant \<Rightarrow> instant \<Rightarrow> queryError + VersionStat list" where
  "tq_VersionsForEndpoint q service method route from' to = VersionsForEndpoint (tq_conn q) (tq_tenant q) service method route from' to"

definition tq_ExemplarsForEndpoint :: "TenantQuery \<Rightarrow> string \<Rightarrow> string \<Rightarrow> string \<Rightarrow> instant \<Rightarrow> instant \<Rightarrow> queryError + RowExemplar list" where
  "tq_ExemplarsForEndpoint q service method route from' to = ExemplarsForEndpoint (tq_conn q) (tq_tenant q) service method route from' to"

definition tq_LatencyByStatusClass :: "TenantQuery \<Rightarrow> string \<Rightarrow> string \<Rightarrow> string \<Rightarrow> instant \<Rightarrow> instant \<Rightarrow> queryError + (string, ClassLatency) gomap" where
  "tq_LatencyByStatusClass q service method route from' to = LatencyByStatusClass (tq_conn q) (tq_tenant q) service method route from' to"

definition tq_ErrorClassesForEndpoint :: "TenantQuery \<Rightarrow> string \<Rightarrow> string \<Rightarrow> string \<Rightarrow> instant \<Rightarrow> instant \<Rightarrow> queryError + ErrorClassStat list" where
  "tq_ErrorClassesForEndpoint q service method route from' to = ErrorClassesForEndpoint (tq_conn q) (tq_tenant q) service method route from' to"

definition tq_NoStatusReasonsForEndpoint :: "TenantQuery \<Rightarrow> string \<Rightarrow> string \<Rightarrow> string \<Rightarrow> instant \<Rightarrow> instant \<Rightarrow> queryError + NoStatusReasonStat list" where
  "tq_NoStatusReasonsForEndpoint q service method route from' to = NoStatusReasonsForEndpoint (tq_conn q) (tq_tenant q) service method route from' to"

definition tq_DownstreamForEndpoint :: "TenantQuery \<Rightarrow> string \<Rightarrow> string \<Rightarrow> string \<Rightarrow> instant \<Rightarrow> instant \<Rightarrow> queryError + DownstreamStat" where
  "tq_DownstreamForEndpoint q service method route from' to = DownstreamForEndpoint (tq_conn q) (tq_tenant q) service method route from' to"

definition tq_PerformanceStats :: "TenantQuery \<Rightarrow> instant \<Rightarrow> instant \<Rightarrow> queryError + PerformanceStat" where
  "tq_PerformanceStats q from' to = PerformanceStats (tq_conn q) (tq_tenant q) from' to"

definition tq_Usage :: "TenantQuery \<Rightarrow> instant \<Rightarrow> queryError + TenantUsage" where
  "tq_Usage q now = Usage (tq_conn q) (tq_tenant q) now"

definition tq_InstanceResourcesForService :: "TenantQuery \<Rightarrow> string \<Rightarrow> instant \<Rightarrow> instant \<Rightarrow> (queryError + InstanceResourceStat list) option" where
  "tq_InstanceResourcesForService q service from' to = InstanceResourcesForService (tq_conn q) (tq_tenant q) service from' to"

definition tq_MemoryTrendForService :: "TenantQuery \<Rightarrow> string \<Rightarrow> instant \<Rightarrow> instant \<Rightarrow> duration \<Rightarrow> queryError + MemoryTrendPoint list" where
  "tq_MemoryTrendForService q service from' to step = MemoryTrendForService (tq_conn q) (tq_tenant q) service from' to step"

section \<open>The promise of the handle\<close>

text \<open>What other tenants write: rows and gauges under their own ids.\<close>

definition addRows :: "(tierTable \<Rightarrow> Row list) \<Rightarrow> InstanceWindowRow list \<Rightarrow> conn \<Rightarrow> conn" where
  "addRows rs ws c = c\<lparr>cn_rows := (\<lambda>t. cn_rows c t @ rs t), cn_windows := cn_windows c @ ws\<rparr>"

definition foreign :: "tenantID \<Rightarrow> (tierTable \<Rightarrow> Row list) \<Rightarrow> InstanceWindowRow list \<Rightarrow> bool" where
  "foreign tid rs ws \<longleftrightarrow> (\<forall>t. list_all (\<lambda>r. row_Tenant r \<noteq> tid) (rs t)) \<and> list_all (\<lambda>w. iw_Tenant w \<noteq> tid) ws"

lemma sameTenant_addRows: "foreign tid rs ws \<Longrightarrow> sameTenant tid (addRows rs ws c) c"
  by (auto simp: sameTenant_def addRows_def foreign_def list_all_iff filter_empty_conv)

locale scoped_read =
  fixes reads :: "conn \<Rightarrow> tenantID \<Rightarrow> 'a"
  assumes scoped: "sameTenant tid c c' \<Longrightarrow> reads c tid = reads c' tid"
begin

lemma foreign_writes_invisible: "foreign tid rs ws \<Longrightarrow> reads (addRows rs ws c) tid = reads c tid"
  using scoped [OF sameTenant_addRows] .

end

lemma PerformanceStats_scoped:
  assumes "sameTenant tid c c'"
  shows "PerformanceStats (c\<lparr>cn_parts := p\<rparr>) tid from' to = PerformanceStats (c'\<lparr>cn_parts := p\<rparr>) tid from' to"
  using sameTenant_ok [OF assms] unfolding PerformanceStats_def summaryRowBytes_def
  by (simp add: sameTenant_rows [OF assms])

lemma Usage_scoped:
  assumes "sameTenant tid c c'"
  shows "Usage (c\<lparr>cn_parts := p\<rparr>) tid now = Usage (c'\<lparr>cn_parts := p\<rparr>) tid now"
proof -
  have "filter (\<lambda>r. row_Tenant r = tid) (cn_rows c t) = filter (\<lambda>r. row_Tenant r = tid) (cn_rows c' t)" for t
    using assms by (simp add: sameTenant_def)
  then show ?thesis
    using sameTenant_ok [OF assms] PerformanceStats_scoped [OF assms] sameTenant_rows [OF assms]
    unfolding Usage_def by simp
qed

lemma InstanceResourcesForService_scoped:
  assumes "sameTenant tid c c'"
  shows "InstanceResourcesForService c tid service from' to = InstanceResourcesForService c' tid service from' to"
  using sameTenant_ok [OF assms] unfolding InstanceResourcesForService_def instanceResourcesQueryTemplate_def
  by (simp only: sameTenant_windows [OF assms] simp_thms)

interpretation sc_SeriesOverTime: scoped_read "\<lambda>c tid. SeriesOverTime c tid service m rt from' to step" for service m rt from' to step
  by unfold_locales (use queries_scoped_to_tenant in blast)

interpretation sc_Services: scoped_read "\<lambda>c tid. Services c tid from' to" for from' to
  by unfold_locales (use queries_scoped_to_tenant in blast)

interpretation sc_HasAnySummary: scoped_read "\<lambda>c tid. HasAnySummary c tid"
  by unfold_locales (use queries_scoped_to_tenant in blast)

interpretation sc_Endpoints: scoped_read "\<lambda>c tid. Endpoints c tid service from' to" for service from' to
  by unfold_locales (use queries_scoped_to_tenant in blast)

interpretation sc_EndpointDetail: scoped_read "\<lambda>c tid. QueryEndpointDetail c tid service m rt from' to" for service m rt from' to
  by unfold_locales (use queries_scoped_to_tenant in blast)

interpretation sc_InstancesForEndpoint: scoped_read "\<lambda>c tid. InstancesForEndpoint c tid service m rt from' to" for service m rt from' to
  by unfold_locales (use queries_scoped_to_tenant in blast)

interpretation sc_VersionsForEndpoint: scoped_read "\<lambda>c tid. VersionsForEndpoint c tid service m rt from' to" for service m rt from' to
  by unfold_locales (use queries_scoped_to_tenant in blast)

interpretation sc_ExemplarsForEndpoint: scoped_read "\<lambda>c tid. ExemplarsForEndpoint c tid service m rt from' to" for service m rt from' to
  by unfold_locales (use queries_scoped_to_tenant in blast)

interpretation sc_LatencyByStatusClass: scoped_read "\<lambda>c tid. LatencyByStatusClass c tid service m rt from' to" for service m rt from' to
  by unfold_locales (use queries_scoped_to_tenant in blast)

interpretation sc_ErrorClassesForEndpoint: scoped_read "\<lambda>c tid. ErrorClassesForEndpoint c tid service m rt from' to" for service m rt from' to
  by unfold_locales (use queries_scoped_to_tenant in blast)

interpretation sc_NoStatusReasonsForEndpoint: scoped_read "\<lambda>c tid. NoStatusReasonsForEndpoint c tid service m rt from' to" for service m rt from' to
  by unfold_locales (use queries_scoped_to_tenant in blast)

interpretation sc_DownstreamForEndpoint: scoped_read "\<lambda>c tid. DownstreamForEndpoint c tid service m rt from' to" for service m rt from' to
  by unfold_locales (use queries_scoped_to_tenant in blast)

interpretation sc_PerformanceStats: scoped_read "\<lambda>c tid. PerformanceStats (c\<lparr>cn_parts := p\<rparr>) tid from' to" for p from' to
  by unfold_locales (rule PerformanceStats_scoped)

interpretation sc_Usage: scoped_read "\<lambda>c tid. Usage (c\<lparr>cn_parts := p\<rparr>) tid now" for p now
  by unfold_locales (rule Usage_scoped)

interpretation sc_InstanceResourcesForService: scoped_read "\<lambda>c tid. InstanceResourcesForService c tid service from' to" for service from' to
  by unfold_locales (rule InstanceResourcesForService_scoped)

interpretation sc_MemoryTrendForService: scoped_read "\<lambda>c tid. MemoryTrendForService c tid service from' to step" for service from' to step
  by unfold_locales (use queries_scoped_to_tenant in blast)

section \<open>Properties\<close>

text \<open>
  A tenant's handle is blind to the other tenants: whatever rows and gauges are written under other ids, in
  any table, every method of the handle returns what it returned before. The scanner never returns part of
  a result.
\<close>

theorem tenant_handle_isolated:
  assumes "foreign tid rs ws" and "q = QueryService_Tenant c tid" and "q' = QueryService_Tenant (addRows rs ws c) tid"
  shows "tq_SeriesOverTime q' service m rt f t step = tq_SeriesOverTime q service m rt f t step \<and>
    tq_Services q' f t = tq_Services q f t \<and>
    tq_HasAnySummary q' = tq_HasAnySummary q \<and>
    tq_Endpoints q' service f t = tq_Endpoints q service f t \<and>
    tq_EndpointDetail q' service m rt f t = tq_EndpointDetail q service m rt f t \<and>
    tq_InstancesForEndpoint q' service m rt f t = tq_InstancesForEndpoint q service m rt f t \<and>
    tq_VersionsForEndpoint q' service m rt f t = tq_VersionsForEndpoint q service m rt f t \<and>
    tq_ExemplarsForEndpoint q' service m rt f t = tq_ExemplarsForEndpoint q service m rt f t \<and>
    tq_LatencyByStatusClass q' service m rt f t = tq_LatencyByStatusClass q service m rt f t \<and>
    tq_ErrorClassesForEndpoint q' service m rt f t = tq_ErrorClassesForEndpoint q service m rt f t \<and>
    tq_NoStatusReasonsForEndpoint q' service m rt f t = tq_NoStatusReasonsForEndpoint q service m rt f t \<and>
    tq_DownstreamForEndpoint q' service m rt f t = tq_DownstreamForEndpoint q service m rt f t \<and>
    tq_InstanceResourcesForService q' service f t = tq_InstanceResourcesForService q service f t \<and>
    tq_MemoryTrendForService q' service f t step = tq_MemoryTrendForService q service f t step \<and>
    tq_PerformanceStats q' f t = tq_PerformanceStats q f t \<and>
    tq_Usage q' now = tq_Usage q now"
proof -
  have p: "(addRows rs ws c)\<lparr>cn_parts := cn_parts c\<rparr> = addRows rs ws c" "c\<lparr>cn_parts := cn_parts c\<rparr> = c"
    by (simp_all add: addRows_def)
  have "PerformanceStats (addRows rs ws c) tid f t = PerformanceStats c tid f t"
    using sc_PerformanceStats.foreign_writes_invisible [OF assms(1), where p = "cn_parts c" and c = c] unfolding p .
  moreover have "Usage (addRows rs ws c) tid now = Usage c tid now"
    using sc_Usage.foreign_writes_invisible [OF assms(1), where p = "cn_parts c" and c = c] unfolding p .
  moreover note sc_SeriesOverTime.foreign_writes_invisible [OF assms(1)]
    sc_Services.foreign_writes_invisible [OF assms(1)]
    sc_HasAnySummary.foreign_writes_invisible [OF assms(1)]
    sc_Endpoints.foreign_writes_invisible [OF assms(1)]
    sc_EndpointDetail.foreign_writes_invisible [OF assms(1)]
    sc_InstancesForEndpoint.foreign_writes_invisible [OF assms(1)]
    sc_VersionsForEndpoint.foreign_writes_invisible [OF assms(1)]
    sc_ExemplarsForEndpoint.foreign_writes_invisible [OF assms(1)]
    sc_LatencyByStatusClass.foreign_writes_invisible [OF assms(1)]
    sc_ErrorClassesForEndpoint.foreign_writes_invisible [OF assms(1)]
    sc_NoStatusReasonsForEndpoint.foreign_writes_invisible [OF assms(1)]
    sc_DownstreamForEndpoint.foreign_writes_invisible [OF assms(1)]
    sc_InstanceResourcesForService.foreign_writes_invisible [OF assms(1)]
    sc_MemoryTrendForService.foreign_writes_invisible [OF assms(1)]
  ultimately show ?thesis
    unfolding assms(2,3) QueryService_Tenant_def tq_SeriesOverTime_def tq_Services_def tq_HasAnySummary_def tq_Endpoints_def tq_EndpointDetail_def tq_InstancesForEndpoint_def tq_VersionsForEndpoint_def tq_ExemplarsForEndpoint_def tq_LatencyByStatusClass_def tq_ErrorClassesForEndpoint_def tq_NoStatusReasonsForEndpoint_def tq_DownstreamForEndpoint_def tq_InstanceResourcesForService_def tq_MemoryTrendForService_def tq_PerformanceStats_def tq_Usage_def
    by (simp only: TenantQuery.select_convs simp_thms)
qed

end
