(* ===== verification/Detail_Page.thy ===== *)
theory Detail_Page
  imports Web_Shell Web_Chart Tenant_Query Go_Time
begin

text \<open>
  The endpoint page as a whole, \<open>serveEndpointDetail\<close> of src/server/internal/web/web_detail.go: the view of
  \<open>Web_Pages\<close> with its charts, the gauges read from the instance windows, the range controls with their
  label and the debug block (view_debug.go), inside the shell. The page is outside the model when a stored
  GC share is not finite (see \<open>Tenant_Query\<close>).
\<close>

section \<open>Labels (view_debug.go)\<close>

definition rangeLabel :: "string \<Rightarrow> instant \<Rightarrow> instant \<Rightarrow> bool \<Rightarrow> string" where
  "rangeLabel winKey from' to custom =
     (if custom then formatShort from' @ '' '' @ enDash @ '' '' @ formatShort to @ '' UTC'' else windowText winKey)"

record debugContext =
  dc_Service :: string
  dc_Method :: string
  dc_Route :: string
  dc_From :: string
  dc_To :: string
  dc_DominantErr :: string
  dc_Version :: string
  dc_P95 :: string
  dc_P99 :: string
  dc_Summary :: string

definition buildDebugContext ::
  "string \<Rightarrow> string \<Rightarrow> string \<Rightarrow> instant \<Rightarrow> instant \<Rightarrow> detailView \<Rightarrow> string \<Rightarrow> debugContext" where
  "buildDebugContext service method route from' to dv version =
     (let fromS = formatDateTimeUTC from'; toS = formatDateTimeUTC to; dom = dominantErrorClass (dv_Classes dv);
          p95 = fmtMsFull (dv_P95 dv); p99 = fmtMsFull (dv_P99 dv);
          dot = '' '' @ middleDot @ '' '';
          versionSeg = (if version \<noteq> '''' then dot @ ''version '' @ version else '''')
      in \<lparr>dc_Service = service, dc_Method = method, dc_Route = route, dc_From = fromS, dc_To = toS, dc_DominantErr = dom,
          dc_Version = version, dc_P95 = p95, dc_P99 = p99,
          dc_Summary = service @ dot @ method @ '' '' @ route @ dot @ fromS @ '' '' @ arrowChar @ '' '' @ toS @ dot @
            ''dominant error '' @ dom @ versionSeg @ dot @ ''p95 '' @ p95 @ dot @ ''p99 '' @ p99\<rparr>)"

section \<open>The page\<close>

record detailPage =
  pg_Shell :: Shell
  pg_Service :: string
  pg_Method :: string
  pg_Route :: string
  pg_Data :: detailData
  pg_Debug :: debugContext
  pg_Range :: detailRange
  pg_RangeLabel :: string
  pg_TSChart :: string
  pg_HistChart :: string

text \<open>\<open>t1\<close> is the clock when the range is resolved, \<open>t2\<close> when its controls are built.\<close>

definition detailPageOf ::
  "identityChrome \<Rightarrow> 'w webHandler \<Rightarrow> webRequest \<Rightarrow> urlValues \<Rightarrow> db \<Rightarrow> string \<Rightarrow> string \<Rightarrow> string \<Rightarrow> string \<Rightarrow> instant \<Rightarrow> instant \<Rightarrow> bool \<Rightarrow> duration \<Rightarrow>
   instant \<Rightarrow> EndpointDetail \<Rightarrow> detailPanels \<Rightarrow> detailPage" where
  "detailPageOf ic h r q d service method route winKey f t custom step t2 detail p =
     (let title = method @ '' '' @ route; view = toDetailView detail;
          crumbs = [\<lparr>cr_Label = ''services'', cr_Href = withWin ''/'' winKey\<rparr>,
                    \<lparr>cr_Label = service, cr_Href = withWin (''/services/'' @ service) winKey\<rparr>, \<lparr>cr_Label = title, cr_Href = ''''\<rparr>]
      in \<lparr>pg_Shell = buildShell ic h r q d ''overview'' crumbs title True winKey, pg_Service = service, pg_Method = method,
          pg_Route = route, pg_Data = detailOf detail p memoryTrendSVG f t,
          pg_Debug = buildDebugContext service method route f t view (dominantVersion (pn_versions p)),
          pg_Range = buildDetailRange service method route winKey f t t2 custom, pg_RangeLabel = rangeLabel winKey f t custom,
          pg_TSChart = timeSeriesSVG (pn_points p) step,
          pg_HistChart = histogramSVG (ed_Histogram detail) (ed_P50 detail) (ed_P95 detail) (ed_P99 detail)\<rparr>)"

definition serveDetailPage ::
  "identityChrome \<Rightarrow> 'w webHandler \<Rightarrow> conn \<Rightarrow> db \<Rightarrow> instant \<Rightarrow> instant \<Rightarrow> urlValues \<Rightarrow> webRequest \<Rightarrow> ((int \<times> string) + detailPage) option" where
  "serveDetailPage ic h c d t1 t2 q r =
     (case resolveTenant h r of
        None \<Rightarrow> Some (Inl (401, ''unauthorized''))
      | Some tid \<Rightarrow>
          let service = wr_service r; method = wr_query r ''method''; route = wr_query r ''route'';
              (winKey, dur) = winDur r;
              ((f, t), custom) = resolveDetailRange (wr_query r) t1 dur;
              step = (if custom then adaptiveStep (time_sub t f) else seriesStep);
              tq = QueryService_Tenant c tid
          in case tq_EndpointDetail tq service method route f t of
               Inl _ \<Rightarrow> Some (Inl (500, ''query failed''))
             | Inr detail \<Rightarrow>
                 let (baseFrom, baseTo) = baselineRange t
                 in (case (tq_InstanceResourcesForService tq service f t, tq_InstanceResourcesForService tq service baseFrom baseTo) of
                       (Some res, Some base) \<Rightarrow>
                         Some (Inr (detailPageOf ic h r q d service method route winKey f t custom step t2 detail
                           (loadDetailPanels c tid service method route f t step res base)))
                     | _ \<Rightarrow> None))"

section \<open>Properties\<close>

lemma meanOf_finite: "\<forall>x \<in> set xs. finiteValue x \<noteq> None \<Longrightarrow> \<exists>m. meanOf xs = Some m"
  by (auto simp: meanOf_def)

lemma resources_finite:
  assumes "\<forall>w \<in> set (cn_windows c). finiteValue (iw_GCCPUFraction w) \<noteq> None"
  shows "\<exists>res. InstanceResourcesForService c tid service f t = Some res"
proof -
  have "\<exists>s. resourceGroup k (groupBy iw_Instance ws k) = Some s" if "set ws \<subseteq> set (cn_windows c)" for k ws
  proof -
    have "\<forall>x \<in> set (map iw_GCCPUFraction (groupBy iw_Instance ws k)). finiteValue x \<noteq> None"
      using assms that by (auto simp: groupBy_def)
    from meanOf_finite [OF this] show ?thesis by (auto simp: resourceGroup_def)
  qed
  then have "None \<notin> set (map (\<lambda>k. resourceGroup k (groupBy iw_Instance ws k)) ks)" if "set ws \<subseteq> set (cn_windows c)" for ws ks
    using that by (auto simp: image_iff) (metis option.distinct(1))
  then have "None \<notin> set (map (\<lambda>k. resourceGroup k (groupBy iw_Instance (filter P (cn_windows c)) k)) ks)" for P ks
    by (meson filter_is_subset)
  then show ?thesis
    unfolding InstanceResourcesForService_def instanceResourcesQueryTemplate_def Let_def scanRows_all
    by (simp only: simp_thms if_True option.map) simp
qed

text \<open>
  The page is total and adds to the view of \<open>Web_Pages\<close> only what it is made of: with finite gauges it answers,
  with the error of the view or with a page whose data is the view; and it is the same on any two
  databases that hold the same rows of the caller's tenant.
\<close>

theorem detail_page_refines_view:
  assumes "\<forall>w \<in> set (cn_windows c). finiteValue (iw_GCCPUFraction w) \<noteq> None"
  defines "resources \<equiv> \<lambda>tid service f t. the (InstanceResourcesForService c tid service f t)"
  shows "\<exists>res. serveDetailPage ic h c d t1 t2 q r = Some res \<and>
    serveEndpointDetail h c resources memoryTrendSVG t1 r = map_sum id pg_Data res"
proof -
  have res: "InstanceResourcesForService c tid service f t = Some (resources tid service f t)" for tid service f t
    using resources_finite [OF assms(1), of tid service f t] unfolding resources_def by force
  show ?thesis
    unfolding serveDetailPage_def serveEndpointDetail_def QueryService_Tenant_def tq_EndpointDetail_def
      tq_InstanceResourcesForService_def TenantQuery.select_convs res
    by (auto simp: Let_def split_def detailPageOf_def res split: option.split sum.split)
qed

theorem detail_page_scoped:
  assumes "\<forall>tid. resolveTenant h r = Some tid \<longrightarrow> sameTenant tid c c'"
  shows "serveDetailPage ic h c d t1 t2 q r = serveDetailPage ic h c' d t1 t2 q r"
proof (cases "resolveTenant h r")
  case (Some tid)
  then have s: "sameTenant tid c c'" using assms by blast
  have "QueryEndpointDetail c tid service m rt f t = QueryEndpointDetail c' tid service m rt f t" for service m rt f t
    using queries_scoped_to_tenant [OF s] by blast
  then show ?thesis
    unfolding serveDetailPage_def QueryService_Tenant_def tq_EndpointDetail_def tq_InstanceResourcesForService_def Let_def
    by (simp only: Some option.case TenantQuery.select_convs InstanceResourcesForService_scoped [OF s] sameTenant_panels [OF s])
qed (simp add: serveDetailPage_def)

end
