(* ===== verification/Setup_Page.thy ===== *)
theory Setup_Page
  imports Web_Shell
begin

text \<open>
  The pages around onboarding, src/server/internal/web/: \<open>renderSetup\<close> with its keys and team panels
  (web_setup.go), \<open>renderOnboarding\<close> (web.go), the page data of template.go, and the dates of
  key, member and invite rows. The reads of the team panel come from the composed \<open>MemberAdmin\<close> and are
  arguments, \<open>None\<close> standing for an error.
\<close>

section \<open>Rows\<close>

record MemberInfo =
  mi_ID :: string
  mi_Email :: string
  mi_Role :: string
  mi_CreatedAt :: instant
  mi_IsOwner :: bool

record InviteInfo =
  ii_ID :: string
  ii_Email :: string
  ii_Role :: string
  ii_CreatedAt :: instant
  ii_ExpiresAt :: instant

record memberRow =
  mr_ID :: string
  mr_Email :: string
  mr_Role :: string
  mr_IsOwner :: bool
  mr_Created :: string

record inviteRow =
  ir_ID :: string
  ir_Email :: string
  ir_Role :: string
  ir_Expires :: string

record teamReads =
  tr_SeatUsage :: "(int \<times> int) option"
  tr_ListMembers :: "MemberInfo list option"
  tr_ListInvites :: "InviteInfo list option"

record setupPage =
  st_Shell :: Shell
  st_Handshake :: handshakeView
  st_Frozen :: bool
  st_ShowKeys :: bool
  st_Keys :: "keyRow list"
  st_NewToken :: string
  st_CSRFToken :: string
  st_Refresh :: bool
  st_ShowTeam :: bool
  st_IsAdmin :: bool
  st_SeatUsed :: int
  st_SeatLimit :: int
  st_Members :: "memberRow list"
  st_Invites :: "inviteRow list"
  st_InviteURL :: string
  st_TeamError :: string

section \<open>The panels\<close>

text \<open>\<open>nonce\<close> is the random part of a form token; the panel's list fails soft to none.\<close>

definition populateKeys :: "(string \<Rightarrow> string) \<Rightarrow> string \<Rightarrow> tenantID \<Rightarrow> db \<Rightarrow> setupPage \<Rightarrow> setupPage" where
  "populateKeys mac nonce tid d pg =
     (let pg = pg\<lparr>st_ShowKeys := True, st_CSRFToken := csrf_issue mac tid nonce\<rparr>
      in case fst (ListKeys tid d) of
           Inl _ \<Rightarrow> pg
         | Inr infos \<Rightarrow> pg\<lparr>st_Keys := toKeyRows infos\<rparr>)"

definition populateTeam :: "(string \<Rightarrow> string) \<Rightarrow> string \<Rightarrow> tenantID \<Rightarrow> bool \<Rightarrow> teamReads \<Rightarrow> setupExtras \<Rightarrow> setupPage \<Rightarrow> setupPage" where
  "populateTeam mac nonce tid admin reads ex pg =
     (let pg = pg\<lparr>st_ShowTeam := True, st_IsAdmin := admin, st_InviteURL := se_inviteURL ex, st_TeamError := se_teamError ex\<rparr>;
          pg = (if st_CSRFToken pg = '''' then pg\<lparr>st_CSRFToken := csrf_issue mac tid nonce\<rparr> else pg);
          pg = (case tr_SeatUsage reads of None \<Rightarrow> pg | Some (used, lmt) \<Rightarrow> pg\<lparr>st_SeatUsed := used, st_SeatLimit := lmt\<rparr>);
          pg = (case tr_ListMembers reads of
                  None \<Rightarrow> pg
                | Some ms \<Rightarrow> pg\<lparr>st_Members := map (\<lambda>m. \<lparr>mr_ID = mi_ID m, mr_Email = mi_Email m, mr_Role = mi_Role m,
                    mr_IsOwner = mi_IsOwner m, mr_Created = formatDate (mi_CreatedAt m)\<rparr>) ms\<rparr>)
      in case tr_ListInvites reads of
           None \<Rightarrow> pg
         | Some is \<Rightarrow> pg\<lparr>st_Invites := map (\<lambda>i. \<lparr>ir_ID = ii_ID i, ir_Email = ii_Email i, ir_Role = ii_Role i,
             ir_Expires = formatDate (ii_ExpiresAt i)\<rparr>) is\<rparr>)"

definition renderSetup ::
  "identityChrome \<Rightarrow> 'w webHandler \<Rightarrow> conn \<Rightarrow> db \<Rightarrow> urlValues \<Rightarrow> sourceRow list option \<Rightarrow> teamReads \<Rightarrow> string \<Rightarrow> string \<Rightarrow> webRequest \<Rightarrow> tenantID \<Rightarrow> string \<Rightarrow>
   setupExtras \<Rightarrow> setupPage" where
  "renderSetup ic h c d q onboarding reads nonce1 nonce2 r tid winKey ex =
     (let hv = buildHandshakeView h c onboarding tid;
          mac = (case wb_csrf h of None \<Rightarrow> (\<lambda>_. '''') | Some m \<Rightarrow> m);
          pg = \<lparr>st_Shell = buildShell ic h r q d ''setup'' [\<lparr>cr_Label = ''setup'', cr_Href = ''''\<rparr>] ''Setup'' False winKey,
                st_Handshake = hv, st_Frozen = hv_Frozen hv, st_ShowKeys = False, st_Keys = [],
                st_NewToken = se_newToken ex, st_CSRFToken = '''', st_Refresh = (\<not> hv_Complete hv), st_ShowTeam = False,
                st_IsAdmin = False, st_SeatUsed = 0, st_SeatLimit = 0, st_Members = [], st_Invites = [], st_InviteURL = '''',
                st_TeamError = ''''\<rparr>;
          pg = (if wb_keys h then populateKeys mac nonce1 tid d pg else pg)
      in if wb_members h \<noteq> None then populateTeam mac nonce2 tid (isAdmin h r) reads ex pg else pg)"

record onboardingPage =
  ob_Shell :: Shell
  ob_Handshake :: handshakeView
  ob_Frozen :: bool
  ob_Refresh :: bool
  ob_Framework :: string

definition renderOnboarding ::
  "identityChrome \<Rightarrow> 'w webHandler \<Rightarrow> conn \<Rightarrow> db \<Rightarrow> urlValues \<Rightarrow> sourceRow list option \<Rightarrow> webRequest \<Rightarrow> tenantID \<Rightarrow> string \<Rightarrow> onboardingPage" where
  "renderOnboarding ic h c d q onboarding r tid winKey =
     (let hv = buildHandshakeView h c onboarding tid
      in \<lparr>ob_Shell = buildShell ic h r q d ''setup'' [\<lparr>cr_Label = ''setup'', cr_Href = ''''\<rparr>] ''Get started'' False winKey,
          ob_Handshake = hv, ob_Frozen = hv_Frozen hv, ob_Refresh = True, ob_Framework = selectedFramework r\<rparr>)"

section \<open>What the page shows\<close>

lemma signed_nonempty: "signed mac p \<noteq> []"
  by (simp add: signed_def)

lemma csrf_issue_verify: "nonce \<noteq> [] \<Longrightarrow> csrf_verify mac tid (csrf_issue mac tid nonce)"
  by (cases nonce rule: b64Encode.cases) (simp_all add: csrf_verify_def csrf_issue_def hasPrefix_def Let_def)

lemma populateTeam_keeps:
  "st_ShowKeys (populateTeam mac nonce tid admin reads ex pg) = st_ShowKeys pg \<and>
   st_Keys (populateTeam mac nonce tid admin reads ex pg) = st_Keys pg \<and>
   st_NewToken (populateTeam mac nonce tid admin reads ex pg) = st_NewToken pg \<and>
   st_CSRFToken (populateTeam mac nonce tid admin reads ex pg) = (if st_CSRFToken pg = [] then csrf_issue mac tid nonce else st_CSRFToken pg) \<and>
   st_ShowTeam (populateTeam mac nonce tid admin reads ex pg) \<and> st_IsAdmin (populateTeam mac nonce tid admin reads ex pg) = admin \<and>
   st_InviteURL (populateTeam mac nonce tid admin reads ex pg) = se_inviteURL ex"
  by (simp add: populateTeam_def Let_def split: option.split prod.split)

lemma populateKeys_keeps:
  "st_ShowKeys (populateKeys mac nonce tid d pg) \<and> st_CSRFToken (populateKeys mac nonce tid d pg) = csrf_issue mac tid nonce \<and>
   st_NewToken (populateKeys mac nonce tid d pg) = st_NewToken pg \<and> st_IsAdmin (populateKeys mac nonce tid d pg) = st_IsAdmin pg \<and>
   st_ShowTeam (populateKeys mac nonce tid d pg) = st_ShowTeam pg \<and> st_InviteURL (populateKeys mac nonce tid d pg) = st_InviteURL pg \<and>
   st_Keys (populateKeys mac nonce tid d pg) = (case fst (ListKeys tid d) of Inl _ \<Rightarrow> st_Keys pg | Inr infos \<Rightarrow> toKeyRows infos)"
  by (simp add: populateKeys_def Let_def split: sum.split)

lemma csrf_issue_nonempty: "csrf_issue mac tid nonce \<noteq> []"
  by (simp add: csrf_issue_def signed_nonempty)

lemma populateKeys_own:
  assumes "fst (ListKeys tid d) = Inr infos" and "(kid, rest) \<in> set infos"
  shows "\<exists>k \<in> set (tb_keys (db_tables d)). ik_id k = kid \<and> ik_org k = tid"
  using assms by (auto simp: ListKeys_def exec_def split: option.splits nat.splits prod.splits sum.splits)

text \<open>
  The Setup page is safe to render: whatever panel is shown, its form token verifies for the caller's own
  tenant; the key list has keys of that organisation only; a created secret or invite link is shown exactly when
  the page answers the form that created it; and a caller who is no admin is never marked as one.
\<close>

theorem setup_page_sound:
  assumes "wb_csrf h = Some mac" and "nonce1 \<noteq> []" and "nonce2 \<noteq> []"
    and "pg = renderSetup ic h c d q onboarding reads nonce1 nonce2 r tid winKey ex"
  shows "(st_ShowKeys pg \<or> st_ShowTeam pg \<longrightarrow> csrf_verify mac tid (st_CSRFToken pg)) \<and>
    (\<forall>row \<in> set (st_Keys pg). \<exists>k \<in> set (tb_keys (db_tables d)). ik_id k = kr_ID row \<and> ik_org k = tid) \<and>
    st_NewToken pg = se_newToken ex \<and> (st_InviteURL pg = se_inviteURL ex \<or> st_InviteURL pg = []) \<and>
    (st_IsAdmin pg \<longrightarrow> isAdmin h r) \<and> (st_ShowKeys pg \<longleftrightarrow> wb_keys h) \<and> (st_ShowTeam pg \<longleftrightarrow> wb_members h \<noteq> None)"
proof -
  note tok = csrf_issue_verify [OF assms(2), of mac tid] csrf_issue_verify [OF assms(3), of mac tid]
  have "\<forall>row \<in> set (toKeyRows infos). \<exists>k \<in> set (tb_keys (db_tables d)). ik_id k = kr_ID row \<and> ik_org k = tid"
    if "fst (ListKeys tid d) = Inr infos" for infos
    using populateKeys_own [OF that] by (auto simp: toKeyRows_def)
  then show ?thesis
    unfolding assms(4) renderSetup_def Let_def assms(1) option.case
    using tok csrf_issue_nonempty by (auto simp: populateTeam_keeps populateKeys_keeps split: sum.splits)
qed

end
