(* ===== verification/Platform.thy ===== *)
theory Platform
  imports Sampler Go_Strconv
begin

text \<open>
  The per-platform readings of the sampler, src/client/: resident memory from /proc/self/statm
  (rss_linux.go), open descriptors and their limit (fd_linux.go), process CPU time from getrusage
  (sampler_unix.go), and the zero stubs of the other platforms. What the kernel answers is an argument;
  \<open>None\<close> is an error. \<open>strings.Fields\<close> is modelled on ASCII text, which the kernel writes.
\<close>

section \<open>Reading\<close>

definition isSpace :: "char \<Rightarrow> bool" where
  "isSpace c \<longleftrightarrow> of_char c \<in> {9, 10, 11, 12, 13, 32 :: nat}"

definition fields :: "string \<Rightarrow> string list" where
  "fields s = filter (\<lambda>w. w \<noteq> []) (foldr (\<lambda>c ws. if isSpace c then [] # ws else (c # hd ws) # tl ws) s [[]])"

definition parseUint64 :: "string \<Rightarrow> nat option" where
  "parseUint64 s = (case parseUint s of None \<Rightarrow> None | Some n \<Rightarrow> if n < 2 ^ 64 then Some n else None)"

definition rssBytes :: "string option \<Rightarrow> nat \<Rightarrow> u64" where
  "rssBytes statm pageSize =
     (case statm of
        None \<Rightarrow> 0
      | Some data \<Rightarrow>
          let fs = fields data in
          if length fs < 2 then 0
          else (case parseUint64 (fs ! 1) of None \<Rightarrow> 0 | Some pages \<Rightarrow> of_nat pages * of_nat pageSize))"

definition fdStats :: "string list option \<Rightarrow> u64 option \<Rightarrow> u64 \<times> u64" where
  "fdStats entries rlimit =
     (case entries of None \<Rightarrow> 0 | Some es \<Rightarrow> of_nat (length es), case rlimit of None \<Rightarrow> 0 | Some cur \<Rightarrow> cur)"

text \<open>A \<open>Timeval\<close> is a pair of int64 seconds and microseconds; the arithmetic is that of int64, read as uint64.\<close>

definition tvNanos :: "int \<times> int \<Rightarrow> u64" where
  "tvNanos tv = (case tv of (sec, usec) \<Rightarrow> word_of_int sec * 1000000000 + word_of_int usec * 1000)"

definition cpuTimeNs :: "((int \<times> int) \<times> (int \<times> int)) option \<Rightarrow> u64" where
  "cpuTimeNs rusage = (case rusage of None \<Rightarrow> 0 | Some (utime, stime) \<Rightarrow> tvNanos utime + tvNanos stime)"

text \<open>The platforms without a reading.\<close>

definition rssBytes_other :: u64 where "rssBytes_other = 0"
definition fdStats_other :: "u64 \<times> u64" where "fdStats_other = (0, 0)"
definition cpuTimeNs_other :: u64 where "cpuTimeNs_other = 0"

section \<open>What the kernel writes is what is read\<close>

lemma fields_word:
  assumes "\<forall>c \<in> set w. \<not> isSpace c" and "w \<noteq> []" and "isSpace c"
  shows "fields (w @ c # s) = w # fields s"
proof -
  let ?f = "\<lambda>c ws. if isSpace c then [] # ws else (c # hd ws) # tl ws"
  have "foldr ?f w ([] # ws) = w # ws" if "\<forall>c \<in> set w. \<not> isSpace c" for w ws
    using that by (induction w) auto
  then show ?thesis using assms by (simp add: fields_def)
qed

lemma digits_not_space: "c \<in> set (natDigits n) \<Longrightarrow> \<not> isSpace c"
  using natDigits_digits [of c n] by (auto simp: digitVal_def isSpace_def split: if_splits)

lemma parseUint64_digits: "n < 2 ^ 64 \<Longrightarrow> parseUint64 (natDigits n) = Some n"
  by (simp add: parseUint64_def parseUint_def digitsValue_natDigits)

text \<open>
  A statm line of any numbers reads back as its resident pages, in bytes, exactly when they fit 64 bits;
  every failure reads as zero. CPU time is the sum of both times in nanoseconds as long as that fits, so it
  never goes back between two readings of a process.
\<close>

theorem platform_readings:
  assumes "resident < 2 ^ 64"
  shows "rssBytes (Some (natDigits vm @ '' '' @ natDigits resident @ '' '' @ rest)) pageSize = of_nat (resident * pageSize) \<and>
    (resident * pageSize < 2 ^ 64 \<longrightarrow>
      unat (rssBytes (Some (natDigits vm @ '' '' @ natDigits resident @ '' '' @ rest)) pageSize) = resident * pageSize) \<and>
    rssBytes None pageSize = 0 \<and> fdStats None None = fdStats_other \<and> cpuTimeNs None = cpuTimeNs_other"
proof -
  have sp: "isSpace (CHR '' '')" by (simp add: isSpace_def)
  have "fields (natDigits vm @ '' '' @ natDigits resident @ '' '' @ rest) = natDigits vm # natDigits resident # fields rest"
    using fields_word [OF _ natDigits_nonempty sp] digits_not_space by simp
  then have rss: "rssBytes (Some (natDigits vm @ '' '' @ natDigits resident @ '' '' @ rest)) pageSize = of_nat (resident * pageSize)"
    using parseUint64_digits [OF assms] by (simp add: rssBytes_def)
  moreover have "unat (of_nat (resident * pageSize) :: u64) = resident * pageSize" if "resident * pageSize < 2 ^ 64"
    using that by (simp only: unat_of_nat) (simp add: take_bit_nat_eq_self)
  ultimately show ?thesis
    by (auto simp: rssBytes_def fdStats_def fdStats_other_def cpuTimeNs_def cpuTimeNs_other_def)
qed

theorem cpu_time_monotone:
  assumes "0 \<le> us" "0 \<le> uu" "0 \<le> ss" "0 \<le> su" and "us \<le> us'" "uu \<le> uu'" "ss \<le> ss'" "su \<le> su'"
    and "(us' + ss') * 1000000000 + (uu' + su') * 1000 < 2 ^ 64"
  shows "uint (cpuTimeNs (Some ((us', uu'), (ss', su')))) = (us' + ss') * 1000000000 + (uu' + su') * 1000 \<and>
    cpuTimeNs (Some ((us, uu), (ss, su))) \<le> cpuTimeNs (Some ((us', uu'), (ss', su')))"
proof -
  have eq: "cpuTimeNs (Some ((a, b), (c, d))) = word_of_int ((a + c) * 1000000000 + (b + d) * 1000)" for a b c d
    by (simp add: cpuTimeNs_def tvNanos_def algebra_simps)
  have val: "uint (word_of_int n :: u64) = n" if "0 \<le> n" "n < 2 ^ 64" for n
    using that by (simp add: uint_word_of_int_eq take_bit_int_eq_self)
  let ?n = "(us + ss) * 1000000000 + (uu + su) * 1000" and ?n' = "(us' + ss') * 1000000000 + (uu' + su') * 1000"
  have "0 \<le> ?n" "?n \<le> ?n'" using assms by simp_all
  then show ?thesis unfolding eq word_le_def using val [of ?n] val [of ?n'] assms(9) by simp
qed

end
