(* ===== verification/Faults.thy ===== *)
theory Faults
  imports Go_Strconv "HOL-Library.Word"
begin

text \<open>
  The diagnostic test-bed of the example application, src/example/faults/faults.go: the process-wide state
  of the misbehaving endpoints and each handler as a function of its query, the state and, where the code
  draws one, a random number. What a handler does to the machine is recorded, not done: CPU time burnt,
  time slept, bytes and goroutines retained, short-lived allocations by number and size. The byte pattern
  that defeats dead-code elimination is left out.
\<close>

section \<open>State and outcomes\<close>

record faultState =
  fs_rampCPUns :: int
  fs_sometimesCount :: u64
  fs_creepNs :: int
  fs_leakCount :: int
  fs_parked :: nat
  fs_held :: "int list"
  fs_heldNodes :: "int list"
  fs_heldBytes :: int

definition faultState0 :: faultState where
  "faultState0 = \<lparr>fs_rampCPUns = 0, fs_sometimesCount = 0, fs_creepNs = 0, fs_leakCount = 0, fs_parked = 0,
     fs_held = [], fs_heldNodes = [], fs_heldBytes = 0\<rparr>"

datatype finish = Status int | NoStatus | Panics

record faultOutcome =
  fo_finish :: finish
  fo_burn :: duration
  fo_sleep :: duration
  fo_label :: string
  fo_error :: string
  fo_fields :: "(string \<times> int) list"
  fo_transient :: "int \<times> int"

definition ok :: "(string \<times> int) list \<Rightarrow> faultOutcome" where
  "ok js = \<lparr>fo_finish = Status 200, fo_burn = 0, fo_sleep = 0, fo_label = '''', fo_error = '''',
     fo_fields = js, fo_transient = (0, 0)\<rparr>"

definition millisecond :: duration where "millisecond = 10 ^ 6"

definition qint :: "(string \<Rightarrow> string) \<Rightarrow> string \<Rightarrow> int \<Rightarrow> int \<Rightarrow> int \<Rightarrow> int" where
  "qint q key def lo hi = min (max (case parseInt64 (q key) of None \<Rightarrow> def | Some n \<Rightarrow> n) lo) hi"

section \<open>CPU and latency\<close>

definition burn :: "duration \<Rightarrow> duration" where
  "burn d = (if d \<le> 0 then 0 else d)"

definition handleBusy :: "(string \<Rightarrow> string) \<Rightarrow> faultState \<Rightarrow> faultOutcome \<times> faultState" where
  "handleBusy q s = (let ms = qint q ''ms'' 25 0 5000 in ((ok [(''burned_ms'', ms)])\<lparr>fo_burn := burn (ms * millisecond)\<rparr>, s))"

definition rampCPUMaxNs :: int where "rampCPUMaxNs = 250 * millisecond"

text \<open>The ramp is an atomic add followed, above the ceiling, by a store.\<close>

definition rampAdd :: "int \<Rightarrow> faultState \<Rightarrow> int \<times> faultState" where
  "rampAdd step s = (let cur = fs_rampCPUns s + step in (cur, s\<lparr>fs_rampCPUns := cur\<rparr>))"

definition rampClamp :: "int \<Rightarrow> faultState \<Rightarrow> int \<times> faultState" where
  "rampClamp cur s = (if cur > rampCPUMaxNs then (rampCPUMaxNs, s\<lparr>fs_rampCPUns := rampCPUMaxNs\<rparr>) else (cur, s))"

definition handleRampCPU :: "(string \<Rightarrow> string) \<Rightarrow> faultState \<Rightarrow> faultOutcome \<times> faultState" where
  "handleRampCPU q s =
     (let (added, s) = rampAdd (qint q ''step'' 1 0 1000 * millisecond) s; (cur, s) = rampClamp added s
      in ((ok [(''burn_ns'', cur)])\<lparr>fo_burn := burn cur\<rparr>, s))"

definition handleSometimesBusy :: "(string \<Rightarrow> string) \<Rightarrow> faultState \<Rightarrow> faultOutcome \<times> faultState" where
  "handleSometimesBusy q s =
     (let n = word_of_int (qint q ''n'' 10 1 1000000) :: u64; cnt = fs_sometimesCount s + 1;
          heavy = (cnt mod n = 0)
      in ((ok [(''ok'', 1)])\<lparr>fo_burn := (if heavy then burn (qint q ''ms'' 50 0 5000 * millisecond) else 0)\<rparr>,
          s\<lparr>fs_sometimesCount := cnt\<rparr>))"

definition creepMaxNs :: int where "creepMaxNs = 500 * millisecond"

definition handleCreep :: "(string \<Rightarrow> string) \<Rightarrow> faultState \<Rightarrow> faultOutcome \<times> faultState" where
  "handleCreep q s =
     (let added = fs_creepNs s + qint q ''step'' 2 0 1000 * millisecond;
          cur = (if added > creepMaxNs then creepMaxNs else added)
      in ((ok [(''slept_ns'', cur)])\<lparr>fo_sleep := cur\<rparr>, s\<lparr>fs_creepNs := cur\<rparr>))"

text \<open>\<open>roll n\<close> is \<open>rand.Intn(n)\<close>.\<close>

definition handleJitter :: "(string \<Rightarrow> string) \<Rightarrow> (int \<Rightarrow> int) \<Rightarrow> faultState \<Rightarrow> faultOutcome \<times> faultState" where
  "handleJitter q roll s =
     (let lo = qint q ''min'' 1 0 10000; hi = qint q ''max'' 100 0 10000; hi = (if hi < lo then lo else hi);
          d = (if hi > lo then lo + roll (hi - lo + 1) else lo)
      in ((ok [(''slept_ms'', d)])\<lparr>fo_sleep := d * millisecond\<rparr>, s))"

section \<open>Errors\<close>

definition handleFlaky :: "(string \<Rightarrow> string) \<Rightarrow> (int \<Rightarrow> int) \<Rightarrow> faultState \<Rightarrow> faultOutcome \<times> faultState" where
  "handleFlaky q roll s =
     (if roll 100 < qint q ''pct'' 10 0 100 then ((ok [])\<lparr>fo_finish := Status 500, fo_label := ''flaky backend'', fo_error := ''flaky''\<rparr>, s)
      else (ok [(''ok'', 1)], s))"

definition handleThrottle :: "(string \<Rightarrow> string) \<Rightarrow> (int \<Rightarrow> int) \<Rightarrow> faultState \<Rightarrow> faultOutcome \<times> faultState" where
  "handleThrottle q roll s =
     (if roll 100 < qint q ''pct'' 100 0 100 then ((ok [])\<lparr>fo_finish := Status 429, fo_error := ''rate limited''\<rparr>, s) else (ok [(''ok'', 1)], s))"

definition handleTimeout :: "(string \<Rightarrow> string) \<Rightarrow> faultState \<Rightarrow> faultOutcome \<times> faultState" where
  "handleTimeout q s = ((ok [])\<lparr>fo_finish := NoStatus, fo_sleep := qint q ''ms'' 5 0 60000 * millisecond\<rparr>, s)"

definition handlePanic :: "faultState \<Rightarrow> faultOutcome \<times> faultState" where
  "handlePanic s = ((ok [])\<lparr>fo_finish := Panics\<rparr>, s)"

definition handleBoom :: "faultState \<Rightarrow> faultOutcome \<times> faultState" where
  "handleBoom s = ((ok [])\<lparr>fo_finish := Status 500, fo_label := ''boom'', fo_error := ''boom''\<rparr>, s)"

section \<open>Goroutines, dependencies, memory\<close>

definition handleGoroutineLeak :: "(string \<Rightarrow> string) \<Rightarrow> faultState \<Rightarrow> faultOutcome \<times> faultState" where
  "handleGoroutineLeak q s =
     (let n = qint q ''n'' 1 1 1000; cnt = fs_leakCount s + n
      in (ok [(''leaked_total'', cnt)], s\<lparr>fs_leakCount := cnt, fs_parked := fs_parked s + nat n\<rparr>))"

text \<open>The stand-in dependency waits as long as it is told; \<open>answered\<close> is whether the call to it came back.\<close>

definition sleepy :: "int option \<Rightarrow> duration" where
  "sleepy ms = (case ms of None \<Rightarrow> 40 | Some n \<Rightarrow> if n < 0 then 40 else n) * millisecond"

definition handleDownstream :: "(string \<Rightarrow> string) \<Rightarrow> bool \<Rightarrow> bool \<Rightarrow> faultState \<Rightarrow> faultOutcome \<times> faultState" where
  "handleDownstream q built answered s =
     (let ms = qint q ''ms'' 40 0 60000
      in if \<not> built then ((ok [])\<lparr>fo_finish := Status 500, fo_error := ''build request''\<rparr>, s)
         else if \<not> answered then ((ok [])\<lparr>fo_finish := Status 502, fo_error := ''downstream failed''\<rparr>, s)
         else ((ok [(''ok'', 1)])\<lparr>fo_sleep := sleepy (parseInt64 (formatInt ms))\<rparr>, s))"

definition churnReps :: "int \<Rightarrow> int \<Rightarrow> int" where
  "churnReps depth churn = (if churn > 0 then min (depth * churn) 500000 else 0)"

definition handleLeak :: "(string \<Rightarrow> string) \<Rightarrow> faultState \<Rightarrow> faultOutcome \<times> faultState" where
  "handleLeak q s =
     (let kb = qint q ''kb'' 256 0 (1024 * 1024); b = kb * 1024; objs = qint q ''objs'' (kb * 128) 0 (64 * 1024 * 1024);
          s = s\<lparr>fs_held := fs_held s @ [b], fs_heldNodes := fs_heldNodes s @ [objs], fs_heldBytes := fs_heldBytes s + b\<rparr>;
          depth = int (length (fs_heldNodes s))
      in ((ok [(''held_bytes'', fs_heldBytes s), (''held_objs'', objs), (''depth'', depth)])
            \<lparr>fo_transient := (churnReps depth (qint q ''churn'' 0 0 100000), 64)\<rparr>, s))"

definition handleSpike :: "(string \<Rightarrow> string) \<Rightarrow> faultState \<Rightarrow> faultOutcome \<times> faultState" where
  "handleSpike q s =
     (let b = qint q ''mb'' 64 0 4096 * 1024 * 1024 in ((ok [(''spiked_bytes'', b)])\<lparr>fo_transient := (1, b)\<rparr>, s))"

definition handleChurn :: "(string \<Rightarrow> string) \<Rightarrow> faultState \<Rightarrow> faultOutcome \<times> faultState" where
  "handleChurn q s =
     (let n = qint q ''n'' 200000 0 5000000; sz = qint q ''sz'' 32 1 4096
      in ((ok [(''allocs'', n), (''size'', sz)])\<lparr>fo_transient := (n, sz)\<rparr>, s))"

definition handleBloat :: "(string \<Rightarrow> string) \<Rightarrow> faultState \<Rightarrow> faultOutcome \<times> faultState" where
  "handleBloat q s =
     (let mb = qint q ''mb'' 16 1 4096; cnt = qint q ''count'' 4 1 1024
      in ((ok [(''count'', cnt), (''mb_each'', mb)])\<lparr>fo_transient := (cnt, mb * 1024 * 1024)\<rparr>, s))"

definition handleReset :: "faultState \<Rightarrow> faultOutcome \<times> faultState" where
  "handleReset s =
     (ok [(''reset'', 1), (''goroutines_released'', fs_leakCount s), (''heap_freed_bytes'', fs_heldBytes s)],
      s\<lparr>fs_rampCPUns := 0, fs_creepNs := 0, fs_sometimesCount := 0, fs_leakCount := 0, fs_parked := 0,
        fs_held := [], fs_heldNodes := [], fs_heldBytes := 0\<rparr>)"

section \<open>The routes (Register)\<close>

datatype fault =
    Busy | RampCPU | SometimesBusy | Creep | Jitter | Flaky | Throttle | Timeout | Panic | GoroutineLeak
  | Downstream | Boom | Leak | Spike | Churn | Bloat | Reset

definition fault_Register :: "(string \<times> fault) list" where
  "fault_Register =
     [(''/fault/busy'', Busy), (''/fault/rampcpu'', RampCPU), (''/fault/sometimesbusy'', SometimesBusy), (''/fault/creep'', Creep),
      (''/fault/jitter'', Jitter), (''/fault/flaky'', Flaky), (''/fault/throttle'', Throttle), (''/fault/timeout'', Timeout),
      (''/fault/panic'', Panic), (''/fault/goroutineleak'', GoroutineLeak), (''/fault/downstream'', Downstream), (''/fault/boom'', Boom),
      (''/fault/leak'', Leak), (''/fault/spike'', Spike), (''/fault/churn'', Churn), (''/fault/bloat'', Bloat), (''/fault/reset'', Reset)]"

record faultCall =
  fc_fault :: fault
  fc_query :: "string \<Rightarrow> string"
  fc_roll :: "int \<Rightarrow> int"
  fc_built :: bool
  fc_answered :: bool

fun serveFault :: "faultCall \<Rightarrow> faultState \<Rightarrow> faultOutcome \<times> faultState" where
  "serveFault c s =
     (case fc_fault c of
        Busy \<Rightarrow> handleBusy (fc_query c) s
      | RampCPU \<Rightarrow> handleRampCPU (fc_query c) s
      | SometimesBusy \<Rightarrow> handleSometimesBusy (fc_query c) s
      | Creep \<Rightarrow> handleCreep (fc_query c) s
      | Jitter \<Rightarrow> handleJitter (fc_query c) (fc_roll c) s
      | Flaky \<Rightarrow> handleFlaky (fc_query c) (fc_roll c) s
      | Throttle \<Rightarrow> handleThrottle (fc_query c) (fc_roll c) s
      | Timeout \<Rightarrow> handleTimeout (fc_query c) s
      | Panic \<Rightarrow> handlePanic s
      | GoroutineLeak \<Rightarrow> handleGoroutineLeak (fc_query c) s
      | Downstream \<Rightarrow> handleDownstream (fc_query c) (fc_built c) (fc_answered c) s
      | Boom \<Rightarrow> handleBoom s
      | Leak \<Rightarrow> handleLeak (fc_query c) s
      | Spike \<Rightarrow> handleSpike (fc_query c) s
      | Churn \<Rightarrow> handleChurn (fc_query c) s
      | Bloat \<Rightarrow> handleBloat (fc_query c) s
      | Reset \<Rightarrow> handleReset s)"

fun serveFaults :: "faultCall list \<Rightarrow> faultState \<Rightarrow> faultState" where
  "serveFaults [] s = s"
| "serveFaults (c # cs) s = serveFaults cs (snd (serveFault c s))"

section \<open>Properties\<close>

definition faults_ok :: "faultState \<Rightarrow> bool" where
  "faults_ok s \<longleftrightarrow> 0 \<le> fs_rampCPUns s \<and> fs_rampCPUns s \<le> rampCPUMaxNs \<and> 0 \<le> fs_creepNs s \<and> fs_creepNs s \<le> creepMaxNs \<and>
     fs_leakCount s = int (fs_parked s) \<and> fs_heldBytes s = sum_list (fs_held s) \<and> length (fs_held s) = length (fs_heldNodes s)"

definition fair :: "faultCall \<Rightarrow> bool" where
  "fair c \<longleftrightarrow> (\<forall>n > 0. 0 \<le> fc_roll c n \<and> fc_roll c n < n)"

lemma qint_bounds: "lo \<le> hi \<Longrightarrow> lo \<le> qint q key def lo hi \<and> qint q key def lo hi \<le> hi"
  by (simp add: qint_def)

lemmas handler_defs = handleBusy_def handleRampCPU_def rampAdd_def rampClamp_def handleSometimesBusy_def handleCreep_def
  handleJitter_def handleFlaky_def handleThrottle_def handleTimeout_def handlePanic_def handleGoroutineLeak_def
  handleDownstream_def handleBoom_def handleLeak_def handleSpike_def handleChurn_def handleBloat_def handleReset_def

lemma ok_simps [simp]:
  "fo_finish (ok js) = Status 200" "fo_burn (ok js) = 0" "fo_sleep (ok js) = 0" "fo_fields (ok js) = js"
  by (simp_all add: ok_def)

lemma burn_bounds: "lo \<le> d \<Longrightarrow> 0 \<le> lo \<Longrightarrow> d \<le> hi \<Longrightarrow> 0 \<le> burn d \<and> burn d \<le> hi"
  by (simp add: burn_def)

lemma ms_bounds:
  "0 \<le> qint q key def 0 hi * millisecond \<and> qint q key def 0 hi * millisecond \<le> hi * millisecond" if "0 \<le> hi"
  using qint_bounds [of 0 hi q key def] that by (simp add: millisecond_def)

lemma faults_ok_const:
  "faults_ok (snd (handleBusy q s)) = faults_ok s" "faults_ok (snd (handleSometimesBusy q s)) = faults_ok s"
  "faults_ok (snd (handleJitter q roll s)) = faults_ok s" "faults_ok (snd (handleFlaky q roll s)) = faults_ok s"
  "faults_ok (snd (handleThrottle q roll s)) = faults_ok s" "faults_ok (snd (handleTimeout q s)) = faults_ok s"
  "faults_ok (snd (handlePanic s)) = faults_ok s" "faults_ok (snd (handleBoom s)) = faults_ok s"
  "faults_ok (snd (handleDownstream q b a s)) = faults_ok s" "faults_ok (snd (handleSpike q s)) = faults_ok s"
  "faults_ok (snd (handleChurn q s)) = faults_ok s" "faults_ok (snd (handleBloat q s)) = faults_ok s"
  by (simp_all add: handler_defs faults_ok_def Let_def)

lemma faults_ok_ramps:
  assumes "faults_ok s"
  shows "faults_ok (snd (handleRampCPU q s))" "faults_ok (snd (handleCreep q s))"
  using assms ms_bounds [of 1000 q "''step''" 1] ms_bounds [of 1000 q "''step''" 2]
  by (auto simp: faults_ok_def handleRampCPU_def rampAdd_def rampClamp_def handleCreep_def Let_def rampCPUMaxNs_def
      creepMaxNs_def millisecond_def)

lemma faults_ok_retained:
  assumes "faults_ok s"
  shows "faults_ok (snd (handleGoroutineLeak q s))" "faults_ok (snd (handleLeak q s))" "faults_ok (snd (handleReset s))"
  using assms qint_bounds [of 1 1000 q "''n''" 1]
  by (simp_all add: faults_ok_def handleGoroutineLeak_def handleLeak_def handleReset_def Let_def rampCPUMaxNs_def
      creepMaxNs_def millisecond_def)

lemma serveFault_ok: "faults_ok s \<Longrightarrow> faults_ok (snd (serveFault c s))"
  by (cases "fc_fault c") (simp_all add: faults_ok_const faults_ok_ramps faults_ok_retained)

lemma serveFaults_ok: "faults_ok s \<Longrightarrow> faults_ok (serveFaults cs s)"
  by (induction cs arbitrary: s) (simp_all add: serveFault_ok del: serveFault.simps)

lemma sleepy_known: "0 \<le> n \<Longrightarrow> sleepy (Some n) = n * millisecond"
  by (simp add: sleepy_def)

definition bounded_effect :: "faultOutcome \<Rightarrow> bool" where
  "bounded_effect r \<longleftrightarrow> 0 \<le> fo_burn r \<and> fo_burn r \<le> 5000 * millisecond \<and> 0 \<le> fo_sleep r \<and> fo_sleep r \<le> 60000 * millisecond"

lemma bounded_ok: "bounded_effect (ok js)"
  by (simp add: bounded_effect_def millisecond_def)

lemma bounded_cpu:
  assumes "faults_ok s"
  shows "bounded_effect (fst (handleBusy q s))" "bounded_effect (fst (handleSometimesBusy q s))"
    "bounded_effect (fst (handleRampCPU q s))"
  using assms ms_bounds [of 5000 q "''ms''" 25] ms_bounds [of 5000 q "''ms''" 50] ms_bounds [of 1000 q "''step''" 1]
  by (auto simp: bounded_effect_def handleBusy_def handleSometimesBusy_def handleRampCPU_def rampAdd_def rampClamp_def
      faults_ok_def Let_def burn_def rampCPUMaxNs_def millisecond_def)

lemma bounded_sleep:
  assumes "faults_ok s"
  shows "bounded_effect (fst (handleCreep q s))" "bounded_effect (fst (handleTimeout q s))"
    "bounded_effect (fst (handleDownstream q b a s))"
  using assms ms_bounds [of 1000 q "''step''" 2] ms_bounds [of 60000 q "''ms''" 5] qint_bounds [of 0 60000 q "''ms''" 40]
  by (auto simp: bounded_effect_def handleCreep_def handleTimeout_def handleDownstream_def faults_ok_def Let_def
      creepMaxNs_def millisecond_def sleepy_known parse_format)

lemma bounded_jitter:
  assumes "fair c"
  shows "bounded_effect (fst (handleJitter q (fc_roll c) s))"
  using assms qint_bounds [of 0 10000 q "''min''" 1] qint_bounds [of 0 10000 q "''max''" 100]
  unfolding fair_def bounded_effect_def handleJitter_def
  by (simp add: Let_def millisecond_def) smt

lemma bounded_rest:
  "bounded_effect (fst (handleFlaky q roll s))" "bounded_effect (fst (handleThrottle q roll s))"
  "bounded_effect (fst (handlePanic s))" "bounded_effect (fst (handleBoom s))" "bounded_effect (fst (handleGoroutineLeak q s))"
  "bounded_effect (fst (handleLeak q s))" "bounded_effect (fst (handleSpike q s))" "bounded_effect (fst (handleChurn q s))"
  "bounded_effect (fst (handleBloat q s))" "bounded_effect (fst (handleReset s))"
  by (simp_all add: bounded_effect_def handler_defs Let_def millisecond_def)

lemma bounded_serve: "faults_ok s \<Longrightarrow> fair c \<Longrightarrow> bounded_effect (fst (serveFault c s))"
  by (cases "fc_fault c") (simp_all add: bounded_cpu bounded_sleep bounded_jitter bounded_rest)

theorem faults_bounded_and_clean:
  fixes cs :: "faultCall list"
  assumes "fair c" and "faults_ok s0"
  defines "s \<equiv> serveFaults cs s0"
  shows "faults_ok s"
    and "bounded_effect (fst (serveFault c s))"
    and "snd (handleReset s) = faultState0"
    and "fo_fields (fst (handleReset s)) =
       [(''reset'', 1), (''goroutines_released'', int (fs_parked s)), (''heap_freed_bytes'', sum_list (fs_held s))]"
proof -
  show inv: "faults_ok s"
    using assms by (simp add: serveFaults_ok)
  show "bounded_effect (fst (serveFault c s))"
    using inv assms(1) by (rule bounded_serve)
  show "snd (handleReset s) = faultState0"
    by (simp add: handleReset_def faultState0_def)
  show "fo_fields (fst (handleReset s)) =
       [(''reset'', 1), (''goroutines_released'', int (fs_parked s)), (''heap_freed_bytes'', sum_list (fs_held s))]"
    using inv by (simp add: handleReset_def faults_ok_def)
qed

text \<open>
  The ramp reads and stores in two atomic steps, and a reset between them is lost: the clamp writes the
  ceiling over the zero the reset stored.
\<close>

theorem reset_lost_to_ramp:
  assumes "faults_ok s" and "fs_rampCPUns s = rampCPUMaxNs" and "0 < step"
  shows "fs_rampCPUns (snd (rampClamp (fst (rampAdd step s)) (snd (handleReset (snd (rampAdd step s)))))) = rampCPUMaxNs"
  using assms by (simp add: rampAdd_def rampClamp_def handleReset_def Let_def)

end
