(* ===== verification/Example_App.thy ===== *)
theory Example_App
  imports Faults Adapters
begin

text \<open>
  The instrumented example, src/example/main.go and src/example/cmd/trafficgen/main.go: the routes of the demo
  service, what each handler leaves for the middleware to read, the chain of the middleware and
  \<open>gin.Recovery\<close>, and the requests and recorder options of the traffic generator. The gin framework is not
  code of the repository: \<open>recovery\<close> is the status after its recovery handler, as a function of whether
  the handler panicked and of the status it had written; that \<open>FullPath\<close> is the template the handler was
  registered with is gin's documentation. Sockets, signals and logging are not modelled.
\<close>

section \<open>What a handler leaves behind\<close>

record ginEffect =
  ge_status :: int
  ge_errs :: "goErr list"
  ge_cause :: "goErr option"
  ge_downstream :: "duration list"
  ge_panics :: bool

record ginCall =
  gc_query :: "string \<Rightarrow> string"
  gc_roll :: "int \<Rightarrow> int"
  gc_left :: bool
  gc_built :: bool
  gc_answered :: bool
  gc_waited :: duration

text \<open>
  \<open>gc_left\<close> says that the client was gone before the handler ended a context of its own: its request context
  is then cancelled. A handler that writes nothing has status 200.
\<close>

definition leftCause :: "ginCall \<Rightarrow> goErr option" where
  "leftCause c = (if gc_left c then Some Canceled else None)"

definition wrote :: "ginCall \<Rightarrow> int \<Rightarrow> ginEffect" where
  "wrote c status = \<lparr>ge_status = status, ge_errs = [], ge_cause = leftCause c, ge_downstream = [], ge_panics = False\<rparr>"

definition deadlineFires :: "ginCall \<Rightarrow> ginEffect" where
  "deadlineFires c = (wrote c 200)\<lparr>ge_cause := Some (if gc_left c then Canceled else DeadlineExceeded)\<rparr>"

definition outbound :: "ginCall \<Rightarrow> ginEffect" where
  "outbound c =
     (if \<not> gc_built c then wrote c 500
      else if \<not> gc_answered c then (wrote c 502)\<lparr>ge_downstream := [gc_waited c]\<rparr>
      else (wrote c 200)\<lparr>ge_downstream := [gc_waited c]\<rparr>)"

section \<open>The routes\<close>

datatype exampleRoute =
    Hello | PanicRoute | DbError | UpstreamTimeout | DeadlineRoute | CanceledRoute | DownstreamRoute | Sleepy | FaultRoute fault

definition exampleRoutes :: "(string \<times> exampleRoute) list" where
  "exampleRoutes =
     [(''/hello/:name'', Hello), (''/boom'', PanicRoute), (''/db-error'', DbError), (''/upstream-timeout'', UpstreamTimeout),
      (''/timeout'', DeadlineRoute), (''/canceled'', CanceledRoute), (''/downstream'', DownstreamRoute), (''/sleepy'', Sleepy)]
     @ map (map_prod id FaultRoute) fault_Register"

definition faultEffect :: "ginCall \<Rightarrow> fault \<Rightarrow> faultOutcome \<Rightarrow> ginEffect" where
  "faultEffect c f out =
     (case fo_finish out of
        NoStatus \<Rightarrow> deadlineFires c
      | Panics \<Rightarrow> (wrote c 200)\<lparr>ge_panics := True\<rparr>
      | Status st \<Rightarrow>
          (wrote c st)\<lparr>ge_errs := (if fo_label out = '''' then [] else [PlainError (fo_label out)]),
                      ge_downstream := (if f = Downstream \<and> gc_built c then [gc_waited c] else [])\<rparr>)"

fun exampleHandler :: "ginCall \<Rightarrow> exampleRoute \<Rightarrow> faultState \<Rightarrow> ginEffect \<times> faultState" where
  "exampleHandler c Hello s = (wrote c 200, s)"
| "exampleHandler c PanicRoute s = ((wrote c 200)\<lparr>ge_panics := True\<rparr>, s)"
| "exampleHandler c DbError s = ((wrote c 500)\<lparr>ge_errs := [PlainError ''db pool exhausted'']\<rparr>, s)"
| "exampleHandler c UpstreamTimeout s = ((wrote c 502)\<lparr>ge_errs := [PlainError ''upstream timeout'']\<rparr>, s)"
| "exampleHandler c DeadlineRoute s = (deadlineFires c, s)"
| "exampleHandler c CanceledRoute s = ((wrote c 200)\<lparr>ge_cause := Some Canceled\<rparr>, s)"
| "exampleHandler c DownstreamRoute s = (outbound c, s)"
| "exampleHandler c Sleepy s = (wrote c 200, s)"
| "exampleHandler c (FaultRoute f) s =
     (case serveFault \<lparr>fc_fault = f, fc_query = gc_query c, fc_roll = gc_roll c, fc_built = gc_built c, fc_answered = gc_answered c\<rparr> s
      of (out, s') \<Rightarrow> (faultEffect c f out, s'))"

text \<open>The text of an error made by \<open>errors.New\<close> is its message; the handlers attach no other.\<close>

fun errorText :: "goErr \<Rightarrow> string" where
  "errorText (PlainError m) = m"
| "errorText _ = ''''"

record clientRequest =
  cq_call :: ginCall
  cq_Method :: string
  cq_header :: "string \<Rightarrow> string"
  cq_ContentLength :: int
  cq_start :: instant
  cq_end :: instant

definition exchangeOf :: "clientRequest \<Rightarrow> ginEffect \<Rightarrow> exchange" where
  "exchangeOf q e =
     \<lparr>hx_Method = cq_Method q, hx_header = cq_header q, hx_ContentLength = cq_ContentLength q, hx_cause = ge_cause e,
      hx_downstream = ge_downstream e, hx_start = cq_start q, hx_end = cq_end q, hx_panics = False\<rparr>"

text \<open>The chain of main: the middleware, then recovery, then the handler, so no panic reaches the middleware.\<close>

definition serveExample ::
  "(bool \<Rightarrow> int \<Rightarrow> int) \<Rightarrow> int \<Rightarrow> string \<times> exampleRoute \<Rightarrow> clientRequest \<Rightarrow> instant \<Rightarrow> faultState \<times> recorder \<Rightarrow> faultState \<times> recorder" where
  "serveExample recovery respSize route q now = (\<lambda>(s, r).
     case exampleHandler (cq_call q) (snd route) s of (e, s') \<Rightarrow>
       (s', gin_MiddlewareWithRecorder errorText r (exchangeOf q e) (fst route) (recovery (ge_panics e) (ge_status e)) respSize
              (ge_errs e) now))"

definition recovers :: "(bool \<Rightarrow> int \<Rightarrow> int) \<Rightarrow> bool" where
  "recovers recovery \<longleftrightarrow> (\<forall>st. recovery False st = st \<and> recovery True st = 500)"

section \<open>Every route gives the signal it is there for\<close>

text \<open>Status, error class and no-status reason the comments of the handlers promise to a client that stays.\<close>

fun promised :: "exampleRoute \<Rightarrow> int set \<times> string set \<times> NoStatusReason" where
  "promised DbError = ({500}, {''DB_POOL_EXHAUSTED''}, NoStatusUnspecified)"
| "promised UpstreamTimeout = ({502}, {''UPSTREAM_TIMEOUT''}, NoStatusUnspecified)"
| "promised PanicRoute = ({500}, {''''}, NoStatusUnspecified)"
| "promised DeadlineRoute = ({0}, {''''}, NoStatusContextDeadline)"
| "promised CanceledRoute = ({0}, {''''}, NoStatusContextCanceled)"
| "promised DownstreamRoute = ({200, 500, 502}, {''''}, NoStatusUnspecified)"
| "promised (FaultRoute Flaky) = ({200, 500}, {'''', ''FLAKY_BACKEND''}, NoStatusUnspecified)"
| "promised (FaultRoute Throttle) = ({200, 429}, {''''}, NoStatusUnspecified)"
| "promised (FaultRoute Timeout) = ({0}, {''''}, NoStatusContextDeadline)"
| "promised (FaultRoute Panic) = ({500}, {''''}, NoStatusUnspecified)"
| "promised (FaultRoute Boom) = ({500}, {''BOOM''}, NoStatusUnspecified)"
| "promised (FaultRoute Downstream) = ({200, 500, 502}, {''''}, NoStatusUnspecified)"
| "promised _ = ({200}, {''''}, NoStatusUnspecified)"

lemma sanitized_labels:
  "sanitizeErrorClass ''db pool exhausted'' = ''DB_POOL_EXHAUSTED''" "sanitizeErrorClass ''upstream timeout'' = ''UPSTREAM_TIMEOUT''"
  "sanitizeErrorClass ''flaky backend'' = ''FLAKY_BACKEND''" "sanitizeErrorClass ''boom'' = ''BOOM''" "sanitizeErrorClass '''' = ''''"
  by code_simp+

definition effectSignal :: "(bool \<Rightarrow> int \<Rightarrow> int) \<Rightarrow> ginEffect \<Rightarrow> int \<times> string \<times> NoStatusReason" where
  "effectSignal recovery e =
     (case ReclassifyNoStatus (ge_cause e) (recovery (ge_panics e) (ge_status e)) of
        (st, reason) \<Rightarrow> (st, sanitizeErrorClass (lastErrorLabel errorText (ge_errs e)), reason))"

definition keeps :: "int \<times> string \<times> NoStatusReason \<Rightarrow> int set \<times> string set \<times> NoStatusReason \<Rightarrow> bool" where
  "keeps sig p \<longleftrightarrow> fst sig \<in> fst p \<and> fst (snd sig) \<in> fst (snd p) \<and> snd (snd sig) = snd (snd p)"

lemmas signal_defs = effectSignal_def keeps_def wrote_def leftCause_def deadlineFires_def outbound_def ReclassifyNoStatus_def
  lastErrorLabel_def recovers_def sanitized_labels

lemma own_route_signal:
  assumes "recovers recovery" and "\<not> gc_left c" and "\<forall>f. rt \<noteq> FaultRoute f"
  shows "keeps (effectSignal recovery (fst (exampleHandler c rt s))) (promised rt)"
  using assms by (cases rt) (simp_all add: signal_defs)

lemma fault_route_signal:
  assumes "recovers recovery" and "\<not> gc_left c"
  shows "keeps (effectSignal recovery (fst (exampleHandler c (FaultRoute f) s))) (promised (FaultRoute f))"
  using assms
  by (cases f) (simp_all add: signal_defs faultEffect_def handler_defs Let_def case_prod_beta ok_def)

lemma route_signal:
  assumes "recovers recovery" and "\<not> gc_left c"
  shows "keeps (effectSignal recovery (fst (exampleHandler c rt s))) (promised rt)"
  using assms own_route_signal fault_route_signal by (cases "\<exists>f. rt = FaultRoute f") blast+

lemma route_downstream:
  "ge_downstream (fst (exampleHandler c rt s)) =
     (if rt \<in> {DownstreamRoute, FaultRoute Downstream} \<and> gc_built c then [gc_waited c] else [])"
proof (cases "\<exists>f. rt = FaultRoute f")
  case True
  then obtain f where rt: "rt = FaultRoute f" by blast
  show ?thesis
    unfolding rt by (cases f) (simp_all add: signal_defs faultEffect_def handler_defs Let_def case_prod_beta ok_def)
next
  case False
  then show ?thesis by (cases rt) (simp_all add: signal_defs)
qed

lemma tracked_one: "0 \<le> d \<Longrightarrow> d < 2 ^ 63 \<Longrightarrow> hx_downstream x = (if b then [d] else []) \<Longrightarrow> DownstreamElapsed (tracked x) = (if b then d else 0)"
  by (auto simp: tracked_def addDownstream_def DownstreamElapsed_def WithDownstreamTracking_def go_defs)

text \<open>
  A request of a client that stays is observed once, under the template of its route, with the status, the
  error class and the no-status reason that route promises; outbound time is attributed to the two routes
  that call out, for as long as the call took and also when it failed.
\<close>

theorem example_signals:
  assumes "recovers recovery" and "\<not> gc_left (cq_call q)" and "route \<in> set exampleRoutes" and "0 \<le> gc_waited (cq_call q)"
    and "gc_waited (cq_call q) < 2 ^ 63"
  shows "\<exists>rec. snd (serveExample recovery respSize route q now (s, r)) = endRequest (Observe (BeginRequest r) rec now) \<and>
    rec_RouteTemplate rec = fst route \<and>
    keeps (rec_Status rec, sanitizeErrorClass (rec_ErrorClass rec), rec_NoStatusReason rec) (promised (snd route)) \<and>
    rec_DownstreamDuration rec =
      (if snd route \<in> {DownstreamRoute, FaultRoute Downstream} \<and> gc_built (cq_call q) then gc_waited (cq_call q) else 0)"
proof -
  let ?e = "fst (exampleHandler (cq_call q) (snd route) s)"
  let ?rec = "recordOf (exchangeOf q ?e) (fst route) (recovery (ge_panics ?e) (ge_status ?e)) (ClampNonNegative respSize)
    (lastErrorLabel errorText (ge_errs ?e))"
  have tmpl: "fst route \<noteq> ''''"
    using assms(3) by (auto simp: exampleRoutes_def fault_Register_def)
  have run: "snd (serveExample recovery respSize route q now (s, r)) = endRequest (Observe (BeginRequest r) ?rec now)"
    using tmpl by (simp add: serveExample_def gin_MiddlewareWithRecorder_def exchangeOf_def case_prod_beta Let_def)
  have "(rec_Status ?rec, sanitizeErrorClass (rec_ErrorClass ?rec), rec_NoStatusReason ?rec) = effectSignal recovery ?e"
    by (simp add: recordOf_def effectSignal_def exchangeOf_def case_prod_beta Let_def)
  then have "keeps (rec_Status ?rec, sanitizeErrorClass (rec_ErrorClass ?rec), rec_NoStatusReason ?rec) (promised (snd route))"
    using route_signal [OF assms(1,2)] by simp
  moreover have "rec_DownstreamDuration ?rec =
      (if snd route \<in> {DownstreamRoute, FaultRoute Downstream} \<and> gc_built (cq_call q) then gc_waited (cq_call q) else 0)"
    using tracked_one [OF assms(4,5), of "exchangeOf q ?e"] route_downstream [of "cq_call q" "snd route" s]
    by (simp add: recordOf_def exchangeOf_def case_prod_beta Let_def)
  moreover have "rec_RouteTemplate ?rec = fst route"
    by (simp add: recordOf_def case_prod_beta Let_def)
  ultimately show ?thesis
    using run by blast
qed

section \<open>The traffic generator\<close>

definition genOptions :: "(string \<Rightarrow> string) \<Rightarrow> Option list" where
  "genOptions env =
     [WithKey ''dev-key'', WithEndpoint (orElse (env ''GEN_ENDPOINT'') ''http://localhost:8086''),
      WithService (orElse (env ''GEN_SERVICE'') ''live-generator''), WithFlushWindow (2 * second)]"

record ep =
  ep_m :: string
  ep_p :: string
  ep_w :: nat

definition eps :: "ep list" where
  "eps = map (\<lambda>(m, p, w). \<lparr>ep_m = m, ep_p = p, ep_w = w\<rparr>)
     [(''GET'', ''/healthz'', 6), (''GET'', ''/'', 4), (''GET'', ''/login'', 3), (''GET'', ''/dashboard'', 5), (''GET'', ''/goals'', 3),
      (''GET'', ''/projects/491'', 4), (''GET'', ''/profile/work-style/keystone'', 2), (''POST'', ''/form/submit/login'', 2),
      (''GET'', ''/api/v1/missing'', 1), (''GET'', ''/api/v1/boom'', 1)]"

definition sweepFaults :: "string list" where
  "sweepFaults =
     [''/fault/busy?ms=25'', ''/fault/rampcpu?step=2'', ''/fault/sometimesbusy?n=10&ms=50'', ''/fault/creep?step=3'',
      ''/fault/jitter?min=1&max=100'', ''/fault/flaky?pct=30'', ''/fault/throttle?pct=100'', ''/fault/timeout?ms=5'', ''/fault/panic'',
      ''/fault/goroutineleak?n=1'', ''/fault/downstream?ms=40'', ''/fault/boom'', ''/fault/leak?kb=256'', ''/fault/spike?mb=32'',
      ''/fault/churn?n=100000&sz=32'', ''/fault/bloat?mb=8&count=2'']"

definition sweep :: "(string \<times> string) list" where
  "sweep = map (\<lambda>e. (ep_m e, ep_p e)) eps @ map (Pair ''GET'') sweepFaults"

definition genRounds :: "string \<Rightarrow> nat" where
  "genRounds rs = (case parseInt64 rs of None \<Rightarrow> 1 | Some n \<Rightarrow> if n < 1 then 1 else nat n)"

definition genFault :: "(string \<Rightarrow> string) \<Rightarrow> ep list" where
  "genFault env =
     (let name = env ''GEN_FAULT''; params = env ''GEN_FAULT_PARAMS''
      in if name = '''' then []
         else [\<lparr>ep_m = ''GET'', ep_p = ''/fault/'' @ name @ (if params = '''' then '''' else ''?'' @ params), ep_w = 8\<rparr>])"

definition bag :: "ep list \<Rightarrow> ep list" where
  "bag es = concat (map (\<lambda>e. replicate (ep_w e) e) es)"

text \<open>The requests issued: all of them in a sweep, and those of the first ticks in the continuous mode;
  \<open>rolls\<close> are the values of \<open>rng.Intn\<close> at the ticks, each a function of its bound.\<close>

definition generated :: "(string \<Rightarrow> string) \<Rightarrow> (int \<Rightarrow> int) list \<Rightarrow> (string \<times> string) list" where
  "generated env rolls =
     (if env ''GEN_ROUNDS'' \<noteq> '''' then concat (replicate (genRounds (env ''GEN_ROUNDS'')) sweep)
      else let b = bag (eps @ genFault env)
           in map (\<lambda>roll. let e = b ! nat (roll (int (length b))) in (ep_m e, ep_p e)) rolls)"

definition pathOf :: "string \<Rightarrow> string" where
  "pathOf p = takeWhile (\<lambda>c. c \<noteq> CHR ''?'') p"

lemma set_bag: "set (bag es) = {e \<in> set es. 0 < ep_w e}"
  by (auto simp: bag_def)

lemma bag_nonempty: "bag (eps @ es) \<noteq> []"
  by (simp add: bag_def eps_def)

lemma sweep_faults: "map pathOf sweepFaults = filter (\<lambda>p. p \<noteq> ''/fault/reset'') (map fst fault_Register)"
  by code_simp

lemma sweep_length: "length sweep = 26"
  by (simp add: sweep_def eps_def sweepFaults_def)

text \<open>
  A sweep requests every healthy endpoint and every fault but the reset, each once per round, in the order
  they are registered, for at least one round. In the continuous mode every tick requests an endpoint
  of the list or the chosen fault. The recorder is set up with the dev key, the endpoint and service asked
  for and a window of two seconds, whatever the client's own variables say.
\<close>

theorem generator_requests:
  assumes "\<forall>roll \<in> set rolls. \<forall>n > 0. 0 \<le> roll n \<and> roll n < n"
  shows "map pathOf (map snd (drop (length eps) sweep)) = filter (\<lambda>p. p \<noteq> ''/fault/reset'') (map fst fault_Register)"
    and "env ''GEN_ROUNDS'' \<noteq> '''' \<Longrightarrow> length (generated env rolls) = genRounds (env ''GEN_ROUNDS'') * 26 \<and> 1 \<le> genRounds (env ''GEN_ROUNDS'')"
    and "env ''GEN_ROUNDS'' = '''' \<Longrightarrow> set (generated env rolls) \<subseteq> (\<lambda>e. (ep_m e, ep_p e)) ` set (eps @ genFault env)"
    and "let c = resolveConfig ipHost env ho (genOptions env) in c_Key c = ''dev-key'' \<and> c_FlushWindow c = 2 * second \<and>
       c_Endpoint c = orElse (env ''GEN_ENDPOINT'') ''http://localhost:8086'' \<and> c_Service c = orElse (env ''GEN_SERVICE'') ''live-generator''"
proof -
  show "map pathOf (map snd (drop (length eps) sweep)) = filter (\<lambda>p. p \<noteq> ''/fault/reset'') (map fst fault_Register)"
    using sweep_faults by (simp add: sweep_def comp_def)
  show "length (generated env rolls) = genRounds (env ''GEN_ROUNDS'') * 26 \<and> 1 \<le> genRounds (env ''GEN_ROUNDS'')"
    if "env ''GEN_ROUNDS'' \<noteq> ''''"
    using that by (auto simp: generated_def length_concat sum_list_replicate sweep_length genRounds_def split: option.splits)
  show "set (generated env rolls) \<subseteq> (\<lambda>e. (ep_m e, ep_p e)) ` set (eps @ genFault env)" if "env ''GEN_ROUNDS'' = ''''"
  proof -
    let ?b = "bag (eps @ genFault env)"
    have "?b ! nat (roll (int (length ?b))) \<in> set (eps @ genFault env)" if "roll \<in> set rolls" for roll
    proof -
      have "nat (roll (int (length ?b))) < length ?b"
        using assms that bag_nonempty [of "genFault env"] by (simp add: nat_less_iff)
      then have "?b ! nat (roll (int (length ?b))) \<in> set ?b" by (rule nth_mem)
      then show ?thesis by (simp add: set_bag)
    qed
    then show ?thesis using that by (auto simp: generated_def Let_def)
  qed
  show "let c = resolveConfig ipHost env ho (genOptions env) in c_Key c = ''dev-key'' \<and> c_FlushWindow c = 2 * second \<and>
       c_Endpoint c = orElse (env ''GEN_ENDPOINT'') ''http://localhost:8086'' \<and> c_Service c = orElse (env ''GEN_SERVICE'') ''live-generator''"
    by (simp add: resolveConfig_def genOptions_def zeroConfig_def WithKey_def WithEndpoint_def WithService_def WithFlushWindow_def
        resolveEndpoint_def orElse_def second_def Let_def)
qed

end
