(* ===== verification/Zstd_Codec.thy ===== *)
theory Zstd_Codec
  imports Prelude
begin

text \<open>
  The compression codec of the wire, src/proto/mapingcompress/zstd.go: the adapters that put the zstd encoder
  and decoder behind Connect's interfaces. The zstd library is a parameter, an encoder and a decoder over
  states of their own with the behaviour it documents: a decoder accepts a new stream, or none, until it is
  closed, and never after; an encoder emits a frame of what it was given when it is closed; its sink is a
  buffer of Connect, so a write does not fail. A stream is its bytes. Connect keeps the adapters in a pool: it binds an adapter to a stream, reads it to the end, calls
  Close, binds it to an empty stream and uses the same one again.
\<close>

section \<open>The library\<close>

type_synonym bytes = "8 word list"

record ('e, 'd) zstd =
  z_newEncoder :: 'e
  z_encWrite :: "bytes \<Rightarrow> 'e \<Rightarrow> 'e"
  z_encClose :: "'e \<Rightarrow> bytes \<times> 'e"
  z_encReset :: "'e \<Rightarrow> 'e"
  z_newDecoder :: 'd
  z_decReset :: "bytes option \<Rightarrow> 'd \<Rightarrow> bool \<times> 'd"
  z_decRead :: "'d \<Rightarrow> bytes option \<times> 'd"
  z_decClose :: "'d \<Rightarrow> 'd"

text \<open>\<open>decode\<close> is what a stream decodes to, \<open>usable\<close> holds of a decoder that is not closed, \<open>bound d s\<close> of one
  whose stream is \<open>s\<close>, and \<open>holds e p\<close> of an encoder that was given \<open>p\<close> since its last reset.\<close>

definition decoder_laws :: "('e, 'd) zstd \<Rightarrow> (bytes \<Rightarrow> bytes option) \<Rightarrow> ('d \<Rightarrow> bool) \<Rightarrow> ('d \<Rightarrow> bytes \<Rightarrow> bool) \<Rightarrow> bool" where
  "decoder_laws z decode usable bound \<longleftrightarrow>
     usable (z_newDecoder z) \<and>
     (\<forall>d s. usable d \<longrightarrow> fst (z_decReset z s d) \<and> usable (snd (z_decReset z s d))) \<and>
     (\<forall>d s. usable d \<longrightarrow> bound (snd (z_decReset z (Some s) d)) s) \<and>
     (\<forall>d s. usable d \<longrightarrow> bound d s \<longrightarrow> fst (z_decRead z d) = decode s) \<and>
     (\<forall>d. usable d \<longrightarrow> usable (snd (z_decRead z d))) \<and>
     (\<forall>d s. \<not> usable d \<longrightarrow> \<not> fst (z_decReset z s d) \<and> \<not> usable (snd (z_decReset z s d))) \<and>
     (\<forall>d. \<not> usable (z_decClose z d))"

definition encoder_laws :: "('e, 'd) zstd \<Rightarrow> (bytes \<Rightarrow> bytes option) \<Rightarrow> ('e \<Rightarrow> bytes \<Rightarrow> bool) \<Rightarrow> bool" where
  "encoder_laws z decode holds \<longleftrightarrow>
     holds (z_newEncoder z) [] \<and>
     (\<forall>e. holds (z_encReset z e) []) \<and>
     (\<forall>e p q. holds e p \<longrightarrow> holds (z_encWrite z q e) (p @ q)) \<and>
     (\<forall>e p. holds e p \<longrightarrow> decode (fst (z_encClose z e)) = Some p)"

section \<open>The adapters\<close>

record 'e compressor =
  c_enc :: 'e

record 'd decompressor =
  d_dec :: 'd

definition newCompressor :: "('e, 'd) zstd \<Rightarrow> 'e compressor" where
  "newCompressor z = \<lparr>c_enc = z_newEncoder z\<rparr>"

definition compressor_Write :: "('e, 'd) zstd \<Rightarrow> bytes \<Rightarrow> 'e compressor \<Rightarrow> 'e compressor" where
  "compressor_Write z p c = c\<lparr>c_enc := z_encWrite z p (c_enc c)\<rparr>"

definition compressor_Close :: "('e, 'd) zstd \<Rightarrow> 'e compressor \<Rightarrow> bytes \<times> 'e compressor" where
  "compressor_Close z c = (case z_encClose z (c_enc c) of (out, e) \<Rightarrow> (out, c\<lparr>c_enc := e\<rparr>))"

definition compressor_Reset :: "('e, 'd) zstd \<Rightarrow> 'e compressor \<Rightarrow> 'e compressor" where
  "compressor_Reset z c = c\<lparr>c_enc := z_encReset z (c_enc c)\<rparr>"

definition newDecompressor :: "('e, 'd) zstd \<Rightarrow> 'd decompressor" where
  "newDecompressor z = \<lparr>d_dec = z_newDecoder z\<rparr>"

definition decompressor_Read :: "('e, 'd) zstd \<Rightarrow> 'd decompressor \<Rightarrow> bytes option \<times> 'd decompressor" where
  "decompressor_Read z c = (case z_decRead z (d_dec c) of (out, d) \<Rightarrow> (out, c\<lparr>d_dec := d\<rparr>))"

definition decompressor_Reset :: "('e, 'd) zstd \<Rightarrow> bytes option \<Rightarrow> 'd decompressor \<Rightarrow> bool \<times> 'd decompressor" where
  "decompressor_Reset z s c = (case z_decReset z s (d_dec c) of (good, d) \<Rightarrow> (good, c\<lparr>d_dec := d\<rparr>))"

definition decompressor_Close :: "('e, 'd) zstd \<Rightarrow> 'd decompressor \<Rightarrow> bool \<times> 'd decompressor" where
  "decompressor_Close z c = decompressor_Reset z None c"

text \<open>One use of a pooled adapter. \<open>shut\<close> is its Close, so that another way of closing can be compared.\<close>

definition pooledDecode ::
  "('e, 'd) zstd \<Rightarrow> ('d decompressor \<Rightarrow> bool \<times> 'd decompressor) \<Rightarrow> bytes \<Rightarrow> 'd decompressor \<Rightarrow> bytes option \<times> 'd decompressor" where
  "pooledDecode z shut body c =
     (case decompressor_Reset z (Some body) c of
        (False, c) \<Rightarrow> (None, c)
      | (True, c) \<Rightarrow>
          let (out, c) = decompressor_Read z c; (_, c) = shut c; (_, c) = decompressor_Reset z (Some []) c in (out, c))"

fun pooledDecodes ::
  "('e, 'd) zstd \<Rightarrow> ('d decompressor \<Rightarrow> bool \<times> 'd decompressor) \<Rightarrow> bytes list \<Rightarrow> 'd decompressor \<Rightarrow> bytes option list" where
  "pooledDecodes z shut [] c = []"
| "pooledDecodes z shut (b # bs) c = (let (out, c) = pooledDecode z shut b c in out # pooledDecodes z shut bs c)"

definition pooledEncode :: "('e, 'd) zstd \<Rightarrow> bytes list \<Rightarrow> 'e compressor \<Rightarrow> bytes \<times> 'e compressor" where
  "pooledEncode z chunks c = compressor_Close z (fold (compressor_Write z) chunks (compressor_Reset z c))"

fun pooledEncodes :: "('e, 'd) zstd \<Rightarrow> bytes list list \<Rightarrow> 'e compressor \<Rightarrow> bytes list" where
  "pooledEncodes z [] c = []"
| "pooledEncodes z (m # ms) c = (let (out, c) = pooledEncode z m c in out # pooledEncodes z ms c)"

section \<open>A pooled decoder stays usable\<close>

lemma decoder_lawsD:
  assumes "decoder_laws z decode usable bound"
  shows "usable (z_newDecoder z)"
    and "usable d \<Longrightarrow> fst (z_decReset z s d)"
    and "usable d \<Longrightarrow> usable (snd (z_decReset z s d))"
    and "usable d \<Longrightarrow> bound (snd (z_decReset z (Some body) d)) body"
    and "usable d \<Longrightarrow> bound d body \<Longrightarrow> fst (z_decRead z d) = decode body"
    and "usable d \<Longrightarrow> usable (snd (z_decRead z d))"
    and "\<not> usable d \<Longrightarrow> \<not> fst (z_decReset z s d)"
    and "\<not> usable d \<Longrightarrow> \<not> usable (snd (z_decReset z s d))"
    and "\<not> usable (z_decClose z d)"
  using assms by (simp_all add: decoder_laws_def)

lemmas adapter_defs = pooledDecode_def decompressor_Reset_def decompressor_Read_def decompressor_Close_def newDecompressor_def
  case_prod_beta Let_def

lemma pooledDecode_use:
  assumes "decoder_laws z decode usable bound" and "usable (d_dec c)"
  shows "fst (pooledDecode z (decompressor_Close z) body c) = decode body \<and>
    usable (d_dec (snd (pooledDecode z (decompressor_Close z) body c)))"
proof -
  note D = decoder_lawsD [OF assms(1)]
  have "fst (z_decRead z (snd (z_decReset z (Some body) (d_dec c)))) = decode body"
    by (intro D assms(2))
  then show ?thesis
    by (simp add: adapter_defs D(2,3,6) assms(2))
qed

lemma pooledDecodes_use:
  "decoder_laws z decode usable bound \<Longrightarrow> usable (d_dec c) \<Longrightarrow>
   pooledDecodes z (decompressor_Close z) bodies c = map decode bodies"
  by (induction bodies arbitrary: c) (simp_all add: pooledDecode_use case_prod_beta Let_def)

lemma writes_hold:
  assumes "encoder_laws z decode holds"
  shows "holds (c_enc c) p \<Longrightarrow> holds (c_enc (fold (compressor_Write z) chunks c)) (p @ concat chunks)"
proof (induction chunks arbitrary: c p)
  case (Cons q chunks)
  have "holds (c_enc (compressor_Write z q c)) (p @ q)"
    using assms Cons.prems by (simp add: encoder_laws_def compressor_Write_def)
  from Cons.IH [OF this] show ?case by simp
qed simp

lemma pooledEncodes_decode:
  assumes "encoder_laws z decode holds"
  shows "map decode (pooledEncodes z messages c) = map (Some \<circ> concat) messages"
proof (induction messages arbitrary: c)
  case (Cons m ms)
  have "holds (c_enc (compressor_Reset z c)) []"
    using assms by (simp add: encoder_laws_def compressor_Reset_def)
  from writes_hold [OF assms this, of m]
  have "decode (fst (pooledEncode z m c)) = Some (concat m)"
    using assms by (simp add: pooledEncode_def compressor_Close_def encoder_laws_def case_prod_beta)
  then show ?case using Cons.IH by (simp add: case_prod_beta Let_def)
qed simp

text \<open>
  Any number of messages goes through the two pooled adapters unchanged, whatever was read before, corrupt
  streams included. An adapter whose Close closed the decoder would refuse every message after the first.
\<close>

theorem codec_survives_pooling:
  assumes "decoder_laws z decode usable bound" and "encoder_laws z decode holds"
  shows "pooledDecodes z (decompressor_Close z) (pooledEncodes z messages c) (newDecompressor z) = map (Some \<circ> concat) messages"
    and "pooledDecodes z (decompressor_Close z) bodies (newDecompressor z) = map decode bodies"
proof -
  have new: "usable (d_dec (newDecompressor z))"
    using assms(1) by (simp add: decoder_laws_def newDecompressor_def)
  show "pooledDecodes z (decompressor_Close z) bodies (newDecompressor z) = map decode bodies" for bodies
    using pooledDecodes_use [OF assms(1) new] .
  then show "pooledDecodes z (decompressor_Close z) (pooledEncodes z messages c) (newDecompressor z) = map (Some \<circ> concat) messages"
    by (simp add: pooledEncodes_decode [OF assms(2)])
qed

definition terminalClose :: "('e, 'd) zstd \<Rightarrow> 'd decompressor \<Rightarrow> bool \<times> 'd decompressor" where
  "terminalClose z c = (True, c\<lparr>d_dec := z_decClose z (d_dec c)\<rparr>)"

lemma closed_refuses:
  assumes "decoder_laws z decode usable bound"
  shows "\<not> usable (d_dec c) \<Longrightarrow> pooledDecodes z shut bodies c = map (\<lambda>_. None) bodies"
  by (induction bodies arbitrary: c) (simp_all add: adapter_defs decoder_lawsD(7,8) [OF assms])

theorem terminal_close_poisons_pool:
  assumes "decoder_laws z decode usable bound"
  shows "pooledDecodes z (terminalClose z) (body # bodies) (newDecompressor z) = decode body # map (\<lambda>_. None) bodies"
proof -
  note D = decoder_lawsD [OF assms]
  have "fst (z_decRead z (snd (z_decReset z (Some body) (z_newDecoder z)))) = decode body"
    by (intro D)
  then have "fst (pooledDecode z (terminalClose z) body (newDecompressor z)) = decode body"
    "\<not> usable (d_dec (snd (pooledDecode z (terminalClose z) body (newDecompressor z))))"
    by (simp_all add: adapter_defs terminalClose_def D(1,2,8,9))
  then show ?thesis
    using closed_refuses [OF assms] by (simp add: case_prod_beta Let_def)
qed

text \<open>The laws can hold: a codec whose frames are the bytes themselves; a closed decoder is \<open>None\<close>.\<close>

definition storedZstd :: "(bytes, bytes option) zstd" where
  "storedZstd =
     \<lparr>z_newEncoder = [], z_encWrite = (\<lambda>q e. e @ q), z_encClose = (\<lambda>e. (e, [])), z_encReset = (\<lambda>_. []), z_newDecoder = Some [],
      z_decReset = (\<lambda>s d. case d of None \<Rightarrow> (False, None) | Some _ \<Rightarrow> (True, Some (case s of None \<Rightarrow> [] | Some b \<Rightarrow> b))),
      z_decRead = (\<lambda>d. (d, map_option (\<lambda>_. []) d)), z_decClose = (\<lambda>_. None)\<rparr>"

theorem codec_survives_pooling_witness:
  "pooledDecodes storedZstd (decompressor_Close storedZstd) (pooledEncodes storedZstd [[[1], [2]], [[3]]] \<lparr>c_enc = [9]\<rparr>)
     (newDecompressor storedZstd) = [Some [1, 2], Some [3]]"
proof -
  have "decoder_laws storedZstd Some (\<lambda>d. d \<noteq> None) (\<lambda>d s. d = Some s)"
    by (auto simp: decoder_laws_def storedZstd_def)
  moreover have "encoder_laws storedZstd Some (=)"
    by (simp add: encoder_laws_def storedZstd_def)
  ultimately show ?thesis
    by (simp only: codec_survives_pooling(1) list.map comp_apply concat.simps append.simps)
qed

end
