(* ===== verification/Wire_Call.thy ===== *)
theory Wire_Call
  imports Routing Transport Zstd_Codec Server_App
begin

text \<open>
  A call of the ingest service from end to end: the generated client and server stubs of
  src/proto/maping/v1/mapingv1connect/maping.connect.go, the body cap \<open>withMaxBody\<close> of src/server/app/app.go and
  the mux in between. The Connect runtime is a parameter of two parts, the protobuf encoding of a message
  (\<open>codec\<close>) and the framing of a body (\<open>framing\<close>); it compresses with the pooled zstd adapters the two sides
  register, sends a POST to the URL of the procedure, and hands header and message to the method the
  server stub chose. The network delivers what was sent; a call that is not answered is the failure
  outcome of the uploader's steps.
\<close>

section \<open>The generated stubs\<close>

definition IngestServiceRegisterProcedure :: string where
  "IngestServiceRegisterProcedure = ''/maping.v1.IngestService/Register''"

definition IngestServiceUploadProcedure :: string where
  "IngestServiceUploadProcedure = ''/maping.v1.IngestService/Upload''"

record ingestServiceClient =
  ic_register :: string
  ic_upload :: string

definition NewIngestServiceClient :: "string \<Rightarrow> ingestServiceClient" where
  "NewIngestServiceClient baseURL =
     (let base = trimRight (CHR ''/'') baseURL
      in \<lparr>ic_register = base @ IngestServiceRegisterProcedure, ic_upload = base @ IngestServiceUploadProcedure\<rparr>)"

datatype rpc = RegisterRPC | UploadRPC

definition NewIngestServiceHandler :: "string \<times> (string \<Rightarrow> rpc option)" where
  "NewIngestServiceHandler =
     (''/maping.v1.IngestService/'',
      \<lambda>path. if path = IngestServiceRegisterProcedure then Some RegisterRPC
             else if path = IngestServiceUploadProcedure then Some UploadRPC else None)"

section \<open>Bodies on the wire\<close>

record 'm codec =
  cd_marshal :: "'m \<Rightarrow> bytes"
  cd_unmarshal :: "bytes \<Rightarrow> 'm option"

record framing =
  fr_frame :: "bytes \<Rightarrow> bytes"
  fr_deframe :: "bytes \<Rightarrow> bytes option"

definition codec_laws :: "'m codec \<Rightarrow> 'm set \<Rightarrow> bool" where
  "codec_laws cd M \<longleftrightarrow> (\<forall>m \<in> M. cd_unmarshal cd (cd_marshal cd m) = Some m)"

definition framing_laws :: "framing \<Rightarrow> bool" where
  "framing_laws fr \<longleftrightarrow> (\<forall>b. fr_deframe fr (fr_frame fr b) = Some b)"

text \<open>\<open>http.MaxBytesReader\<close> fails a read past the limit.\<close>

definition withMaxBody :: "int \<Rightarrow> bytes \<Rightarrow> bytes option" where
  "withMaxBody limit body = (if int (length body) > limit then None else Some body)"

definition encodeBody :: "('e, 'd) zstd \<Rightarrow> framing \<Rightarrow> 'm codec \<Rightarrow> 'm \<Rightarrow> 'e compressor \<Rightarrow> bytes \<times> 'e compressor" where
  "encodeBody z fr cd m c = (case pooledEncode z [cd_marshal cd m] c of (out, c') \<Rightarrow> (fr_frame fr out, c'))"

definition decodeBody :: "('e, 'd) zstd \<Rightarrow> framing \<Rightarrow> 'm codec \<Rightarrow> bytes \<Rightarrow> 'd decompressor \<Rightarrow> 'm option \<times> 'd decompressor" where
  "decodeBody z fr cd body d =
     (case fr_deframe fr body of
        None \<Rightarrow> (None, d)
      | Some p \<Rightarrow>
          (case pooledDecode z (decompressor_Close z) p d of
             (None, d') \<Rightarrow> (None, d')
           | (Some raw, d') \<Rightarrow> (cd_unmarshal cd raw, d')))"

section \<open>A call\<close>

datatype callError = NotRouted outcome | UnknownProcedure | BodyTooLarge | BadBody | Remote connectError

record ('e, 'd, 's) endpoints =
  en_enc :: "'e compressor"
  en_dec :: "'d decompressor"
  en_server :: 's

record site =
  si_auth :: "auth option"
  si_home :: bool
  si_ready :: bool
  si_cap :: int
  si_routes :: "(string \<times> nat) list"

definition postRequest :: "string \<Rightarrow> siteRequest" where
  "postRequest path =
     \<lparr>sr_method = ''POST'', sr_path = path,
      sr_req = \<lparr>rq_path = path, rq_provider = '''', rq_query = (\<lambda>_. ''''), rq_form = (\<lambda>_. ''''), rq_cookies = []\<rparr>\<rparr>"

text \<open>The path of a request to an absolute URL.\<close>

definition urlPath :: "string \<Rightarrow> string" where
  "urlPath u =
     (case getScheme '''' (fst (cutByte u (CHR ''#''))) of
        None \<Rightarrow> ''''
      | Some (_, rest) \<Rightarrow>
          let rest = fst (cutByte rest (CHR ''?''))
          in if hasPrefix rest ''//'' then dropWhile (\<lambda>c. c \<noteq> CHR ''/'') (drop 2 rest) else rest)"

definition serveUnary ::
  "('e, 'd) zstd \<Rightarrow> framing \<Rightarrow> 'm codec \<Rightarrow> (header \<Rightarrow> 'm \<Rightarrow> 's \<Rightarrow> (connectError + 'r) \<times> 's) \<Rightarrow> header \<Rightarrow> bytes \<Rightarrow>
   ('e, 'd, 's) endpoints \<Rightarrow> (callError + 'r) \<times> ('e, 'd, 's) endpoints" where
  "serveUnary z fr cd impl hdr body en =
     (case decodeBody z fr cd body (en_dec en) of
        (None, d) \<Rightarrow> (Inl BadBody, en\<lparr>en_dec := d\<rparr>)
      | (Some m, d) \<Rightarrow>
          (case impl hdr m (en_server en) of
             (Inl e, s) \<Rightarrow> (Inl (Remote e), en\<lparr>en_dec := d, en_server := s\<rparr>)
           | (Inr r, s) \<Rightarrow> (Inr r, en\<lparr>en_dec := d, en_server := s\<rparr>)))"

definition callUnary ::
  "('e, 'd) zstd \<Rightarrow> framing \<Rightarrow> 'm codec \<Rightarrow> site \<Rightarrow> instant \<Rightarrow> rpc \<Rightarrow> (header \<Rightarrow> 'm \<Rightarrow> 's \<Rightarrow> (connectError + 'r) \<times> 's) \<Rightarrow>
   string \<Rightarrow> header \<Rightarrow> 'm \<Rightarrow> ('e, 'd, 's) endpoints \<Rightarrow> (callError + 'r) \<times> ('e, 'd, 's) endpoints" where
  "callUnary z fr cd si now which impl url hdr m en =
     (case encodeBody z fr cd m (en_enc en) of (body, c) \<Rightarrow>
        let en = en\<lparr>en_enc := c\<rparr>; path = urlPath url
        in case dispatch (si_auth si) (si_home si) (si_ready si) (si_cap si) (si_routes si) now (postRequest path) of
             IngestCall cap \<Rightarrow>
               if snd NewIngestServiceHandler path \<noteq> Some which then (Inl UnknownProcedure, en)
               else (case withMaxBody cap body of
                       None \<Rightarrow> (Inl BodyTooLarge, en)
                     | Some body \<Rightarrow> serveUnary z fr cd impl hdr body en)
           | other \<Rightarrow> (Inl (NotRouted other), en))"

text \<open>The two methods of the stub client.\<close>

definition ingestServiceClient_Upload ::
  "('e, 'd) zstd \<Rightarrow> framing \<Rightarrow> UploadRequest codec \<Rightarrow> site \<Rightarrow> instant \<Rightarrow> 's Handler \<Rightarrow> ingestServiceClient \<Rightarrow> header \<Rightarrow> UploadRequest \<Rightarrow>
   ('e, 'd, 's) endpoints \<Rightarrow> (callError + UploadResponse) \<times> ('e, 'd, 's) endpoints" where
  "ingestServiceClient_Upload z fr cd si now h c hdr req = callUnary z fr cd si now UploadRPC (Upload h) (ic_upload c) hdr req"

definition ingestServiceClient_Register ::
  "('e, 'd) zstd \<Rightarrow> framing \<Rightarrow> Handshake codec \<Rightarrow> site \<Rightarrow> instant \<Rightarrow> 's Handler \<Rightarrow> ingestServiceClient \<Rightarrow> header \<Rightarrow> Handshake \<Rightarrow>
   ('e, 'd, 's) endpoints \<Rightarrow> (callError + bool) \<times> ('e, 'd, 's) endpoints" where
  "ingestServiceClient_Register z fr cd si now h c hdr hs = callUnary z fr cd si now RegisterRPC (Register h) (ic_register c) hdr hs"

text \<open>The handler of a server that implements nothing.\<close>

definition Unimplemented_Register :: "header \<Rightarrow> Handshake \<Rightarrow> 's \<Rightarrow> (connectError + bool) \<times> 's" where
  "Unimplemented_Register hdr hs s = (Inl (ConnectError CodeUnimplemented ''maping.v1.IngestService.Register is not implemented''), s)"

definition Unimplemented_Upload :: "header \<Rightarrow> UploadRequest \<Rightarrow> 's \<Rightarrow> (connectError + UploadResponse) \<times> 's" where
  "Unimplemented_Upload hdr req s = (Inl (ConnectError CodeUnimplemented ''maping.v1.IngestService.Upload is not implemented''), s)"

text \<open>The two methods of the transport client, with the stub client for its endpoint; the reply is kept.\<close>

definition wireUpload ::
  "('e, 'd) zstd \<Rightarrow> framing \<Rightarrow> UploadRequest codec \<Rightarrow> site \<Rightarrow> instant \<Rightarrow> 's Handler \<Rightarrow> string \<Rightarrow> transport_client \<Rightarrow> UploadRequest \<Rightarrow>
   ('e, 'd, 's) endpoints \<Rightarrow> (callError + UploadResponse) \<times> ('e, 'd, 's) endpoints" where
  "wireUpload z fr cd si now h endpoint tc req =
     ingestServiceClient_Upload z fr cd si now h (NewIngestServiceClient endpoint) (authHeader tc noHeader) req"

definition wireRegister ::
  "('e, 'd) zstd \<Rightarrow> framing \<Rightarrow> Handshake codec \<Rightarrow> site \<Rightarrow> instant \<Rightarrow> 's Handler \<Rightarrow> string \<Rightarrow> transport_client \<Rightarrow> Handshake \<Rightarrow>
   ('e, 'd, 's) endpoints \<Rightarrow> (callError + bool) \<times> ('e, 'd, 's) endpoints" where
  "wireRegister z fr cd si now h endpoint tc hs =
     ingestServiceClient_Register z fr cd si now h (NewIngestServiceClient endpoint) (authHeader tc noHeader) hs"

section \<open>Routing\<close>

lemma procedures_found:
  assumes "p = IngestServiceUploadProcedure \<or> p = IngestServiceRegisterProcedure"
  shows "findHandler (assembleMux authLayer []) ''POST'' p = Found OIngest []"
proof -
  have none: "findHandler (assembleMux None []) ''POST'' IngestServiceUploadProcedure = Found OIngest []"
    "findHandler (assembleMux None []) ''POST'' IngestServiceRegisterProcedure = Found OIngest []"
    by code_simp+
  have some: "findHandler ([handle ''GET /healthz'' OHealth] @ (handle ''/'' ODashboard # auth_Register dev) @ mountIngest @ docs_Register @
      mountExtensions []) ''POST'' p = Found OIngest []" if "dev = True \<or> dev = False" for dev
    using assms that by (elim disjE; simp only:; code_simp)
  show ?thesis
    using assms none some by (cases authLayer) (auto simp: assembleMux_def mountDashboard_def)
qed

lemma procedure_chosen:
  "snd NewIngestServiceHandler IngestServiceUploadProcedure = Some UploadRPC"
  "snd NewIngestServiceHandler IngestServiceRegisterProcedure = Some RegisterRPC"
  by (simp_all add: NewIngestServiceHandler_def IngestServiceUploadProcedure_def IngestServiceRegisterProcedure_def)

text \<open>The endpoints a client can be given: a scheme and a host, with or without slashes behind.\<close>

definition originURL :: "string \<Rightarrow> bool" where
  "originURL u \<longleftrightarrow> (\<exists>scheme host n. u = scheme @ ''://'' @ host @ replicate n (CHR ''/'') \<and> scheme \<in> {''http'', ''https''} \<and>
     host \<noteq> '''' \<and> (\<forall>c \<in> set host. c \<notin> {CHR ''/'', CHR ''?'', CHR ''#''}))"

lemma trimRight_slashes:
  assumes "x \<noteq> ''''" and "last x \<noteq> CHR ''/''"
  shows "trimRight (CHR ''/'') (x @ replicate n (CHR ''/'')) = x"
proof -
  have "dropWhile (\<lambda>c. c = CHR ''/'') (replicate n (CHR ''/'') @ rev x) = rev x"
    using assms by (induction n) (auto simp: hd_rev dropWhile_eq_self_iff)
  then show ?thesis by (simp add: trimRight_def)
qed

lemma urlPath_origin:
  assumes "scheme \<in> {''http'', ''https''}" and "\<forall>c \<in> set host. c \<notin> {CHR ''/'', CHR ''?'', CHR ''#''}"
    and "hasPrefix p ''/''" and "CHR ''?'' \<notin> set p" and "CHR ''#'' \<notin> set p"
  shows "urlPath (scheme @ ''://'' @ host @ p) = p"
proof -
  let ?rest = "''//'' @ host @ p"
  have "CHR ''#'' \<notin> set host" using assms(2) by blast
  then have "CHR ''#'' \<notin> set (scheme @ '':'' @ ?rest)"
    using assms(1,5) by (elim insertE emptyE) simp_all
  then have frag: "fst (cutByte (scheme @ '':'' @ ?rest) (CHR ''#'')) = scheme @ '':'' @ ?rest"
    by (subst cutByte_notin) simp_all
  have scheme: "getScheme '''' (scheme @ '':'' @ ?rest) = Some (scheme, ?rest)"
    using assms(1) by (elim insertE emptyE) (simp_all add: isLetter_def isDigitChar_def)
  have "CHR ''?'' \<notin> set host" using assms(2) by blast
  then have query: "fst (cutByte ?rest (CHR ''?'')) = ?rest"
    using assms(4) by (subst cutByte_notin) simp_all
  have path: "dropWhile (\<lambda>c. c \<noteq> CHR ''/'') (host @ p) = p"
  proof -
    have "dropWhile (\<lambda>c. c \<noteq> CHR ''/'') p = p"
      using assms(3) by (cases p) (auto simp: hasPrefix_def)
    moreover have "\<forall>c \<in> set host. c \<noteq> CHR ''/''" using assms(2) by blast
    ultimately show ?thesis by (simp add: dropWhile_append2)
  qed
  show ?thesis
    using frag scheme query path by (simp add: urlPath_def hasPrefix_def)
qed

lemma client_path:
  assumes "originURL u"
  shows "urlPath (ic_upload (NewIngestServiceClient u)) = IngestServiceUploadProcedure"
    and "urlPath (ic_register (NewIngestServiceClient u)) = IngestServiceRegisterProcedure"
proof -
  obtain scheme host n where u: "u = (scheme @ ''://'' @ host) @ replicate n (CHR ''/'')" "scheme \<in> {''http'', ''https''}" "host \<noteq> ''''"
      "\<forall>c \<in> set host. c \<notin> {CHR ''/'', CHR ''?'', CHR ''#''}"
    using assms unfolding originURL_def by auto
  have "last (scheme @ ''://'' @ host) \<noteq> CHR ''/''"
    using u(3,4) last_in_set [of host] by auto
  then have "trimRight (CHR ''/'') u = scheme @ ''://'' @ host"
    unfolding u(1) using u(3) by (intro trimRight_slashes) auto
  then show "urlPath (ic_upload (NewIngestServiceClient u)) = IngestServiceUploadProcedure"
    "urlPath (ic_register (NewIngestServiceClient u)) = IngestServiceRegisterProcedure"
    using urlPath_origin [OF u(2,4)]
    by (simp_all add: NewIngestServiceClient_def IngestServiceUploadProcedure_def IngestServiceRegisterProcedure_def hasPrefix_def)
qed

section \<open>A call refines the method\<close>

text \<open>What the runtime is relied on for.\<close>

definition wire_laws ::
  "('e, 'd) zstd \<Rightarrow> framing \<Rightarrow> 'm codec \<Rightarrow> 'm set \<Rightarrow> (bytes \<Rightarrow> bytes option) \<Rightarrow> ('d \<Rightarrow> bool) \<Rightarrow> ('d \<Rightarrow> bytes \<Rightarrow> bool) \<Rightarrow> ('e \<Rightarrow> bytes \<Rightarrow> bool) \<Rightarrow> bool" where
  "wire_laws z fr cd M decode usable bound holds \<longleftrightarrow>
     decoder_laws z decode usable bound \<and> encoder_laws z decode holds \<and> framing_laws fr \<and> codec_laws cd M"

lemma wire_lawsD:
  assumes "wire_laws z fr cd M decode usable bound holds"
  shows "decoder_laws z decode usable bound" "encoder_laws z decode holds" "fr_deframe fr (fr_frame fr b) = Some b"
    "m \<in> M \<Longrightarrow> cd_unmarshal cd (cd_marshal cd m) = Some m"
  using assms by (simp_all add: wire_laws_def framing_laws_def codec_laws_def)

lemma encode_decode:
  assumes "wire_laws z fr cd M decode usable bound holds" and "usable (d_dec d)" and "m \<in> M"
  shows "fst (decodeBody z fr cd (fst (encodeBody z fr cd m c)) d) = Some m"
    and "usable (d_dec (snd (decodeBody z fr cd (fst (encodeBody z fr cd m c)) d)))"
proof -
  note D = wire_lawsD [OF assms(1)]
  let ?out = "fst (pooledEncode z [cd_marshal cd m] c)"
  have "decode ?out = Some (cd_marshal cd m)"
    using pooledEncodes_decode [OF D(2), of "[[cd_marshal cd m]]" c] by (simp add: case_prod_beta Let_def)
  then have "fst (pooledDecode z (decompressor_Close z) ?out d) = Some (cd_marshal cd m)"
    "usable (d_dec (snd (pooledDecode z (decompressor_Close z) ?out d)))"
    using pooledDecode_use [OF D(1) assms(2), of ?out] by simp_all
  then show "fst (decodeBody z fr cd (fst (encodeBody z fr cd m c)) d) = Some m"
    "usable (d_dec (snd (decodeBody z fr cd (fst (encodeBody z fr cd m c)) d)))"
    by (simp_all add: decodeBody_def encodeBody_def D(3) D(4) [OF assms(3)] case_prod_beta split: option.splits)
qed

text \<open>The reply of the method as the caller sees it.\<close>

definition replied :: "connectError + 'r \<Rightarrow> callError + 'r" where
  "replied res = map_sum Remote id res"

lemma callUnary_refines:
  assumes "wire_laws z fr cd M decode usable bound holds" and "usable (d_dec (en_dec en))" and "si_routes si = []"
    and "urlPath url = p" and "snd NewIngestServiceHandler p = Some which"
    and "p = IngestServiceUploadProcedure \<or> p = IngestServiceRegisterProcedure"
    and "callUnary z fr cd si now which impl url hdr m en = (res, en')" and "m \<in> M"
  shows "usable (d_dec (en_dec en'))"
    and "(res, en_server en') =
      (if int (length (fst (encodeBody z fr cd m (en_enc en)))) > si_cap si then (Inl BodyTooLarge, en_server en)
       else map_prod replied id (impl hdr m (en_server en)))"
proof -
  have "dispatch (si_auth si) (si_home si) (si_ready si) (si_cap si) (si_routes si) now (postRequest p) = IngestCall (si_cap si)"
    using procedures_found [OF assms(6)] by (simp add: dispatch_def postRequest_def assms(3))
  moreover note encode_decode [OF assms(1,2,8), of "en_enc en"]
  ultimately have "usable (d_dec (en_dec en')) \<and> (res, en_server en') =
      (if int (length (fst (encodeBody z fr cd m (en_enc en)))) > si_cap si then (Inl BodyTooLarge, en_server en)
       else map_prod replied id (impl hdr m (en_server en)))"
    using assms(2,4,5,7)
    by (auto simp: callUnary_def withMaxBody_def serveUnary_def replied_def map_prod_def case_prod_beta Let_def split: sum.splits option.splits if_splits)
  then show "usable (d_dec (en_dec en'))"
    and "(res, en_server en') =
      (if int (length (fst (encodeBody z fr cd m (en_enc en)))) > si_cap si then (Inl BodyTooLarge, en_server en)
       else map_prod replied id (impl hdr m (en_server en)))" by blast+
qed

fun wireUploads ::
  "('e, 'd) zstd \<Rightarrow> framing \<Rightarrow> UploadRequest codec \<Rightarrow> site \<Rightarrow> 's Handler \<Rightarrow> string \<Rightarrow> transport_client \<Rightarrow> (instant \<times> UploadRequest) list \<Rightarrow>
   ('e, 'd, 's) endpoints \<Rightarrow> (callError + UploadResponse) list \<times> ('e, 'd, 's) endpoints" where
  "wireUploads z fr cd si h endpoint tc [] en = ([], en)"
| "wireUploads z fr cd si h endpoint tc ((now, req) # reqs) en =
     (let (res, en1) = wireUpload z fr cd si now h endpoint tc req en; (ress, en2) = wireUploads z fr cd si h endpoint tc reqs en1
      in (res # ress, en2))"

fun directUploads :: "'s Handler \<Rightarrow> header \<Rightarrow> UploadRequest list \<Rightarrow> 's \<Rightarrow> (connectError + UploadResponse) list \<times> 's" where
  "directUploads h hdr [] s = ([], s)"
| "directUploads h hdr (req # reqs) s = (let (res, s1) = Upload h hdr req s; (ress, s2) = directUploads h hdr reqs s1 in (res # ress, s2))"

lemma wireUpload_refines:
  assumes "wire_laws z fr cd M decode usable bound holds" and "usable (d_dec (en_dec en))" and "si_routes si = []" and "originURL endpoint"
    and "req \<in> M"
  shows "usable (d_dec (en_dec (snd (wireUpload z fr cd si now h endpoint tc req en))))"
    and "map_prod id en_server (wireUpload z fr cd si now h endpoint tc req en) =
      (if int (length (fst (encodeBody z fr cd req (en_enc en)))) > si_cap si then (Inl BodyTooLarge, en_server en)
       else map_prod replied id (Upload h (authHeader tc noHeader) req (en_server en)))"
proof -
  obtain res en' where c: "wireUpload z fr cd si now h endpoint tc req en = (res, en')" by fastforce
  note R = callUnary_refines [OF assms(1-3) client_path(1) [OF assms(4)] procedure_chosen(1) disjI1 [OF refl] c [unfolded wireUpload_def ingestServiceClient_Upload_def] assms(5)]
  show "usable (d_dec (en_dec (snd (wireUpload z fr cd si now h endpoint tc req en))))"
    using R(1) by (simp add: c)
  show "map_prod id en_server (wireUpload z fr cd si now h endpoint tc req en) =
      (if int (length (fst (encodeBody z fr cd req (en_enc en)))) > si_cap si then (Inl BodyTooLarge, en_server en)
       else map_prod replied id (Upload h (authHeader tc noHeader) req (en_server en)))"
    using R(2) by (simp add: c)
qed

lemma wireUploads_refines:
  assumes "wire_laws z fr cd M decode usable bound holds" and "si_routes si = []" and "originURL endpoint"
    and "\<forall>m \<in> M. \<forall>c. int (length (fst (encodeBody z fr cd m c))) \<le> si_cap si"
  shows "usable (d_dec (en_dec en)) \<Longrightarrow> snd ` set reqs \<subseteq> M \<Longrightarrow>
    map_prod id en_server (wireUploads z fr cd si h endpoint tc reqs en) =
      map_prod (map replied) id (directUploads h (authHeader tc noHeader) (map snd reqs) (en_server en))"
proof (induction reqs arbitrary: en)
  case (Cons nr reqs)
  obtain now req where nr: "nr = (now, req)" by fastforce
  have M: "req \<in> M" "snd ` set reqs \<subseteq> M" using Cons.prems(2) nr by auto
  obtain res en1 where c: "wireUpload z fr cd si now h endpoint tc req en = (res, en1)" by fastforce
  obtain r s1 where u: "Upload h (authHeader tc noHeader) req (en_server en) = (r, s1)" by fastforce
  have "\<not> int (length (fst (encodeBody z fr cd req (en_enc en)))) > si_cap si"
    using assms(4) M(1) by (meson not_less)
  then have s: "usable (d_dec (en_dec en1))" "res = replied r" "en_server en1 = s1"
    using wireUpload_refines [OF assms(1) Cons.prems(1) assms(2,3) M(1), of now h tc] by (simp_all add: c u)
  then show ?case
    using Cons.IH [OF s(1) M(2)] by (simp add: nr c u case_prod_beta Let_def prod_eq_iff)
qed simp

text \<open>
  C12. Calling over the wire is calling the method: for a client whose endpoint is an origin, with or without
  slashes behind, a series of uploads through stub client, compression, mux, body cap and server stub gives
  the replies and leaves the server in the state that the same uploads give when they are handed to the
  handler directly with the bearer header, however often the pooled adapters have been used; and a
  request whose body exceeds the cap is refused before the handler sees it, without a change of the
  server.
\<close>

theorem wire_refines_handler:
  assumes "wire_laws z fr cd (snd ` set ((now, req) # reqs)) decode usable bound holds"
    and "usable (d_dec (en_dec en))" and "si_routes si = []" and "originURL endpoint"
  shows "((\<forall>m \<in> snd ` set ((now, req) # reqs). \<forall>c. int (length (fst (encodeBody z fr cd m c))) \<le> si_cap si) \<longrightarrow>
     map_prod id en_server (wireUploads z fr cd si h endpoint tc ((now, req) # reqs) en) =
     map_prod (map replied) id (directUploads h (authHeader tc noHeader) (req # map snd reqs) (en_server en))) \<and>
   (int (length (fst (encodeBody z fr cd req (en_enc en)))) > si_cap si \<longrightarrow>
     map_prod id en_server (wireUpload z fr cd si now h endpoint tc req en) = (Inl BodyTooLarge, en_server en))"
proof (intro conjI impI)
  assume "\<forall>m \<in> snd ` set ((now, req) # reqs). \<forall>c. int (length (fst (encodeBody z fr cd m c))) \<le> si_cap si"
  from wireUploads_refines [OF assms(1,3,4) this assms(2) subset_refl]
  show "map_prod id en_server (wireUploads z fr cd si h endpoint tc ((now, req) # reqs) en) =
     map_prod (map replied) id (directUploads h (authHeader tc noHeader) (req # map snd reqs) (en_server en))"
    by (simp only: list.map snd_conv)
next
  assume "int (length (fst (encodeBody z fr cd req (en_enc en)))) > si_cap si"
  moreover have "req \<in> snd ` set ((now, req) # reqs)" by simp
  ultimately show "map_prod id en_server (wireUpload z fr cd si now h endpoint tc req en) = (Inl BodyTooLarge, en_server en)"
    using wireUpload_refines(2) [OF assms] by simp
qed

definition demoFraming :: framing where
  "demoFraming = \<lparr>fr_frame = (\<lambda>b. [0, 0, 0, 0, of_nat (length b)] @ b), fr_deframe = (\<lambda>b. Some (drop 5 b))\<rparr>"

definition demoCodec :: "UploadRequest codec" where
  "demoCodec = \<lparr>cd_marshal = (\<lambda>m. [7]), cd_unmarshal = (\<lambda>b. if b = [7] then Some demoUpload else None)\<rparr>"

definition demoSiteOf :: "int \<Rightarrow> site" where
  "demoSiteOf cap = \<lparr>si_auth = None, si_home = False, si_ready = True, si_cap = cap, si_routes = []\<rparr>"

definition demoEnds :: "(bytes, bytes option, (memConn, real \<times> instant \<times> real \<times> int) server) endpoints" where
  "demoEnds = \<lparr>en_enc = \<lparr>c_enc = []\<rparr>, en_dec = \<lparr>d_dec = Some []\<rparr>, en_server = demoServer None\<rparr>"

lemma demo_wire_laws:
  "wire_laws storedZstd demoFraming demoCodec {demoUpload} Some (\<lambda>d. d \<noteq> None) (\<lambda>d s. d = Some s) (=)"
  by (auto simp: wire_laws_def decoder_laws_def encoder_laws_def framing_laws_def codec_laws_def storedZstd_def demoFraming_def demoCodec_def)

lemma demo_body: "length (fst (encodeBody storedZstd demoFraming demoCodec m c)) = 6"
  by (simp add: encodeBody_def pooledEncode_def compressor_Close_def compressor_Write_def compressor_Reset_def storedZstd_def
      demoFraming_def demoCodec_def)

lemma demo_origin: "originURL ''https://m.example/''"
  unfolding originURL_def
  by (rule exI [of _ "''https''"], rule exI [of _ "''m.example''"], rule exI [of _ 1]) simp

lemma demo_direct:
  "directUploads (ingestHandler id bucket_lib memDriver (\<lambda>_. 100) True) (authHeader \<lparr>tc_key = ''secret''\<rparr> noHeader) [demoUpload] (demoServer None) =
     ([fst (Upload (ingestHandler id bucket_lib memDriver (\<lambda>_. 100) True) (authHeader \<lparr>tc_key = ''secret''\<rparr> noHeader) demoUpload (demoServer None))],
      snd (Upload (ingestHandler id bucket_lib memDriver (\<lambda>_. 100) True) (authHeader \<lparr>tc_key = ''secret''\<rparr> noHeader) demoUpload (demoServer None)))"
  by (simp add: case_prod_beta Let_def)

lemma demo_accepted:
  "fst (Upload (ingestHandler id bucket_lib memDriver (\<lambda>_. 100) True) (authHeader \<lparr>tc_key = ''secret''\<rparr> noHeader) demoUpload (demoServer None)) =
     Inr \<lparr>ur_Accepted = True, ur_RejectedSummaries = 1\<rparr>"
  by code_simp

theorem wire_refines_handler_witness:
  "fst (wireUploads storedZstd demoFraming demoCodec (demoSiteOf 100) (ingestHandler id bucket_lib memDriver (\<lambda>_. 100) True)
     ''https://m.example/'' \<lparr>tc_key = ''secret''\<rparr> [(5, demoUpload)] demoEnds) = [Inr \<lparr>ur_Accepted = True, ur_RejectedSummaries = 1\<rparr>] \<and>
   fst (wireUpload storedZstd demoFraming demoCodec (demoSiteOf 5) 5 (ingestHandler id bucket_lib memDriver (\<lambda>_. 100) True)
     ''https://m.example/'' \<lparr>tc_key = ''secret''\<rparr> demoUpload demoEnds) = Inl BodyTooLarge"
proof -
  have laws: "wire_laws storedZstd demoFraming demoCodec (snd ` set [(5 :: instant, demoUpload)]) Some (\<lambda>d. d \<noteq> None) (\<lambda>d s. d = Some s) (=)"
    using demo_wire_laws by simp
  have use: "d_dec (en_dec demoEnds) \<noteq> None" "si_routes (demoSiteOf n) = []" "si_cap (demoSiteOf n) = n" "en_server demoEnds = demoServer None" for n
    by (simp_all add: demoEnds_def demoSiteOf_def)
  show ?thesis
    using wire_refines_handler [OF laws use(1,2) demo_origin, of 100] wire_refines_handler [OF laws use(1,2) demo_origin, of 5]
    by (simp add: demo_body use demo_direct demo_accepted replied_def prod_eq_iff del: wireUploads.simps directUploads.simps)
qed

end
