(* ===== verification/Html_Page.thy ===== *)
theory Html_Page
  imports Routing
begin

text \<open>
  Rendered pages as a browser sees them. A page is the list of what it shows and offers: text, links, forms,
  copy buttons, charts, scripts and refreshes, in the order of the template; styling and the elements
  that only lay the page out are left out. The escaping of html/template makes a text or an attribute
  value the data again once the page is parsed, except in URLs, where it normalises, escapes or rejects:
  those three filters are modelled, and so is what following a link or submitting a form sends to the server.
\<close>

section \<open>Documents\<close>

datatype field =
    Hidden string string
  | Input string
  | Choice string "string list"
  | Submit string

datatype node =
    Text string
  | Link string "node list"
  | Form string string "field list"
  | Ident string "(string \<times> string) list" "node list"
  | CopyOf string
  | Radio string string bool
  | Raw string
  | Refresh nat
  | Script string

fun linksOf :: "node \<Rightarrow> string list" where
  "linksOf (Link h ns) = h # concat (map linksOf ns)"
| "linksOf (Ident i as ns) = concat (map linksOf ns)"
| "linksOf _ = []"

fun formsOf :: "node \<Rightarrow> (string \<times> string \<times> field list) list" where
  "formsOf (Form m a fs) = [(m, a, fs)]"
| "formsOf (Link h ns) = concat (map formsOf ns)"
| "formsOf (Ident i as ns) = concat (map formsOf ns)"
| "formsOf _ = []"

fun idsOf :: "node \<Rightarrow> string list" where
  "idsOf (Ident i as ns) = i # concat (map idsOf ns)"
| "idsOf (Link h ns) = concat (map idsOf ns)"
| "idsOf (Radio n i on) = [i]"
| "idsOf _ = []"

fun copiesOf :: "node \<Rightarrow> string list" where
  "copiesOf (CopyOf i) = [i]"
| "copiesOf (Link h ns) = concat (map copiesOf ns)"
| "copiesOf (Ident i as ns) = concat (map copiesOf ns)"
| "copiesOf _ = []"

definition docLinks :: "node list \<Rightarrow> string list" where "docLinks d = concat (map linksOf d)"
definition docForms :: "node list \<Rightarrow> (string \<times> string \<times> field list) list" where "docForms d = concat (map formsOf d)"
definition docIds :: "node list \<Rightarrow> string list" where "docIds d = concat (map idsOf d)"
definition docCopies :: "node list \<Rightarrow> string list" where "docCopies d = concat (map copiesOf d)"

lemmas doc_defs = docLinks_def docForms_def docIds_def docCopies_def

section \<open>URLs in attributes (html/template)\<close>

definition hexLower :: "nat \<Rightarrow> char" where
  "hexLower n = ''0123456789abcdef'' ! n"

definition pctLower :: "char \<Rightarrow> string" where
  "pctLower c = (let n = of_char c :: nat in [CHR ''%'', hexLower (n div 16), hexLower (n mod 16)])"

definition urlKeep :: "bool \<Rightarrow> char \<Rightarrow> string \<Rightarrow> bool" where
  "urlKeep keep c s \<longleftrightarrow>
     unreserved c \<or> keep \<and> (c \<in> set ''!#$&*+,/:;=?@[]'' \<or> c = CHR ''%'' \<and> 2 \<le> length s \<and> isHex (s ! 0) \<and> isHex (s ! 1))"

fun processURL :: "bool \<Rightarrow> string \<Rightarrow> string" where
  "processURL keep [] = []"
| "processURL keep (c # s) = (if urlKeep keep c s then [c] else pctLower c) @ processURL keep s"

text \<open>Before the question mark of a URL data is normalised, behind it data is escaped.\<close>

definition urlNormalizer :: "string \<Rightarrow> string" where "urlNormalizer = processURL True"
definition urlEscaper :: "string \<Rightarrow> string" where "urlEscaper = processURL False"

text \<open>Data that begins a URL may not bring a scheme of its own.\<close>

definition isSafeURL :: "string \<Rightarrow> bool" where
  "isSafeURL s \<longleftrightarrow>
     (case cutByte s (CHR '':'') of (protocol, _, found) \<Rightarrow>
        found \<and> CHR ''/'' \<notin> set protocol \<longrightarrow> lower protocol \<in> {''http'', ''https'', ''mailto''})"

definition urlFilter :: "string \<Rightarrow> string" where
  "urlFilter s = (if isSafeURL s then s else ''#ZgotmplZ'')"

definition hrefOf :: "string \<Rightarrow> string" where
  "hrefOf s = urlNormalizer (urlFilter s)"

section \<open>Following a link\<close>

fun unescapeQuery :: "string \<Rightarrow> string option" where
  "unescapeQuery [] = Some []"
| "unescapeQuery (c # s) =
     (if c = CHR ''%'' then
        (case s of
           x # y # r \<Rightarrow>
             if isHex x \<and> isHex y then map_option ((#) (char_of (hexVal x * 16 + hexVal y))) (unescapeQuery r) else None
         | _ \<Rightarrow> None)
      else map_option ((#) (if c = CHR ''+'' then CHR '' '' else c)) (unescapeQuery s))"

definition parsePair :: "string \<Rightarrow> (string \<times> string) list" where
  "parsePair part =
     (if part = '''' \<or> CHR '';'' \<in> set part then []
      else case cutByte part (CHR ''='') of (k, v, _) \<Rightarrow>
        (case (unescapeQuery k, unescapeQuery v) of (Some k', Some v') \<Rightarrow> [(k', v')] | _ \<Rightarrow> []))"

definition parseQuery :: "string \<Rightarrow> (string \<times> string) list" where
  "parseQuery q = concat (map parsePair (splitByte (CHR ''&'') q))"

definition queryGet :: "(string \<times> string) list \<Rightarrow> string \<Rightarrow> string" where
  "queryGet vs k = (case map_of vs k of Some v \<Rightarrow> v | None \<Rightarrow> '''')"

definition pathOf :: "string \<Rightarrow> string" where
  "pathOf href = fst (cutByte (fst (cutByte href (CHR ''#''))) (CHR ''?''))"

definition queryOf :: "string \<Rightarrow> string" where
  "queryOf href = fst (snd (cutByte (fst (cutByte href (CHR ''#''))) (CHR ''?'')))"

definition follow :: "(string \<times> string) list \<Rightarrow> string \<Rightarrow> siteRequest" where
  "follow cookies href =
     \<lparr>sr_method = ''GET'', sr_path = pathOf href,
      sr_req = \<lparr>rq_path = pathUnescape (pathOf href), rq_provider = '''', rq_query = queryGet (parseQuery (queryOf href)),
                rq_form = (\<lambda>_. ''''), rq_cookies = cookies\<rparr>\<rparr>"

section \<open>Submitting a form\<close>

text \<open>\<open>typed\<close> is what the user enters or chooses. The body's encoding is undone by \<open>ParseForm\<close>.\<close>

fun fieldValue :: "(string \<Rightarrow> string) \<Rightarrow> field \<Rightarrow> (string \<times> string) list" where
  "fieldValue typed (Hidden n v) = [(n, v)]"
| "fieldValue typed (Input n) = [(n, typed n)]"
| "fieldValue typed (Choice n vs) = [(n, typed n)]"
| "fieldValue typed (Submit l) = []"

definition submit :: "(string \<times> string) list \<Rightarrow> (string \<Rightarrow> string) \<Rightarrow> string \<times> string \<times> field list \<Rightarrow> siteRequest" where
  "submit cookies typed form =
     (case form of (m, action, fs) \<Rightarrow>
        \<lparr>sr_method = (if m = ''post'' then ''POST'' else ''GET''), sr_path = pathOf action,
         sr_req = \<lparr>rq_path = pathUnescape (pathOf action), rq_provider = '''', rq_query = queryGet (parseQuery (queryOf action)),
                   rq_form = queryGet (concat (map (fieldValue typed) fs)), rq_cookies = cookies\<rparr>\<rparr>)"

section \<open>Escapes are undone\<close>

lemma hexLower_inverse: "n < 16 \<Longrightarrow> isHex (hexLower n) \<and> hexVal (hexLower n) = n"
proof -
  have "\<forall>n \<in> set [0..<16]. isHex (hexLower n) \<and> hexVal (hexLower n) = n" by code_simp
  then show "n < 16 \<Longrightarrow> isHex (hexLower n) \<and> hexVal (hexLower n) = n" by simp
qed

lemma hexDigit_inverse: "n < 16 \<Longrightarrow> isHex (hexDigit n) \<and> hexVal (hexDigit n) = n"
proof -
  have "\<forall>n \<in> set [0..<16]. isHex (hexDigit n) \<and> hexVal (hexDigit n) = n" by code_simp
  then show "n < 16 \<Longrightarrow> isHex (hexDigit n) \<and> hexVal (hexDigit n) = n" by simp
qed

lemma char_nibbles: "(of_char c :: nat) div 16 < 16" "(of_char c :: nat) mod 16 < 16"
  using nat_of_char_less_256 [of c] by (simp_all add: less_mult_imp_div_less)

lemma unescape_pctLower:
  "unescapeQuery (pctLower c @ t) = map_option ((#) c) (unescapeQuery t)"
  "unescapePct (pctLower c @ t) = map_option ((#) c) (unescapePct t)"
  using hexLower_inverse [OF char_nibbles(1), of c] hexLower_inverse [OF char_nibbles(2), of c]
  by (simp_all add: pctLower_def Let_def)

lemma unescape_kept:
  "c \<noteq> CHR ''%'' \<Longrightarrow> c \<noteq> CHR ''+'' \<Longrightarrow> unescapeQuery (c # t) = map_option ((#) c) (unescapeQuery t)"
  "c \<noteq> CHR ''%'' \<Longrightarrow> unescapePct (c # t) = map_option ((#) c) (unescapePct t)"
  by simp_all

lemma unreserved_plain: "unreserved c \<Longrightarrow> c \<notin> set ''%+&=;?#/''"
  by (auto simp: unreserved_def)

lemma unescape_urlEscaper: "unescapeQuery (urlEscaper s) = Some s"
  by (induction s)
    (use unreserved_plain in \<open>auto simp: urlEscaper_def urlKeep_def unescape_pctLower simp del: unescapeQuery.simps(2) intro!: unescape_kept(1) [THEN trans]\<close>)

lemma pctLower_set: "set (pctLower c) \<inter> set ''+&=;?#/.'' = {}"
proof -
  have "\<forall>n \<in> set [0..<16]. hexLower n \<notin> set ''+&=;?#/.''" by code_simp
  then have "n < 16 \<Longrightarrow> hexLower n \<notin> set ''+&=;?#/.''" for n by simp
  then show ?thesis using char_nibbles [of c] by (simp add: pctLower_def Let_def)
qed

lemma urlEscaper_set: "set (urlEscaper s) \<inter> set ''+&=;?#/'' = {}"
proof (induction s)
  case (Cons c s)
  have "set (if urlKeep False c s then [c] else pctLower c) \<inter> set ''+&=;?#/'' = {}"
    using pctLower_set [of c] unreserved_plain [of c] by (auto simp: urlKeep_def)
  then show ?case using Cons by (auto simp: urlEscaper_def)
qed (simp add: urlEscaper_def)

lemma queryEscape_Cons:
  "queryEscape (c # s) = (if unreserved c then [c] else if c = CHR '' '' then ''+''
     else [CHR ''%'', hexDigit ((of_char c :: nat) div 16), hexDigit ((of_char c :: nat) mod 16)]) @ queryEscape s"
  by (simp add: queryEscape_def Let_def)

lemma unescape_queryEscape: "unescapeQuery (queryEscape s) = Some s"
proof (induction s)
  case (Cons c s)
  show ?case
    using Cons unreserved_plain [of c] hexDigit_inverse [OF char_nibbles(1), of c] hexDigit_inverse [OF char_nibbles(2), of c]
    by (simp add: queryEscape_Cons)
qed (simp add: queryEscape_def)

lemma queryEscape_set: "set (queryEscape s) \<inter> set ''&=;?#/'' = {}"
proof (induction s)
  case (Cons c s)
  have "\<forall>n \<in> set [0..<16]. hexDigit n \<notin> set ''&=;?#/''" by code_simp
  then have "n < 16 \<Longrightarrow> hexDigit n \<notin> set ''&=;?#/''" for n by simp
  note hex = this [OF char_nibbles(1), of c] this [OF char_nibbles(2), of c]
  then have "set (if unreserved c then [c] else if c = CHR '' '' then ''+''
     else [CHR ''%'', hexDigit ((of_char c :: nat) div 16), hexDigit ((of_char c :: nat) mod 16)]) \<inter> set ''&=;?#/'' = {}"
    using unreserved_plain [of c] by (cases "unreserved c"; cases "c = CHR '' ''") simp_all
  then show ?case using Cons unfolding queryEscape_Cons set_append by blast
qed (simp add: queryEscape_def)

section \<open>What a query carries\<close>

lemma parsePair_escaped:
  assumes "unescapeQuery x = Some k" "unescapeQuery y = Some v" "set x \<inter> set ''&=;'' = {}" "CHR '';'' \<notin> set y"
  shows "parsePair (x @ ''='' @ y) = [(k, v)]"
proof -
  have "cutByte (x @ CHR ''='' # y) (CHR ''='') = (x, y, True)"
    using assms(3) by (intro cutByte_append) auto
  then show ?thesis using assms by (auto simp: parsePair_def)
qed

lemma parseQuery_join:
  assumes "ps \<noteq> []" and "\<forall>p \<in> set ps. CHR ''&'' \<notin> set p"
  shows "parseQuery (joinWith ''&'' ps) = concat (map parsePair ps)"
  using splitByte_join [of ps "CHR ''&''"] assms by (simp add: parseQuery_def)

lemma parseQuery_encodeValues: "parseQuery (encodeValues vs) = sort_key fst vs"
proof (cases "vs = []")
  case True
  then show ?thesis by (simp add: encodeValues_def parseQuery_def parsePair_def)
next
  case False
  let ?ps = "map (\<lambda>(k, v). queryEscape k @ ''='' @ queryEscape v) (sort_key fst vs)"
  have "sort_key fst vs \<noteq> []" using False by (metis length_0_conv length_sort)
  moreover have "\<forall>p \<in> set ?ps. CHR ''&'' \<notin> set p" using queryEscape_set by fastforce
  ultimately have "parseQuery (encodeValues vs) = concat (map parsePair ?ps)"
    unfolding encodeValues_def by (intro parseQuery_join) simp_all
  also have "parsePair (queryEscape k @ ''='' @ queryEscape v) = [(k, v)]" for k v
    using queryEscape_set [of k] queryEscape_set [of v] by (intro parsePair_escaped unescape_queryEscape) auto
  then have "concat (map parsePair ?ps) = sort_key fst vs"
    by (induction "sort_key fst vs") (auto simp: comp_def case_prod_beta)
  finally show ?thesis .
qed

lemma map_of_filter: "map_of xs k = (case filter (\<lambda>p. fst p = k) xs of [] \<Rightarrow> None | p # _ \<Rightarrow> Some (snd p))"
  by (induction xs) auto

lemma queryGet_encodeValues: "queryGet (parseQuery (encodeValues vs)) = queryGet vs"
proof
  fix k
  have "filter (\<lambda>p. fst p = k) (sort_key fst vs) = filter (\<lambda>p. fst p = k) vs"
    by (rule sort_key_stable)
  then have "map_of (sort_key fst vs) k = map_of vs k" by (simp only: map_of_filter)
  then show "queryGet (parseQuery (encodeValues vs)) k = queryGet vs k"
    by (simp add: queryGet_def parseQuery_encodeValues)
qed

text \<open>A query whose parts come from data through the escaper.\<close>

definition escapedQuery :: "(string \<times> string) list \<Rightarrow> string" where
  "escapedQuery vs = joinWith ''&'' (map (\<lambda>(k, v). k @ ''='' @ urlEscaper v) vs)"

lemma parseQuery_escapedQuery:
  assumes "vs \<noteq> []" and "\<forall>(k, v) \<in> set vs. list_all unreserved k"
  shows "parseQuery (escapedQuery vs) = vs"
proof -
  let ?ps = "map (\<lambda>(k, v). k @ ''='' @ urlEscaper v) vs"
  have key: "unescapeQuery k = Some k \<and> set k \<inter> set ''&=;'' = {}" if "list_all unreserved k" for k
    using that by (induction k) (auto dest!: unreserved_plain)
  have part: "parsePair (k @ ''='' @ urlEscaper v) = [(k, v)] \<and> CHR ''&'' \<notin> set (k @ ''='' @ urlEscaper v)" if "(k, v) \<in> set vs" for k v
  proof -
    have k: "unescapeQuery k = Some k" "set k \<inter> set ''&=;'' = {}" using key assms(2) that by auto
    then show ?thesis
      using urlEscaper_set [of v] parsePair_escaped [OF k(1) unescape_urlEscaper k(2), of v] by auto
  qed
  have "parseQuery (escapedQuery vs) = concat (map parsePair ?ps)"
    unfolding escapedQuery_def using assms(1) part by (intro parseQuery_join) auto
  also have "map parsePair ?ps = map (\<lambda>p. [p]) vs" using part by (auto simp: case_prod_beta)
  also have "concat (map (\<lambda>p. [p]) vs) = vs" by (induction vs) auto
  finally show ?thesis .
qed

section \<open>What a path carries\<close>

lemma processURL_append: "CHR ''%'' \<notin> set s \<Longrightarrow> processURL keep (s @ t) = processURL keep s @ processURL keep t"
  by (induction s) (auto simp: urlKeep_def)

fun isNormal :: "string \<Rightarrow> bool" where
  "isNormal [] = True"
| "isNormal (c # s) \<longleftrightarrow> urlKeep True c s \<and> isNormal s"

lemma normal_fixed: "isNormal s \<Longrightarrow> urlNormalizer s = s"
  unfolding urlNormalizer_def by (induction s) auto

lemma normal_kept: "set s \<subseteq> {c. urlKeep True c []} \<Longrightarrow> isNormal t \<Longrightarrow> isNormal (s @ t)"
  by (induction s) (auto simp: urlKeep_def)

lemma normal_queryEscape: "isNormal t \<Longrightarrow> isNormal (queryEscape s @ t)"
proof (induction s)
  case (Cons c s)
  have hex: "isHex (hexDigit ((of_char c :: nat) div 16))" "isHex (hexDigit ((of_char c :: nat) mod 16))"
    using hexDigit_inverse char_nibbles [of c] by blast+
  have "isHex c \<Longrightarrow> unreserved c" for c by (auto simp: isHex_def unreserved_def)
  then show ?case using Cons hex by (auto simp: queryEscape_Cons urlKeep_def)
qed (simp add: queryEscape_def)

lemma normal_encodeValues: "isNormal (encodeValues vs)"
proof -
  have "isNormal (joinWith ''&'' (map (\<lambda>(k, v). queryEscape k @ ''='' @ queryEscape v) ps))" for ps
  proof (induction ps rule: induct_list012)
    case (2 p)
    then show ?case using normal_queryEscape [of "[]" "snd p"] by (auto simp: case_prod_beta urlKeep_def intro!: normal_queryEscape)
  next
    case (3 p p' ps)
    then show ?case by (auto simp: case_prod_beta urlKeep_def intro!: normal_queryEscape)
  qed simp
  then show ?thesis by (simp add: encodeValues_def)
qed

definition pathSafe :: "string \<Rightarrow> bool" where
  "pathSafe s \<longleftrightarrow> s \<noteq> '''' \<and> set s \<inter> set ''/?#%'' = {} \<and> s \<noteq> ''.'' \<and> s \<noteq> ''..''"

definition plainSeg :: "string \<Rightarrow> bool" where
  "plainSeg s \<longleftrightarrow> s \<noteq> '''' \<and> CHR ''/'' \<notin> set s \<and> s \<noteq> ''.'' \<and> s \<noteq> ''..''"

lemma unescape_urlNormalizer: "set s \<inter> set ''/?#%'' = {} \<Longrightarrow> unescapePct (urlNormalizer s) = Some s"
  by (induction s) (auto simp: urlNormalizer_def unescape_pctLower simp del: unescapePct.simps(2) intro!: unescape_kept(2) [THEN trans])

lemma urlNormalizer_set: "set s \<inter> set ''/?#%'' = {} \<Longrightarrow> set (urlNormalizer s) \<inter> set ''/?#'' = {}"
proof (induction s)
  case (Cons c s)
  have "set (if urlKeep True c s then [c] else pctLower c) \<inter> set ''/?#'' = {}"
    using pctLower_set [of c] Cons.prems by auto
  then show ?case using Cons by (auto simp: urlNormalizer_def)
qed (simp add: urlNormalizer_def)

lemma safe_segment:
  assumes "pathSafe s"
  shows "pathUnescape (urlNormalizer s) = s" and "plainSeg (urlNormalizer s)" and "CHR ''?'' \<notin> set (urlNormalizer s)"
    and "CHR ''#'' \<notin> set (urlNormalizer s)"
proof -
  have s: "set s \<inter> set ''/?#%'' = {}" "s \<noteq> ''''" "s \<noteq> ''.''" "s \<noteq> ''..''" using assms by (auto simp: pathSafe_def)
  note u = unescape_urlNormalizer [OF s(1)]
  then show "pathUnescape (urlNormalizer s) = s" by (simp add: pathUnescape_def)
  have "urlNormalizer s \<noteq> x" if "unescapePct x \<noteq> Some s" for x using u that by auto
  then show "plainSeg (urlNormalizer s)"
    using s urlNormalizer_set [OF s(1)] by (auto simp: plainSeg_def)
  show "CHR ''?'' \<notin> set (urlNormalizer s)" "CHR ''#'' \<notin> set (urlNormalizer s)"
    using urlNormalizer_set [OF s(1)] by auto
qed

text \<open>The path and query of a rooted link.\<close>

lemma pathOf_query:
  assumes "CHR ''#'' \<notin> set p" "CHR ''?'' \<notin> set p" "CHR ''#'' \<notin> set q"
  shows "pathOf (p @ ''?'' @ q) = p \<and> queryOf (p @ ''?'' @ q) = q"
proof -
  have "cutByte (p @ ''?'' @ q) (CHR ''#'') = (p @ ''?'' @ q, '''', False)" using assms by (intro cutByte_notin) auto
  then show ?thesis using cutByte_append [OF assms(2), of q] by (simp add: pathOf_def queryOf_def)
qed

lemma pathOf_plain:
  assumes "CHR ''#'' \<notin> set p" "CHR ''?'' \<notin> set p"
  shows "pathOf p = p \<and> queryOf p = ''''"
  using cutByte_notin [OF assms(1)] cutByte_notin [OF assms(2)] by (simp add: pathOf_def queryOf_def)

section \<open>Routing a clean path\<close>

definition rootedAt :: "string list \<Rightarrow> string" where
  "rootedAt segs = CHR ''/'' # joinWith ''/'' segs"

lemma pathSegs_rooted: "segs \<noteq> [] \<Longrightarrow> list_all plainSeg segs \<Longrightarrow> pathSegs (rootedAt segs) = segs"
  using splitByte_join [of segs "CHR ''/''"] by (simp add: pathSegs_def rootedAt_def plainSeg_def list_all_iff)

lemma cleanSegs_plain: "list_all plainSeg segs \<Longrightarrow> cleanSegs acc segs = acc @ segs"
  by (induction segs arbitrary: acc) (auto simp: plainSeg_def)

lemma join_last: "segs \<noteq> [] \<Longrightarrow> list_all plainSeg segs \<Longrightarrow> joinWith ''/'' segs \<noteq> '''' \<and> last (joinWith ''/'' segs) \<noteq> CHR ''/''"
proof (induction segs rule: induct_list012)
  case (2 x)
  then have "x \<noteq> ''''" "CHR ''/'' \<notin> set x" by (simp_all add: plainSeg_def)
  then have "last x \<noteq> CHR ''/''" by (metis last_in_set)
  with \<open>x \<noteq> ''''\<close> show ?case by simp
qed (auto simp: plainSeg_def)

lemma rooted_no_slash: "segs \<noteq> [] \<Longrightarrow> list_all plainSeg segs \<Longrightarrow> \<not> hasSuffix (rootedAt segs) ''/''"
  using join_last [of segs] by (auto simp: rootedAt_def hasSuffix_def dest: arg_cong [where f = last])

lemma cleanPath_rooted: "segs \<noteq> [] \<Longrightarrow> list_all plainSeg segs \<Longrightarrow> cleanPath (rootedAt segs) = rootedAt segs"
  using pathSegs_rooted [of segs] cleanSegs_plain [of segs "[]"] rooted_no_slash [of segs]
  by (auto simp: cleanPath_def rootedPath_def rootedAt_def hasPrefix_def Let_def)

lemma found_exact:
  assumes "segs \<noteq> []" "list_all plainSeg segs" and "treeMatch es m (rootedAt segs) = Some e" and "last (me_segs e) \<noteq> Subtree"
    and "matchSegs (me_segs e) segs = Some ms"
  shows "findHandler es m (rootedAt segs) = Found (me_handler e) ms"
proof -
  have "matchOrRedirect es m (rootedAt segs) = Inl (Some e)"
    using assms(3,4) by (simp add: matchOrRedirect_def exactMatch_def)
  then show ?thesis
    using assms(5) by (simp add: findHandler_def cleanPath_rooted [OF assms(1,2)] pathSegs_rooted [OF assms(1,2)])
qed

lemma found_root:
  assumes "segs \<noteq> []" "list_all plainSeg segs" and "treeMatch es m (rootedAt segs) = Some e" and "me_segs e = [Subtree]"
    and "treeMatch es m (rootedAt segs @ ''/'') = Some e'" and "me_segs e' = [Subtree]"
  shows "findHandler es m (rootedAt segs) = Found (me_handler e) []"
proof -
  have "\<not> exactMatch e' (rootedAt segs @ ''/'')"
    using assms(6) by (simp add: exactMatch_def rootedAt_def)
  moreover have "\<not> exactMatch e (rootedAt segs)"
    using assms(4) rooted_no_slash [OF assms(1,2)] by (simp add: exactMatch_def)
  ultimately have "matchOrRedirect es m (rootedAt segs) = Inl (Some e)"
    using assms(3,5) rooted_no_slash [OF assms(1,2)] by (simp add: matchOrRedirect_def)
  moreover have "matchSegs [Subtree] segs = Some []" using assms(1) by (cases segs) simp_all
  ultimately show ?thesis
    using assms(4) by (simp add: findHandler_def cleanPath_rooted [OF assms(1,2)] pathSegs_rooted [OF assms(1,2)])
qed

lemma pathSegs_slash: "segs \<noteq> [] \<Longrightarrow> list_all plainSeg segs \<Longrightarrow> pathSegs (rootedAt segs @ ''/'') = segs @ ['''']"
proof (induction segs rule: induct_list012)
  case (2 x)
  then show ?case using splitByte_append [of "CHR ''/''" x "[]"] by (simp add: pathSegs_def rootedAt_def plainSeg_def)
next
  case (3 x y zs)
  then show ?case using splitByte_append [of "CHR ''/''" x "joinWith ''/'' (y # zs) @ ''/''"] by (simp add: pathSegs_def rootedAt_def plainSeg_def)
qed simp

text \<open>The routes of the dashboard behind the mux of the site, for the paths its pages lead to.\<close>

lemma web_register_eval:
  "web_Register =
   [\<lparr>me_method = ''GET'', me_segs = [Subtree], me_handler = WOverview\<rparr>,
    \<lparr>me_method = ''GET'', me_segs = [Lit ''dashboard''], me_handler = WOverview\<rparr>,
    \<lparr>me_method = ''GET'', me_segs = [Lit ''performance''], me_handler = WPerformance\<rparr>,
    \<lparr>me_method = ''GET'', me_segs = [Lit ''setup''], me_handler = WSetup\<rparr>,
    \<lparr>me_method = ''GET'', me_segs = [Lit ''setup'', Lit ''handshake''], me_handler = WHandshake\<rparr>,
    \<lparr>me_method = ''POST'', me_segs = [Lit ''setup'', Lit ''keys''], me_handler = WCreateKey\<rparr>,
    \<lparr>me_method = ''POST'', me_segs = [Lit ''setup'', Lit ''keys'', Wild ''id'', Lit ''revoke''], me_handler = WRevokeKey\<rparr>,
    \<lparr>me_method = ''POST'', me_segs = [Lit ''setup'', Lit ''invites''], me_handler = WCreateInvite\<rparr>,
    \<lparr>me_method = ''POST'', me_segs = [Lit ''setup'', Lit ''invites'', Wild ''id'', Lit ''revoke''], me_handler = WRevokeInvite\<rparr>,
    \<lparr>me_method = ''POST'', me_segs = [Lit ''setup'', Lit ''members'', Wild ''id'', Lit ''remove''], me_handler = WRemoveMember\<rparr>,
    \<lparr>me_method = ''GET'', me_segs = [Lit ''services'', Wild ''service''], me_handler = WEndpoints\<rparr>,
    \<lparr>me_method = ''GET'', me_segs = [Lit ''services'', Wild ''service'', Lit ''endpoint''], me_handler = WEndpointDetail\<rparr>,
    \<lparr>me_method = ''GET'', me_segs = [Lit ''api'', Lit ''series''], me_handler = WSeries\<rparr>,
    \<lparr>me_method = ''GET'', me_segs = [Lit ''api'', Lit ''histogram''], me_handler = WHistogram\<rparr>,
    \<lparr>me_method = ''GET'', me_segs = [Lit ''api'', Lit ''instances''], me_handler = WInstances\<rparr>,
    \<lparr>me_method = ''GET'', me_segs = [Lit ''assets'', Lit ''copy.js''], me_handler = WAsset ''copy.js''\<rparr>,
    \<lparr>me_method = ''GET'', me_segs = [Lit ''assets'', Lit ''handshake.js''], me_handler = WAsset ''handshake.js''\<rparr>]"
  by code_simp

lemma literal_unescape:
  "pathUnescape ''setup'' = ''setup''" "pathUnescape ''keys'' = ''keys''" "pathUnescape ''invites'' = ''invites''"
  "pathUnescape ''members'' = ''members''" "pathUnescape ''services'' = ''services''" "pathUnescape ''endpoint'' = ''endpoint''"
  "pathUnescape ''revoke'' = ''revoke''" "pathUnescape ''remove'' = ''remove''"
  by code_simp+

lemma literal_plain:
  "plainSeg ''setup''" "plainSeg ''keys''" "plainSeg ''invites''" "plainSeg ''members''" "plainSeg ''services''" "plainSeg ''endpoint''"
  "plainSeg ''revoke''" "plainSeg ''remove''"
  by code_simp+

lemmas route_simps = treeMatch_def matchPath_def pathSegs_rooted literal_plain web_register_eval literal_unescape

lemma plainSeg_nonempty: "plainSeg x \<Longrightarrow> x \<noteq> ''''"
  by (simp add: plainSeg_def)

lemma web_route_endpoints:
  "plainSeg x \<Longrightarrow> findHandler web_Register ''GET'' (rootedAt [''services'', x]) = Found WEndpoints [pathUnescape x]"
  by (rule trans [OF found_exact], (simp add: route_simps plainSeg_nonempty)+)

lemma web_route_detail:
  "plainSeg x \<Longrightarrow> findHandler web_Register ''GET'' (rootedAt [''services'', x, ''endpoint'']) = Found WEndpointDetail [pathUnescape x]"
  by (rule trans [OF found_exact], (simp add: route_simps plainSeg_nonempty)+)

lemma web_route_create_key:
  "findHandler web_Register ''POST'' (rootedAt [''setup'', ''keys'']) = Found WCreateKey []"
  by (rule trans [OF found_exact], (simp add: route_simps plainSeg_nonempty)+)

lemma web_route_create_invite:
  "findHandler web_Register ''POST'' (rootedAt [''setup'', ''invites'']) = Found WCreateInvite []"
  by (rule trans [OF found_exact], (simp add: route_simps plainSeg_nonempty)+)

lemma web_route_revoke_key:
  "plainSeg x \<Longrightarrow> findHandler web_Register ''POST'' (rootedAt [''setup'', ''keys'', x, ''revoke'']) = Found WRevokeKey [pathUnescape x]"
  by (rule trans [OF found_exact], (simp add: route_simps plainSeg_nonempty)+)

lemma web_route_revoke_invite:
  "plainSeg x \<Longrightarrow> findHandler web_Register ''POST'' (rootedAt [''setup'', ''invites'', x, ''revoke'']) = Found WRevokeInvite [pathUnescape x]"
  by (rule trans [OF found_exact], (simp add: route_simps plainSeg_nonempty)+)

lemma web_route_remove_member:
  "plainSeg x \<Longrightarrow> findHandler web_Register ''POST'' (rootedAt [''setup'', ''members'', x, ''remove'']) = Found WRemoveMember [pathUnescape x]"
  by (rule trans [OF found_exact], (simp add: route_simps plainSeg_nonempty)+)

lemmas web_routes = web_route_endpoints web_route_detail web_route_create_key web_route_create_invite web_route_revoke_key web_route_revoke_invite web_route_remove_member

section \<open>The site in front of the dashboard\<close>

text \<open>Only the root entry of a mux matches a path whose first segment no other entry names.\<close>

lemma treeMatch_root:
  assumes "rt \<in> set es" "me_method rt = ''''" "me_segs rt = [Subtree]" "m \<noteq> ''''" "m \<noteq> ''HEAD''"
    and "\<forall>e \<in> set es. e = rt \<or> (\<exists>l ps. me_segs e = Lit l # ps \<and> l \<noteq> pathUnescape x)" and "pathSegs p = x # xs"
  shows "treeMatch es m p = Some rt"
proof -
  have only: "e = rt" if "e \<in> set es" "matchSegs (me_segs e) (x # xs) \<noteq> None" for e
    using assms(6) that by (auto split: if_splits)
  then have "\<not> (me_method e = m \<and> matchSegs (me_segs e) (pathSegs p) \<noteq> None)" if "e \<in> set es" for e
    using assms(2,4,7) that by metis
  then have "matchPath es m p = None"
    by (simp add: matchPath_def best_some filter_empty_conv)
  moreover have "matchPath es '''' p = Some rt"
  proof -
    have "matchPath es '''' p \<noteq> None"
      unfolding matchPath_def best_some filter_empty_conv using assms(1-3,7) by auto
    then obtain e where "matchPath es '''' p = Some e" by blast
    with matchPath_matches [OF this] only assms(7) show ?thesis by auto
  qed
  ultimately show ?thesis using assms(5) by (simp add: treeMatch_def)
qed

definition siteSegment :: "string \<Rightarrow> bool" where
  "siteSegment l \<longleftrightarrow> l \<notin> {''healthz'', ''login'', ''auth'', ''logout'', ''maping.v1.IngestService'', ''doc''}"

lemma site_other_entries:
  assumes "siteSegment (pathUnescape x)"
  shows "\<forall>e \<in> set (assembleMux au []). e = handle ''/'' ODashboard \<or> (\<exists>l ps. me_segs e = Lit l # ps \<and> l \<noteq> pathUnescape x)"
proof -
  have neq: "''healthz'' \<noteq> pathUnescape x" "''login'' \<noteq> pathUnescape x" "''auth'' \<noteq> pathUnescape x" "''logout'' \<noteq> pathUnescape x"
    "''maping.v1.IngestService'' \<noteq> pathUnescape x" "''doc'' \<noteq> pathUnescape x"
    using assms by (auto simp: siteSegment_def)
  show ?thesis
    by (cases au) (simp_all add: assembleMux_def mountDashboard_def mountIngest_def docs_Register_def mountExtensions_def auth_Register_def
        route_segs neq)
qed

lemma dispatch_dashboard:
  assumes "sr_path s = rootedAt (x # xs)" "list_all plainSeg (x # xs)" "siteSegment (pathUnescape x)" "sr_method s = ''GET'' \<or> sr_method s = ''POST''"
  shows "dispatch au home ready cap [] now s = serveDashboard au home now s"
proof -
  let ?es = "assembleMux au []" and ?root = "handle ''/'' ODashboard"
  have root: "?root \<in> set ?es" by (simp add: assembleMux_def mountDashboard_def)
  have m: "sr_method s \<noteq> ''''" "sr_method s \<noteq> ''HEAD''" using assms(4) by auto
  note t = treeMatch_root [OF root route_method(2) route_segs(2) m site_other_entries [OF assms(3)]]
  note t1 = t [OF pathSegs_rooted [OF list.distinct(2) assms(2)]]
  have "pathSegs (rootedAt (x # xs) @ ''/'') = x # (xs @ [''''])"
    using pathSegs_slash [OF list.distinct(2) assms(2)] by simp
  note t2 = t [OF this]
  have "findHandler ?es (sr_method s) (rootedAt (x # xs)) = Found (me_handler ?root) []"
    by (rule found_root [OF list.distinct(2) assms(2) t1 route_segs(2) t2 route_segs(2)])
  then show ?thesis by (simp add: dispatch_def assms(1))
qed

text \<open>Who the dashboard takes a request for: the session of its cookie, or nobody in a deployment without login.\<close>

definition servedAs :: "auth option \<Rightarrow> instant \<Rightarrow> siteRequest \<Rightarrow> Session option option" where
  "servedAs au now s =
     (case au of None \<Rightarrow> Some None | Some a \<Rightarrow> map_option Some (sessionFromRequest a (sr_req s) now))"

lemma dispatch_page_found:
  assumes "sr_path s = rootedAt (x # xs)" "list_all plainSeg (x # xs)" "siteSegment (pathUnescape x)" "sr_method s = ''GET'' \<or> sr_method s = ''POST''"
    and "servedAs au now s = Some who" and "rq_path (sr_req s) \<noteq> ''/''" and "findHandler web_Register (sr_method s) (rootedAt (x # xs)) = Found w ms"
  shows "dispatch au home ready cap [] now s = Page w ms who"
proof -
  have "serveDashboard au home now s = Page w ms who"
    using assms(5,6) by (auto simp: servedAs_def serveDashboard_def rootHandler_def gated_def Middleware_def serveWeb_def assms(1,7) split: option.splits)
  then show ?thesis using dispatch_dashboard [OF assms(1-4)] by simp
qed

lemma servedAs_cookies: "rq_cookies (sr_req s) = rq_cookies (sr_req s') \<Longrightarrow> servedAs au now s = servedAs au now s'"
  by (cases au) (simp_all add: servedAs_def sessionFromRequest_def)

end
