(* ===== verification/Page_Templates.thy ===== *)
theory Page_Templates
  imports Html_Page Setup_Page Detail_Page Docs_Site
begin

text \<open>
  The HTML templates of the dashboard and of the login, as documents: src/server/internal/web/templates.go (frame),
  templates_tables.go (overview, endpoint table), templates_detail.go, templates_onboarding.go (handshake stepper,
  get-started page, Setup page), templates_performance.go, and the login and first-key pages of
  src/server/internal/auth/handlers.go. A definition follows its template action by action; style, classes, tooltips
  and pictures are left out, and inline elements are joined to one text. \<open>up\<close> is the upper case of a rune outside ASCII.
\<close>

section \<open>Glyphs and avatars\<close>

definition warnSign :: string where "warnSign = [CHR 0xE2, CHR 0x9A, CHR 0xA0]"
definition caretGlyph :: string where "caretGlyph = [CHR 0xE2, CHR 0x96, CHR 0xBE]"
definition angleGlyph :: string where "angleGlyph = [CHR 0xE2, CHR 0x80, CHR 0xBA]"
definition copyGlyph :: string where "copyGlyph = [CHR 0xE2, CHR 0xA7, CHR 0x89]"
definition halfGlyph :: string where "halfGlyph = [CHR 0xE2, CHR 0x97, CHR 0x97]"
definition diamondGlyph :: string where "diamondGlyph = [CHR 0xE2, CHR 0x97, CHR 0x87]"
definition leftGlyph :: string where "leftGlyph = [CHR 0xE2, CHR 0x86, CHR 0x90]"
definition zoomGlyph :: string where "zoomGlyph = [CHR 0xE2, CHR 0xA4, CHR 0xA2]"
definition squareGlyph :: string where "squareGlyph = [CHR 0xE2, CHR 0x96, CHR 0xA0]"
definition gammaGlyph :: string where "gammaGlyph = [CHR 0xCE, CHR 0xB3]"
definition impliesGlyph :: string where "impliesGlyph = [CHR 0xE2, CHR 0x87, CHR 0x92]"
definition nbsp :: string where "nbsp = [CHR 0xC2, CHR 0xA0]"
definition dotSep :: string where "dotSep = '' '' @ middleDot @ '' ''"

text \<open>The runes of a valid UTF-8 string, each as its bytes.\<close>

definition runeLen :: "char \<Rightarrow> nat" where
  "runeLen c = (let n = of_char c :: nat in if n < 192 then 1 else if n < 224 then 2 else if n < 240 then 3 else 4)"

function runesOf :: "string \<Rightarrow> string list" where
  "runesOf [] = []"
| "runesOf (c # s) = (c # take (runeLen c - 1) s) # runesOf (drop (runeLen c - 1) s)"
  by pat_completeness auto
termination by (relation "measure length") auto

fun fieldRunes :: "string list \<Rightarrow> string list \<Rightarrow> string list list" where
  "fieldRunes acc [] = (if acc = [] then [] else [acc])"
| "fieldRunes acc (r # rs) =
     (if r \<in> set spaceEncodings then (if acc = [] then fieldRunes [] rs else acc # fieldRunes [] rs) else fieldRunes (acc @ [r]) rs)"

definition upperRune :: "(string \<Rightarrow> string) \<Rightarrow> string \<Rightarrow> string" where
  "upperRune up r =
     (case r of [c] \<Rightarrow> let n = of_char c :: nat in if 97 \<le> n \<and> n \<le> 122 then [char_of (n - 32)] else [c] | _ \<Rightarrow> up r)"

definition initials :: "(string \<Rightarrow> string) \<Rightarrow> string \<Rightarrow> string" where
  "initials up name =
     (let fs = fieldRunes [] (runesOf name); upper = (\<lambda>rs. concat (map (upperRune up) rs))
      in case fs of
           [] \<Rightarrow> ''?''
         | [r] \<Rightarrow> if length r = 1 then upper r else upper (take 2 r)
         | _ \<Rightarrow> upper (take 1 (hd fs) @ take 1 (last fs)))"

section \<open>The frame (templates.go)\<close>

definition shown :: "bool \<Rightarrow> node list \<Rightarrow> node list" where
  "shown b ns = (if b then ns else [])"

definition sidebar :: "(string \<Rightarrow> string) \<Rightarrow> Shell \<Rightarrow> node list" where
  "sidebar up sh =
     [Text ''mAPIng'', Text (''MONITORED'' @ nbsp @ ''API'' @ dotSep @ ''NG''), Text (initials up (sh_Org sh)), Text (sh_Org sh),
      Text ''organization'', Text ''MONITOR''] @
     map (\<lambda>n. Link (hrefOf (ni_Href n)) ([Text (ni_Icon n), Text (ni_Label n)] @ shown (ni_Badge n \<noteq> '''') [Text (ni_Badge n)])) (sh_Nav sh) @
     [Text ''INGEST KEY''] @
     (if sh_KeyMask sh \<noteq> '''' then [Text ''LIVE'', Text (''mk_live_'' @ sh_KeyMask sh)] else [Link ''/setup'' [Text ''no active key'']]) @
     (let box = [Text (initials up (sh_User sh)), Text (sh_User sh), Text (sh_Role sh)]
      in if sh_AccountHref sh \<noteq> '''' then [Link (hrefOf (sh_AccountHref sh)) (box @ [Text angleGlyph])] else box)"

text \<open>\<open>live\<close> and \<open>liveHref\<close> are the two fields of the shell that only the overview sets.\<close>

definition crumbNodes :: "crumb list \<Rightarrow> node list" where
  "crumbNodes cs =
     concat (map (\<lambda>(i, c). shown (i \<noteq> 0) [Text ''/''] @
       (if cr_Href c \<noteq> '''' then [Link (hrefOf (cr_Href c)) [Text (cr_Label c)]] else [Text (cr_Label c)])) (enumerate 0 cs))"

definition topbar :: "bool \<Rightarrow> string \<Rightarrow> Shell \<Rightarrow> node list" where
  "topbar live liveHref sh =
     crumbNodes (sh_Crumbs sh) @ [Text (sh_PageTitle sh)] @
     shown (sh_ShowControls sh)
       ((if liveHref \<noteq> ''''
         then [Link (hrefOf liveHref) [Text (if live then ''live'' @ dotSep @ sh_FlushLabel sh else ''paused'' @ dotSep @ ''go live'')]]
         else [Text (''live'' @ dotSep @ sh_FlushLabel sh)]) @
        map (\<lambda>w. Link (hrefOf (wo_Href w)) [Text (wo_Key w)]) (sh_Windows sh))"

definition shellpage :: "(string \<Rightarrow> string) \<Rightarrow> Shell \<Rightarrow> string \<Rightarrow> string \<Rightarrow> node list" where
  "shellpage up sh title body =
     [Text (''mAPI-ng '' @ emDash @ '' '' @ title)] @ sidebar up sh @ topbar False '''' sh @ [Raw body]"

definition kpiNodes :: "kpi \<Rightarrow> node list" where
  "kpiNodes k =
     [Text (kp_Label k), Text (kp_Value k)] @ shown (kp_Unit k \<noteq> '''') [Text (kp_Unit k)] @ shown (kp_Sub k \<noteq> '''') [Text (kp_Sub k)]"

definition frozenBanner :: "string \<Rightarrow> bool \<Rightarrow> node list" where
  "frozenBanner advice frozen = shown frozen [Text warnSign, Text (''Cardinality frozen. New series are rejected for this tenant'' @ advice)]"

section \<open>Overview and endpoint table (templates_tables.go)\<close>

definition countText :: "u64 \<Rightarrow> string" where
  "countText n = natDigits (unat n)"

definition serviceNodes :: "serviceRow \<Rightarrow> node" where
  "serviceNodes r =
     Link (hrefOf (sr_DrillHref r))
       [Text (sr_Service r), Text (fmtRate (sr_RatePerSec r) @ ''/s''), Text (fmtPctD (sr_ErrorRate r)), Text (fmtPctD (sr_Client4xxRate r)),
        Text (fmtMsFull (sr_P50 r)), Text (fmtMsFull (sr_P95 r)), Text (fmtMsFull (sr_P99 r))]"

definition overview_tpl :: "(string \<Rightarrow> string) \<Rightarrow> Shell \<Rightarrow> string \<Rightarrow> string \<Rightarrow> overviewData \<Rightarrow> node list" where
  "overview_tpl up sh liveHref winLabel d =
     shown (od_Live d) [Refresh 15] @ [Text (''mAPI-ng '' @ emDash @ '' services'')] @ sidebar up sh @ topbar (od_Live d) liveHref sh @
     frozenBanner ''; existing series keep flowing. Raise the plan cap or reduce endpoint cardinality.'' (od_Frozen d) @
     concat (map kpiNodes (od_KPIs d)) @
     map Text [''SERVICE'', ''TRAFFIC'', ''ERROR %'', ''4XX %'', ''p50'', ''p95'', ''p99''] @
     (if od_Services d = [] then [Text ''No services reporting in this window.''] else map serviceNodes (od_Services d)) @
     [Text (''Aggregated from client-side DDSketch summaries'' @ dotSep @ winLabel @ '' window'')]"

definition sortLink :: "string \<Rightarrow> string \<Rightarrow> string \<Rightarrow> string \<Rightarrow> node" where
  "sortLink key label active winKey =
     Link (''?sort='' @ key @ ''&win='' @ urlEscaper winKey) [Text (label @ (if active = key then '' '' @ caretGlyph else ''''))]"

definition endpointHref :: "string \<Rightarrow> string \<Rightarrow> string \<Rightarrow> string \<Rightarrow> string" where
  "endpointHref svc mth route winKey =
     ''/services/'' @ urlNormalizer svc @ ''/endpoint?'' @ escapedQuery [(''method'', mth), (''route'', route), (''win'', winKey)]"

definition endpointNodes :: "string \<Rightarrow> string \<Rightarrow> endpointRow \<Rightarrow> node" where
  "endpointNodes svc winKey r =
     Link (endpointHref svc (er_Method r) (er_Route r) winKey)
       [Text (er_Method r), Text (er_Route r), Text (fmtRate (er_RatePerSec r) @ ''/s''), Text (fmtPctD (er_ErrorRate r)),
        Text (fmtPctD (er_Client4xxRate r)), Text (fmtMsFull (er_P50 r)), Text (fmtMsFull (er_P95 r)), Text (fmtMsFull (er_P99 r)),
        Text (fmtBytes (er_ReqBytesAvg r)), Text (fmtBytes (er_RespBytesAvg r))]"

definition endpoints_tpl :: "(string \<Rightarrow> string) \<Rightarrow> Shell \<Rightarrow> endpointsData \<Rightarrow> node list" where
  "endpoints_tpl up sh d =
     [Text (''mAPI-ng '' @ emDash @ '' '' @ ep_Service d)] @ sidebar up sh @ topbar False '''' sh @ frozenBanner ''.'' (ep_Frozen d) @
     concat (map kpiNodes (ep_KPIs d)) @
     [Text ''ENDPOINT'', sortLink ''traffic'' ''TRAFFIC'' (ep_Sort d) (sh_WindowKey sh), sortLink ''error'' ''ERROR %'' (ep_Sort d) (sh_WindowKey sh),
      Text ''4XX %'', Text ''p50'', Text ''p95'', sortLink ''p99'' ''p99'' (ep_Sort d) (sh_WindowKey sh), Text ''AVG REQ'', Text ''AVG RESP''] @
     (if ep_Endpoints d = [] then [Text ''No endpoints for this service in this window.'']
      else map (endpointNodes (ep_Service d) (sh_WindowKey sh)) (ep_Endpoints d)) @
     [Text (''Route templates only '' @ emDash @ '' raw paths are never emitted (cardinality-safe)'')]"

section \<open>The detail page (templates_detail.go)\<close>

definition rangeHref :: "detailPage \<Rightarrow> instant \<times> instant \<Rightarrow> string" where
  "rangeHref pg bounds = hrefOf (detailURL (pg_Service pg) (pg_Method pg) (pg_Route pg) (sh_WindowKey (pg_Shell pg)) (Some bounds))"

definition rangeNodes :: "detailPage \<Rightarrow> node list" where
  "rangeNodes pg =
     (let dr = pg_Range pg
      in (if dr_Custom dr
          then [Text (zoomGlyph @ '' '' @ pg_RangeLabel pg), Link (hrefOf (case dr_Reset dr of None \<Rightarrow> '''' | Some u \<Rightarrow> u)) [Text ''reset'']]
          else [Text (pg_RangeLabel pg @ '' window'')]) @
         [Link (rangeHref pg (dr_PanLeft dr)) [Text leftGlyph], Link (rangeHref pg (dr_ZoomOut dr)) [Text ''zoom out'']] @
         (case dr_PanRight dr of None \<Rightarrow> [] | Some b \<Rightarrow> [Link (rangeHref pg b) [Text arrowChar]]))"

definition verdictNodes :: "verdictView \<Rightarrow> node list" where
  "verdictNodes v = [Text (ve_Headline v)] @ shown (ve_Qualifier v \<noteq> '''') [Text (ve_Qualifier v)] @ [Text (ve_Sentence v)]"

definition statusNodes :: "detailData \<Rightarrow> node list" where
  "statusNodes d =
     [Text ''Status breakdown'', Text (''error = 5xx + timeout'' @ dotSep @ ''4xx shown separately'')] @
     concat (map (\<lambda>b. [Text (sb_Label b), Text (countText (sb_Count b))]) (dd_StatusBars d)) @
     shown (dv_Codes (dd_Detail d) \<noteq> [])
       (Text ''EXACT CODES'' #
        map (\<lambda>c. Text (natDigits (unat (sco_Code c)) @ dotSep @ countText (sco_Count c))) (dv_Codes (dd_Detail d)))"

definition causeNodes :: "diagnosisView \<Rightarrow> node list" where
  "causeNodes g =
     (let top = di_TopCause g
      in [Text ''RANKED CAUSE'', Text (di_Why g), Text (tc_Name top)] @ shown (tc_Confidence top \<noteq> '''') [Text (tc_Confidence top)] @
         shown (tc_Summary top \<noteq> '''') [Text (tc_Summary top)] @ shown (di_Scope g \<noteq> '''') [Text (''Scope: '' @ di_Scope g)] @
         map Text (tc_Evidence top) @
         shown (tc_Chart top \<noteq> '''') [Raw (tc_Chart top), Text ''post-GC live heap'', Text ''in-use heap''] @
         shown (tc_Falsifier top \<noteq> '''') [Text (''Rules this out: '' @ tc_Falsifier top)] @
         shown (di_Others g \<noteq> []) (Text ''ALSO CONSIDERED'' # map (\<lambda>o'. Text (cs_Name o' @ dotSep @ cs_Confidence o')) (di_Others g)))"

definition instancesPanel :: "instanceStatRow list \<Rightarrow> node list" where
  "instancesPanel rows =
     shown (rows \<noteq> [])
       (map Text [''Instances'', ''is a degradation one replica, or fleet-wide?'', ''INSTANCE'', ''REQUESTS'', ''ERROR %'', ''p50'', ''p95'', ''p99'',
          ''AVG REQ'', ''AVG RESP''] @
        concat (map (\<lambda>r. [Text (ir_Instance r), Text (countText (ir_Count r)), Text (fmtPctD (ir_ErrorRate r)), Text (fmtMsFull (ir_P50 r)),
          Text (fmtMsFull (ir_P95 r)), Text (fmtMsFull (ir_P99 r)), Text (fmtBytes (ir_ReqBytesAvg r)), Text (fmtBytes (ir_RespBytesAvg r))]) rows))"

definition versionsPanel :: "versionRow list \<Rightarrow> node list" where
  "versionsPanel rows =
     shown (rows \<noteq> [])
       (map Text [''Versions'', ''did a release regress this endpoint?'', ''VERSION'', ''REQUESTS'', ''ERROR %'', ''p50'', ''p95'', ''p99''] @
        concat (map (\<lambda>r. [Text (vr_Version r), Text (countText (vr_Count r)), Text (fmtPctD (vr_ErrorRate r)), Text (fmtMsFull (vr_P50 r)),
          Text (fmtMsFull (vr_P95 r)), Text (fmtMsFull (vr_P99 r))]) rows))"

text \<open>An identifier is shown shortened, with a copy button for the hidden element that has it in full.\<close>

definition copyable :: "string \<Rightarrow> nat \<Rightarrow> string \<Rightarrow> string \<Rightarrow> node list" where
  "copyable prefix i short full =
     (if full \<noteq> '''' then [Text short, Ident (prefix @ natDigits i) [] [Text full], CopyOf (prefix @ natDigits i)] else [Text emDash])"

definition formatClock :: "instant \<Rightarrow> string" where
  "formatClock t = (let (days, hh, mm, ss) = clock t in pad 2 hh @ '':'' @ pad 2 mm @ '':'' @ pad 2 ss)"

definition exemplarNodes :: "nat \<Rightarrow> exemplarRow \<Rightarrow> node list" where
  "exemplarNodes i e =
     [Text (formatClock (xr_Time e)), Text (natDigits (unat (xr_StatusCode e))), Text (fmtMsFull (xr_Latency e))] @
     copyable ''mp-ex-tr-'' i (xr_ShortTrace e) (xr_FullTrace e) @ copyable ''mp-ex-rq-'' i (xr_ShortReq e) (xr_FullReq e)"

definition exemplarsPanel :: "exemplarRow list \<Rightarrow> node list" where
  "exemplarsPanel rows =
     shown (rows \<noteq> [])
       (map Text [''Exemplars'', ''jump from a spike to a real request'', ''TIME'', ''STATUS'', ''LATENCY'', ''TRACE ID'', ''REQUEST ID''] @
        concat (map (\<lambda>(i, e). exemplarNodes i e) (enumerate 0 rows)))"

definition classPanel :: "classLatencyRow list \<Rightarrow> node list" where
  "classPanel rows =
     shown (rows \<noteq> [])
       (map Text [''Latency by status class'', ''is the latency on failures, or also on successes?'', ''CLASS'', ''REQUESTS'', ''p50'', ''p95'', ''p99''] @
        concat (map (\<lambda>r. [Text (clr_Class r), Text (countText (clr_Count r)), Text (fmtMsFull (clr_P50 r)), Text (fmtMsFull (clr_P95 r)),
          Text (fmtMsFull (clr_P99 r))]) rows))"

definition downstreamPanel :: "downstreamView \<Rightarrow> node list" where
  "downstreamPanel d =
     [Text ''Self vs downstream'', Text ''where does the time go?''] @
     (if dsv_HasData d
      then [Text ''SELF (avg)'', Text (fmtMsFull (dsv_SelfSeconds d)), Text ''DOWNSTREAM (avg)'', Text (fmtMsFull (dsv_DownSeconds d)),
            Text ''DOWNSTREAM SHARE'', Text (fmtPctD (dsv_DownFraction d)), Text (squareGlyph @ '' self'' @ dotSep @ ''endpoint's own work''),
            Text (''downstream'' @ dotSep @ ''outbound waits '' @ squareGlyph)]
      else [Text ''No downstream timing in this window. Set maping.NewRoundTripper as the Transport of your outbound http.Client to split self vs downstream time.''])"

definition countPanel :: "string \<Rightarrow> string \<Rightarrow> string \<Rightarrow> (string \<times> u64) list \<Rightarrow> node list" where
  "countPanel title question column rows =
     shown (rows \<noteq> [])
       (map Text [title, question, column, ''REQUESTS''] @ concat (map (\<lambda>(k, n). [Text k, Text (countText n)]) rows))"

definition resourceNodes :: "resourceRow \<Rightarrow> node list" where
  "resourceNodes r =
     map Text [rr_Instance r, fmtCores (rr_CoresUsed r), fmtPctD (rr_GCShare r), fmtBytes (rr_RSSBytes r), fmtBytes (rr_HeapBytes r),
       countText (rr_Goroutines r), fmtRate (rr_GCFreq r) @ ''/s'', fmtPctD (rr_GCCPUFraction r), fmtBytes (rr_AllocRate r) @ ''/s'',
       fmtBytes (rr_AvgAllocSize r), fmtBytes (rr_PostGCHeap r), if rr_HasTrueRSS r then fmtBytes (rr_TrueRSSBytes r) else emDash,
       if rr_HasFDLimit r then countText (rr_OpenFDs r) @ '' / '' @ countText (rr_FDLimit r) else emDash, countText (rr_InFlight r)]"

definition resourcesPanel :: "resourceRow list \<Rightarrow> node list" where
  "resourcesPanel rows =
     shown (rows \<noteq> [])
       (map Text [''Resources'', ''saturation per instance '' @ emDash @ '' GC or goroutines behind a slowdown?'', ''INSTANCE'', ''CPU'', ''GC'', ''RSS'',
          ''HEAP'', ''GOROUTINES'', ''GC/s'', ''GC CPU'', ''ALLOC/s'', ''AVG ALLOC'', ''POST-GC HEAP'', ''TRUE RSS'', ''FD'', ''IN-FLIGHT''] @
        concat (map resourceNodes rows))"

definition detail_tpl :: "(string \<Rightarrow> string) \<Rightarrow> detailPage \<Rightarrow> node list" where
  "detail_tpl up pg =
     (let d = pg_Data pg
      in [Text (''mAPI-ng '' @ emDash @ '' '' @ pg_Method pg @ '' '' @ pg_Route pg)] @ sidebar up (pg_Shell pg) @ topbar False '''' (pg_Shell pg) @
         [Text (pg_Method pg), Text (pg_Route pg)] @ verdictNodes (dd_Verdict d) @ concat (map kpiNodes (dd_Stats d)) @
         map Text [''Rate & latency over time'', ''rate'', ''p95'', ''errors''] @ [Raw (pg_TSChart pg)] @ rangeNodes pg @ statusNodes d @
         [Text ''Diagnostic details''] @ (case dd_Diagnosis d of None \<Rightarrow> [] | Some g \<Rightarrow> causeNodes g) @
         [Text ''DEBUG CONTEXT'', Ident ''mp-debug'' [] [Text (dc_Summary (pg_Debug pg))], CopyOf ''mp-debug''] @
         map Text [''Latency distribution'', ''DDSketch'' @ dotSep @ gammaGlyph @ ''=1.01'' @ dotSep @ ''~1% relative error'',
           ''merged bucket counts'' @ dotSep @ ''log-spaced latency''] @ [Raw (pg_HistChart pg)] @
         instancesPanel (dd_Instances d) @ versionsPanel (dd_Versions d) @ exemplarsPanel (dd_Exemplars d) @ classPanel (dd_ClassLatency d) @
         downstreamPanel (dd_Downstream d) @ countPanel ''Error classes'' ''what is behind the errors?'' ''CLASS'' (dd_ErrorClasses d) @
         countPanel ''No-status reasons'' ''timing out, canceling, or crashing?'' ''REASON'' (dd_NoStatusReasons d) @
         resourcesPanel (dd_Resources d) @ [Script ''/assets/copy.js''])"

section \<open>Get started and Setup (templates_onboarding.go)\<close>

definition handshake_stepper :: "handshakeView \<Rightarrow> node list" where
  "handshake_stepper hv =
     [Text ''HANDSHAKE'', Text ''Live status from your first recorder.''] @
     concat (map (\<lambda>st. [Text (ov_Icon st), Text (ov_Label st), Text (ov_Sub st)]) (hv_Steps hv)) @
     shown (hv_Connected hv \<noteq> [])
       (Text ''CONNECTED'' #
        map (\<lambda>(svc, inst, _). Text (svc @ (if inst \<noteq> '''' then dotSep @ inst else ''''))) (hv_Connected hv))"

definition handshakeBox :: "handshakeView \<Rightarrow> node" where
  "handshakeBox hv =
     Ident ''handshake'' [(''data-complete'', if hv_Complete hv then ''true'' else ''false'')] (handshake_stepper hv)"

definition frameworks :: "string list" where
  "frameworks = [''gin'', ''nethttp'', ''echo'', ''chi'', ''beego'']"

definition lines :: "string list \<Rightarrow> string" where
  "lines = joinWith [CHR 0x0A]"

definition snippetOf :: "string \<Rightarrow> string \<Rightarrow> string list \<Rightarrow> string" where
  \<open>snippetOf alias pkg use =
     lines ([''import ('', ''    maping "github.com/arhuman/maping/client"'',
       ''    '' @ alias @ '' "github.com/arhuman/maping/client/'' @ pkg @ ''"'', '')'', '''', ''rec := maping.NewRecorder('',
       ''    maping.WithService("checkout-api"),'', '')''] @ use)\<close>

definition snippets :: "(string \<times> string) list" where
  \<open>snippets =
     [(''gin'', snippetOf ''mapinggin'' ''gin'' [''r.Use(mapinggin.MiddlewareWithRecorder(rec)) // above Recovery'', ''r.Use(gin.Recovery())'']),
      (''nethttp'', snippetOf ''mapinghttp'' ''nethttp''
         [''mux := http.NewServeMux()'', ''mux.HandleFunc("GET /orders/{id}", ordersHandler)'',
          ''// wrap the mux; the ServeMux pattern is the route template'', ''handler := mapinghttp.MiddlewareWithRecorder(rec)(mux)'']),
      (''echo'', snippetOf ''mapingecho'' ''echo'' [''e.Use(mapingecho.MiddlewareWithRecorder(rec)) // before Recover'', ''e.Use(middleware.Recover())'']),
      (''chi'', snippetOf ''mapingchi'' ''chi'' [''r.Use(mapingchi.MiddlewareWithRecorder(rec)) // above Recoverer'', ''r.Use(middleware.Recoverer)'']),
      (''beego'', snippetOf ''mapingbeego'' ''beego''
         [''// filter runs after routing; panic recovery is inner, so no ordering needed'',
          ''web.InsertFilterChain("/*", mapingbeego.FilterWithRecorder(rec))''])]\<close>

definition onboarding_tpl :: "(string \<Rightarrow> string) \<Rightarrow> onboardingPage \<Rightarrow> node list" where
  "onboarding_tpl up pg =
     shown (ob_Refresh pg) [Refresh 10] @ [Text (''mAPI-ng '' @ emDash @ '' get started'')] @ sidebar up (ob_Shell pg) @ topbar False '''' (ob_Shell pg) @
     frozenBanner ''.'' (ob_Frozen pg) @
     map Text [halfGlyph @ '' ZERO-CONFIG SETUP'', ''One env var. Live in seconds.'',
       ''No Prometheus. No Grafana. No YAML. Add the middleware, set MAPING_KEY, and RED metrics for every Go endpoint start flowing.'',
       ''1'', ''Wire the middleware'', ''main.go''] @
     map (\<lambda>fw. Radio ''fw'' (''fw-'' @ fw) (ob_Framework pg = fw)) frameworks @
     map Text [''gin'', ''net/http'', ''echo'', ''chi'', ''beego''] @
     map (\<lambda>(fw, code). Text code) snippets @
     map Text [''2'', ''Activate'', ''export MAPING_KEY=mk_live_9f2c'' @ concat (replicate 4 middleDot) @ ''a91f'',
       diamondGlyph @ '' Absent key '' @ impliesGlyph @ '' the middleware is a no-op. Shipping mAPI-ng is always safe.''] @
     [handshakeBox (ob_Handshake pg), Script ''/assets/handshake.js'']"

text \<open>Every form of the Setup page carries the form token of the page.\<close>

definition tokenField :: "setupPage \<Rightarrow> field" where
  "tokenField pg = Hidden ''csrf_token'' (st_CSRFToken pg)"

definition keyNodes :: "setupPage \<Rightarrow> keyRow \<Rightarrow> node list" where
  "keyNodes pg k =
     [Text (kr_Label k), Text (''mk_live_'' @ kr_Masked k), Text (kr_Created k),
      if kr_Revoked k then Text ''revoked''
      else Form ''post'' (''/setup/keys/'' @ urlNormalizer (kr_ID k) @ ''/revoke'') [tokenField pg, Submit ''revoke'']]"

definition keysPanel :: "setupPage \<Rightarrow> node list" where
  "keysPanel pg =
     (if st_ShowKeys pg
      then map Text [''LABEL'', ''KEY'', ''CREATED'', ''ACTION''] @
           (if st_Keys pg = [] then [Text ''No keys yet. Create one to start ingesting.''] else concat (map (keyNodes pg) (st_Keys pg))) @
           [Form ''post'' ''/setup/keys'' [tokenField pg, Input ''label'', Submit ''Create key''],
            Text ''The full token carries this deployment's collector endpoint, so MAPING_KEY is the only env var your service needs. The secret is shown once at creation.'']
      else [Text ''Self-serve key management is available once the control plane is configured. This deployment authenticates ingest with a static dev-key.''])"

definition memberNodes :: "setupPage \<Rightarrow> memberRow \<Rightarrow> node list" where
  "memberNodes pg m =
     [Text (mr_Email m @ (if mr_IsOwner m then dotSep @ ''owner'' else '''')), Text (mr_Role m)] @
     shown (st_IsAdmin pg \<and> \<not> mr_IsOwner m)
       [Form ''post'' (''/setup/members/'' @ urlNormalizer (mr_ID m) @ ''/remove'') [tokenField pg, Submit ''remove'']]"

definition inviteNodes :: "setupPage \<Rightarrow> inviteRow \<Rightarrow> node list" where
  "inviteNodes pg i =
     [Text (ir_Email i @ dotSep @ ''invited, expires '' @ ir_Expires i), Text (ir_Role i)] @
     shown (st_IsAdmin pg)
       [Form ''post'' (''/setup/invites/'' @ urlNormalizer (ir_ID i) @ ''/revoke'') [tokenField pg, Submit ''cancel'']]"

definition teamPanel :: "setupPage \<Rightarrow> node list" where
  "teamPanel pg =
     shown (st_ShowTeam pg)
       ([Text ''TEAM'', Text (formatInt (st_SeatUsed pg) @ '' of '' @ formatInt (st_SeatLimit pg) @ '' seats'')] @
        shown (st_InviteURL pg \<noteq> '''')
          [Text (warnSign @ '' SEND THIS LINK '' @ emDash @ '' IT WON'T BE SHOWN AGAIN''), CopyOf ''mp-invite'',
           Ident ''mp-invite'' [] [Text (st_InviteURL pg)]] @
        shown (st_TeamError pg \<noteq> '''') [Text warnSign, Text (st_TeamError pg)] @
        map Text [''MEMBER'', ''ROLE'', ''ACTION''] @ concat (map (memberNodes pg) (st_Members pg)) @ concat (map (inviteNodes pg) (st_Invites pg)) @
        (if st_IsAdmin pg
         then [Form ''post'' ''/setup/invites'' [tokenField pg, Input ''email'', Choice ''role'' [''member'', ''admin''], Submit ''Invite'']]
         else [Text ''Only admins can invite or remove members.'']))"

definition newTokenPanel :: "setupPage \<Rightarrow> node list" where
  "newTokenPanel pg =
     shown (st_NewToken pg \<noteq> '''')
       [Text (warnSign @ '' COPY IT NOW '' @ emDash @ '' YOU WON'T SEE IT AGAIN''), CopyOf ''mp-newkey'',
        Ident ''mp-newkey'' [] [Text (''export MAPING_KEY='' @ st_NewToken pg)]]"

definition setup_tpl :: "(string \<Rightarrow> string) \<Rightarrow> setupPage \<Rightarrow> node list" where
  "setup_tpl up pg =
     shown (st_Refresh pg) [Refresh 10] @ [Text (''mAPI-ng '' @ emDash @ '' setup'')] @ sidebar up (st_Shell pg) @ topbar False '''' (st_Shell pg) @
     frozenBanner ''.'' (st_Frozen pg) @ newTokenPanel pg @ keysPanel pg @ [handshakeBox (st_Handshake pg)] @ teamPanel pg @
     [Script ''/assets/copy.js'', Script ''/assets/handshake.js'']"

section \<open>Performance (templates_performance.go)\<close>

definition pathSteps :: "(string \<times> string \<times> string) list" where
  "pathSteps =
     [([CHR 0xE2, CHR 0x8C, CHR 0xA8], ''Middleware'', ''~20 lines, above Recovery''), ([CHR 0xE2, CHR 0x97, CHR 0xB1], ''DDSketch'', ''in-process aggregate''),
      ([CHR 0xE2, CHR 0x86, CHR 0x91], ''Summary'', ''gRPC, one per flush''), ([CHR 0xE2, CHR 0x96, CHR 0xA4], ''ClickHouse'', ''row-level multitenant''),
      ([CHR 0xE2, CHR 0x96, CHR 0xA6], ''Dashboard'', ''RED, no config'')]"

fun joinNodes :: "string \<Rightarrow> node list list \<Rightarrow> node list" where
  "joinNodes sep [] = []"
| "joinNodes sep [ns] = ns"
| "joinNodes sep (ns # rest) = ns @ [Text sep] @ joinNodes sep rest"

definition performance_tpl :: "(string \<Rightarrow> string) \<Rightarrow> Shell \<Rightarrow> string \<Rightarrow> performancePage \<Rightarrow> node list" where
  "performance_tpl up sh winKey p =
     (let measured = (\<lambda>v. if pp_HasData p then v else emDash);
          chip = concat (map (\<lambda>c. upperRune id [c]) winKey); label = windowText winKey
      in [Text (''mAPI-ng '' @ emDash @ '' performance'')] @ sidebar up sh @ topbar False '''' sh @
         [Text (''mAPI-ng aggregates in-process into DDSketch summaries before shipping '' @ emDash @ '' so one small record can represent thousands of requests. More data per second ingested, far less disk used, faster queries than raw-event pipelines.'')] @
         map Text [''REQUESTS'' @ dotSep @ chip, measured (pp_Requests p), ''represented by your stored summaries'',
           ''SUMMARIES'' @ dotSep @ chip, measured (pp_Summaries p), ''records actually shipped & stored'',
           ''COMPRESSION'', measured (pp_Compression p), ''requests per shipped summary'',
           ''QUERY LATENCY'', pp_QueryMs p, ''ms'', ''this page's aggregate query'',
           ''Disk'' @ dotSep @ ''last '' @ label,
           ''your real traffic'' @ (if pp_HasData p then dotSep @ ''raw side assumes ~300 B/event'' else '''')] @
         (if pp_HasData p
          then map Text [''Raw-event pipeline'' @ dotSep @ ''projected'', pp_RawDisk p, ''mAPI-ng summaries'' @ dotSep @ ''measured'', pp_SummaryDisk p,
                 pp_Ratio p, ''less disk '' @ emDash @ '' '' @ pp_Requests p @ '' requests carried by '' @ pp_Summaries p @ '' summaries.'']
          else [Text (''No summaries stored in the last '' @ label @ '' yet. Once your service ships data, real ingest volume and disk savings appear here.'')]) @
         [Text ''Rollup tiers'', Text (''counters sum'' @ dotSep @ ''sketches merge bucket-wise (exact)'')] @
         concat (map (\<lambda>t. [Text (rt_Res t), Text (rt_Retention t)]) (pp_Tiers p)) @
         [Text ''Fine tiers expire after rollup. Mergeability is what makes coarser tiers exact, not approximate.'', Text ''Ingestion path''] @
         joinNodes arrowChar (map (\<lambda>(icon, name, sub). [Text icon, Text name, Text sub]) pathSteps))"

section \<open>Signing in (auth/handlers.go)\<close>

definition startHref :: "string \<Rightarrow> string \<Rightarrow> string" where
  "startHref provider next' =
     ''/auth/'' @ provider @ ''/start'' @ (if next' \<noteq> ''/'' then ''?next='' @ urlEscaper next' else '''')"

definition loginPage :: "bool \<Rightarrow> bool \<Rightarrow> bool \<Rightarrow> string \<Rightarrow> node list" where
  "loginPage github google devLogin next' =
     [Text (''mAPI-ng '' @ emDash @ '' sign in''), Link ''/'' [Text ''mAPIng'', Text (''MONITORED'' @ nbsp @ ''API'' @ dotSep @ ''NG'')],
      Text ''Sign in to mAPI-ng'',
      Text ''One account for your org's dashboard and ingest keys. New here? The same button gets you started.''] @
     shown github [Link (startHref ''github'' next') [Text ''Continue with GitHub'']] @
     shown google [Link (startHref ''google'' next') [Text ''Continue with Google'']] @
     shown ((github \<or> google) \<and> devLogin) [Text ''OR''] @
     shown devLogin
       [Form ''post'' ''/auth/dev/login'' [Hidden ''next'' next', Submit (angleGlyph @ ''_ Dev login (admin)'')],
        Text (''Shown only when no OIDC provider is configured '' @ emDash @ '' MAPING_POSTGRES_DSN set, no GitHub/Google credentials.'')] @
     [Text ''By continuing you agree to the Terms and Privacy Policy. First sign-in issues your org's first ingest key and reveals it once.'',
      Link ''/'' [Text (leftGlyph @ '' Back to home'')]] @
     map Text [''WHAT HAPPENS NEXT'', ''Sign in and your first key is waiting.'', ''1'', ''Authenticate'',
       ''GitHub or Google via OIDC. We create your org on first sign-in.'', ''2'', ''Get your ingest key'',
       ''The org's first key is auto-issued and shown once '' @ emDash @ '' it carries the secret and the collector endpoint.'', ''3'',
       ''Set MAPING_KEY & ship'', ''RED metrics land on your dashboard after the first ~10s flush.'', ''YOUR INGEST KEY, REVEALED ONCE'',
       ''export MAPING_KEY=mk_live_7f3a'' @ ellipsisChar @ ''c091'']"

definition interstitialPage :: "string \<Rightarrow> string \<Rightarrow> node list" where
  "interstitialPage tok next' =
     [Text (''mAPI-ng '' @ emDash @ '' your ingest key''), Text ''You're in. Here's your ingest key.'',
      Text (''Set it as MAPING_KEY in your Go service '' @ emDash @ '' it carries both your key and this deployment's collector endpoint, so no other config is needed.''),
      Text (warnSign @ '' COPY IT NOW '' @ emDash @ '' YOU WON'T SEE IT AGAIN''), CopyOf ''mp-key'',
      Ident ''mp-key'' [] [Text (''export MAPING_KEY='' @ tok)], Text ''Lost it? Mint a new one anytime on the Setup page.'',
      Link (hrefOf next') [Text (''Continue to dashboard '' @ arrowChar)], Script ''/assets/copy.js'']"

section \<open>Documentation (docs/render.go, docs/render_app.go)\<close>

definition railNodes :: "navGroup list \<Rightarrow> node list" where
  "railNodes gs =
     concat (map (\<lambda>g. Text (ng_Group g) # map (\<lambda>l. Link (hrefOf (nl_Href l)) [Text (nl_Title l)]) (ng_Items g)) gs)"

definition shellTmpl :: "shellData \<Rightarrow> node list" where
  "shellTmpl d =
     [Text (sd_Title d @ dotSep @ ''mAPI-ng docs'')] @
     (if sd_Header d \<noteq> '''' then [Raw (sd_Header d)] else [Link ''/'' [Text ''mAPIng''], Text ''/'', Link ''/doc'' [Text ''docs'']]) @
     railNodes (sd_Groups d) @
     [Raw (sd_Body d), Text ''mAPI-ng'', Link ''/'' [Text ''home''], Link ''https://github.com/arhuman/maping'' [Text ''source'']]"

definition appTmpl :: "appData \<Rightarrow> node list" where
  "appTmpl d = railNodes (ad_Groups d) @ [Raw (ad_Body d)]"

section \<open>Scripts (web/assets.go)\<close>

definition contentSecurityPolicy :: string where
  "contentSecurityPolicy =
     ''default-src 'self'; '' @ ''script-src 'self'; '' @ ''style-src 'self' 'unsafe-inline' https://fonts.googleapis.com; '' @
     ''font-src https://fonts.gstatic.com; '' @ ''img-src 'self' data:; '' @ ''base-uri 'none'; frame-ancestors 'none'' @ [CHR 0x27]"

definition serveJS :: "string \<Rightarrow> (string \<times> string) list \<times> string" where
  "serveJS body =
     ([(''Content-Type'', ''text/javascript; charset=utf-8''), (''Cache-Control'', ''public, max-age=3600''),
       (''Content-Security-Policy'', contentSecurityPolicy)], body)"

end
