(* ===== verification/Page_Actions.thy ===== *)
theory Page_Actions
  imports Page_Templates
begin

text \<open>
  What the rendered pages lead to. A form of the Setup page, submitted by the user it was rendered for, reaches its
  handler and passes every guard of it, and the page offers the forms that are the user's to use and no
  others. A link of the tables and of the detail page leads to the service, method, route and window it was
  rendered for, for every service name a path segment can carry; for a name that is not one it does not.
  Signing in keeps the page the visitor wanted, a copy button names an element of its page, and the documentation
  rail has no dead link.
\<close>

section \<open>What a document offers\<close>

lemma doc_append [simp]:
  "docForms (a @ b) = docForms a @ docForms b" "docLinks (a @ b) = docLinks a @ docLinks b"
  "docIds (a @ b) = docIds a @ docIds b" "docCopies (a @ b) = docCopies a @ docCopies b"
  by (simp_all add: doc_defs)

lemma doc_Nil [simp]: "docForms [] = []" "docLinks [] = []" "docIds [] = []" "docCopies [] = []"
  by (simp_all add: doc_defs)

lemma doc_Cons [simp]:
  "docForms (n # ns) = formsOf n @ docForms ns" "docLinks (n # ns) = linksOf n @ docLinks ns"
  "docIds (n # ns) = idsOf n @ docIds ns" "docCopies (n # ns) = copiesOf n @ docCopies ns"
  by (simp_all add: doc_defs)

lemma doc_concat:
  "docForms (concat nss) = concat (map docForms nss)" "docLinks (concat nss) = concat (map docLinks nss)"
  "docIds (concat nss) = concat (map docIds nss)" "docCopies (concat nss) = concat (map docCopies nss)"
  by (induction nss) simp_all

lemma doc_texts [simp]:
  "docForms (map (\<lambda>x. Text (f x)) xs) = []" "docLinks (map (\<lambda>x. Text (f x)) xs) = []"
  "docIds (map (\<lambda>x. Text (f x)) xs) = []" "docCopies (map (\<lambda>x. Text (f x)) xs) = []"
  by (induction xs) simp_all

lemma doc_plain_texts [simp]:
  "docForms (map Text ts) = []" "docLinks (map Text ts) = []" "docIds (map Text ts) = []" "docCopies (map Text ts) = []"
  by (induction ts) simp_all

lemma doc_shown [simp]:
  "docForms (shown b ns) = (if b then docForms ns else [])" "docLinks (shown b ns) = (if b then docLinks ns else [])"
  "docIds (shown b ns) = (if b then docIds ns else [])" "docCopies (shown b ns) = (if b then docCopies ns else [])"
  by (simp_all add: shown_def)

lemma concat_empty: "(\<And>x. x \<in> set xs \<Longrightarrow> f x = []) \<Longrightarrow> concat (map f xs) = []"
  by (induction xs) simp_all

lemma link_list_doc:
  "(\<And>x. docForms (body x) = []) \<Longrightarrow> docForms (map (\<lambda>x. Link (h x) (body x)) xs) = []"
  "(\<And>x. docIds (body x) = []) \<Longrightarrow> docIds (map (\<lambda>x. Link (h x) (body x)) xs) = []"
  "(\<And>x. docCopies (body x) = []) \<Longrightarrow> docCopies (map (\<lambda>x. Link (h x) (body x)) xs) = []"
  by (induction xs) (simp_all add: doc_defs)

lemma frame_offers [simp]:
  "docForms (sidebar up sh) = []" "docIds (sidebar up sh) = []" "docCopies (sidebar up sh) = []"
  "docForms (topbar live lh sh) = []" "docIds (topbar live lh sh) = []" "docCopies (topbar live lh sh) = []"
  "docForms (frozenBanner a b) = []" "docIds (frozenBanner a b) = []" "docCopies (frozenBanner a b) = []"
  by (simp_all add: sidebar_def topbar_def crumbNodes_def frozenBanner_def Let_def doc_concat link_list_doc concat_empty case_prod_beta)

lemma handshake_offers [simp]:
  "formsOf (handshakeBox hv) = []" "idsOf (handshakeBox hv) = [''handshake'']" "copiesOf (handshakeBox hv) = []"
proof -
  have "docForms (handshake_stepper hv) = []" "docIds (handshake_stepper hv) = []" "docCopies (handshake_stepper hv) = []"
    by (simp_all add: handshake_stepper_def doc_concat concat_empty case_prod_unfold)
  then show "formsOf (handshakeBox hv) = []" "idsOf (handshakeBox hv) = [''handshake'']" "copiesOf (handshakeBox hv) = []"
    by (simp_all add: handshakeBox_def doc_defs)
qed

section \<open>The forms of the Setup page\<close>

type_synonym form = "string \<times> string \<times> field list"

definition revokeForm :: "setupPage \<Rightarrow> keyRow \<Rightarrow> form" where
  "revokeForm pg k = (''post'', ''/setup/keys/'' @ urlNormalizer (kr_ID k) @ ''/revoke'', [tokenField pg, Submit ''revoke''])"

definition removeForm :: "setupPage \<Rightarrow> memberRow \<Rightarrow> form" where
  "removeForm pg m = (''post'', ''/setup/members/'' @ urlNormalizer (mr_ID m) @ ''/remove'', [tokenField pg, Submit ''remove''])"

definition cancelForm :: "setupPage \<Rightarrow> inviteRow \<Rightarrow> form" where
  "cancelForm pg i = (''post'', ''/setup/invites/'' @ urlNormalizer (ir_ID i) @ ''/revoke'', [tokenField pg, Submit ''cancel''])"

definition createForm :: "setupPage \<Rightarrow> form" where
  "createForm pg = (''post'', ''/setup/keys'', [tokenField pg, Input ''label'', Submit ''Create key''])"

definition inviteForm :: "setupPage \<Rightarrow> form" where
  "inviteForm pg = (''post'', ''/setup/invites'', [tokenField pg, Input ''email'', Choice ''role'' [''member'', ''admin''], Submit ''Invite''])"

lemmas form_defs = revokeForm_def removeForm_def cancelForm_def createForm_def inviteForm_def

text \<open>The page offers the forms of its live keys, and those of the team to admins only, the owner's row excepted.\<close>

lemma setup_forms:
  "docForms (setup_tpl up pg) =
     (if st_ShowKeys pg then map (revokeForm pg) (filter (\<lambda>k. \<not> kr_Revoked k) (st_Keys pg)) @ [createForm pg] else []) @
     (if st_ShowTeam pg \<and> st_IsAdmin pg
      then map (removeForm pg) (filter (\<lambda>m. \<not> mr_IsOwner m) (st_Members pg)) @ map (cancelForm pg) (st_Invites pg) @ [inviteForm pg] else [])"
proof -
  have keys: "docForms (concat (map (keyNodes pg) ks)) = map (revokeForm pg) (filter (\<lambda>k. \<not> kr_Revoked k) ks)" for ks
    by (induction ks) (simp_all add: keyNodes_def form_defs)
  have members: "docForms (concat (map (memberNodes pg) ms)) = (if st_IsAdmin pg then map (removeForm pg) (filter (\<lambda>m. \<not> mr_IsOwner m) ms) else [])" for ms
    by (induction ms) (simp_all add: memberNodes_def form_defs)
  have invites: "docForms (concat (map (inviteNodes pg) is)) = (if st_IsAdmin pg then map (cancelForm pg) is else [])" for "is"
    by (induction "is") (simp_all add: inviteNodes_def form_defs)
  have panels: "docForms (keysPanel pg) = (if st_ShowKeys pg then map (revokeForm pg) (filter (\<lambda>k. \<not> kr_Revoked k) (st_Keys pg)) @ [createForm pg] else [])"
    "docForms (teamPanel pg) = (if st_ShowTeam pg \<and> st_IsAdmin pg
      then map (removeForm pg) (filter (\<lambda>m. \<not> mr_IsOwner m) (st_Members pg)) @ map (cancelForm pg) (st_Invites pg) @ [inviteForm pg] else [])"
    by (simp_all add: keysPanel_def teamPanel_def keys members invites form_defs)
  show ?thesis by (simp add: setup_tpl_def newTokenPanel_def panels)
qed

section \<open>Submitting them\<close>

text \<open>The request a page handler sees: its caller, and what the mux captured of the path.\<close>

definition pageRequest :: "Session option \<Rightarrow> siteRequest \<Rightarrow> string list \<Rightarrow> webRequest" where
  "pageRequest who s ms =
     \<lparr>wr_session = who, wr_path = rq_path (sr_req s), wr_query = rq_query (sr_req s), wr_form = rq_form (sr_req s),
      wr_pathID = (case ms of [] \<Rightarrow> '''' | m # _ \<Rightarrow> m), wr_service = (case ms of [] \<Rightarrow> '''' | m # _ \<Rightarrow> m)\<rparr>"

lemma pathUnescape_deep: "c \<noteq> CHR ''%'' \<Longrightarrow> pathUnescape (CHR ''/'' # c # s) \<noteq> ''/''"
  by (auto simp: pathUnescape_def split: option.splits)

lemma rooted_clean:
  assumes "\<forall>x \<in> set segs. CHR ''?'' \<notin> set x \<and> CHR ''#'' \<notin> set x"
  shows "CHR ''?'' \<notin> set (rootedAt segs) \<and> CHR ''#'' \<notin> set (rootedAt segs)"
  using assms unfolding rootedAt_def by (induction segs rule: induct_list012) auto

lemma submit_routed:
  assumes "form = (''post'', rootedAt (''setup'' # xs), fs)" "list_all plainSeg xs" "\<forall>x \<in> set xs. CHR ''?'' \<notin> set x \<and> CHR ''#'' \<notin> set x"
    and "findHandler web_Register ''POST'' (rootedAt (''setup'' # xs)) = Found w ms" and "servedAs au now (submit cookies typed form) = Some who"
  shows "dispatch au home ready cap [] now (submit cookies typed form) = Page w ms who"
proof (rule dispatch_page_found)
  have "pathOf (rootedAt (''setup'' # xs)) = rootedAt (''setup'' # xs)"
    using pathOf_plain rooted_clean [of "''setup'' # xs"] assms(3) by auto
  then show "sr_path (submit cookies typed form) = rootedAt (''setup'' # xs)" "rq_path (sr_req (submit cookies typed form)) \<noteq> ''/''"
    using pathUnescape_deep [of "CHR ''s''"] by (cases xs; simp add: assms(1) submit_def rootedAt_def)+
  show "list_all plainSeg (''setup'' # xs)" using assms(2) literal_plain(1) by simp
  show "siteSegment (pathUnescape ''setup'')" by (simp add: literal_unescape siteSegment_def)
  show "sr_method (submit cookies typed form) = ''GET'' \<or> sr_method (submit cookies typed form) = ''POST''"
    by (simp add: assms(1) submit_def)
  show "servedAs au now (submit cookies typed form) = Some who" by (rule assms(5))
  show "findHandler web_Register (sr_method (submit cookies typed form)) (rootedAt (''setup'' # xs)) = Found w ms"
    using assms(4) by (simp add: assms(1) submit_def)
qed

lemma form_actions:
  "''/setup/keys/'' @ x @ ''/revoke'' = rootedAt [''setup'', ''keys'', x, ''revoke'']"
  "''/setup/invites/'' @ x @ ''/revoke'' = rootedAt [''setup'', ''invites'', x, ''revoke'']"
  "''/setup/members/'' @ x @ ''/remove'' = rootedAt [''setup'', ''members'', x, ''remove'']"
  "''/setup/keys'' = rootedAt [''setup'', ''keys'']" "''/setup/invites'' = rootedAt [''setup'', ''invites'']"
  by (simp_all add: rootedAt_def)

lemma plain_list: "list_all plainSeg [''keys'']" "list_all plainSeg [''invites'']"
  by (simp_all add: literal_plain)

lemma form_dispatch:
  fixes cookies :: "(string \<times> string) list" and typed :: "string \<Rightarrow> string" and cap :: int and ready home :: bool
  assumes "servedAs au now (follow cookies href) = Some who"
  defines "go \<equiv> (\<lambda>form. dispatch au home ready cap [] now (submit cookies typed form))"
  shows "go (createForm pg) = Page WCreateKey [] who" and "go (inviteForm pg) = Page WCreateInvite [] who"
    and "pathSafe (kr_ID k) \<Longrightarrow> go (revokeForm pg k) = Page WRevokeKey [kr_ID k] who"
    and "pathSafe (mr_ID m) \<Longrightarrow> go (removeForm pg m) = Page WRemoveMember [mr_ID m] who"
    and "pathSafe (ir_ID i) \<Longrightarrow> go (cancelForm pg i) = Page WRevokeInvite [ir_ID i] who"
proof -
  have who: "servedAs au now (submit cookies typed form) = Some who" for form
    using servedAs_cookies [of "submit cookies typed form" "follow cookies href" au now] assms(1) by (simp add: submit_def follow_def case_prod_beta)
  note R = submit_routed [OF _ _ _ _ who]
  show "go (createForm pg) = Page WCreateKey [] who" unfolding go_def
    by (rule R [OF createForm_def [unfolded form_actions] plain_list(1) _ web_route_create_key]) simp
  show "go (inviteForm pg) = Page WCreateInvite [] who" unfolding go_def
    by (rule R [OF inviteForm_def [unfolded form_actions] plain_list(2) _ web_route_create_invite]) simp
  show "go (revokeForm pg k) = Page WRevokeKey [kr_ID k] who" if "pathSafe (kr_ID k)"
    unfolding go_def using R [OF revokeForm_def [unfolded form_actions] _ _ web_route_revoke_key] safe_segment [OF that] by (simp add: literal_plain)
  show "go (removeForm pg m) = Page WRemoveMember [mr_ID m] who" if "pathSafe (mr_ID m)"
    unfolding go_def using R [OF removeForm_def [unfolded form_actions] _ _ web_route_remove_member] safe_segment [OF that] by (simp add: literal_plain)
  show "go (cancelForm pg i) = Page WRevokeInvite [ir_ID i] who" if "pathSafe (ir_ID i)"
    unfolding go_def using R [OF cancelForm_def [unfolded form_actions] _ _ web_route_revoke_invite] safe_segment [OF that] by (simp add: literal_plain)
qed

lemma form_token:
  "form \<in> {createForm pg, inviteForm pg} \<union> range (revokeForm pg) \<union> range (removeForm pg) \<union> range (cancelForm pg) \<Longrightarrow>
   wr_form (pageRequest who (submit cookies typed form) ms) ''csrf_token'' = st_CSRFToken pg"
  by (auto simp: form_defs tokenField_def pageRequest_def submit_def queryGet_def)

lemma guards_of_caller:
  assumes "wr_session r = who" and "resolveTenant h r = Some tid" and "wb_csrf h = Some mac" and "csrf_verify mac tid (wr_form r' ''csrf_token'')"
    and "wr_session r' = who"
  shows "resolveTenant h r' = Some tid" "checkCSRF h r' tid" "isAdmin h r' = isAdmin h r"
  using assms by (simp_all add: resolveTenant_def checkCSRF_def isAdmin_def caller_def)

lemma team_guard:
  assumes "resolveTenant h r' = Some tid" "checkCSRF h r' tid" "isAdmin h r'" "wb_members h \<noteq> None"
  shows "\<exists>ma. wb_members h = Some ma \<and> teamAction h r' = Inr (tid, ma)"
  using assms by (auto simp: teamAction_def)

text \<open>What the submission of a form does, by the handler it reaches.\<close>

definition formEffect ::
  "'w webHandler \<Rightarrow> webRequest \<Rightarrow> tenantID \<Rightarrow> setupPage \<Rightarrow> (string \<Rightarrow> string) \<Rightarrow> string \<Rightarrow> string \<Rightarrow> instant \<Rightarrow> webRoute \<Rightarrow> webRequest \<Rightarrow> bool" where
  "formEffect h r tid pg sha random newKeyId now w r' \<longleftrightarrow>
     (case w of
        WCreateKey \<Rightarrow>
          wb_keys h \<and> (\<forall>d. serveCreateKey h sha random newKeyId now r' d =
            (case keyAdmin_IssueKey (wb_baseURL h) sha tid (keyLabel r') random newKeyId now d of
               (Inl _, d') \<Rightarrow> (SetupError 500 ''query failed'', d')
             | (Inr tok, d') \<Rightarrow> (SetupPage tid (noExtras\<lparr>se_newToken := tok\<rparr>), d')))
      | WRevokeKey \<Rightarrow>
          (\<exists>k \<in> set (st_Keys pg). \<not> kr_Revoked k \<and>
            (\<forall>d. serveRevokeKey h now r' d = (SeeOther ''/setup'', snd (revokeKey tid (kr_ID k) now d))))
      | WCreateInvite \<Rightarrow> isAdmin h r \<and> (\<exists>ma. wb_members h = Some ma \<and> teamAction h r' = Inr (tid, ma))
      | WRevokeInvite \<Rightarrow>
          isAdmin h r \<and> (\<exists>ma. \<exists>i \<in> set (st_Invites pg). wb_members h = Some ma \<and>
            (\<forall>x. serveRevokeInvite h r' x = (SeeOther ''/setup'', snd (ma_RevokeInvite ma tid (ir_ID i) x))))
      | WRemoveMember \<Rightarrow>
          isAdmin h r \<and> (\<exists>ma. \<exists>m \<in> set (st_Members pg). \<not> mr_IsOwner m \<and> wb_members h = Some ma \<and>
            (\<forall>x. serveRemoveMember h r' x = (SeeOther ''/setup'', snd (ma_RemoveMember ma tid (mr_ID m) x))))
      | _ \<Rightarrow> False)"


definition demoReads :: teamReads where
  "demoReads =
     \<lparr>tr_SeatUsage = Some (2, 5),
      tr_ListMembers = Some [\<lparr>mi_ID = ''m-1'', mi_Email = ''a@b.c'', mi_Role = ''admin'', mi_CreatedAt = 0, mi_IsOwner = True\<rparr>,
        \<lparr>mi_ID = ''m-2'', mi_Email = ''d@e.f'', mi_Role = ''member'', mi_CreatedAt = 0, mi_IsOwner = False\<rparr>],
      tr_ListInvites = Some []\<rparr>"

definition demoSetup :: setupPage where
  "demoSetup =
     renderSetup \<lparr>ic_OrgName = ''Acme'', ic_UserName = '''', ic_UserRole = '''', ic_AccountHref = ''''\<rparr> demoTeam
       \<lparr>cn_rows = (\<lambda>_. []), cn_windows = [], cn_parts = None, cn_ok = True, cn_groups = id\<rparr> demoDb [] None demoReads ''n'' ''n'' demoForm ''org-1'' ''1h'' noExtras"

definition demoCookies :: "(string \<times> string) list" where
  "demoCookies = [(sessionCookie, session_encode id demoSession)]"

lemma demo_session: "sessionFromRequest demoAuth \<lparr>rq_path = p, rq_provider = v, rq_query = f, rq_form = g, rq_cookies = demoCookies\<rparr> (99 * second) = Some demoSession"
proof -
  have unix: "unixSec (ss_Exp demoSession) = 100" by (simp add: demoSession_def unixSec_def second_def)
  have "splitByte (CHR ''|'') (sessionPayload demoSession) = [''org-1'', ''m-1'', ''admin'', formatInt 100]"
    using sessionPayload_parts [of demoSession] unix by (simp add: demoSession_def)
  moreover have "parseInt64 (formatInt 100) = Some 100" by code_simp
  moreover have "unixTime 100 = 100 * second" by (rule unixTime_id) simp
  ultimately have "session_decode id (session_encode id demoSession) (99 * second) = Some demoSession"
    by (simp add: session_decode_parts session_encode_def demoSession_def second_def)
  then show ?thesis by (simp add: sessionFromRequest_def demoCookies_def demoAuth_def)
qed

lemma demo_setup_rows:
  "st_Members demoSetup = [\<lparr>mr_ID = ''m-1'', mr_Email = ''a@b.c'', mr_Role = ''admin'', mr_IsOwner = True, mr_Created = formatDate 0\<rparr>,
     \<lparr>mr_ID = ''m-2'', mr_Email = ''d@e.f'', mr_Role = ''member'', mr_IsOwner = False, mr_Created = formatDate 0\<rparr>]"
  "st_Keys demoSetup = []" "st_Invites demoSetup = []" "st_ShowTeam demoSetup" "st_IsAdmin demoSetup"
proof -
  have keys: "fst (ListKeys ''org-1'' demoDb) = Inr []" by code_simp
  have admin: "isAdmin demoTeam demoForm" by (simp add: isAdmin_def caller_def demoTeam_def demoForm_def sessionRole_def demoSession_def)
  have team: "wb_keys demoTeam" "wb_members demoTeam \<noteq> None" by (simp_all add: demoTeam_def)
  note D = demoSetup_def renderSetup_def Let_def team populateTeam_def populateKeys_def keys admin demoReads_def toKeyRows_def
  show "st_Members demoSetup = [\<lparr>mr_ID = ''m-1'', mr_Email = ''a@b.c'', mr_Role = ''admin'', mr_IsOwner = True, mr_Created = formatDate 0\<rparr>,
     \<lparr>mr_ID = ''m-2'', mr_Email = ''d@e.f'', mr_Role = ''member'', mr_IsOwner = False, mr_Created = formatDate 0\<rparr>]"
    "st_Keys demoSetup = []" "st_Invites demoSetup = []" "st_ShowTeam demoSetup" "st_IsAdmin demoSetup"
    by (simp_all add: D)
qed


section \<open>Links to services and endpoints\<close>

lemma servicePath: "''/services/'' @ x = rootedAt [''services'', x]" "''/services/'' @ x @ ''/endpoint'' = rootedAt [''services'', x, ''endpoint'']"
  by (simp_all add: rootedAt_def)

text \<open>A link whose path names a service in one segment reaches the page of that service.\<close>

lemma follow_routed:
  assumes "pathOf href = rootedAt (''services'' # xs)" "list_all plainSeg xs"
    and "findHandler web_Register ''GET'' (rootedAt (''services'' # xs)) = Found w ms" and "servedAs au now (follow cookies href') = Some who"
  shows "dispatch au home ready cap [] now (follow cookies href) = Page w ms who"
proof (rule dispatch_page_found)
  show "sr_path (follow cookies href) = rootedAt (''services'' # xs)" using assms(1) by (simp add: follow_def)
  show "list_all plainSeg (''services'' # xs)" using assms(2) literal_plain(5) by simp
  show "siteSegment (pathUnescape ''services'')" by (simp add: literal_unescape siteSegment_def)
  show "sr_method (follow cookies href) = ''GET'' \<or> sr_method (follow cookies href) = ''POST''" by (simp add: follow_def)
  show "servedAs au now (follow cookies href) = Some who"
    using assms(4) servedAs_cookies [of "follow cookies href" "follow cookies href'" au now] by (simp add: follow_def)
  show "rq_path (sr_req (follow cookies href)) \<noteq> ''/''"
    using pathUnescape_deep [of "CHR ''s''"] by (cases xs) (simp_all add: follow_def assms(1) rootedAt_def)
  show "findHandler web_Register (sr_method (follow cookies href)) (rootedAt (''services'' # xs)) = Found w ms"
    using assms(3) by (simp add: follow_def)
qed

lemma follow_query: "rq_query (sr_req (follow cookies href)) = queryGet (parseQuery (queryOf href))"
  by (simp add: follow_def)

lemma service_page_link:
  assumes "pathSafe svc" "CHR ''#'' \<notin> set qs" "servedAs au now (follow cookies href') = Some who"
    and "href = ''/services/'' @ urlNormalizer svc @ qs'" "qs' = '''' \<and> qs = '''' \<or> qs' = ''?'' @ qs"
  shows "dispatch au home ready cap [] now (follow cookies href) = Page WEndpoints [svc] who \<and>
    rq_query (sr_req (follow cookies href)) = queryGet (parseQuery qs)"
proof -
  note s = safe_segment [OF assms(1)]
  have clean: "CHR ''?'' \<notin> set (rootedAt [''services'', urlNormalizer svc])" "CHR ''#'' \<notin> set (rootedAt [''services'', urlNormalizer svc])"
    using rooted_clean [of "[''services'', urlNormalizer svc]"] s(3,4) by simp_all
  have href: "href = rootedAt [''services'', urlNormalizer svc] @ qs'" using assms(4) by (simp flip: servicePath)
  have "pathOf href = rootedAt [''services'', urlNormalizer svc] \<and> queryOf href = qs"
    using assms(5) pathOf_query [OF clean(2,1) assms(2)] pathOf_plain [OF clean(2,1)] unfolding href by (elim disjE) simp_all
  then show ?thesis
    using follow_routed [OF _ _ web_route_endpoints [OF s(2)] assms(3), of href] s(1,2) by (simp add: follow_query)
qed

lemma detail_page_link:
  assumes "pathSafe svc" "CHR ''#'' \<notin> set qs" "servedAs au now (follow cookies href') = Some who"
    and "href = ''/services/'' @ urlNormalizer svc @ ''/endpoint?'' @ qs"
  shows "dispatch au home ready cap [] now (follow cookies href) = Page WEndpointDetail [svc] who \<and>
    rq_query (sr_req (follow cookies href)) = queryGet (parseQuery qs)"
proof -
  note s = safe_segment [OF assms(1)]
  let ?p = "rootedAt [''services'', urlNormalizer svc, ''endpoint'']"
  have clean: "CHR ''?'' \<notin> set ?p" "CHR ''#'' \<notin> set ?p"
    using rooted_clean [of "[''services'', urlNormalizer svc, ''endpoint'']"] s(3,4) by simp_all
  have "href = ?p @ ''?'' @ qs" using assms(4) by (simp flip: servicePath)
  then have "pathOf href = ?p \<and> queryOf href = qs" using pathOf_query [OF clean(2,1) assms(2)] by simp
  then show ?thesis
    using follow_routed [OF _ _ web_route_detail [OF s(2)] assms(3), of href] s(1,2) by (simp add: follow_query literal_plain)
qed

text \<open>A rooted link of the repository keeps its service segment and its encoded query.\<close>

lemma hrefOf_service:
  assumes "pathSafe svc" "isNormal rest"
  shows "hrefOf (''/services/'' @ svc @ rest) = ''/services/'' @ urlNormalizer svc @ rest"
proof -
  have "isSafeURL (''/services/'' @ svc @ rest)"
  proof -
    have "CHR ''/'' \<in> set (fst (cutByte (CHR ''/'' # s) (CHR '':'')))" for s
      by (simp add: cutByte_def split: option.split)
    from this [of "''services/'' @ svc @ rest"] show ?thesis by (simp add: isSafeURL_def case_prod_beta)
  qed
  moreover have "CHR ''%'' \<notin> set svc" using assms(1) by (auto simp: pathSafe_def)
  moreover have "urlNormalizer ''/services/'' = ''/services/''" by code_simp
  ultimately show ?thesis
    using normal_fixed [OF assms(2)] processURL_append [of "''/services/''" True "svc @ rest"] processURL_append [of svc True rest]
    by (simp add: hrefOf_def urlFilter_def urlNormalizer_def)
qed

lemma set_joinWith: "set (joinWith sep ps) \<subseteq> set sep \<union> (\<Union>p \<in> set ps. set p)"
  by (induction ps rule: induct_list012) auto

lemma query_no_fragment:
  "CHR ''#'' \<notin> set (encodeValues vs)"
  "\<forall>(k, v) \<in> set vs. list_all unreserved k \<Longrightarrow> CHR ''#'' \<notin> set (escapedQuery vs)"
proof -
  have "CHR ''#'' \<notin> set (queryEscape s)" for s using queryEscape_set [of s] by auto
  then have "CHR ''#'' \<notin> (\<Union>p \<in> set (map (\<lambda>(k, v). queryEscape k @ ''='' @ queryEscape v) (sort_key fst vs)). set p)" by auto
  then show "CHR ''#'' \<notin> set (encodeValues vs)" unfolding encodeValues_def using set_joinWith by fastforce
next
  assume k: "\<forall>(k, v) \<in> set vs. list_all unreserved k"
  have "CHR ''#'' \<notin> set (urlEscaper s)" for s using urlEscaper_set [of s] by auto
  moreover have "CHR ''#'' \<notin> set x" if "list_all unreserved x" for x using that by (induction x) (auto dest: unreserved_plain)
  ultimately have "CHR ''#'' \<notin> (\<Union>p \<in> set (map (\<lambda>(k, v). k @ ''='' @ urlEscaper v) vs). set p)" using k by auto
  then show "CHR ''#'' \<notin> set (escapedQuery vs)" unfolding escapedQuery_def using set_joinWith by fastforce
qed

lemma urlEscaper_unreserved: "list_all unreserved s \<Longrightarrow> urlEscaper s = s"
  unfolding urlEscaper_def by (induction s) (auto simp: urlKeep_def)

lemma normal_unreserved: "list_all unreserved s \<Longrightarrow> isNormal s"
  by (induction s) (auto simp: urlKeep_def)

lemma key_unreserved:
  "list_all unreserved ''method''" "list_all unreserved ''route''" "list_all unreserved ''win''" "list_all unreserved ''sort''"
  by code_simp+

text \<open>The drill-down link of a service row.\<close>

lemma drill_link:
  assumes "row \<in> set (toServiceRows stats w winKey)" "pathSafe (sr_Service row)" "list_all unreserved winKey" "winKey \<noteq> ''''"
  defines "vs \<equiv> (if healthClass (sr_ErrorRate row) \<noteq> ''dot-ok'' then [(''sort'', ''error'')] else []) @ [(''win'', winKey)]"
  shows "linksOf (serviceNodes row) = [''/services/'' @ urlNormalizer (sr_Service row) @ ''?'' @ escapedQuery vs]"
proof -
  let ?rest = "''?'' @ escapedQuery vs"
  have esc: "urlEscaper winKey = winKey" "urlEscaper ''error'' = ''error''"
    using urlEscaper_unreserved [OF assms(3)] by (simp, code_simp)
  have "CHR ''?'' \<notin> set (sr_Service row)" using assms(2) by (auto simp: pathSafe_def)
  then have href: "sr_DrillHref row = ''/services/'' @ sr_Service row @ ?rest"
    using assms(1,4) by (auto simp: toServiceRows_def Let_def withWin_def vs_def escapedQuery_def esc sortError_def)
  have "isNormal winKey" using assms(3) by (rule normal_unreserved)
  then have "isNormal ?rest" by (auto simp: vs_def escapedQuery_def esc urlKeep_def unreserved_def)
  then show ?thesis using hrefOf_service [OF assms(2)] by (simp add: serviceNodes_def href)
qed

lemma row_link:
  "linksOf (endpointNodes svc winKey r) = [endpointHref svc (er_Method r) (er_Route r) winKey]"
  by (simp add: endpointNodes_def)

lemma endpoint_rows_linked:
  "r \<in> set (ep_Endpoints d) \<Longrightarrow>
   endpointHref (ep_Service d) (er_Method r) (er_Route r) (sh_WindowKey sh) \<in> set (docLinks (endpoints_tpl up sh d))"
proof -
  have "docLinks (map (endpointNodes svc win) rs) = map (\<lambda>r. endpointHref svc (er_Method r) (er_Route r) win) rs" for svc win rs
    by (induction rs) (simp_all add: row_link)
  then show "r \<in> set (ep_Endpoints d) \<Longrightarrow>
    endpointHref (ep_Service d) (er_Method r) (er_Route r) (sh_WindowKey sh) \<in> set (docLinks (endpoints_tpl up sh d))"
    by (auto simp: endpoints_tpl_def)
qed


definition demoEndpoints :: endpointsData where
  "demoEndpoints =
     \<lparr>ep_Service = ''my shop'', ep_Sort = ''traffic'', ep_Frozen = False, ep_KPIs = [],
      ep_Endpoints = [\<lparr>er_Method = ''GET'', er_Route = ''/a/{id}?x=1&y'', er_Count = 1, er_RatePerSec = 1, er_ErrorRate = 0, er_ErrorHigh = False,
        er_Client4xxRate = 0, er_P50 = 1, er_P95 = 1, er_P99 = 1, er_ReqBytesAvg = 0, er_RespBytesAvg = 0\<rparr>]\<rparr>"


text \<open>
  A name that is not one path segment leads elsewhere: with a slash the link of the row is answered with 404, and
  with a question mark or an escape in it the row leads to the page of another service.
\<close>

theorem unsafe_service_links:
  "dispatch None False True 1 [] 0 (follow [] (endpointHref ''team/cart'' ''GET'' ''/x'' ''1h'')) = Page WOverview [] None"
  "serveOverview h c onboarding now (pageRequest None (follow [] (endpointHref ''team/cart'' ''GET'' ''/x'' ''1h'')) []) = PageError 404 ''404 page not found''"
  "dispatch None False True 1 [] 0 (follow [] (hrefOf (''/services/cart?v2'' @ ''?win=1h''))) = Page WEndpoints [''cart''] None"
  "dispatch None False True 1 [] 0 (follow [] (endpointHref ''cart%41'' ''GET'' ''/x'' ''1h'')) = Page WEndpointDetail [''cartA''] None"
proof -
  show "dispatch None False True 1 [] 0 (follow [] (endpointHref ''team/cart'' ''GET'' ''/x'' ''1h'')) = Page WOverview [] None"
    "dispatch None False True 1 [] 0 (follow [] (hrefOf (''/services/cart?v2'' @ ''?win=1h''))) = Page WEndpoints [''cart''] None"
    "dispatch None False True 1 [] 0 (follow [] (endpointHref ''cart%41'' ''GET'' ''/x'' ''1h'')) = Page WEndpointDetail [''cartA''] None"
    by code_simp+
  have "rq_path (sr_req (follow [] (endpointHref ''team/cart'' ''GET'' ''/x'' ''1h''))) = ''/services/team/cart/endpoint''" by code_simp
  then show "serveOverview h c onboarding now (pageRequest None (follow [] (endpointHref ''team/cart'' ''GET'' ''/x'' ''1h'')) []) = PageError 404 ''404 page not found''"
    by (simp add: serveOverview_def pageRequest_def)
qed

section \<open>Signing in\<close>

text \<open>
  The page a visitor wanted survives the login page: each provider button starts that provider's flow with
  the sanitised target, which the start handler reads back unchanged, and the dev-login form posts it.
\<close>

lemma start_found:
  assumes "p = ''github'' \<or> p = ''google''"
  shows "findHandler (assembleMux (Some a) []) ''GET'' (''/auth/'' @ p @ ''/start'') = Found OStart [p]"
proof -
  have "findHandler ([handle ''GET /healthz'' OHealth] @ (handle ''/'' ODashboard # auth_Register dev) @ mountIngest @ docs_Register @
      mountExtensions []) ''GET'' (''/auth/'' @ p @ ''/start'') = Found OStart [p]" if "dev = True \<or> dev = False" for dev
    using assms that by (elim disjE; simp only:; code_simp)
  then show ?thesis by (simp add: assembleMux_def mountDashboard_def)
qed

theorem login_keeps_next:
  assumes "p = ''github'' \<or> p = ''google''" and "n = safeNext wanted"
  shows "dispatch (Some a) home ready cap [] now (follow cookies (startHref p n)) = AuthRoute OStart [p] \<and>
    safeNext (rq_query (sr_req (follow cookies (startHref p n))) ''next'') = n \<and>
    rq_form (sr_req (submit cookies typed (''post'', ''/auth/dev/login'', [Hidden ''next'' n, Submit l]))) ''next'' = n"
proof -
  let ?path = "''/auth/'' @ p @ ''/start''"
  have clean: "CHR ''?'' \<notin> set ?path" "CHR ''#'' \<notin> set ?path" using assms(1) by auto
  have keys: "\<forall>(k, v) \<in> set [(''next'', n)]. list_all unreserved k" by code_simp
  have "CHR ''#'' \<notin> set (escapedQuery [(''next'', n)])" by (rule query_no_fragment(2) [OF keys])
  then have esc: "pathOf (?path @ ''?'' @ escapedQuery [(''next'', n)]) = ?path \<and> queryOf (?path @ ''?'' @ escapedQuery [(''next'', n)]) = escapedQuery [(''next'', n)]"
    by (rule pathOf_query [OF clean(2,1)])
  have "pathOf (startHref p n) = ?path \<and> queryOf (startHref p n) = (if n = ''/'' then '''' else escapedQuery [(''next'', n)])"
    using esc pathOf_plain [OF clean(2,1)] by (simp add: startHref_def escapedQuery_def)
  moreover have "parseQuery '''' = []" by code_simp
  ultimately have "sr_path (follow cookies (startHref p n)) = ?path" "rq_query (sr_req (follow cookies (startHref p n))) ''next'' = (if n = ''/'' then '''' else n)"
    using parseQuery_escapedQuery [OF _ keys] by (simp_all add: follow_def queryGet_def)
  note follow = this
  have "safeNext '''' = ''/''" "safeNext n = n" using safeNext_idem [of wanted] by (simp_all add: safeNext_def [of "''''"] assms(2))
  moreover have "dispatch (Some a) home ready cap [] now (follow cookies (startHref p n)) = AuthRoute OStart [p]"
    using start_found [OF assms(1), of a] follow(1) by (simp add: dispatch_def) (simp add: follow_def)
  ultimately show ?thesis by (simp add: follow(2)) (simp add: submit_def queryGet_def)
qed

section \<open>Copy buttons\<close>

lemma natDigits_inj: "natDigits m = natDigits n \<longleftrightarrow> m = n"
  by (metis digitsValue_natDigits option.inject)

lemma kpi_offers: "docIds (concat (map kpiNodes ks)) = []" "docCopies (concat (map kpiNodes ks)) = []"
  by (simp_all add: doc_concat kpiNodes_def concat_empty)

lemma panel_offers:
  "docIds (verdictNodes v) = []" "docIds (rangeNodes pg) = []" "docIds (statusNodes d) = []" "docIds (causeNodes g) = []"
  "docIds (instancesPanel is) = []" "docIds (versionsPanel vs) = []" "docIds (classPanel cl) = []" "docIds (downstreamPanel dw) = []"
  "docIds (countPanel t q col rows) = []" "docIds (resourcesPanel rs) = []"
  "docCopies (verdictNodes v) = []" "docCopies (rangeNodes pg) = []" "docCopies (statusNodes d) = []" "docCopies (causeNodes g) = []"
  "docCopies (instancesPanel is) = []" "docCopies (versionsPanel vs) = []" "docCopies (classPanel cl) = []" "docCopies (downstreamPanel dw) = []"
  "docCopies (countPanel t q col rows) = []" "docCopies (resourcesPanel rs) = []"
  by (simp_all add: verdictNodes_def rangeNodes_def statusNodes_def causeNodes_def instancesPanel_def versionsPanel_def classPanel_def
      downstreamPanel_def countPanel_def resourcesPanel_def resourceNodes_def Let_def doc_concat concat_empty case_prod_beta split: option.split)

definition exemplarIds :: "nat \<Rightarrow> exemplarRow \<Rightarrow> string list" where
  "exemplarIds i e =
     (if xr_FullTrace e \<noteq> '''' then [''mp-ex-tr-'' @ natDigits i] else []) @ (if xr_FullReq e \<noteq> '''' then [''mp-ex-rq-'' @ natDigits i] else [])"

lemma exemplar_offers: "docIds (exemplarNodes i e) = exemplarIds i e" "docCopies (exemplarNodes i e) = exemplarIds i e"
  by (simp_all add: exemplarNodes_def copyable_def exemplarIds_def)

lemma exemplars_offers:
  "docIds (exemplarsPanel es) = concat (map (\<lambda>(i, e). exemplarIds i e) (enumerate 0 es))"
  "docCopies (exemplarsPanel es) = concat (map (\<lambda>(i, e). exemplarIds i e) (enumerate 0 es))"
  by (simp_all add: exemplarsPanel_def doc_concat comp_def case_prod_unfold exemplar_offers)

lemma exemplarIds_at: "x \<in> set (exemplarIds i e) \<Longrightarrow> x = ''mp-ex-tr-'' @ natDigits i \<or> x = ''mp-ex-rq-'' @ natDigits i"
  by (auto simp: exemplarIds_def split: if_splits)

lemma exemplarIds_distinct: "distinct (concat (map (\<lambda>(i, e). exemplarIds i e) (enumerate n es)))"
proof (induction es arbitrary: n)
  case (Cons e es)
  have "distinct (exemplarIds n e)" by (simp add: exemplarIds_def)
  moreover have "x \<notin> set (exemplarIds n e)" if x: "x \<in> set (concat (map (\<lambda>(i, e). exemplarIds i e) (enumerate (Suc n) es)))" for x
  proof -
    obtain i e' where i: "(i, e') \<in> set (enumerate (Suc n) es)" "x \<in> set (exemplarIds i e')" using x by auto
    from i(1) have "i \<noteq> n" by (auto simp: in_set_enumerate_eq)
    moreover have "i = n" if "x \<in> set (exemplarIds n e)"
      using exemplarIds_at [OF i(2)] exemplarIds_at [OF that] by (elim disjE) (simp_all add: natDigits_inj)
    ultimately show ?thesis by blast
  qed
  ultimately show ?case using Cons [of "Suc n"] by auto
qed simp

text \<open>
  On the detail page and on the Setup page every copy button names exactly one element, the one with the text in
  full: the ids of a page are distinct, and each button's target is among them.
\<close>

theorem copy_buttons_resolve:
  "distinct (docIds (detail_tpl up pg)) \<and> set (docCopies (detail_tpl up pg)) \<subseteq> set (docIds (detail_tpl up pg))"
  "distinct (docIds (setup_tpl up st)) \<and> set (docCopies (setup_tpl up st)) \<subseteq> set (docIds (setup_tpl up st))"
proof -
  let ?ex = "concat (map (\<lambda>(i, e). exemplarIds i e) (enumerate 0 (dd_Exemplars (pg_Data pg))))"
  have "docIds (detail_tpl up pg) = ''mp-debug'' # ?ex" "docCopies (detail_tpl up pg) = ''mp-debug'' # ?ex"
    by (simp_all add: detail_tpl_def Let_def panel_offers kpi_offers exemplars_offers split: option.split)
  moreover have "''mp-debug'' \<notin> set ?ex" using exemplarIds_at by fastforce
  ultimately show "distinct (docIds (detail_tpl up pg)) \<and> set (docCopies (detail_tpl up pg)) \<subseteq> set (docIds (detail_tpl up pg))"
    using exemplarIds_distinct [of 0 "dd_Exemplars (pg_Data pg)"] by simp
next
  have "docIds (concat (map (keyNodes st) ks)) = []" "docCopies (concat (map (keyNodes st) ks)) = []"
    "docIds (concat (map (memberNodes st) ms)) = []" "docCopies (concat (map (memberNodes st) ms)) = []"
    "docIds (concat (map (inviteNodes st) is)) = []" "docCopies (concat (map (inviteNodes st) is)) = []" for ks ms "is"
    by (simp_all add: doc_concat keyNodes_def memberNodes_def inviteNodes_def concat_empty)
  then have "docIds (setup_tpl up st) =
      (if st_NewToken st \<noteq> '''' then [''mp-newkey''] else []) @ [''handshake''] @ (if st_ShowTeam st \<and> st_InviteURL st \<noteq> '''' then [''mp-invite''] else [])"
    "docCopies (setup_tpl up st) =
      (if st_NewToken st \<noteq> '''' then [''mp-newkey''] else []) @ (if st_ShowTeam st \<and> st_InviteURL st \<noteq> '''' then [''mp-invite''] else [])"
    by (simp_all add: setup_tpl_def newTokenPanel_def keysPanel_def teamPanel_def)
  then show "distinct (docIds (setup_tpl up st)) \<and> set (docCopies (setup_tpl up st)) \<subseteq> set (docIds (setup_tpl up st))"
    by (cases "st_NewToken st = []"; cases "st_ShowTeam st \<and> st_InviteURL st \<noteq> []") simp_all
qed

section \<open>Documentation links\<close>

definition docSlug :: "string \<Rightarrow> string" where
  "docSlug href = drop 5 href"

lemma doc_found:
  "s \<in> set coreSections \<Longrightarrow> findHandler (assembleMux au []) ''GET'' (sc_Href s) = Found ODocTopic [docSlug (sc_Href s)]"
proof -
  have "list_all (\<lambda>s. findHandler (assembleMux None []) ''GET'' (sc_Href s) = Found ODocTopic [docSlug (sc_Href s)]) coreSections" by code_simp
  moreover have "list_all (\<lambda>s. findHandler ([handle ''GET /healthz'' OHealth] @ (handle ''/'' ODashboard # auth_Register dev) @ mountIngest @ docs_Register @
      mountExtensions []) ''GET'' (sc_Href s) = Found ODocTopic [docSlug (sc_Href s)]) coreSections" if "dev = True \<or> dev = False" for dev
    using that by (elim disjE; simp only:; code_simp)
  ultimately show "s \<in> set coreSections \<Longrightarrow> findHandler (assembleMux au []) ''GET'' (sc_Href s) = Found ODocTopic [docSlug (sc_Href s)]"
    by (cases au) (auto simp: list_all_iff assembleMux_def mountDashboard_def)
qed

lemma doc_href: "s \<in> set coreSections \<Longrightarrow> hrefOf (sc_Href s) = sc_Href s \<and> pathOf (sc_Href s) = sc_Href s \<and> docSlug (sc_Href s) \<in> set content"
proof -
  have "list_all (\<lambda>s. hrefOf (sc_Href s) = sc_Href s \<and> pathOf (sc_Href s) = sc_Href s \<and> docSlug (sc_Href s) \<in> set content) coreSections" by code_simp
  then show "s \<in> set coreSections \<Longrightarrow> hrefOf (sc_Href s) = sc_Href s \<and> pathOf (sc_Href s) = sc_Href s \<and> docSlug (sc_Href s) \<in> set content"
    by (simp add: list_all_iff)
qed

lemma union_groups: "G ` A = S ` B \<Longrightarrow> (\<Union>g \<in> A. f ` {s \<in> B. S s = G g}) = f ` B"
  by (auto simp: set_eq_iff image_iff) metis

text \<open>
  Every link of the documentation rail of a build without extensions leads to a page that is embedded, for
  anonymous and signed-in visitors alike, and the rail has a link for every section.
\<close>

theorem doc_links_resolve:
  assumes "dh_nav h = coreSections"
  shows "set (docLinks (railNodes (groups h p))) = sc_Href ` set coreSections \<and>
    (\<forall>href \<in> set (docLinks (railNodes (groups h p))). \<exists>slug \<in> set content. \<exists>authed.
       dispatch au home ready cap [] now (follow cookies href) = Doc [slug] authed)"
proof -
  have rail: "docLinks (railNodes gs) = concat (map (\<lambda>g. map (\<lambda>l. hrefOf (nl_Href l)) (ng_Items g)) gs)" for gs
  proof -
    have "docLinks (map (\<lambda>l. Link (hrefOf (nl_Href l)) [Text (nl_Title l)]) ls) = map (\<lambda>l. hrefOf (nl_Href l)) ls" for ls :: "navLink list"
      by (induction ls) simp_all
    then show ?thesis by (simp add: railNodes_def doc_concat comp_def)
  qed
  have items: "set (ng_Items g) = linkOf p ` {s \<in> set coreSections. sc_Group s = ng_Group g}" if "g \<in> set (groups h p)" for g
  proof -
    have "mset (ng_Items g) = image_mset (linkOf p) (mset (filter (\<lambda>s. sc_Group s = ng_Group g) coreSections))"
      using docs_rail [of h p] that assms by (simp only:)
    from arg_cong [where f = set_mset, OF this] show ?thesis by (simp only: set_mset_mset set_image_mset set_filter)
  qed
  have groups: "ng_Group ` set (groups h p) = sc_Group ` set coreSections" using docs_rail [of h p] assms by simp
  have "set (docLinks (railNodes (groups h p))) = (\<Union>g \<in> set (groups h p). (\<lambda>l. hrefOf (nl_Href l)) ` set (ng_Items g))"
    by (simp add: rail)
  also have "\<dots> = (\<Union>g \<in> set (groups h p). (\<lambda>s. hrefOf (sc_Href s)) ` {s \<in> set coreSections. sc_Group s = ng_Group g})"
    using items by (simp add: linkOf_def image_image)
  also have "\<dots> = (\<lambda>s. hrefOf (sc_Href s)) ` set coreSections" by (rule union_groups [OF groups])
  also have "\<dots> = sc_Href ` set coreSections" using doc_href by auto
  finally have links: "set (docLinks (railNodes (groups h p))) = sc_Href ` set coreSections" .
  have "\<exists>slug \<in> set content. \<exists>authed. dispatch au home ready cap [] now (follow cookies (sc_Href s)) = Doc [slug] authed" if "s \<in> set coreSections" for s
    using doc_found [OF that, of au] doc_href [OF that] by (auto simp: dispatch_def follow_def)
  then show ?thesis using links by auto
qed

end
