(* ===== verification/Page_Policy.thy ===== *)
theory Page_Policy
  imports Page_Actions
begin

text \<open>
  The script budget of the HTML pages: the Content-Security-Policy header each page goes out with (render and
  renderShellContent in src/server/internal/web/web.go, serveHandshakeFragment in web_setup.go, the login and first-key
  pages of src/server/internal/auth/handlers.go, Render in src/server/docs/docs.go) beside the scripts its template
  asks for. A header starts as the security headers of the assembled server leave it. \<open>html\<close> is the text
  html/template makes of a document.
\<close>

type_synonym header = "(string \<times> string) list"

text \<open>Header().Set replaces what the key had; Header().Get is the empty string for a key that is not set.\<close>

definition header_Set :: "string \<Rightarrow> string \<Rightarrow> header \<Rightarrow> header" where
  "header_Set k v w = filter (\<lambda>(k', _). k' \<noteq> k) w @ [(k, v)]"

definition header_Get :: "header \<Rightarrow> string \<Rightarrow> string" where
  "header_Get w k = (case map_of w k of None \<Rightarrow> '''' | Some v \<Rightarrow> v)"

section \<open>The writers of pages\<close>

definition interstitialCSP :: string where
  "interstitialCSP =
     ''default-src 'self'; '' @ ''script-src 'self'; '' @ ''style-src 'self' 'unsafe-inline' https://fonts.googleapis.com; '' @
     ''font-src https://fonts.gstatic.com; '' @ ''img-src 'self' data:; '' @ ''base-uri 'none'; frame-ancestors 'none'' @ [CHR 0x27]"

definition docs_contentSecurityPolicy :: string where
  "docs_contentSecurityPolicy =
     ''default-src 'self'; '' @ ''script-src 'none'; '' @ ''style-src 'self' 'unsafe-inline' https://fonts.googleapis.com; '' @
     ''font-src https://fonts.gstatic.com; '' @ ''img-src 'self' data:; '' @ ''base-uri 'none'; frame-ancestors 'none'' @ [CHR 0x27]"

definition htmlType :: "header \<Rightarrow> header" where
  "htmlType = header_Set ''Content-Type'' ''text/html; charset=utf-8''"

definition render :: "node list \<Rightarrow> header \<Rightarrow> header \<times> node list" where
  "render doc w = (header_Set ''Content-Security-Policy'' contentSecurityPolicy (htmlType w), doc)"

definition renderShellContent ::
  "(string \<Rightarrow> string) \<Rightarrow> identityChrome \<Rightarrow> 'w webHandler \<Rightarrow> webRequest \<Rightarrow> urlValues \<Rightarrow> db \<Rightarrow> string \<Rightarrow> crumb list \<Rightarrow> string \<Rightarrow> string \<Rightarrow>
   header \<Rightarrow> header \<times> node list" where
  "renderShellContent up ic h r q d activeNav crumbs title body w =
     (htmlType w, shellpage up (buildShell ic h r q d activeNav crumbs title False (normalizeWindow (wr_query r ''win''))) title body)"

definition fragmentReply :: "handshakeView \<times> string \<Rightarrow> header \<Rightarrow> header \<times> node list" where
  "fragmentReply f w =
     (header_Set ''X-Handshake-Complete'' (snd f) (header_Set ''Content-Security-Policy'' contentSecurityPolicy (htmlType w)),
      handshake_stepper (fst f))"

definition authReply :: "reply \<Rightarrow> header \<Rightarrow> (header \<times> node list) option" where
  "authReply p w =
     (let w' = header_Set ''Content-Security-Policy'' interstitialCSP (htmlType w)
      in case p of
           LoginPage github google dev next' \<Rightarrow> Some (w', loginPage github google dev next')
         | KeyPage tok next' \<Rightarrow> Some (w', interstitialPage tok next')
         | _ \<Rightarrow> None)"

definition docReply ::
  "(node list \<Rightarrow> string) \<Rightarrow> (string \<Rightarrow> string) \<Rightarrow> identityChrome \<Rightarrow> 'w webHandler \<Rightarrow> webRequest \<Rightarrow> urlValues \<Rightarrow> db \<Rightarrow> docPage \<Rightarrow> header \<Rightarrow>
   (header \<times> node list) option" where
  "docReply html up ic h r q d p w =
     (case p of
        Standalone sd \<Rightarrow>
          Some (header_Set ''Content-Security-Policy'' docs_contentSecurityPolicy (htmlType w), shellTmpl sd)
      | InApp sess title frag \<Rightarrow>
          Some (renderShellContent up ic h r q d ''docs'' [\<lparr>cr_Label = ''docs'', cr_Href = ''/doc''\<rparr>, \<lparr>cr_Label = title, cr_Href = ''''\<rparr>]
            title (html (appTmpl frag)) w)
      | _ \<Rightarrow> None)"

text \<open>The documents are those of the data that RenderShellPage and RenderDocPage hand to the template.\<close>

lemma shell_documents:
  "RenderShellPage ic h r q d title body = (sh, title', body') \<Longrightarrow>
   renderShellContent up ic h r q d '''' [\<lparr>cr_Label = title, cr_Href = ''''\<rparr>] title body w = (htmlType w, shellpage up sh title' body')"
  "RenderDocPage ic h r q d title body = (sh, title', body') \<Longrightarrow>
   renderShellContent up ic h r q d ''docs'' [\<lparr>cr_Label = ''docs'', cr_Href = ''/doc''\<rparr>, \<lparr>cr_Label = title, cr_Href = ''''\<rparr>] title body w =
     (htmlType w, shellpage up sh title' body')"
  by (auto simp: renderShellContent_def RenderShellPage_def RenderDocPage_def)

section \<open>The budget\<close>

fun scriptsOf :: "node \<Rightarrow> string list" where
  "scriptsOf (Script s) = [s]"
| "scriptsOf (Link h ns) = concat (map scriptsOf ns)"
| "scriptsOf (Ident i as ns) = concat (map scriptsOf ns)"
| "scriptsOf _ = []"

definition docScripts :: "node list \<Rightarrow> string list" where
  "docScripts ns = concat (map scriptsOf ns)"

text \<open>The source list of a directive of a policy: the directives are separated by a semicolon and a space.\<close>

fun directives :: "string \<Rightarrow> string \<Rightarrow> string list" where
  "directives acc [] = [acc]"
| "directives acc (c # s) = (if c = CHR '';'' then acc # directives '''' (drop 1 s) else directives (acc @ [c]) s)"

definition directiveOf :: "string \<Rightarrow> string \<Rightarrow> string option" where
  "directiveOf csp name =
     map_option (\<lambda>v. drop (Suc (length name)) v) (find (\<lambda>v. take (Suc (length name)) v = name @ '' '') (directives '''' csp))"

definition sameOrigin :: "string \<Rightarrow> bool" where
  "sameOrigin src \<longleftrightarrow> take 1 src = ''/'' \<and> take 2 src \<noteq> ''//''"

text \<open>What a browser runs under a header: everything without the directive, and with it only what it names.\<close>

definition allowsScript :: "header \<Rightarrow> string \<Rightarrow> bool" where
  "allowsScript w src \<longleftrightarrow>
     (case directiveOf (header_Get w ''Content-Security-Policy'') ''script-src'' of
        None \<Rightarrow> True
      | Some v \<Rightarrow> v = CHR 0x27 # ''self'' @ [CHR 0x27] \<and> sameOrigin src)"

definition budget :: "string set" where
  "budget = {''/assets/copy.js'', ''/assets/handshake.js''}"

definition within_budget :: "header \<times> node list \<Rightarrow> bool" where
  "within_budget p \<longleftrightarrow>
     set (docScripts (snd p)) \<subseteq> budget \<and> (\<forall>s \<in> set (docScripts (snd p)). allowsScript (fst p) s) \<and>
     (\<forall>s. allowsScript (fst p) s \<longrightarrow> sameOrigin s)"

lemma map_of_filter_ne: "map_of (filter (\<lambda>(k', _). k' \<noteq> k) w) k' = (if k' = k then None else map_of w k')"
  by (induction w) auto

lemma header_Get_Set [simp]: "header_Get (header_Set k v w) k' = (if k' = k then v else header_Get w k')"
  by (auto simp: header_Get_def header_Set_def map_add_def map_of_filter_ne split: option.split)

lemma script_policies:
  "directiveOf contentSecurityPolicy ''script-src'' = Some (CHR 0x27 # ''self'' @ [CHR 0x27])"
  "directiveOf interstitialCSP ''script-src'' = Some (CHR 0x27 # ''self'' @ [CHR 0x27])"
  "directiveOf docs_contentSecurityPolicy ''script-src'' = Some (CHR 0x27 # ''none'' @ [CHR 0x27])"
  by code_simp+

lemma scripts_append [simp]: "docScripts (a @ b) = docScripts a @ docScripts b"
  and scripts_Nil [simp]: "docScripts [] = []"
  and scripts_Cons [simp]: "docScripts (n # ns) = scriptsOf n @ docScripts ns"
  by (simp_all add: docScripts_def)

lemma scripts_inside [simp]: "scriptsOf (Link h ns) = docScripts ns" "scriptsOf (Ident i as ns) = docScripts ns"
  by (simp_all add: docScripts_def)

declare scriptsOf.simps(2,3) [simp del]

lemma scripts_none: "(\<And>n. n \<in> set ns \<Longrightarrow> scriptsOf n = []) \<Longrightarrow> docScripts ns = []"
  by (induction ns) simp_all

lemma scripts_concat: "docScripts (concat nss) = concat (map docScripts nss)"
  by (induction nss) simp_all

lemma scripts_map: "(\<And>x. scriptsOf (f x) = []) \<Longrightarrow> docScripts (map f xs) = []"
  by (rule scripts_none) auto

lemma scripts_shown [simp]: "docScripts (shown b ns) = (if b then docScripts ns else [])"
  by (simp add: shown_def)

lemma scripts_concat_map: "(\<And>x. docScripts (f x) = []) \<Longrightarrow> docScripts (concat (map f xs)) = []"
  by (induction xs) simp_all

lemma scripts_texts [simp]: "docScripts (map Text ts) = []" "docScripts (map (\<lambda>x. Text (f x)) xs) = []"
  by (simp_all add: scripts_map)

lemma frame_scripts [simp]:
  "docScripts (sidebar up sh) = []" "docScripts (crumbNodes cs) = []" "docScripts (topbar live lh sh) = []" "docScripts (frozenBanner a b) = []"
  "docScripts (kpiNodes k) = []" "docScripts (railNodes gs) = []"
  by (simp_all add: sidebar_def crumbNodes_def topbar_def frozenBanner_def kpiNodes_def railNodes_def scripts_map scripts_concat_map
      Let_def case_prod_unfold split: option.split)

lemma table_scripts:
  "docScripts (overview_tpl up sh wl lh od) = []"
  "docScripts (endpoints_tpl up sh ed) = []"
  "docScripts (performance_tpl up sh wl pp) = []"
  "docScripts (shellpage up sh title body) = []"
  by (simp_all add: overview_tpl_def endpoints_tpl_def performance_tpl_def shellpage_def serviceNodes_def sortLink_def endpointNodes_def
      scripts_map scripts_concat_map pathSteps_def Let_def case_prod_unfold split: option.split)

lemma panel_scripts:
  "docScripts (rangeNodes pg) = []" "docScripts (verdictNodes v) = []" "docScripts (statusNodes d) = []" "docScripts (causeNodes g) = []"
  "docScripts (instancesPanel is) = []" "docScripts (versionsPanel vs) = []" "docScripts (copyable a n b c) = []"
  "docScripts (exemplarNodes n e) = []" "docScripts (classPanel cs) = []" "docScripts (downstreamPanel dv) = []"
  "docScripts (countPanel a b c xs) = []" "docScripts (resourceNodes rr) = []"
  by (simp_all add: rangeNodes_def verdictNodes_def statusNodes_def causeNodes_def instancesPanel_def versionsPanel_def copyable_def
      exemplarNodes_def classPanel_def downstreamPanel_def countPanel_def resourceNodes_def
      scripts_map scripts_concat_map Let_def case_prod_unfold split: option.split)

lemma setup_scripts:
  "docScripts (handshake_stepper hv) = []" "scriptsOf (handshakeBox hv) = []" "docScripts (keysPanel st) = []" "docScripts (teamPanel st) = []"
  "docScripts (newTokenPanel st) = []"
  by (simp_all add: handshake_stepper_def handshakeBox_def keysPanel_def teamPanel_def newTokenPanel_def keyNodes_def memberNodes_def
      inviteNodes_def scripts_map scripts_concat_map Let_def case_prod_unfold split: option.split)

lemma page_scripts:
  "docScripts (detail_tpl up pg) = [''/assets/copy.js'']"
  "docScripts (onboarding_tpl up ob) = [''/assets/handshake.js'']"
  "docScripts (setup_tpl up st) = [''/assets/copy.js'', ''/assets/handshake.js'']"
  "docScripts (loginPage gh gg dev next') = []" "docScripts (interstitialPage tok next') = [''/assets/copy.js'']"
  "docScripts (shellTmpl sd) = []" "docScripts (appTmpl ad) = []"
  by (simp_all add: detail_tpl_def onboarding_tpl_def setup_tpl_def loginPage_def interstitialPage_def shellTmpl_def appTmpl_def panel_scripts
      setup_scripts exemplarsPanel_def resourcesPanel_def scripts_map scripts_concat_map Let_def case_prod_unfold split: option.split)

lemma allows_self:
  "header_Get w ''Content-Security-Policy'' \<in> {contentSecurityPolicy, interstitialCSP} \<Longrightarrow> allowsScript w s = sameOrigin s"
  by (auto simp: allowsScript_def script_policies)

lemma allows_none: "header_Get w ''Content-Security-Policy'' = docs_contentSecurityPolicy \<Longrightarrow> \<not> allowsScript w s"
  by (simp add: allowsScript_def script_policies)

lemma sameOrigin_budget: "s \<in> budget \<Longrightarrow> sameOrigin s"
  by (auto simp: budget_def sameOrigin_def)

lemma within_budgetI:
  assumes "header_Get (fst p) ''Content-Security-Policy'' \<in> {contentSecurityPolicy, interstitialCSP}" and "set (docScripts (snd p)) \<subseteq> budget"
  shows "within_budget p"
  using assms(2) sameOrigin_budget by (auto simp: within_budget_def allows_self [OF assms(1)])

text \<open>
  The script budget holds on every page that sets a policy: the dashboard pages, the handshake fragment, the sign-in and
  first-key pages ask only for the two scripts the server serves, the policy lets them run, and it lets no script of
  another site run; a public documentation page has no script and its policy lets none run.
\<close>

theorem script_budget:
  "within_budget (render (overview_tpl up sh lh wl od) w)" "within_budget (render (endpoints_tpl up sh ed) w)"
  "within_budget (render (detail_tpl up pg) w)" "within_budget (render (onboarding_tpl up ob) w)"
  "within_budget (render (setup_tpl up st) w)" "within_budget (render (performance_tpl up sh wl pp) w)"
  "within_budget (fragmentReply f w)"
  "authReply p w = Some page \<Longrightarrow> within_budget page"
  "docReply html up ic h r q d (Standalone sd) w = Some page \<Longrightarrow> docScripts (snd page) = [] \<and> \<not> allowsScript (fst page) s"
proof -
  show "within_budget (render (overview_tpl up sh lh wl od) w)" "within_budget (render (endpoints_tpl up sh ed) w)"
    "within_budget (render (detail_tpl up pg) w)" "within_budget (render (onboarding_tpl up ob) w)"
    "within_budget (render (setup_tpl up st) w)" "within_budget (render (performance_tpl up sh wl pp) w)"
    by (rule within_budgetI; simp add: render_def table_scripts page_scripts budget_def)+
  show "within_budget (fragmentReply f w)"
    by (rule within_budgetI) (simp_all add: fragmentReply_def setup_scripts)
  show "within_budget page" if "authReply p w = Some page"
    using that by (intro within_budgetI) (auto simp: authReply_def page_scripts budget_def Let_def split: reply.splits)
  show "docScripts (snd page) = [] \<and> \<not> allowsScript (fst page) s" if "docReply html up ic h r q d (Standalone sd) w = Some page"
    using that by (auto simp: docReply_def page_scripts allows_none)
qed

text \<open>
  The pages of the dashboard chrome that renderShellContent writes are outside it: a documentation page read by a
  signed-in visitor, and a page of an extension, go out without a policy, whatever the deployment, so a script of any site
  in their content would run. The same documentation page, read by a visitor without a session, lets no script run.
\<close>

theorem shell_pages_without_policy:
  assumes "dh_app dh = Some a"
  shows "\<And>sess. sessionFromRequest a r t1 = Some sess \<Longrightarrow> sessionFromRequest a r t2 = Some sess \<Longrightarrow>
      \<exists>page. docReply html up ic h wr q d (docs_Render dh t1 t2 r title body) (securityHeaders secure) = Some page \<and>
        header_Get (fst page) ''Content-Security-Policy'' = '''' \<and> (\<forall>s. allowsScript (fst page) s)"
    and "sessionFromRequest a r t1 = None \<Longrightarrow>
      \<exists>page. docReply html up ic h wr q d (docs_Render dh t1 t2 r title body) (securityHeaders secure) = Some page \<and>
        (\<forall>s. \<not> allowsScript (fst page) s)"
    and "header_Get (fst (renderShellContent up ic h wr q d nav crumbs title body (securityHeaders secure))) ''Content-Security-Policy'' = ''''"
proof -
  have none: "header_Get (htmlType (securityHeaders secure)) ''Content-Security-Policy'' = ''''"
    by (simp add: htmlType_def securityHeaders_def header_Get_def [of "_ # _"])
  have "directiveOf '''' ''script-src'' = None" by code_simp
  then have "All (allowsScript (htmlType (securityHeaders secure)))"
    by (auto simp: allowsScript_def none)
  then show "\<exists>page. docReply html up ic h wr q d (docs_Render dh t1 t2 r title body) (securityHeaders secure) = Some page \<and>
        header_Get (fst page) ''Content-Security-Policy'' = '''' \<and> (\<forall>s. allowsScript (fst page) s)"
    if "sessionFromRequest a r t1 = Some sess" "sessionFromRequest a r t2 = Some sess" for sess
    using that none
    by (simp add: assms docs_Render_def Authenticated_def renderInApp_session docReply_def renderShellContent_def)
  show "\<exists>page. docReply html up ic h wr q d (docs_Render dh t1 t2 r title body) (securityHeaders secure) = Some page \<and>
        (\<forall>s. \<not> allowsScript (fst page) s)"
    if "sessionFromRequest a r t1 = None"
    using that by (simp add: assms docs_Render_def Authenticated_def docReply_def allows_none)
  show "header_Get (fst (renderShellContent up ic h wr q d nav crumbs title body (securityHeaders secure))) ''Content-Security-Policy'' = ''''"
    using none by (simp add: renderShellContent_def)
qed

end
