(* ===== verification/Spec2Isabelle.thy ===== *)
theory Spec2Isabelle
  imports In_Flight End_To_End App_Lifecycle Adapters Detail_Page Setup_Page Platform Example_App Wire_Call Page_Policy
begin

text \<open>
  \<^bold>\<open>mAPI-ng: a verification of the collector, its client and its dashboard\<close>

  mAPI-ng measures the requests of a Go service. A \<^emph>\<open>client\<close> library (src/client/) sits in the service as a
  web middleware, aggregates the requests of a flush window into one series per method, route template and
  status class, each with a latency sketch, and uploads the series in the background. A \<^emph>\<open>server\<close>
  (src/server/) authenticates an upload by its ingest key, limits it, stores it in ClickHouse through a
  batching writer, and serves a dashboard over it; keys, organisations and members live in Postgres, the
  control plane. The two sides share the wire messages, the key format and the compression codec of
  src/proto/. src/example/ is a demo service with deliberate faults and a traffic generator.

  Definitions carry the names of the Go functions and types they translate; where two packages use one name,
  or HOL has it, the name has a prefix or suffix. Each theory opens with what it holds.

  \<^bold>\<open>1. Vocabulary and the language\<close>

  \<^item> Prelude: machine words (\<open>u64\<close>, \<open>u32\<close>), instants and durations with the saturation of \<open>time.Sub\<close> and the
    wrap-around of int64 products, Go maps as association lists with distinct keys, named collections of
    rules, and shared lemmas on lists and counts.
  \<^item> Go_Strings, Go_Strconv, Go_Float, Go_Time, Go_Url, Serve_Mux, Stable_Sort: the parts of Go's standard library
    the sources rely on (strings and base64url, decimal integers, float printing, civil dates and layouts,
    URL parsing and escaping, the pattern multiplexer of net/http, the stable sort). Floats are exact
    reals, or \<open>float64\<close> with infinities and NaN where the code meets them (the sketch).

  \<^bold>\<open>2. The client\<close>

  \<^item> Gamma_Powers, Sketch: the DDSketch (client/sketch/ddsketch.go) and the server's quantile over a merged bucket
    map (storage/sketch.go). A quantile is within one percent of the exact one; merging is adding; the two
    sides agree on every sketch a client can produce.
  \<^item> Wire, Time_Series, Sampler, Platform: the messages of maping.proto as records; one series, its bounded maps, its
    reservoir of exemplars and its label normalisation (series.go); the per-window process gauges and the
    downstream accumulator (sampler.go, downstream.go); the readings of /proc and getrusage.
  \<^item> Ring, Recorder, Uploader, In_Flight: the pending-upload ring (internal/buffer), which refines a drop-oldest queue;
    \<open>Observe\<close>, \<open>flush\<close> and the request built of a window (maping.go, uploader.go); the upload loop as a step
    relation with timers, backoff, handshake and \<open>Shutdown\<close>; the in-flight gauge under interleaving. Every summary
    is delivered, pending or counted as dropped; delivery is in order; the loop never stalls.
  \<^item> Client_Config, Transport, Adapters: options, environment and the endpoint a key may carry (config.go); the construction
    of the uploader, with failure leading to an inert recorder; the five middlewares and the capturing
    response writer over a model of net/http's.

  \<^bold>\<open>3. The data plane of the server\<close>

  \<^item> Ttl_Cache, Guardrail: the contract of the two read-through caches; tenant identities, limits, the cardinality guard
    and the rate limiter.
  \<^item> Token, Control: the ingest-key format; the Postgres tables with their constraints and every operation of
    server/internal/control on them, each statement of which may fail, and the caching key resolver.
  \<^item> Storage_Row, Writer: rows and their columns, tiers, migrations (row.go, tier.go, migrate.go); the batching writer
    (writer.go) as a step relation over two channels. Every accepted row is queued, batched, inserted or
    counted as lost, and a close drains everything that was accepted before it.
  \<^item> Ingest, Server_App, End_To_End: authentication, \<open>Register\<close> and \<open>Upload\<close> (server/internal/ingest); the wiring of resolver,
    limits, guards and writer (server/app); and the composition of client and server: a quantile read back
    from the database is within one percent of the latencies observed in the instrumented process.
  \<^item> Storage_Query, Tenant_Query: every dashboard query as a function of the rows of its tables, and the handle bound to one
    tenant (query.go, dashboard.go, debug.go, signature.go, performance.go, usage.go, instancewindows.go).

  \<^bold>\<open>4. The dashboard\<close>

  \<^item> Dashboard_Auth: signed cookies, sessions, the OAuth round trip, the middleware and the form tokens
    (server/internal/auth, web/csrf.go).
  \<^item> Web_Format, Web_View, Web_Range, Web_Verdict, Web_Memory, Web_Diagnosis, Web_Chart: formatters, tables, ranges, the health
    verdict, the leak-or-burst verdict, the ranked causes and the SVG charts (server/internal/web).
  \<^item> Web_Pages, Web_Shell, Detail_Page, Setup_Page: the handlers and the data each page hands to its template: overview,
    endpoints, detail with its fail-soft panels, setup, team, onboarding, performance, and the JSON
    endpoints. Every page reads only the rows of the caller's tenant; every form checks its token.
  \<^item> Routing, Docs_Site: the route table of the whole server on the multiplexer, and the documentation site. Without a
    session nothing but the open routes answers.
  \<^item> Html_Page, Page_Templates, Page_Actions, Page_Policy: documents (text, links, forms, copy buttons) with the URL filters of html/template,
    what following a link or submitting a form sends, every template of the dashboard, the login and the documentation as
    a document, and what the pages lead to: each form offered works and is the user's to use, each link of the tables
    resolves to the page, service and query it was rendered for, and the target of a login survives it. Page_Policy has the
    Content-Security-Policy of each page beside the scripts the page asks for.

  \<^bold>\<open>5. The process and the example\<close>

  \<^item> App_Extensions, App_Lifecycle: the options of a composing build, \<open>build\<close> with its error paths and the resources it opens
    and closes, and \<open>Serve\<close> with its shutdown as a step relation. A start is all or nothing; a graceful restart
    loses no accepted row; the exit status of the command (server/cmd, version.go) tells an orderly end.
  \<^item> Zstd_Codec, Wire_Call: the pooled compression adapters, and a call of the ingest service from end to end: stub client
    (maping.connect.go), compression, mux, body cap and server stub, which together refine the handler's method.
  \<^item> Faults, Example_App: the fault test-bed, the demo service (every route gives the dashboard signal its comment
    promises) and the traffic generator.

  \<^bold>\<open>Interfaces\<close>

  \<open>drop_oldest_queue\<close> (Ring) is interpreted by the ring and used by the recorder; \<open>ttl_cache\<close> by the limits cache and by the
  key cache; \<open>row_sink\<close> (Writer) by the two enqueue operations and used by the ingest service;
  \<open>ingest_service\<close> (Ingest) by the wired handler of Server_App; \<open>weak_order\<close> (Stable_Sort) by every less function the
  dashboard sorts with; \<open>http_writer\<close> (Adapters) by the model of net/http's writer; \<open>scoped_read\<close> (Tenant_Query) by each of the
  sixteen queries of a tenant handle.

  \<^bold>\<open>Parameters\<close>

  Code that is not under src/ is an argument of the definitions that use it: the ClickHouse driver (an insert
  that may fail), the state of the Postgres server with its faults, HMAC and SHA-256, the random source,
  the OAuth providers, the token bucket of golang.org/x/time/rate, the encoding of messages and the framing of
  Connect, the zstd library, gin's recovery, the Markdown renderer, the case mapping of letters outside ASCII, the
  clock and what the kernel and the Go runtime report.
  What a theorem needs of them is a hypothesis of it, and its witness instantiates them.

  \<^bold>\<open>Bounds and fuel\<close>

  Counters are 64-bit words and wrap. Loops are structural or have a termination measure; the loops that may
  run on (the upload loop, the writer's batcher, \<open>Serve\<close>) are step relations, and the claims that they finish are
  proved as such. \<open>drainLoop\<close> recurses on the outcomes of the attempts made before the
  deadline of \<open>Shutdown\<close>, and \<open>shutdown_ships_everything\<close> says how many successes are enough; trimming a string
  takes at most as many steps as it has bytes. Float printing scales by at most ten to the 324, the exponent of the least double.

  \<^bold>\<open>Concurrency\<close>

  What Go runs concurrently is interleaved where the outcome depends on it: enqueues, batcher and close in
  Writer; requests and sampling in In_Flight; handlers, signal, listener, writer and background jobs in
  App_Lifecycle; the read and store of a ramp in Faults. \<open>Observe\<close> runs under the lock of its shard, and the
  panels of the detail page only read, so both are taken as single operations.

  \<^bold>\<open>Not modelled\<close>

  Style sheets, classes, tooltips and pictures of the templates, and the two scripts, whose text is opaque; the
  generated protobuf code, whose messages are the records of Wire; sockets, TLS, HTTP/2 and connection pools; log
  lines; the Markdown renderer; interface declarations, which the records of functions stand for.
  A group of gauges whose garbage-collector share is not finite is outside the model of its average.

  \<^bold>\<open>Divergences found\<close>

  Some theorems state behaviour that the sources do not intend: \<open>oauth_state_forges_session\<close>, \<open>callback_session_after_login\<close>,
  \<open>csrf_prefix_confusion\<close> (Dashboard_Auth), \<open>limits_outage_disables_caps\<close> (Server_App), \<open>enqueue_race_loses_row\<close> (Writer),
  \<open>far_future_accepted\<close> (Ingest), \<open>in_flight_sampling_race\<close> (In_Flight), \<open>early_response_misrecorded\<close> (Adapters),
  \<open>flush_window_overflow\<close> (Client_Config), \<open>dev_key_prefixed_never_resolves\<close> and \<open>second_provider_becomes_admin\<close> (Control),
  \<open>no_status_reason_narrowing\<close> (Storage_Row), \<open>two_instances_no_outlier\<close> (Web_View), \<open>baseline_overlaps_window\<close> (Web_Pages),
  \<open>sql_percentile_of_nothing\<close> (Storage_Query), \<open>quantile_out_of_domain_differs\<close> (Sketch), \<open>jobs_outlive_pool\<close> (App_Lifecycle),
  \<open>histogram_bars\<close> (Web_Chart), \<open>reset_lost_to_ramp\<close> (Faults), \<open>unsafe_service_links\<close> (Page_Actions) and \<open>shell_pages_without_policy\<close> (Page_Policy).
\<close>

end
